(* ===== verification/Prelude.thy ===== *)
theory Prelude
  imports Main "HOL-Library.Word" "HOL-Library.AList"
begin

text \<open>
  Shared vocabulary of the development: Python exceptions as values of a sum type, byte
  strings, Python slices, little-endian packing (\<open>struct.pack\<close>, \<open>int.to_bytes\<close>,
  \<open>int.from_bytes\<close>), the bit operations on unbounded integers that the source uses, and
  insertion-ordered dictionaries. The lemma collections below are what the component proofs
  pass to \<open>simp\<close> and \<open>auto\<close>.

  Python integers are \<open>int\<close>. A \<open>bytes\<close> or \<open>bytearray\<close> object is a list of
  8-bit words, so that every element is in range by its type; the conversion of an integer to
  a byte raises where Python raises. A Python \<open>str\<close> is the list of its code points.
\<close>

unbundle bit_operations_syntax

named_theorems res_simps \<open>rewriting of results that may be errors\<close>
named_theorems byte_simps \<open>sizes and values of packed byte strings\<close>
named_theorems mask_simps \<open>masks and shifts as arithmetic\<close>

section \<open>Results and exceptions\<close>

text \<open>
  One constructor per exception class; the message of a \<open>ValueError\<close> is the fixed part
  of the source's message, without interpolated values.
\<close>

datatype py_error =
    ValueError string
  | OverflowError
  | IndexError
  | KeyError
  | StructError
  | UnicodeEncodeError
  | UnicodeDecodeError
  | TypeError
  | BadSignatureError
  | AttributeError

type_synonym 'a res = "py_error + 'a"

definition bind_res :: "'a res \<Rightarrow> ('a \<Rightarrow> 'b res) \<Rightarrow> 'b res" where
  "bind_res m f = (case m of Inl e \<Rightarrow> Inl e | Inr x \<Rightarrow> f x)"

definition is_value_error :: "py_error \<Rightarrow> bool" where
  "is_value_error e = (case e of ValueError _ \<Rightarrow> True | UnicodeEncodeError \<Rightarrow> True
     | UnicodeDecodeError \<Rightarrow> True | _ \<Rightarrow> False)"

definition check :: "bool \<Rightarrow> py_error \<Rightarrow> unit res" where
  "check ok e = (if ok then Inr () else Inl e)"

lemma bind_res_simps [simp, res_simps]:
  "bind_res (Inl e) f = Inl e"
  "bind_res (Inr x) f = f x"
  by (simp_all add: bind_res_def)

lemma bind_res_eq_Inr [res_simps]:
  "bind_res m f = Inr y \<longleftrightarrow> (\<exists>x. m = Inr x \<and> f x = Inr y)"
  by (cases m) (simp_all add: bind_res_def)

lemma bind_res_eq_Inl [res_simps]:
  "bind_res m f = Inl e \<longleftrightarrow> m = Inl e \<or> (\<exists>x. m = Inr x \<and> f x = Inl e)"
  by (cases m) (simp_all add: bind_res_def)

lemma check_eq [simp, res_simps]:
  "check ok e = Inr u \<longleftrightarrow> ok"
  "check ok e = Inl e' \<longleftrightarrow> \<not> ok \<and> e' = e"
  by (auto simp: check_def)

lemma check_simps [simp]:
  "check True e = Inr ()"
  "check False e = Inl e"
  by (simp_all add: check_def)

lemma bind_check [res_simps]:
  "bind_res (check ok e) f = (if ok then f () else Inl e)"
  by (simp add: check_def)

fun map_res :: "('a \<Rightarrow> 'b res) \<Rightarrow> 'a list \<Rightarrow> 'b list res" where
  "map_res f [] = Inr []"
| "map_res f (x # xs) = bind_res (f x) (\<lambda>y. bind_res (map_res f xs) (\<lambda>ys. Inr (y # ys)))"

lemma map_res_length: "map_res f xs = Inr ys \<Longrightarrow> length ys = length xs"
  by (induction xs arbitrary: ys) (auto simp: res_simps)

lemma map_res_set:
  "map_res f xs = Inr ys \<Longrightarrow> (\<And>x y. f x = Inr y \<Longrightarrow> P y) \<Longrightarrow> list_all P ys"
  by (induction xs arbitrary: ys) (auto simp: res_simps)

lemma map_res_append:
  "map_res f (xs @ ys) = bind_res (map_res f xs) (\<lambda>a. bind_res (map_res f ys) (\<lambda>b. Inr (a @ b)))"
proof (induction xs)
  case Nil
  show ?case by (cases "map_res f ys") simp_all
next
  case (Cons x xs)
  then show ?case by (cases "f x"; cases "map_res f xs"; cases "map_res f ys") simp_all
qed

lemma map_res_total: "\<forall>x \<in> set xs. \<exists>y. f x = Inr y \<Longrightarrow> \<exists>ys. map_res f xs = Inr ys"
  by (induction xs) auto

section \<open>Bytes and strings\<close>

type_synonym byte = "8 word"
type_synonym bytes = "byte list"
type_synonym pystr = "nat list"

definition str :: "string \<Rightarrow> pystr" where
  "str s = map of_char s"

text \<open>\<open>bytes([i])\<close>: an integer becomes a byte, or the constructor raises.\<close>

definition to_byte :: "int \<Rightarrow> byte res" where
  "to_byte i = (if 0 \<le> i \<and> i < 256 then Inr (word_of_int i)
                else Inl (ValueError ''bytes must be in range(0, 256)''))"

lemma uint_byte_less [simp]: "uint (b :: byte) < 256"
  using uint_lt2p [of b] by simp

lemma uint_byte_ge [simp]: "0 \<le> uint (b :: byte)"
  by simp

lemma uint_byte_of_int: "0 \<le> i \<Longrightarrow> i < 256 \<Longrightarrow> uint (word_of_int i :: byte) = i"
  by (simp add: uint_word_of_int)

lemma to_byte_uint [simp, res_simps]: "to_byte (uint b) = Inr b"
  by (simp add: to_byte_def)

lemma to_byte_eq_Inr [res_simps]: "to_byte i = Inr b \<longleftrightarrow> i = uint b"
  by (auto simp: to_byte_def uint_byte_of_int)

lemma to_byte_Inr: "0 \<le> i \<Longrightarrow> i < 256 \<Longrightarrow> to_byte i = Inr (word_of_int i)"
  by (simp add: to_byte_def)

lemma map_res_uint [simp]: "map_res to_byte (map uint bs) = Inr bs"
  by (induction bs) simp_all

section \<open>Python slices\<close>

text \<open>
  \<open>xs[:n]\<close> and \<open>xs[n:]\<close> for any integer \<open>n\<close>: a negative bound counts
  from the end, and bounds past an end are clamped.
\<close>

definition py_index :: "'a list \<Rightarrow> int \<Rightarrow> nat" where
  "py_index xs n = (if 0 \<le> n then nat n else length xs - nat (- n))"

definition slice_to :: "int \<Rightarrow> 'a list \<Rightarrow> 'a list" where
  "slice_to n xs = take (py_index xs n) xs"

definition slice_from :: "int \<Rightarrow> 'a list \<Rightarrow> 'a list" where
  "slice_from n xs = drop (py_index xs n) xs"

definition slice :: "int \<Rightarrow> int \<Rightarrow> 'a list \<Rightarrow> 'a list" where
  "slice i j xs = drop (py_index xs i) (take (py_index xs j) xs)"

lemma slice_to_nonneg [simp]: "0 \<le> n \<Longrightarrow> slice_to n xs = take (nat n) xs"
  by (simp add: slice_to_def py_index_def)

lemma slice_from_nonneg [simp]: "0 \<le> n \<Longrightarrow> slice_from n xs = drop (nat n) xs"
  by (simp add: slice_from_def py_index_def)

lemma slice_nonneg [simp]:
  "0 \<le> i \<Longrightarrow> 0 \<le> j \<Longrightarrow> slice i j xs = take (nat j - nat i) (drop (nat i) xs)"
  by (simp add: slice_def py_index_def drop_take)

lemma slice_to_length [simp]: "slice_to (int (length xs)) xs = xs"
  by simp

text \<open>\<open>xs[i]\<close>: raises \<open>IndexError\<close> out of range.\<close>

definition index_res :: "'a list \<Rightarrow> int \<Rightarrow> 'a res" where
  "index_res xs i =
     (let j = (if i < 0 then i + int (length xs) else i)
      in if 0 \<le> j \<and> j < int (length xs) then Inr (xs ! nat j) else Inl IndexError)"

lemma index_res_nth [simp, res_simps]:
  "n < length xs \<Longrightarrow> index_res xs (int n) = Inr (xs ! n)"
  by (simp add: index_res_def)

lemma index_res_0 [simp]: "index_res (x # xs) 0 = Inr x"
  by (simp add: index_res_def)

lemma index_res_0_Nil [simp]: "index_res [] 0 = Inl IndexError"
  by (simp add: index_res_def)

section \<open>Little-endian packing\<close>

fun le_bytes :: "nat \<Rightarrow> int \<Rightarrow> bytes" where
  "le_bytes 0 i = []"
| "le_bytes (Suc n) i = word_of_int (i mod 256) # le_bytes n (i div 256)"

fun le_int :: "bytes \<Rightarrow> int" where
  "le_int [] = 0"
| "le_int (b # bs) = uint b + 256 * le_int bs"

text \<open>\<open>int.to_bytes(n, "little")\<close> and \<open>struct.pack\<close> of an unsigned field.\<close>

definition int_to_bytes :: "nat \<Rightarrow> int \<Rightarrow> bytes res" where
  "int_to_bytes n i = (if 0 \<le> i \<and> i < 256 ^ n then Inr (le_bytes n i) else Inl OverflowError)"

definition pack_u :: "nat \<Rightarrow> int \<Rightarrow> bytes res" where
  "pack_u n i = (if 0 \<le> i \<and> i < 256 ^ n then Inr (le_bytes n i) else Inl StructError)"

text \<open>\<open>struct.pack\<close> of a signed field, and the signed reading of \<open>int.from_bytes\<close>.\<close>

definition pack_s :: "nat \<Rightarrow> int \<Rightarrow> bytes res" where
  "pack_s n i = (if - (256 ^ n div 2) \<le> i \<and> i < 256 ^ n div 2 then Inr (le_bytes n i)
                 else Inl StructError)"

definition le_sint :: "bytes \<Rightarrow> int" where
  "le_sint bs = (let u = le_int bs; m = 256 ^ length bs in if m div 2 \<le> u then u - m else u)"

lemma length_le_bytes [simp, byte_simps]: "length (le_bytes n i) = n"
  by (induction n arbitrary: i) auto

lemma le_int_nonneg [simp]: "0 \<le> le_int bs"
  by (induction bs) auto

lemma le_int_less: "le_int bs < 256 ^ length bs"
proof (induction bs)
  case Nil
  then show ?case by simp
next
  case (Cons b bs)
  define m :: int where "m = 256 ^ length bs"
  from Cons have "le_int bs + 1 \<le> m" by (simp add: m_def)
  moreover have "uint b \<le> 255" using uint_byte_less [of b] by linarith
  ultimately have "uint b + 256 * le_int bs < 256 * m" by linarith
  then show ?case by (simp add: m_def)
qed

lemma le_int_append: "le_int (xs @ ys) = le_int xs + 256 ^ length xs * le_int ys"
  by (induction xs) (auto simp: algebra_simps)

lemma le_int_le_bytes [byte_simps]: "le_int (le_bytes n i) = i mod 256 ^ n"
proof (induction n arbitrary: i)
  case 0
  then show ?case by simp
next
  case (Suc n)
  have "i mod (256 * 256 ^ n) = 256 * (i div 256 mod 256 ^ n) + i mod 256"
    by (rule zmod_zmult2_eq) simp
  with Suc show ?case by (simp add: uint_byte_of_int)
qed

lemma le_bytes_le_int [byte_simps]: "le_bytes (length bs) (le_int bs) = bs"
proof (induction bs)
  case Nil
  then show ?case by simp
next
  case (Cons b bs)
  have "(uint b + 256 * le_int bs) div 256 = le_int bs" by simp
  moreover have "(uint b + 256 * le_int bs) mod 256 = uint b" by simp
  ultimately show ?case using Cons by simp
qed

lemma pack_u_eq_Inr [res_simps]:
  "pack_u n i = Inr bs \<longleftrightarrow> 0 \<le> i \<and> i < 256 ^ n \<and> bs = le_bytes n i"
  by (auto simp: pack_u_def)

lemma int_to_bytes_eq_Inr [res_simps]:
  "int_to_bytes n i = Inr bs \<longleftrightarrow> 0 \<le> i \<and> i < 256 ^ n \<and> bs = le_bytes n i"
  by (auto simp: int_to_bytes_def)

lemma pack_s_eq_Inr [res_simps]:
  "pack_s n i = Inr bs \<longleftrightarrow> - (256 ^ n div 2) \<le> i \<and> i < 256 ^ n div 2 \<and> bs = le_bytes n i"
  by (auto simp: pack_s_def)

lemma le_int_pack_u: "pack_u n i = Inr bs \<Longrightarrow> le_int bs = i"
  by (auto simp: res_simps byte_simps)

lemma le_sint_pack_s:
  assumes "pack_s n i = Inr bs" and "0 < n"
  shows "le_sint bs = i"
proof -
  from assms(2) obtain k where n: "n = Suc k" by (cases n) auto
  let ?m = "256 ^ n :: int"
  from assms(1) have i: "- (?m div 2) \<le> i" "i < ?m div 2" and bs: "bs = le_bytes n i"
    by (auto simp: res_simps)
  have even: "?m div 2 + ?m div 2 = ?m" by (simp add: n)
  show ?thesis
  proof (cases "0 \<le> i")
    case True
    with i even have "i mod ?m = i" by (intro mod_pos_pos_trivial) auto
    with i show ?thesis by (simp add: le_sint_def bs byte_simps)
  next
    case False
    with i even have "(i + ?m) mod ?m = i + ?m" by (intro mod_pos_pos_trivial) auto
    then have "i mod ?m = i + ?m" by simp
    with i even False show ?thesis by (simp add: le_sint_def bs byte_simps)
  qed
qed

section \<open>Masks and shifts of unbounded integers\<close>

lemma and_masks [mask_simps]:
  "(x :: int) AND 1 = x mod 2"
  "x AND 3 = x mod 4"
  "x AND 15 = x mod 16"
  "x AND 63 = x mod 64"
  "x AND 255 = x mod 256"
  using take_bit_eq_mask [of 1 x] take_bit_eq_mask [of 2 x] take_bit_eq_mask [of 4 x]
    take_bit_eq_mask [of 6 x] take_bit_eq_mask [of 8 x]
  by (simp_all add: take_bit_eq_mod mask_eq_exp_minus_1)

lemma shift_simps [mask_simps]:
  "push_bit n (x :: int) = x * 2 ^ n"
  "drop_bit n (x :: int) = x div 2 ^ n"
  by (simp_all add: push_bit_eq_mult drop_bit_eq_div)

text \<open>A field in the low bits does not meet one shifted above them.\<close>

lemma or_push_bit:
  assumes "0 \<le> b" and "b < 2 ^ n"
  shows "push_bit n a OR b = a * 2 ^ n + (b :: int)"
proof -
  from assms have "take_bit n b = b" by (simp add: take_bit_int_eq_self)
  then have "b OR push_bit n a = b + push_bit n a"
    using concat_bit_eq [of n b a] by (simp add: concat_bit_def)
  then show ?thesis by (simp add: or.commute push_bit_eq_mult)
qed

lemma or_push_bit': "0 \<le> b \<Longrightarrow> b < 2 ^ n \<Longrightarrow> b OR push_bit n a = a * 2 ^ n + (b :: int)"
  using or_push_bit [of b n a] by (simp add: or.commute)

lemma and_not_3 [mask_simps]: "(x :: int) AND (NOT 3) = x - x mod 4"
proof -
  have "(x AND NOT (mask 2)) AND (x AND mask 2) = 0"
    by (rule bit_eqI) (auto simp: bit_simps)
  then have "(x AND NOT (mask 2)) + (x AND mask 2) = (x AND NOT (mask 2)) OR (x AND mask 2)"
    by (rule disjunctive_add_eq_or)
  also have "\<dots> = x"
    by (rule bit_eqI) (auto simp: bit_simps)
  finally have "x AND NOT (mask 2) = x - take_bit 2 x"
    unfolding take_bit_eq_mask by linarith
  then show ?thesis
    by (simp add: take_bit_eq_mod mask_eq_exp_minus_1)
qed

section \<open>Insertion-ordered dictionaries\<close>

text \<open>
  A Python \<open>dict\<close> (or \<open>OrderedDict\<close>) is the association list of its items in
  order. \<open>AList.update\<close> is \<open>d[k] = v\<close>: it keeps the position of a present key and
  appends an absent one; \<open>AList.delete\<close> is \<open>del d[k]\<close>.
\<close>

type_synonym ('k, 'v) dict = "('k \<times> 'v) list"

abbreviation dict_keys :: "('k, 'v) dict \<Rightarrow> 'k list" where
  "dict_keys d \<equiv> map fst d"

abbreviation dict_ok :: "('k, 'v) dict \<Rightarrow> bool" where
  "dict_ok d \<equiv> distinct (map fst d)"

text \<open>\<open>OrderedDict.move_to_end(k)\<close> and \<open>OrderedDict.popitem(last=False)\<close>.\<close>

definition move_to_end :: "'k \<Rightarrow> ('k, 'v) dict \<Rightarrow> ('k, 'v) dict" where
  "move_to_end k d =
     (case map_of d k of None \<Rightarrow> d | Some v \<Rightarrow> AList.delete k d @ [(k, v)])"

lemma length_delete_Suc:
  "dict_ok d \<Longrightarrow> k \<in> set (dict_keys d) \<Longrightarrow> Suc (length (AList.delete k d)) = length d"
proof (induction d)
  case Nil
  then show ?case by simp
next
  case (Cons p d)
  show ?case
  proof (cases "fst p = k")
    case True
    with Cons.prems have "k \<notin> set (dict_keys d)" by auto
    then have "AList.delete k d = d" by (simp add: delete_id)
    with True show ?thesis by simp
  next
    case False
    with Cons show ?thesis by auto
  qed
qed

lemma length_update:
  "length (AList.update k v d) =
     (if k \<in> set (dict_keys d) then length d else Suc (length d))"
  by (induction d) auto

lemma map_of_move_to_end: "dict_ok d \<Longrightarrow> map_of (move_to_end k d) = map_of d"
  by (auto simp: move_to_end_def delete_conv' map_add_def fun_eq_iff split: option.split)

lemma dict_ok_move_to_end: "dict_ok d \<Longrightarrow> dict_ok (move_to_end k d)"
  by (auto simp: move_to_end_def delete_keys distinct_removeAll split: option.split)

lemma length_move_to_end: "dict_ok d \<Longrightarrow> length (move_to_end k d) = length d"
  using length_delete_Suc [of d k]
  by (force simp: move_to_end_def dest: map_of_SomeD split: option.split)

lemma dict_ok_tl: "dict_ok d \<Longrightarrow> dict_ok (tl d)"
  by (cases d) auto

end
