(* ===== verification/Constants.thy ===== *)
theory Constants
  imports Prelude
begin

text \<open>
  The protocol constants of \<open>protocol/constants.py\<close> and the two functions of that file that
  read them: the advert-flag labels and the role in an access-control byte.
\<close>

section \<open>Header and path_len layout\<close>

definition PH_ROUTE_MASK :: int where "PH_ROUTE_MASK = 0x03"
definition PH_TYPE_SHIFT :: nat where "PH_TYPE_SHIFT = 2"
definition PH_TYPE_MASK :: int where "PH_TYPE_MASK = 0x0F"
definition PH_VER_SHIFT :: nat where "PH_VER_SHIFT = 6"
definition PH_VER_MASK :: int where "PH_VER_MASK = 0x03"

definition ROUTE_TYPE_TRANSPORT_FLOOD :: int where "ROUTE_TYPE_TRANSPORT_FLOOD = 0"
definition ROUTE_TYPE_FLOOD :: int where "ROUTE_TYPE_FLOOD = 1"
definition ROUTE_TYPE_DIRECT :: int where "ROUTE_TYPE_DIRECT = 2"
definition ROUTE_TYPE_TRANSPORT_DIRECT :: int where "ROUTE_TYPE_TRANSPORT_DIRECT = 3"

definition PATH_HASH_COUNT_MASK :: int where "PATH_HASH_COUNT_MASK = 0x3F"
definition PATH_HASH_SIZE_SHIFT :: nat where "PATH_HASH_SIZE_SHIFT = 6"

lemmas layout_defs = PH_ROUTE_MASK_def PH_TYPE_SHIFT_def PH_TYPE_MASK_def PH_VER_SHIFT_def
  PH_VER_MASK_def PATH_HASH_COUNT_MASK_def PATH_HASH_SIZE_SHIFT_def

lemmas route_defs = ROUTE_TYPE_TRANSPORT_FLOOD_def ROUTE_TYPE_FLOOD_def ROUTE_TYPE_DIRECT_def
  ROUTE_TYPE_TRANSPORT_DIRECT_def

section \<open>Payload types and versions\<close>

definition PAYLOAD_TYPE_REQ :: int where "PAYLOAD_TYPE_REQ = 0x00"
definition PAYLOAD_TYPE_RESPONSE :: int where "PAYLOAD_TYPE_RESPONSE = 0x01"
definition PAYLOAD_TYPE_TXT_MSG :: int where "PAYLOAD_TYPE_TXT_MSG = 0x02"
definition PAYLOAD_TYPE_ACK :: int where "PAYLOAD_TYPE_ACK = 0x03"
definition PAYLOAD_TYPE_ADVERT :: int where "PAYLOAD_TYPE_ADVERT = 0x04"
definition PAYLOAD_TYPE_GRP_TXT :: int where "PAYLOAD_TYPE_GRP_TXT = 0x05"
definition PAYLOAD_TYPE_GRP_DATA :: int where "PAYLOAD_TYPE_GRP_DATA = 0x06"
definition PAYLOAD_TYPE_ANON_REQ :: int where "PAYLOAD_TYPE_ANON_REQ = 0x07"
definition PAYLOAD_TYPE_PATH :: int where "PAYLOAD_TYPE_PATH = 0x08"
definition PAYLOAD_TYPE_TRACE :: int where "PAYLOAD_TYPE_TRACE = 0x09"
definition PAYLOAD_TYPE_MULTIPART :: int where "PAYLOAD_TYPE_MULTIPART = 0x0A"
definition PAYLOAD_TYPE_CONTROL :: int where "PAYLOAD_TYPE_CONTROL = 0x0B"
definition PAYLOAD_TYPE_RAW_CUSTOM :: int where "PAYLOAD_TYPE_RAW_CUSTOM = 0x0F"

definition PAYLOAD_VER_1 :: int where "PAYLOAD_VER_1 = 0"
definition MAX_SUPPORTED_PAYLOAD_VERSION :: int where
  "MAX_SUPPORTED_PAYLOAD_VERSION = PAYLOAD_VER_1"

lemmas payload_type_defs = PAYLOAD_TYPE_REQ_def PAYLOAD_TYPE_RESPONSE_def
  PAYLOAD_TYPE_TXT_MSG_def PAYLOAD_TYPE_ACK_def PAYLOAD_TYPE_ADVERT_def
  PAYLOAD_TYPE_GRP_TXT_def PAYLOAD_TYPE_GRP_DATA_def PAYLOAD_TYPE_ANON_REQ_def
  PAYLOAD_TYPE_PATH_def PAYLOAD_TYPE_TRACE_def PAYLOAD_TYPE_MULTIPART_def
  PAYLOAD_TYPE_CONTROL_def PAYLOAD_TYPE_RAW_CUSTOM_def

lemmas version_defs = PAYLOAD_VER_1_def MAX_SUPPORTED_PAYLOAD_VERSION_def

section \<open>Sizes\<close>

definition MAX_ADVERT_DATA_SIZE :: nat where "MAX_ADVERT_DATA_SIZE = 32"
definition PUB_KEY_SIZE :: nat where "PUB_KEY_SIZE = 32"
definition SIGNATURE_SIZE :: nat where "SIGNATURE_SIZE = 64"
definition CIPHER_MAC_SIZE :: nat where "CIPHER_MAC_SIZE = 2"
definition CIPHER_BLOCK_SIZE :: nat where "CIPHER_BLOCK_SIZE = 16"
definition MAX_PACKET_PAYLOAD :: int where "MAX_PACKET_PAYLOAD = 184"
definition MAX_TEXT_LEN :: nat where "MAX_TEXT_LEN = 160"
definition MAX_PATH_SIZE :: int where "MAX_PATH_SIZE = 64"
definition MAX_HASH_SIZE :: nat where "MAX_HASH_SIZE = 32"
definition TIMESTAMP_SIZE :: nat where "TIMESTAMP_SIZE = 4"

lemmas size_defs = MAX_ADVERT_DATA_SIZE_def PUB_KEY_SIZE_def SIGNATURE_SIZE_def
  CIPHER_MAC_SIZE_def CIPHER_BLOCK_SIZE_def MAX_PACKET_PAYLOAD_def MAX_TEXT_LEN_def
  MAX_PATH_SIZE_def MAX_HASH_SIZE_def TIMESTAMP_SIZE_def

section \<open>Advert flags\<close>

definition ADVERT_FLAG_IS_CHAT_NODE :: int where "ADVERT_FLAG_IS_CHAT_NODE = 0x01"
definition ADVERT_FLAG_IS_REPEATER :: int where "ADVERT_FLAG_IS_REPEATER = 0x02"
definition ADVERT_FLAG_IS_ROOM_SERVER :: int where "ADVERT_FLAG_IS_ROOM_SERVER = 0x03"
definition ADVERT_FLAG_IS_SENSOR :: int where "ADVERT_FLAG_IS_SENSOR = 0x04"
definition ADVERT_FLAG_HAS_LOCATION :: int where "ADVERT_FLAG_HAS_LOCATION = 0x10"
definition ADVERT_FLAG_HAS_FEATURE1 :: int where "ADVERT_FLAG_HAS_FEATURE1 = 0x20"
definition ADVERT_FLAG_HAS_FEATURE2 :: int where "ADVERT_FLAG_HAS_FEATURE2 = 0x40"
definition ADVERT_FLAG_HAS_NAME :: int where "ADVERT_FLAG_HAS_NAME = 0x80"

lemmas advert_flag_defs = ADVERT_FLAG_IS_CHAT_NODE_def ADVERT_FLAG_IS_REPEATER_def
  ADVERT_FLAG_IS_ROOM_SERVER_def ADVERT_FLAG_IS_SENSOR_def ADVERT_FLAG_HAS_LOCATION_def
  ADVERT_FLAG_HAS_FEATURE1_def ADVERT_FLAG_HAS_FEATURE2_def ADVERT_FLAG_HAS_NAME_def

text \<open>\<open>", ".join(labels) or "none"\<close>\<close>

fun join_labels :: "string list \<Rightarrow> string" where
  "join_labels [] = ''none''"
| "join_labels [l] = l"
| "join_labels (l # ls) = l @ '', '' @ join_labels ls"

definition describe_advert_flags :: "int \<Rightarrow> string" where
  "describe_advert_flags flags =
     (let node_type = flags AND 0x0F;
          kind = (if node_type = ADVERT_FLAG_IS_CHAT_NODE then [''is chat node'']
                  else if node_type = ADVERT_FLAG_IS_REPEATER then [''is repeater'']
                  else if node_type = ADVERT_FLAG_IS_ROOM_SERVER then [''is room server'']
                  else if node_type = 4 then [''is sensor'']
                  else []);
          labels = kind
            @ (if flags AND ADVERT_FLAG_HAS_LOCATION \<noteq> 0 then [''has location''] else [])
            @ (if flags AND ADVERT_FLAG_HAS_FEATURE1 \<noteq> 0 then [''has feature 1''] else [])
            @ (if flags AND ADVERT_FLAG_HAS_FEATURE2 \<noteq> 0 then [''has feature 2''] else [])
            @ (if flags AND ADVERT_FLAG_HAS_NAME \<noteq> 0 then [''has name''] else [])
      in join_labels labels)"

section \<open>Telemetry, access control and text types\<close>

definition REQ_TYPE_GET_STATUS :: int where "REQ_TYPE_GET_STATUS = 0x01"
definition REQ_TYPE_GET_TELEMETRY_DATA :: int where "REQ_TYPE_GET_TELEMETRY_DATA = 0x03"
definition TELEM_PERM_BASE :: int where "TELEM_PERM_BASE = 0x01"
definition TELEM_PERM_LOCATION :: int where "TELEM_PERM_LOCATION = 0x02"
definition TELEM_PERM_ENVIRONMENT :: int where "TELEM_PERM_ENVIRONMENT = 0x04"
definition CONTACT_TYPE_ROOM_SERVER :: int where "CONTACT_TYPE_ROOM_SERVER = 3"

definition PERM_ACL_ROLE_MASK :: int where "PERM_ACL_ROLE_MASK = 0x03"
definition PERM_ACL_ADMIN :: int where "PERM_ACL_ADMIN = 3"

definition acl_role :: "int \<Rightarrow> int" where
  "acl_role permissions = permissions AND PERM_ACL_ROLE_MASK"

definition acl_is_admin :: "int \<Rightarrow> bool" where
  "acl_is_admin permissions \<longleftrightarrow> acl_role permissions = PERM_ACL_ADMIN"

definition TXT_TYPE_PLAIN :: int where "TXT_TYPE_PLAIN = 0"
definition TXT_TYPE_CLI_DATA :: int where "TXT_TYPE_CLI_DATA = 1"
definition TXT_TYPE_SIGNED_PLAIN :: int where "TXT_TYPE_SIGNED_PLAIN = 2"
definition TXT_TYPE_CLI_COMMAND :: int where "TXT_TYPE_CLI_COMMAND = 3"

lemmas txt_type_defs = TXT_TYPE_PLAIN_def TXT_TYPE_CLI_DATA_def TXT_TYPE_SIGNED_PLAIN_def
  TXT_TYPE_CLI_COMMAND_def

lemma acl_role_range: "0 \<le> acl_role p \<and> acl_role p < 4"
  by (simp add: acl_role_def PERM_ACL_ROLE_MASK_def mask_simps)

lemma acl_is_admin_low_bits: "acl_is_admin p \<longleftrightarrow> p mod 4 = 3"
  by (simp add: acl_is_admin_def acl_role_def PERM_ACL_ROLE_MASK_def PERM_ACL_ADMIN_def mask_simps)

end
