(* ===== verification/Interfaces.thy ===== *)
theory Interfaces
  imports Prelude Complex_Main
begin

text \<open>
  The contracts that the components state about one another, each a locale with the client's
  consequences proved once. A codec promises that what it accepts for the wire is read back
  unchanged; a bounded store promises that no sequence of operations outgrows its capacity; a
  seen table promises that a marked key is reported for exactly its window. The components
  that provide a contract interpret its locale on their own definitions.
\<close>

section \<open>Codecs\<close>

text \<open>
  \<open>enc\<close> serialises or raises, \<open>dec\<close> parses or raises, and \<open>view\<close> is the part
  of a value that goes on the wire.
\<close>

locale codec =
  fixes enc :: "'a \<Rightarrow> 'w res"
    and dec :: "'w \<Rightarrow> 'v res"
    and view :: "'a \<Rightarrow> 'v"
    and ok :: "'a \<Rightarrow> bool"
  assumes dec_enc: "ok x \<Longrightarrow> enc x = Inr w \<Longrightarrow> dec w = Inr (view x)"
begin

lemma enc_inj:
  assumes "ok x" and "ok y" and "enc x = Inr w" and "enc y = Inr w"
  shows "view x = view y"
  using dec_enc [OF assms(1,3)] dec_enc [OF assms(2,4)] by simp

lemma rejected_not_encoded: "dec w = Inl e \<Longrightarrow> ok x \<Longrightarrow> enc x \<noteq> Inr w"
  using dec_enc by fastforce

end

text \<open>A total codec also reads only what some value serialises to.\<close>

locale exact_codec = codec +
  assumes enc_dec: "dec w = Inr v \<Longrightarrow> \<exists>x. ok x \<and> view x = v \<and> enc x = Inr w"
begin

lemma dec_iff_enc: "dec w = Inr v \<longleftrightarrow> (\<exists>x. ok x \<and> view x = v \<and> enc x = Inr w)"
  using enc_dec dec_enc by blast

lemma dec_inj: "dec w = Inr v \<Longrightarrow> dec w' = Inr v \<Longrightarrow>
    (\<And>x y. ok x \<Longrightarrow> ok y \<Longrightarrow> view x = view y \<Longrightarrow> enc x = enc y) \<Longrightarrow> w = w'"
  by (metis enc_dec sum.inject(2))

end

section \<open>Stores under sequences of operations\<close>

locale step_system =
  fixes step :: "'op \<Rightarrow> 's \<Rightarrow> 's"
    and invar :: "'s \<Rightarrow> bool"
  assumes invar_step: "invar s \<Longrightarrow> invar (step op s)"
begin

lemma invar_run: "invar s \<Longrightarrow> invar (fold step ops s)"
  by (induction ops arbitrary: s) (auto intro: invar_step)

end

locale bounded_store = step_system +
  fixes size_of :: "'s \<Rightarrow> nat"
    and cap :: "'s \<Rightarrow> nat"
  assumes size_le_cap: "invar s \<Longrightarrow> size_of s \<le> cap s"
    and cap_step: "cap (step op s) = cap s"
begin

lemma cap_run: "cap (fold step ops s) = cap s"
  by (induction ops arbitrary: s) (auto simp: cap_step)

lemma run_bounded: "invar s \<Longrightarrow> size_of (fold step ops s) \<le> cap s"
  using size_le_cap [OF invar_run] cap_run by metis

end

section \<open>Seen tables\<close>

text \<open>
  What the dispatcher relies on for duplicate suppression: \<open>seen t now k\<close> asks for a key at
  a time, \<open>mark t now k\<close> records it.
\<close>

locale seen_table =
  fixes seen :: "'t \<Rightarrow> real \<Rightarrow> 'k \<Rightarrow> bool"
    and mark :: "'t \<Rightarrow> real \<Rightarrow> 'k \<Rightarrow> 't"
    and window :: "'t \<Rightarrow> real"
  assumes seen_mark:
      "seen (mark t ts k) now k' \<longleftrightarrow> (if k' = k then now - ts < window t else seen t now k')"
    and window_mark: "window (mark t ts k) = window t"
begin

lemma mark_seen: "now - ts < window t \<Longrightarrow> seen (mark t ts k) now k"
  by (simp add: seen_mark)

lemma window_marks: "window (fold (\<lambda>(ts, k) t. mark t ts k) ms t) = window t"
  by (induction ms arbitrary: t) (auto simp: window_mark)

text \<open>
  A key stays seen across later marks, of itself or of other keys, as long as the window of
  its own last mark is open.
\<close>

lemma seen_marks:
  assumes "seen t now k" and "\<And>ts k'. (ts, k') \<in> set ms \<Longrightarrow> now - ts < window t"
  shows "seen (fold (\<lambda>(ts, k) t. mark t ts k) ms t) now k"
  using assms
proof (induction ms arbitrary: t)
  case Nil
  then show ?case by simp
next
  case (Cons m ms)
  obtain ts k' where m: "m = (ts, k')" by (cases m)
  have "now - ts < window t" by (rule Cons.prems(2) [of ts k']) (simp add: m)
  with Cons.prems(1) have "seen (mark t ts k') now k" by (simp add: seen_mark)
  with Cons.prems(2) have "seen (fold (\<lambda>(ts, k) t. mark t ts k) ms (mark t ts k')) now k"
    by (intro Cons.IH) (auto simp: window_mark)
  with m show ?case by simp
qed

end

end
