(* ===== verification/Utf8.thy ===== *)
theory Utf8
  imports Prelude
begin

text \<open>
  The UTF-8 codec of Python's \<open>str.encode\<close> and \<open>bytes.decode\<close>, which the packet
  builder and the advert parser rely on: the encoder, the decoder with its three error
  handlers, and that the decoder inverts the encoder, also on a byte string cut in the middle
  of a character.
\<close>

section \<open>Encoding\<close>

definition utf8_cp :: "nat \<Rightarrow> bytes res" where
  "utf8_cp c =
     (if c < 0x80 then Inr [of_nat c]
      else if c < 0x800 then Inr [of_nat (0xC0 + c div 64), of_nat (0x80 + c mod 64)]
      else if 0xD800 \<le> c \<and> c < 0xE000 then Inl UnicodeEncodeError
      else if c < 0x10000 then
        Inr [of_nat (0xE0 + c div 4096), of_nat (0x80 + c div 64 mod 64), of_nat (0x80 + c mod 64)]
      else if c < 0x110000 then
        Inr [of_nat (0xF0 + c div 262144), of_nat (0x80 + c div 4096 mod 64),
             of_nat (0x80 + c div 64 mod 64), of_nat (0x80 + c mod 64)]
      else Inl UnicodeEncodeError)"

definition utf8_encode :: "pystr \<Rightarrow> bytes res" where
  "utf8_encode s = bind_res (map_res utf8_cp s) (\<lambda>bss. Inr (concat bss))"

definition valid_cp :: "nat \<Rightarrow> bool" where
  "valid_cp c \<longleftrightarrow> c < 0xD800 \<or> (0xE000 \<le> c \<and> c < 0x110000)"

lemma utf8_encode_Nil [simp]: "utf8_encode [] = Inr []"
  by (simp add: utf8_encode_def)

lemma utf8_encode_Cons:
  "utf8_encode (c # s) =
     bind_res (utf8_cp c) (\<lambda>b. bind_res (utf8_encode s) (\<lambda>bs. Inr (b @ bs)))"
  by (cases "utf8_cp c"; cases "map_res utf8_cp s") (auto simp: utf8_encode_def)

lemma utf8_cp_ok: "(\<exists>b. utf8_cp c = Inr b) \<longleftrightarrow> valid_cp c"
  by (auto simp: utf8_cp_def valid_cp_def)

lemma utf8_encode_ok: "(\<exists>b. utf8_encode s = Inr b) \<longleftrightarrow> list_all valid_cp s"
  by (induction s) (auto simp: utf8_encode_Cons res_simps simp flip: utf8_cp_ok)

lemma utf8_encode_append:
  "utf8_encode (a @ b) = bind_res (utf8_encode a) (\<lambda>x. bind_res (utf8_encode b) (\<lambda>y. Inr (x @ y)))"
proof (induction a)
  case Nil
  show ?case by (cases "utf8_encode b") simp_all
next
  case (Cons ch a)
  then show ?case
    by (cases "utf8_cp ch"; cases "utf8_encode a"; cases "utf8_encode b") (simp_all add: utf8_encode_Cons)
qed

lemma utf8_encode_ascii:
  "list_all (\<lambda>c. c < 128) s \<Longrightarrow> utf8_encode s = Inr (map of_nat s)"
  by (induction s) (auto simp: utf8_encode_Cons utf8_cp_def)

text \<open>\<open>s.encode("ascii")\<close>\<close>

definition ascii_encode :: "pystr \<Rightarrow> bytes res" where
  "ascii_encode s = (if list_all (\<lambda>c. c < 128) s then Inr (map of_nat s) else Inl UnicodeEncodeError)"


section \<open>Decoding\<close>

text \<open>
  One step of the decoder: the character at the front of the input and the number of bytes it
  takes, or \<open>None\<close> with the number of bytes that the error covers (the longest prefix that
  could still have started a character).
\<close>

definition cont :: "byte \<Rightarrow> bool" where
  "cont b \<longleftrightarrow> 0x80 \<le> unat b \<and> unat b < 0xC0"

definition second_ok :: "byte \<Rightarrow> byte \<Rightarrow> bool" where
  "second_ok b0 b1 \<longleftrightarrow>
     cont b1 \<and> (unat b0 = 0xE0 \<longrightarrow> 0xA0 \<le> unat b1) \<and> (unat b0 = 0xED \<longrightarrow> unat b1 < 0xA0)
     \<and> (unat b0 = 0xF0 \<longrightarrow> 0x90 \<le> unat b1) \<and> (unat b0 = 0xF4 \<longrightarrow> unat b1 < 0x90)"

definition utf8_next :: "byte \<Rightarrow> bytes \<Rightarrow> nat option \<times> nat" where
  "utf8_next b0 rest =
     (let v = unat b0
      in if v < 0x80 then (Some v, 1)
         else if v < 0xC2 then (None, 1)
         else if v < 0xE0 then
           (case rest of
              b1 # _ \<Rightarrow> if cont b1 then (Some ((v - 0xC0) * 64 + (unat b1 - 0x80)), 2) else (None, 1)
            | [] \<Rightarrow> (None, 1))
         else if v < 0xF0 then
           (case rest of
              b1 # r \<Rightarrow>
                if \<not> second_ok b0 b1 then (None, 1)
                else (case r of
                        b2 # _ \<Rightarrow>
                          if cont b2 then
                            (Some ((v - 0xE0) * 4096 + (unat b1 - 0x80) * 64 + (unat b2 - 0x80)), 3)
                          else (None, 2)
                      | [] \<Rightarrow> (None, 2))
            | [] \<Rightarrow> (None, 1))
         else if v < 0xF5 then
           (case rest of
              b1 # r \<Rightarrow>
                if \<not> second_ok b0 b1 then (None, 1)
                else (case r of
                        b2 # r' \<Rightarrow>
                          if \<not> cont b2 then (None, 2)
                          else (case r' of
                                  b3 # _ \<Rightarrow>
                                    if cont b3 then
                                      (Some ((v - 0xF0) * 262144 + (unat b1 - 0x80) * 4096
                                             + (unat b2 - 0x80) * 64 + (unat b3 - 0x80)), 4)
                                    else (None, 3)
                                | [] \<Rightarrow> (None, 3))
                      | [] \<Rightarrow> (None, 2))
            | [] \<Rightarrow> (None, 1))
         else (None, 1))"

datatype decode_errors = Strict | Ignore | Replace

lemma utf8_next_pos: "0 < snd (utf8_next b0 rest)"
  by (auto simp: utf8_next_def Let_def split: list.split)

function utf8_decode :: "decode_errors \<Rightarrow> bytes \<Rightarrow> pystr res" where
  "utf8_decode errors [] = Inr []"
| "utf8_decode errors (b # bs) =
     (case utf8_next b bs of
        (Some c, n) \<Rightarrow> bind_res (utf8_decode errors (drop (n - 1) bs)) (\<lambda>s. Inr (c # s))
      | (None, n) \<Rightarrow>
          (case errors of
             Strict \<Rightarrow> Inl UnicodeDecodeError
           | Ignore \<Rightarrow> utf8_decode errors (drop (n - 1) bs)
           | Replace \<Rightarrow> bind_res (utf8_decode errors (drop (n - 1) bs)) (\<lambda>s. Inr (0xFFFD # s))))"
  by pat_completeness auto
termination
  by (relation "measure (\<lambda>(_, bs). length bs)") auto

declare utf8_decode.simps(2) [simp del]

text \<open>Only the strict handler raises.\<close>

lemma utf8_decode_lenient: "errors \<noteq> Strict \<Longrightarrow> \<exists>s. utf8_decode errors bs = Inr s"
proof (induction errors bs rule: utf8_decode.induct)
  case (1 errors)
  then show ?case by simp
next
  case (2 errors b bs)
  show ?case
    by (cases "utf8_next b bs"; cases "fst (utf8_next b bs)"; cases errors)
      (use 2 in \<open>auto simp: utf8_decode.simps(2)\<close>)
qed

lemma unat_byte: "n < 256 \<Longrightarrow> unat (of_nat n :: byte) = n"
  by (simp add: unat_of_nat)

lemma unat_byte_add: "k + n < 256 \<Longrightarrow> unat (of_nat (k + n) :: byte) = k + n"
  by (rule unat_byte)

text \<open>The four shapes of an encoded character.\<close>

lemma utf8_cp_cases:
  assumes "utf8_cp c = Inr bs"
  obtains (one) "c < 0x80" "bs = [of_nat c]"
  | (two) h l where "c = h * 64 + l" "2 \<le> h" "h < 32" "l < 64" "bs = [of_nat (0xC0 + h), of_nat (0x80 + l)]"
  | (three) g h l where "c = g * 4096 + h * 64 + l" "g < 16" "h < 64" "l < 64"
      "g = 0 \<longrightarrow> 32 \<le> h" "g = 13 \<longrightarrow> h < 32"
      "bs = [of_nat (0xE0 + g), of_nat (0x80 + h), of_nat (0x80 + l)]"
  | (four) f g h l where "c = f * 262144 + g * 4096 + h * 64 + l" "f \<le> 4" "g < 64" "h < 64" "l < 64"
      "f = 0 \<longrightarrow> 16 \<le> g" "f = 4 \<longrightarrow> g < 16"
      "bs = [of_nat (0xF0 + f), of_nat (0x80 + g), of_nat (0x80 + h), of_nat (0x80 + l)]"
proof -
  have split64: "c = c div 64 * 64 + c mod 64" by simp
  have div4096: "c div 4096 = c div 64 div 64" by (simp add: div_mult2_eq [of c 64 64, simplified])
  have div262144: "c div 262144 = c div 64 div 64 div 64"
    using div_mult2_eq [of c 64 4096] div_mult2_eq [of "c div 64" 64 64] by simp
  define h where "h = c div 64"
  define g where "g = h div 64"
  have g: "g = g div 64 * 64 + g mod 64" by simp
  have c: "c = g * 4096 + (h mod 64) * 64 + c mod 64"
  proof -
    have "h = g * 64 + h mod 64" by (simp add: g_def)
    moreover have "c = h * 64 + c mod 64" by (simp add: h_def)
    ultimately show ?thesis by linarith
  qed
  have c4: "c = (g div 64) * 262144 + (g mod 64) * 4096 + (h mod 64) * 64 + c mod 64"
    using c g by linarith
  consider "c < 0x80" | "0x80 \<le> c" "c < 0x800" | "0x800 \<le> c" "c < 0x10000" "\<not> (0xD800 \<le> c \<and> c < 0xE000)"
    | "0x10000 \<le> c" "c < 0x110000"
    using assms by (auto simp: utf8_cp_def split: if_splits)
  then show thesis
  proof cases
    case 1
    with assms show thesis by (intro one) (auto simp: utf8_cp_def)
  next
    case 2
    with assms have bs: "bs = [of_nat (0xC0 + c div 64), of_nat (0x80 + c mod 64)]"
      by (simp add: utf8_cp_def)
    show thesis by (rule two [OF split64 _ _ _ bs]) (use 2 in auto)
  next
    case 3
    with assms have bs: "bs = [of_nat (0xE0 + g), of_nat (0x80 + h mod 64), of_nat (0x80 + c mod 64)]"
      by (auto simp: utf8_cp_def g_def h_def div4096 split: if_splits)
    have "g < 16" using 3 c by linarith
    moreover have "g = 0 \<longrightarrow> 32 \<le> h mod 64" using 3(1) c by auto
    moreover have "h mod 64 < 64" "c mod 64 < 64" by simp_all
    moreover from this have "g = 13 \<longrightarrow> h mod 64 < 32" using 3(3) c by (auto simp: not_le)
    ultimately show thesis by (intro three [OF c _ _ _ _ _ bs])
  next
    case 4
    with assms have bs: "bs = [of_nat (0xF0 + g div 64), of_nat (0x80 + g mod 64),
        of_nat (0x80 + h mod 64), of_nat (0x80 + c mod 64)]"
      by (auto simp: utf8_cp_def g_def h_def div4096 div262144 split: if_splits)
    have m: "g mod 64 < 64" "h mod 64 < 64" "c mod 64 < 64" by simp_all
    have "g div 64 \<le> 4" using 4 c4 by linarith
    moreover have "g div 64 = 0 \<longrightarrow> 16 \<le> g mod 64" using 4(1) c4 m by auto
    moreover have "g div 64 = 4 \<longrightarrow> g mod 64 < 16" using 4(2) c4 m by auto
    ultimately show thesis using m by (intro four [OF c4 _ _ _ _ _ _ bs])
  qed
qed

text \<open>The decoder reads back a whole character, and rejects a cut one as a single error.\<close>

lemma utf8_next_whole:
  assumes "utf8_cp c = Inr (b # bs)"
  shows "utf8_next b (bs @ rest) = (Some c, Suc (length bs))"
  using assms
proof (cases rule: utf8_cp_cases)
  case one
  then show ?thesis by (simp add: utf8_next_def unat_byte)
next
  case (two h l)
  then show ?thesis by (simp add: utf8_next_def cont_def unat_byte_add del: of_nat_add)
next
  case (three g h l)
  then show ?thesis
    by (simp add: utf8_next_def cont_def second_ok_def unat_byte_add del: of_nat_add)
next
  case (four f g h l)
  then show ?thesis
    by (simp add: utf8_next_def cont_def second_ok_def unat_byte_add del: of_nat_add)
qed

lemma utf8_next_cut:
  assumes "utf8_cp c = Inr (b # bs)" and "k < length bs"
  shows "utf8_next b (take k bs) = (None, Suc k)"
  using assms(1)
proof (cases rule: utf8_cp_cases)
  case one
  with assms(2) show ?thesis by simp
next
  case (two h l)
  with assms(2) show ?thesis by (simp add: utf8_next_def unat_byte_add del: of_nat_add)
next
  case (three g h l)
  with assms(2) consider "k = 0" | "k = 1" by fastforce
  then show ?thesis using three
    by cases (simp_all add: utf8_next_def cont_def second_ok_def unat_byte_add del: of_nat_add)
next
  case (four f g h l)
  with assms(2) consider "k = 0" | "k = 1" | "k = 2" by fastforce
  then show ?thesis using four
    by cases (simp_all add: utf8_next_def cont_def second_ok_def unat_byte_add numeral_2_eq_2 del: of_nat_add)
qed


section \<open>Round trip\<close>

lemma utf8_cp_nonempty: "utf8_cp c = Inr bs \<Longrightarrow> \<exists>b bs'. bs = b # bs'"
  by (cases rule: utf8_cp_cases) auto

lemma utf8_decode_char:
  assumes "utf8_cp c = Inr cs"
  shows "utf8_decode errors (cs @ rest) = bind_res (utf8_decode errors rest) (\<lambda>s. Inr (c # s))"
proof -
  obtain b bs where cs: "cs = b # bs" using utf8_cp_nonempty [OF assms] by blast
  from utf8_next_whole [OF assms [unfolded cs]] show ?thesis
    by (simp add: cs utf8_decode.simps(2))
qed

text \<open>Decoding an encoded string returns the string, under every error handler.\<close>

lemma utf8_decode_encode: "utf8_encode s = Inr bs \<Longrightarrow> utf8_decode errors bs = Inr s"
proof (induction s arbitrary: bs)
  case Nil
  then show ?case by simp
next
  case (Cons c s)
  then obtain cs bs' where "utf8_cp c = Inr cs" "utf8_encode s = Inr bs'" "bs = cs @ bs'"
    by (auto simp: utf8_encode_Cons res_simps)
  with Cons.IH show ?case by (simp add: utf8_decode_char)
qed

lemma utf8_decode_cut:
  assumes "utf8_cp c = Inr cs" and "k < length cs"
  shows "utf8_decode Ignore (take k cs) = Inr []"
proof -
  obtain b bs where cs: "cs = b # bs" using utf8_cp_nonempty [OF assms(1)] by blast
  show ?thesis
  proof (cases k)
    case 0
    then show ?thesis by simp
  next
    case (Suc m)
    with assms(2) cs have "m < length bs" by simp
    from utf8_next_cut [OF assms(1) [unfolded cs] this] Suc cs show ?thesis
      by (simp add: utf8_decode.simps(2))
  qed
qed

text \<open>
  A cut at any byte, decoded with the errors ignored, leaves the longest prefix of whole
  characters that fits.
\<close>

lemma utf8_truncate:
  assumes "utf8_encode s = Inr bs"
  shows "\<exists>k es. k \<le> length s \<and> utf8_decode Ignore (take n bs) = Inr (take k s)
           \<and> utf8_encode (take k s) = Inr es \<and> length es \<le> n \<and> (\<exists>rest. bs = es @ rest)
           \<and> (k < length s \<longrightarrow> (\<exists>cs. utf8_cp (s ! k) = Inr cs \<and> n < length es + length cs))"
  using assms
proof (induction s arbitrary: bs n)
  case Nil
  then show ?case by simp
next
  case (Cons c s)
  then obtain cs bs' where cs: "utf8_cp c = Inr cs" and s: "utf8_encode s = Inr bs'" and bs: "bs = cs @ bs'"
    by (auto simp: utf8_encode_Cons res_simps)
  show ?case
  proof (cases "length cs \<le> n")
    case True
    then have take: "take n bs = cs @ take (n - length cs) bs'" by (simp add: bs)
    from Cons.IH [OF s, of "n - length cs"] obtain k es where k: "k \<le> length s"
      "utf8_decode Ignore (take (n - length cs) bs') = Inr (take k s)" "utf8_encode (take k s) = Inr es"
      "length es \<le> n - length cs" "\<exists>rest. bs' = es @ rest"
      "k < length s \<longrightarrow> (\<exists>cs'. utf8_cp (s ! k) = Inr cs' \<and> n - length cs < length es + length cs')" by blast
    with True cs show ?thesis
      by (intro exI [of _ "Suc k"] exI [of _ "cs @ es"])
        (auto simp: take bs utf8_decode_char utf8_encode_Cons)
  next
    case False
    then have "take n bs = take n cs" by (simp add: bs)
    with False utf8_decode_cut [OF cs, of n] cs show ?thesis
      by (intro exI [of _ 0] exI [of _ "[]"]) auto
  qed
qed

section \<open>No stray NUL\<close>

lemma utf8_cp_nonzero: "utf8_cp ch = Inr bs \<Longrightarrow> ch \<noteq> 0 \<Longrightarrow> 0 \<notin> set bs"
proof -
  have nz: "(0 :: byte) \<noteq> of_nat n" if "0 < n" "n < 256" for n
    using that unat_byte [OF that(2)] by (metis less_irrefl unat_0)
  assume "utf8_cp ch = Inr bs" "ch \<noteq> 0"
  then show "0 \<notin> set bs"
    by (cases rule: utf8_cp_cases) (simp_all del: of_nat_add add: nz)
qed

lemma utf8_encode_nonzero: "utf8_encode s = Inr bs \<Longrightarrow> 0 \<notin> set s \<Longrightarrow> 0 \<notin> set bs"
  by (induction s arbitrary: bs) (auto simp: utf8_encode_Cons res_simps dest: utf8_cp_nonzero)

end
