(* ===== verification/Packet_Utils.thy ===== *)
theory Packet_Utils
  imports Constants Interfaces Utf8
begin

text \<open>
  \<open>protocol/packet_utils.py\<close>: the LoRa airtime and reception-score formulas, the checks that
  packets and routing paths go through, the path_len byte, timestamp packing, the header byte,
  the packet hash and the route-type table. Python floats are real numbers here: rounding of
  floating-point operations is not part of the model.
\<close>

section \<open>Airtime and reception score\<close>

text \<open>\<open>int(x)\<close> of a float truncates towards zero.\<close>

definition py_int :: "real \<Rightarrow> int" where
  "py_int x = (if 0 \<le> x then \<lfloor>x\<rfloor> else \<lceil>x\<rceil>)"

lemma py_int_of_int [simp]: "py_int (of_int i) = i"
  by (simp add: py_int_def)

lemma py_int_mono: "x \<le> y \<Longrightarrow> py_int x \<le> py_int y"
proof -
  assume "x \<le> y"
  moreover have "\<lceil>x\<rceil> \<le> \<lfloor>y\<rfloor>" if "\<not> 0 \<le> x" "0 \<le> y"
    proof -
    from that have "\<lceil>x\<rceil> \<le> 0" and "0 \<le> \<lfloor>y\<rfloor>" by auto
    then show ?thesis by (rule order_trans)
  qed
  ultimately show ?thesis
    unfolding py_int_def by (auto intro: floor_mono ceiling_mono)
qed

definition coding_rate_denominator :: "real \<Rightarrow> int" where
  "coding_rate_denominator cr =
     (let cr_val = py_int cr
      in if 1 \<le> cr_val \<and> cr_val \<le> 4 then cr_val + 4 else max 5 (min 8 cr_val))"

definition calculate_lora_airtime_ms ::
  "int \<Rightarrow> int \<Rightarrow> real \<Rightarrow> real \<Rightarrow> int \<Rightarrow> bool \<Rightarrow> bool \<Rightarrow> bool option \<Rightarrow> real" where
  "calculate_lora_airtime_ms payload_len sf bw_hz cr preamble_symbols crc_enabled explicit_header low_dr_opt =
     (let sf = max 5 (min 12 sf);
          bw_hz = (if bw_hz = 0 then 250000 else bw_hz);
          cr_denom = coding_rate_denominator cr;
          symbol_time_s = 2 ^ nat sf / bw_hz;
          low_dr = (case low_dr_opt of None \<Rightarrow> symbol_time_s * 1000 \<ge> 16 | Some b \<Rightarrow> b);
          sync_symbols = (if sf \<le> 6 then 625 / 100 else 425 / 100);
          sf_coeff2 = (if sf \<le> 6 then 0 else 8);
          bit_count = 8 * payload_len + (if crc_enabled then 16 else 0) - 4 * sf + sf_coeff2
                      + (if explicit_header then 20 else 0);
          denom = (if low_dr then 4 * (sf - 2) else 4 * sf);
          payload_symbols = 8 + \<lceil>real_of_int (max bit_count 0) / real_of_int denom\<rceil> * cr_denom;
          total_symbols = real_of_int preamble_symbols + sync_symbols + real_of_int payload_symbols
      in total_symbols * symbol_time_s * 1000)"

definition PACKET_SCORE_SNR_THRESHOLDS :: "real list" where
  "PACKET_SCORE_SNR_THRESHOLDS = [-7.5, -10, -12.5, -15, -17.5, -20]"

definition packet_score :: "real \<Rightarrow> int \<Rightarrow> int \<Rightarrow> real" where
  "packet_score snr sf packet_len =
     (if sf < 7 then 0
      else let threshold = PACKET_SCORE_SNR_THRESHOLDS ! nat (min sf 12 - 7)
           in if snr < threshold then 0
              else let snr_margin_rate = (snr - threshold) / 10;
                       collision_penalty = 1 - real_of_int packet_len / 256
                   in max 0 (min 1 (snr_margin_rate * collision_penalty)))"

record flood_rx_metrics =
  fm_score :: real
  fm_air_time_ms :: real
  fm_delay_ms :: real

definition flood_rx_metrics_of ::
  "int \<Rightarrow> real \<Rightarrow> int \<Rightarrow> real \<Rightarrow> real \<Rightarrow> int \<Rightarrow> real \<Rightarrow> real \<Rightarrow> real \<Rightarrow> flood_rx_metrics" where
  "flood_rx_metrics_of frame_len snr sf bw_hz cr preamble_symbols rx_delay_base min_delay_ms max_delay_ms =
     (let score = packet_score snr sf frame_len;
          air_time_ms = calculate_lora_airtime_ms frame_len sf bw_hz cr preamble_symbols True True None
      in if rx_delay_base \<le> 0 then
           \<lparr>fm_score = score, fm_air_time_ms = air_time_ms, fm_delay_ms = 0\<rparr>
         else
           let delay_ms = (rx_delay_base powr (0.85 - score) - 1) * air_time_ms;
               delay_ms = (if delay_ms < min_delay_ms then 0 else min delay_ms max_delay_ms)
           in \<lparr>fm_score = score, fm_air_time_ms = air_time_ms, fm_delay_ms = delay_ms\<rparr>)"

lemma coding_rate_range: "5 \<le> coding_rate_denominator cr \<and> coding_rate_denominator cr \<le> 8"
  by (simp add: coding_rate_denominator_def Let_def)

text \<open>The two representations of a coding rate denote the same denominator.\<close>

lemma coding_rate_legacy_index:
  "1 \<le> i \<Longrightarrow> i \<le> 4 \<Longrightarrow>
   coding_rate_denominator (of_int i) = coding_rate_denominator (of_int (i + 4))"
  unfolding coding_rate_denominator_def Let_def py_int_of_int by auto

section \<open>Validation\<close>

datatype path_item = PathStr pystr | PathInt int | PathFloat real | PathOther

definition hex_digit :: "nat \<Rightarrow> nat option" where
  "hex_digit c =
     (if 48 \<le> c \<and> c \<le> 57 then Some (c - 48)
      else if 97 \<le> c \<and> c \<le> 102 then Some (c - 87)
      else if 65 \<le> c \<and> c \<le> 70 then Some (c - 55)
      else None)"

definition validate_path_item :: "path_item \<Rightarrow> int res" where
  "validate_path_item item =
     (case item of
        PathStr s \<Rightarrow>
          (case s of
             c # d # _ \<Rightarrow>
               (case (hex_digit c, hex_digit d) of
                  (Some h, Some l) \<Rightarrow> Inr (int (16 * h + l))
                | _ \<Rightarrow> Inl (ValueError ''contains invalid hex characters''))
           | _ \<Rightarrow> Inl (ValueError ''hex string too short''))
      | PathInt i \<Rightarrow>
          (if 0 \<le> i \<and> i \<le> 255 then Inr i else Inl (ValueError ''value out of range (0-255)''))
      | PathFloat x \<Rightarrow>
          (let i = py_int x
           in if 0 \<le> i \<and> i \<le> 255 then Inr i else Inl (ValueError ''value out of range (0-255)''))
      | PathOther \<Rightarrow> Inl (ValueError ''invalid type''))"

text \<open>The argument is a list: the source's \<open>isinstance\<close> test on it always passes here.\<close>

definition validate_routing_path :: "path_item list \<Rightarrow> int list res" where
  "validate_routing_path routing_path =
     (if MAX_PATH_SIZE < int (length routing_path)
      then Inl (ValueError ''Path length exceeds maximum'')
      else map_res validate_path_item routing_path)"

definition validate_packet_bounds :: "int \<Rightarrow> int \<Rightarrow> int \<Rightarrow> string \<Rightarrow> unit res" where
  "validate_packet_bounds idx required data_len error_msg =
     check (\<not> data_len < idx + required) (ValueError error_msg)"

definition validate_buffer_lengths :: "int \<Rightarrow> int \<Rightarrow> int \<Rightarrow> int \<Rightarrow> unit res" where
  "validate_buffer_lengths expected_path_len actual_path_len expected_payload_len actual_payload_len =
     (if expected_path_len \<noteq> actual_path_len then Inl (ValueError ''path_len mismatch'')
      else if expected_payload_len \<noteq> actual_payload_len then Inl (ValueError ''payload_len mismatch'')
      else Inr ())"

definition validate_payload_size :: "int \<Rightarrow> unit res" where
  "validate_payload_size payload_len =
     check (\<not> MAX_PACKET_PAYLOAD < payload_len) (ValueError ''payload too large'')"

lemma hex_digit_range: "hex_digit c = Some h \<Longrightarrow> h < 16"
  by (auto simp: hex_digit_def split: if_splits)

lemma validate_path_item_range: "validate_path_item item = Inr v \<Longrightarrow> 0 \<le> v \<and> v \<le> 255"
  by (auto simp: validate_path_item_def Let_def dest!: hex_digit_range
      split: path_item.splits list.splits option.splits if_splits)

lemma validate_routing_path_bytes:
  assumes "validate_routing_path items = Inr vs"
  shows "length vs = length items \<and> int (length vs) \<le> 64 \<and> list_all (\<lambda>v. 0 \<le> v \<and> v \<le> 255) vs"
proof -
  from assms have m: "map_res validate_path_item items = Inr vs" and "int (length items) \<le> 64"
    by (auto simp: validate_routing_path_def size_defs split: if_splits)
  with map_res_length [OF m] map_res_set [OF m, of "\<lambda>v. 0 \<le> v \<and> v \<le> 255"]
  show ?thesis using validate_path_item_range by auto
qed

section \<open>The path_len byte\<close>

definition get_path_hash_size :: "int \<Rightarrow> int" where
  "get_path_hash_size path_len_byte = drop_bit PATH_HASH_SIZE_SHIFT path_len_byte + 1"

definition get_path_hash_count :: "int \<Rightarrow> int" where
  "get_path_hash_count path_len_byte = path_len_byte AND PATH_HASH_COUNT_MASK"

definition get_path_byte_len :: "int \<Rightarrow> int" where
  "get_path_byte_len path_len_byte =
     (path_len_byte AND PATH_HASH_COUNT_MASK) * (drop_bit PATH_HASH_SIZE_SHIFT path_len_byte + 1)"

definition encode_path_len :: "int \<Rightarrow> int \<Rightarrow> int res" where
  "encode_path_len hash_size hash_count =
     (if \<not> (0 \<le> hash_count \<and> hash_count \<le> 63)
      then Inl (ValueError ''hop count must be 0-63 for path_len encoding'')
      else Inr (push_bit PATH_HASH_SIZE_SHIFT (hash_size - 1) OR (hash_count AND PATH_HASH_COUNT_MASK)))"

definition is_valid_path_len :: "int \<Rightarrow> bool" where
  "is_valid_path_len path_len_byte =
     (let hash_size = drop_bit PATH_HASH_SIZE_SHIFT path_len_byte + 1
      in if 3 < hash_size then False
         else let hash_count = path_len_byte AND PATH_HASH_COUNT_MASK
              in hash_count * hash_size \<le> MAX_PATH_SIZE)"

definition is_path_at_max_hops :: "int \<Rightarrow> bool" where
  "is_path_at_max_hops path_len_byte =
     (if path_len_byte = 0 then False
      else let hash_size = get_path_hash_size path_len_byte
           in if 3 < hash_size then False
              else let hash_count = path_len_byte AND PATH_HASH_COUNT_MASK;
                       max_hops = min PATH_HASH_COUNT_MASK (MAX_PATH_SIZE div hash_size)
                   in hash_count \<ge> max_hops)"

definition trace_payload_hash_width :: "int \<Rightarrow> int" where
  "trace_payload_hash_width flags = push_bit (nat (flags AND 3)) 1"

lemma path_len_arith:
  "get_path_hash_size b = b div 64 + 1"
  "get_path_hash_count b = b mod 64"
  "get_path_byte_len b = (b mod 64) * (b div 64 + 1)"
  by (simp_all add: get_path_hash_size_def get_path_hash_count_def get_path_byte_len_def
      layout_defs mask_simps)

lemma is_valid_path_len_arith:
  "is_valid_path_len b \<longleftrightarrow> b div 64 \<le> 2 \<and> (b mod 64) * (b div 64 + 1) \<le> 64"
  by (auto simp: is_valid_path_len_def layout_defs size_defs mask_simps Let_def)

lemma encode_path_len_arith:
  "encode_path_len hs hc =
     (if 0 \<le> hc \<and> hc \<le> 63 then Inr ((hs - 1) * 64 + hc)
      else Inl (ValueError ''hop count must be 0-63 for path_len encoding''))"
  using or_push_bit [of hc 6 "hs - 1"]
  by (auto simp: encode_path_len_def layout_defs and_masks)

lemma encode_path_len_decode:
  assumes "encode_path_len hs hc = Inr b"
  shows "get_path_hash_size b = hs" and "get_path_hash_count b = hc"
    and "get_path_byte_len b = hc * hs"
proof -
  from assms have b: "b = (hs - 1) * 64 + hc" and hc: "0 \<le> hc" "hc < 64"
    by (auto simp: encode_path_len_arith split: if_splits)
  have "b div 64 = hs - 1" and "b mod 64 = hc"
    unfolding b using hc by (simp_all only: div_mult_self3 mod_mult_self3) auto
  then show "get_path_hash_size b = hs" and "get_path_hash_count b = hc"
    and "get_path_byte_len b = hc * hs"
    by (simp_all add: path_len_arith)
qed

lemma decode_encode_path_len:
  "encode_path_len (get_path_hash_size b) (get_path_hash_count b) = Inr b"
  by (simp add: encode_path_len_arith path_len_arith)

text \<open>The path_len byte is a codec for pairs of hash size and hop count, in both directions.\<close>

definition decode_path_len :: "int \<Rightarrow> (int \<times> int) res" where
  "decode_path_len b = Inr (get_path_hash_size b, get_path_hash_count b)"

interpretation path_len_codec:
  exact_codec "\<lambda>(hs, hc). encode_path_len hs hc" decode_path_len "\<lambda>x. x" "\<lambda>_. True"
proof unfold_locales
  fix x w
  assume "(case x of (hs, hc) \<Rightarrow> encode_path_len hs hc) = Inr w"
  then show "decode_path_len w = Inr x"
    by (cases x) (auto simp: decode_path_len_def dest: encode_path_len_decode)
next
  fix w v
  assume "decode_path_len w = Inr v"
  then show "\<exists>x. True \<and> x = v \<and> (case x of (hs, hc) \<Rightarrow> encode_path_len hs hc) = Inr w"
    by (auto simp: decode_path_len_def decode_encode_path_len)
qed

section \<open>Timestamps, hash bytes and headers\<close>

datatype data_part = PartInt int | PartBytes bytes | PartStr pystr

definition part_bytes :: "data_part \<Rightarrow> bytes res" where
  "part_bytes part =
     (case part of
        PartInt i \<Rightarrow> bind_res (to_byte i) (\<lambda>b. Inr [b])
      | PartBytes bs \<Rightarrow> Inr bs
      | PartStr s \<Rightarrow> utf8_encode s)"

definition pack_timestamp_data :: "int \<Rightarrow> data_part list \<Rightarrow> bytes res" where
  "pack_timestamp_data timestamp data_parts =
     bind_res (pack_u 4 timestamp) (\<lambda>ts.
     bind_res (map_res part_bytes data_parts) (\<lambda>parts. Inr (ts @ concat parts)))"

definition hash_byte :: "bytes \<Rightarrow> byte res" where
  "hash_byte pubkey =
     (case pubkey of [] \<Rightarrow> Inl (ValueError ''pubkey must be non-empty bytes'') | b # _ \<Rightarrow> Inr b)"

definition hash_bytes :: "bytes \<Rightarrow> bytes \<Rightarrow> bytes res" where
  "hash_bytes dest_pubkey src_pubkey =
     bind_res (hash_byte dest_pubkey) (\<lambda>d.
     bind_res (hash_byte src_pubkey) (\<lambda>s. Inr [d, s]))"

definition calculate_snr_db :: "real option \<Rightarrow> real" where
  "calculate_snr_db raw_snr = (case raw_snr of Some s \<Rightarrow> s | None \<Rightarrow> 0)"

definition create_header :: "int \<Rightarrow> int \<Rightarrow> int \<Rightarrow> int" where
  "create_header payload_type route_type version =
     ((route_type AND PH_ROUTE_MASK) OR push_bit PH_TYPE_SHIFT payload_type)
       OR push_bit PH_VER_SHIFT version"

definition parse_header :: "int \<Rightarrow> int \<times> int \<times> int" where
  "parse_header header =
     (header AND PH_ROUTE_MASK,
      drop_bit PH_TYPE_SHIFT header AND PH_TYPE_MASK,
      drop_bit PH_VER_SHIFT header AND PH_VER_MASK)"

lemma create_header_arith:
  assumes "0 \<le> pt" and "pt < 16"
  shows "create_header pt rt v = rt mod 4 + 4 * pt + 64 * v"
proof -
  have "(rt mod 4) OR push_bit 2 pt = pt * 4 + rt mod 4"
    using or_push_bit' [of "rt mod 4" 2 pt] by simp
  moreover have "(pt * 4 + rt mod 4) OR push_bit 6 v = v * 64 + (pt * 4 + rt mod 4)"
  proof -
    have "0 \<le> rt mod 4" "rt mod 4 < 4" by simp_all
    with assms have "0 \<le> pt * 4 + rt mod 4" "pt * 4 + rt mod 4 < 2 ^ 6" by auto
    from or_push_bit' [OF this, of v] show ?thesis by simp
  qed
  ultimately show ?thesis by (simp add: create_header_def layout_defs and_masks)
qed

lemma header_fields_arith:
  "h AND PH_ROUTE_MASK = h mod 4"
  "drop_bit PH_TYPE_SHIFT h AND PH_TYPE_MASK = h div 4 mod 16"
  "drop_bit PH_VER_SHIFT h AND PH_VER_MASK = h div 64 mod 4"
  by (simp_all add: layout_defs mask_simps)

lemma pack_fields:
  fixes r pt v :: int
  assumes "0 \<le> r" "r < 4" "0 \<le> pt" "pt < 16"
  shows "(r + 4 * pt + 64 * v) mod 4 = r"
    and "(r + 4 * pt + 64 * v) div 4 mod 16 = pt"
    and "(r + 4 * pt + 64 * v) div 64 = v"
proof -
  have e: "r + 4 * pt + 64 * v = r + 4 * (pt + 16 * v)" by simp
  show "(r + 4 * pt + 64 * v) mod 4 = r"
    unfolding e mod_mult_self2 using assms by simp
  have "(r + 4 * (pt + 16 * v)) div 4 = pt + 16 * v"
    using assms div_mult_self2 [of 4 r "pt + 16 * v"] by simp
  moreover have "(pt + 16 * v) mod 16 = pt"
    unfolding mod_mult_self2 using assms by simp
  ultimately show "(r + 4 * pt + 64 * v) div 4 mod 16 = pt"
    unfolding e by (simp only:)
  show "(r + 4 * pt + 64 * v) div 64 = v"
    using assms by simp
qed

lemma parse_create_header:
  assumes "0 \<le> pt" and "pt < 16" and "0 \<le> v" and "v < 4"
  shows "parse_header (create_header pt rt v) = (rt mod 4, pt, v)"
proof -
  have "0 \<le> rt mod 4" "rt mod 4 < 4" by simp_all
  from pack_fields [OF this assms(1,2), of v] assms show ?thesis
    by (simp add: parse_header_def header_fields_arith create_header_arith)
qed

lemma create_header_range:
  assumes "0 \<le> pt" "pt < 16" "0 \<le> v" "v < 4"
  shows "0 \<le> create_header pt rt v \<and> create_header pt rt v < 256"
proof -
  have "0 \<le> rt mod 4" "rt mod 4 < 4" by simp_all
  with assms show ?thesis by (simp add: create_header_arith)
qed

lemma length_pack_timestamp_data:
  "pack_timestamp_data t parts = Inr bs \<Longrightarrow>
   \<exists>ps. map_res part_bytes parts = Inr ps \<and> bs = le_bytes 4 t @ concat ps \<and> 0 \<le> t \<and> t < 2 ^ 32"
  by (auto simp: pack_timestamp_data_def res_simps)

section \<open>Packet hashes\<close>

text \<open>\<open>sha256\<close> is the digest function of \<open>hashlib\<close>.\<close>

definition hash_input :: "int \<Rightarrow> int \<Rightarrow> bytes \<Rightarrow> bytes res" where
  "hash_input payload_type path_len payload =
     bind_res (to_byte payload_type) (\<lambda>t.
     bind_res (if payload_type = PAYLOAD_TYPE_TRACE then pack_u 2 path_len else Inr []) (\<lambda>pl.
     Inr ([t] @ pl @ payload)))"

definition PacketHashingUtils_calculate_packet_hash ::
  "(bytes \<Rightarrow> bytes) \<Rightarrow> int \<Rightarrow> int \<Rightarrow> bytes \<Rightarrow> bytes res" where
  "PacketHashingUtils_calculate_packet_hash sha256 payload_type path_len payload =
     bind_res (hash_input payload_type path_len payload)
       (\<lambda>m. Inr (take MAX_HASH_SIZE (sha256 m)))"

definition hex_char :: "int \<Rightarrow> nat" where
  "hex_char n = (if n < 10 then 48 + nat n else 87 + nat n)"

definition hex_upper_char :: "int \<Rightarrow> nat" where
  "hex_upper_char n = (if n < 10 then 48 + nat n else 55 + nat n)"

text \<open>\<open>bytes.hex()\<close>, and \<open>bytes.hex().upper()\<close>.\<close>

definition hex_str :: "bytes \<Rightarrow> pystr" where
  "hex_str bs = concat (map (\<lambda>b. [hex_char (uint b div 16), hex_char (uint b mod 16)]) bs)"

definition hex_upper_str :: "bytes \<Rightarrow> pystr" where
  "hex_upper_str bs =
     concat (map (\<lambda>b. [hex_upper_char (uint b div 16), hex_upper_char (uint b mod 16)]) bs)"

definition calculate_packet_hash_string ::
  "(bytes \<Rightarrow> bytes) \<Rightarrow> int \<Rightarrow> int \<Rightarrow> bytes \<Rightarrow> int option \<Rightarrow> pystr res" where
  "calculate_packet_hash_string sha256 payload_type path_len payload len =
     bind_res (PacketHashingUtils_calculate_packet_hash sha256 payload_type path_len payload) (\<lambda>raw.
     Inr (case len of None \<Rightarrow> hex_upper_str raw | Some n \<Rightarrow> slice_to n (hex_upper_str raw)))"

definition calculate_crc :: "(bytes \<Rightarrow> bytes) \<Rightarrow> int \<Rightarrow> int \<Rightarrow> bytes \<Rightarrow> int res" where
  "calculate_crc sha256 payload_type path_len payload =
     bind_res (PacketHashingUtils_calculate_packet_hash sha256 payload_type path_len payload)
       (\<lambda>h. Inr (le_int (take 4 h)))"

section \<open>Route types\<close>

definition ROUTE_MAP :: "(pystr, int) dict" where
  "ROUTE_MAP =
     [(str ''transport_flood'', ROUTE_TYPE_TRANSPORT_FLOOD),
      (str ''flood'', ROUTE_TYPE_FLOOD),
      (str ''direct'', ROUTE_TYPE_DIRECT),
      (str ''transport_direct'', ROUTE_TYPE_TRANSPORT_DIRECT)]"

definition get_route_type_value :: "pystr \<Rightarrow> bool \<Rightarrow> int" where
  "get_route_type_value route_type has_routing_path =
     (case map_of ROUTE_MAP route_type of
        Some v \<Rightarrow> v
      | None \<Rightarrow> if has_routing_path then ROUTE_TYPE_DIRECT else ROUTE_TYPE_FLOOD)"

lemma route_type_value_range: "0 \<le> get_route_type_value r p \<and> get_route_type_value r p < 4"
  by (auto simp: get_route_type_value_def ROUTE_MAP_def route_defs)

lemma route_type_value_names [simp]:
  "get_route_type_value (str ''transport_flood'') p = 0"
  "get_route_type_value (str ''flood'') p = 1"
  "get_route_type_value (str ''direct'') p = 2"
  "get_route_type_value (str ''transport_direct'') p = 3"
  by (simp_all add: get_route_type_value_def ROUTE_MAP_def route_defs str_def)

section \<open>Airtime estimates\<close>

record radio_config =
  rc_measured_airtime_ms :: "real option"
  rc_spreading_factor :: "int option"
  rc_bandwidth :: "real option"
  rc_coding_rate :: "real option"
  rc_preamble_length :: "int option"

definition default_radio_config :: radio_config where
  "default_radio_config =
     \<lparr>rc_measured_airtime_ms = None, rc_spreading_factor = Some 10, rc_bandwidth = Some 250000,
      rc_coding_rate = Some 5, rc_preamble_length = Some 8\<rparr>"

definition opt_default :: "'a \<Rightarrow> 'a option \<Rightarrow> 'a" where
  "opt_default d x = (case x of None \<Rightarrow> d | Some y \<Rightarrow> y)"

definition PacketTimingUtils_estimate_airtime_ms :: "int \<Rightarrow> radio_config option \<Rightarrow> real" where
  "PacketTimingUtils_estimate_airtime_ms packet_length_bytes radio_config =
     (let rc = opt_default default_radio_config radio_config
      in case rc_measured_airtime_ms rc of
           Some ms \<Rightarrow> ms
         | None \<Rightarrow>
             let sf = opt_default 10 (rc_spreading_factor rc);
                 bw = opt_default 250000 (rc_bandwidth rc);
                 cr = opt_default 5 (rc_coding_rate rc);
                 preamble = opt_default 8 (rc_preamble_length rc);
                 bw = (if bw < 1000 then bw * 1000 else bw)
             in max (calculate_lora_airtime_ms packet_length_bytes sf bw cr preamble True True None) 50)"

end
