(* ===== verification/Packet.thy ===== *)
theory Packet
  imports Packet_Utils
begin

text \<open>
  \<open>protocol/packet.py\<close>: the packet object, its header accessors, path handling, and the wire
  format (\<open>write_to\<close>, \<open>read_from\<close>). A method that raises part way through leaves the
  fields it has already assigned: \<open>read_from\<close> therefore returns the packet together with
  its result. The attributes \<open>decrypted\<close> and \<open>_tx_metadata\<close>, dictionaries that
  only handlers and radios fill, are left out.
\<close>

record packet =
  pk_header :: int
  pk_path_len :: int
  pk_payload_len :: int
  pk_path :: bytes
  pk_payload :: bytes
  pk_transport_codes :: "int \<times> int"
  pk_snr :: "real option"
  pk_rssi :: int
  pk_rx_radio_id :: "pystr option"
  pk_do_not_retransmit :: bool
  pk_drop_reason :: "pystr option"
  pk_path_hash_mode_applied :: bool
  pk_flood_scope_applied :: bool
  pk_injected_for_tx :: bool
  pk_injected_origin_hash :: "pystr option"
  pk_recv_region_captured :: bool
  pk_recv_region_key :: "bytes option"
  pk_recv_region_unscoped :: bool

definition new_packet :: packet where
  "new_packet =
     \<lparr>pk_header = 0, pk_path_len = 0, pk_payload_len = 0, pk_path = [], pk_payload = [],
      pk_transport_codes = (0, 0), pk_snr = Some 0, pk_rssi = 0, pk_rx_radio_id = None,
      pk_do_not_retransmit = False, pk_drop_reason = None, pk_path_hash_mode_applied = False,
      pk_flood_scope_applied = False, pk_injected_for_tx = False, pk_injected_origin_hash = None,
      pk_recv_region_captured = False, pk_recv_region_key = None, pk_recv_region_unscoped = False\<rparr>"

section \<open>Header accessors\<close>

definition get_route_type :: "packet \<Rightarrow> int" where
  "get_route_type p = pk_header p AND PH_ROUTE_MASK"

definition get_payload_type :: "packet \<Rightarrow> int" where
  "get_payload_type p = drop_bit PH_TYPE_SHIFT (pk_header p) AND PH_TYPE_MASK"

definition get_payload_ver :: "packet \<Rightarrow> int" where
  "get_payload_ver p = drop_bit PH_VER_SHIFT (pk_header p) AND PH_VER_MASK"

definition has_transport_codes :: "packet \<Rightarrow> bool" where
  "has_transport_codes p =
     (let route_type = get_route_type p
      in route_type = ROUTE_TYPE_TRANSPORT_FLOOD \<or> route_type = ROUTE_TYPE_TRANSPORT_DIRECT)"

definition is_route_flood :: "packet \<Rightarrow> bool" where
  "is_route_flood p =
     (let route_type = get_route_type p
      in route_type = ROUTE_TYPE_TRANSPORT_FLOOD \<or> route_type = ROUTE_TYPE_FLOOD)"

definition is_route_direct :: "packet \<Rightarrow> bool" where
  "is_route_direct p =
     (let route_type = get_route_type p
      in route_type = ROUTE_TYPE_TRANSPORT_DIRECT \<or> route_type = ROUTE_TYPE_DIRECT)"

lemma accessor_arith:
  "get_route_type p = pk_header p mod 4"
  "get_payload_type p = pk_header p div 4 mod 16"
  "get_payload_ver p = pk_header p div 64 mod 4"
  by (simp_all add: get_route_type_def get_payload_type_def get_payload_ver_def header_fields_arith)

lemma route_arith:
  "has_transport_codes p \<longleftrightarrow> pk_header p mod 4 = 0 \<or> pk_header p mod 4 = 3"
  "is_route_flood p \<longleftrightarrow> pk_header p mod 4 = 0 \<or> pk_header p mod 4 = 1"
  "is_route_direct p \<longleftrightarrow> pk_header p mod 4 = 3 \<or> pk_header p mod 4 = 2"
  by (simp_all add: has_transport_codes_def is_route_flood_def is_route_direct_def route_defs
      accessor_arith Let_def)

lemma route_flood_xor_direct: "is_route_flood p \<longleftrightarrow> \<not> is_route_direct p"
proof -
  have "0 \<le> pk_header p mod 4" "pk_header p mod 4 < 4" by simp_all
  then show ?thesis by (auto simp: route_arith)
qed

lemma payload_type_range: "0 \<le> get_payload_type p \<and> get_payload_type p < 16"
  by (simp add: accessor_arith)

lemma accessor_header_cong:
  assumes "pk_header p = pk_header q"
  shows "get_route_type p = get_route_type q" "get_payload_type p = get_payload_type q"
    "get_payload_ver p = get_payload_ver q" "has_transport_codes p = has_transport_codes q"
    "is_route_flood p = is_route_flood q" "is_route_direct p = is_route_direct q"
  by (simp_all add: accessor_arith route_arith assms)

section \<open>Paths\<close>

definition Packet_get_path_hash_size :: "packet \<Rightarrow> int" where
  "Packet_get_path_hash_size p = get_path_hash_size (pk_path_len p)"

definition Packet_get_path_hash_count :: "packet \<Rightarrow> int" where
  "Packet_get_path_hash_count p = get_path_hash_count (pk_path_len p)"

definition Packet_get_path_byte_len :: "packet \<Rightarrow> int" where
  "Packet_get_path_byte_len p = get_path_byte_len (pk_path_len p)"

lemmas packet_path_defs = Packet_get_path_hash_size_def Packet_get_path_hash_count_def
  Packet_get_path_byte_len_def

definition apply_path_hash_mode :: "int \<Rightarrow> bool \<Rightarrow> packet \<Rightarrow> packet res" where
  "apply_path_hash_mode mode mark_applied p =
     (if mode \<notin> {0, 1, 2} then Inl (ValueError ''path_hash_mode must be 0, 1, or 2'')
      else if get_payload_type p = PAYLOAD_TYPE_TRACE then Inr p
      else if Packet_get_path_hash_count p \<noteq> 0 then Inr p
      else bind_res (encode_path_len (mode + 1) 0) (\<lambda>b.
        let p = p\<lparr>pk_path_len := b\<rparr>
        in Inr (if mark_applied then p\<lparr>pk_path_hash_mode_applied := True\<rparr> else p)))"

definition get_path_hashes :: "packet \<Rightarrow> bytes list" where
  "get_path_hashes p =
     (let hash_size = Packet_get_path_hash_size p;
          count = Packet_get_path_hash_count p
      in concat (map (\<lambda>i. let start = int i * hash_size; stop = start + hash_size
                          in if stop \<le> int (length (pk_path p)) then [slice start stop (pk_path p)]
                             else [])
                     [0..<nat count]))"

definition get_path_hashes_hex :: "packet \<Rightarrow> pystr list" where
  "get_path_hashes_hex p = map hex_upper_str (get_path_hashes p)"

text \<open>
  The path is assigned before the hop count is checked, so a refused call has replaced the
  path and kept the old \<open>path_len\<close>.
\<close>

definition set_path :: "bytes \<Rightarrow> int option \<Rightarrow> packet \<Rightarrow> packet \<times> unit res" where
  "set_path path_bytes path_len_encoded p =
     (let p = p\<lparr>pk_path := path_bytes\<rparr>
      in case path_len_encoded of
           Some b \<Rightarrow> (p\<lparr>pk_path_len := b\<rparr>, Inr ())
         | None \<Rightarrow>
             (let hop_count = int (length path_bytes)
              in if 63 < hop_count
                 then (p, Inl (ValueError ''path length exceeds maximum encodable hop count 63''))
                 else (case encode_path_len 1 hop_count of
                         Inl e \<Rightarrow> (p, Inl e)
                       | Inr b \<Rightarrow> (p\<lparr>pk_path_len := b\<rparr>, Inr ()))))"

section \<open>Payload access and checks\<close>

definition get_payload :: "packet \<Rightarrow> bytes" where
  "get_payload p = slice_to (pk_payload_len p) (pk_payload p)"

definition get_payload_app_data :: "packet \<Rightarrow> bytes" where
  "get_payload_app_data p =
     (let offset = PUB_KEY_SIZE + TIMESTAMP_SIZE + SIGNATURE_SIZE
      in if int offset \<le> pk_payload_len p then drop offset (get_payload p) else [])"

definition validate_lengths :: "packet \<Rightarrow> unit res" where
  "validate_lengths p =
     validate_buffer_lengths (Packet_get_path_byte_len p) (int (length (pk_path p)))
       (pk_payload_len p) (int (length (pk_payload p)))"

definition Packet_validate_payload_size :: "packet \<Rightarrow> unit res" where
  "Packet_validate_payload_size p = validate_payload_size (pk_payload_len p)"

definition check_bounds :: "int \<Rightarrow> int \<Rightarrow> int \<Rightarrow> string \<Rightarrow> unit res" where
  "check_bounds idx required data_len error_msg =
     validate_packet_bounds idx required data_len error_msg"

section \<open>Serialisation\<close>

definition write_transport_codes :: "packet \<Rightarrow> bytes res" where
  "write_transport_codes p =
     (if has_transport_codes p then
        bind_res (int_to_bytes 2 (fst (pk_transport_codes p))) (\<lambda>c0.
        bind_res (int_to_bytes 2 (snd (pk_transport_codes p))) (\<lambda>c1. Inr (c0 @ c1)))
      else Inr [])"

definition write_to :: "packet \<Rightarrow> bytes res" where
  "write_to p =
     bind_res (validate_lengths p) (\<lambda>_.
     bind_res (Packet_validate_payload_size p) (\<lambda>_.
     bind_res (to_byte (pk_header p)) (\<lambda>h.
     bind_res (write_transport_codes p) (\<lambda>codes.
     bind_res (to_byte (pk_path_len p)) (\<lambda>pl.
     Inr ([h] @ codes @ [pl] @ slice_to (Packet_get_path_byte_len p) (pk_path p)
          @ slice_to (pk_payload_len p) (pk_payload p)))))))"

text \<open>
  Sequencing of steps that both change the packet and may raise; each step of \<open>read_from\<close>
  returns the read position it leaves.
\<close>

definition seq_st :: "'s \<times> 'a res \<Rightarrow> ('s \<Rightarrow> 'a \<Rightarrow> 's \<times> 'b res) \<Rightarrow> 's \<times> 'b res" where
  "seq_st m f = (case m of (s, Inl e) \<Rightarrow> (s, Inl e) | (s, Inr x) \<Rightarrow> f s x)"

definition read_reset :: "packet \<Rightarrow> packet" where
  "read_reset p =
     p\<lparr>pk_recv_region_captured := False, pk_recv_region_key := None,
       pk_recv_region_unscoped := False, pk_flood_scope_applied := False,
       pk_path_hash_mode_applied := False\<rparr>"

definition read_header :: "bytes \<Rightarrow> packet \<Rightarrow> packet \<times> int res" where
  "read_header data p =
     (case index_res data 0 of
        Inl e \<Rightarrow> (p, Inl e)
      | Inr b \<Rightarrow>
          (let p = p\<lparr>pk_header := uint b\<rparr>
           in if MAX_SUPPORTED_PAYLOAD_VERSION < get_payload_ver p
              then (p, Inl (ValueError ''Unsupported packet version''))
              else (p, Inr 1)))"

definition read_transport_codes :: "bytes \<Rightarrow> packet \<Rightarrow> int \<Rightarrow> packet \<times> int res" where
  "read_transport_codes data p idx =
     (if has_transport_codes p then
        (case check_bounds idx 4 (int (length data)) ''missing transport codes'' of
           Inl e \<Rightarrow> (p, Inl e)
         | Inr _ \<Rightarrow>
             (p\<lparr>pk_transport_codes :=
                 (le_int (slice idx (idx + 2) data), le_int (slice (idx + 2) (idx + 4) data))\<rparr>,
              Inr (idx + 4)))
      else (p\<lparr>pk_transport_codes := (0, 0)\<rparr>, Inr idx))"

definition read_path_len :: "bytes \<Rightarrow> packet \<Rightarrow> int \<Rightarrow> packet \<times> int res" where
  "read_path_len data p idx =
     (case bind_res (check_bounds idx 1 (int (length data)) ''missing path_len'')
             (\<lambda>_. index_res data idx) of
        Inl e \<Rightarrow> (p, Inl e)
      | Inr b \<Rightarrow>
          (let p = p\<lparr>pk_path_len := uint b\<rparr>
           in if \<not> is_valid_path_len (pk_path_len p) then
                (p, Inl (if 3 < get_path_hash_size (pk_path_len p)
                         then ValueError ''invalid path_len encoding''
                         else ValueError ''path_len too large''))
              else (p, Inr (idx + 1))))"

definition read_path :: "bytes \<Rightarrow> packet \<Rightarrow> int \<Rightarrow> packet \<times> int res" where
  "read_path data p idx =
     (let path_byte_len = Packet_get_path_byte_len p
      in case check_bounds idx path_byte_len (int (length data)) ''truncated path'' of
           Inl e \<Rightarrow> (p, Inl e)
         | Inr _ \<Rightarrow> (p\<lparr>pk_path := slice idx (idx + path_byte_len) data\<rparr>, Inr (idx + path_byte_len)))"

definition read_payload :: "bytes \<Rightarrow> packet \<Rightarrow> int \<Rightarrow> packet \<times> bool res" where
  "read_payload data p idx =
     (let body = slice_from idx data;
          p = p\<lparr>pk_payload := body, pk_payload_len := int (length body)\<rparr>
      in (p, bind_res (validate_payload_size (pk_payload_len p)) (\<lambda>_. Inr True)))"

definition read_from :: "bytes \<Rightarrow> packet \<Rightarrow> packet \<times> bool res" where
  "read_from data p =
     seq_st (read_header data (read_reset p)) (\<lambda>p idx.
     seq_st (read_transport_codes data p idx) (\<lambda>p idx.
     seq_st (read_path_len data p idx) (\<lambda>p idx.
     seq_st (read_path data p idx) (\<lambda>p idx.
     read_payload data p idx))))"

section \<open>Hashes and sizes\<close>

definition calculate_packet_hash :: "(bytes \<Rightarrow> bytes) \<Rightarrow> packet \<Rightarrow> bytes res" where
  "calculate_packet_hash sha256 p =
     PacketHashingUtils_calculate_packet_hash sha256 (get_payload_type p) (pk_path_len p)
       (slice_to (pk_payload_len p) (pk_payload p))"

definition get_packet_hash_hex :: "(bytes \<Rightarrow> bytes) \<Rightarrow> int option \<Rightarrow> packet \<Rightarrow> pystr res" where
  "get_packet_hash_hex sha256 len p =
     calculate_packet_hash_string sha256 (get_payload_type p) (pk_path_len p)
       (slice_to (pk_payload_len p) (pk_payload p)) len"

definition get_crc :: "(bytes \<Rightarrow> bytes) \<Rightarrow> packet \<Rightarrow> int res" where
  "get_crc sha256 p =
     calculate_crc sha256 (get_payload_type p) (pk_path_len p)
       (slice_to (pk_payload_len p) (pk_payload p))"

definition get_raw_length :: "packet \<Rightarrow> int" where
  "get_raw_length p =
     (let base_length = 2 + Packet_get_path_byte_len p + pk_payload_len p
      in base_length + (if has_transport_codes p then 4 else 0))"

definition get_snr :: "packet \<Rightarrow> real" where
  "get_snr p = calculate_snr_db (pk_snr p)"

definition mark_do_not_retransmit :: "packet \<Rightarrow> packet" where
  "mark_do_not_retransmit p = p\<lparr>pk_do_not_retransmit := True\<rparr>"

definition is_marked_do_not_retransmit :: "packet \<Rightarrow> bool" where
  "is_marked_do_not_retransmit p = pk_do_not_retransmit p"

lemma packet_hash_total: "get_payload_type p \<noteq> PAYLOAD_TYPE_TRACE \<Longrightarrow> \<exists>h. calculate_packet_hash sha256 p = Inr h"
proof -
  have "to_byte (get_payload_type p) = Inr (word_of_int (get_payload_type p))"
    using payload_type_range [of p] by (intro to_byte_Inr) auto
  then show "get_payload_type p \<noteq> PAYLOAD_TYPE_TRACE \<Longrightarrow> \<exists>h. calculate_packet_hash sha256 p = Inr h"
    by (simp add: calculate_packet_hash_def PacketHashingUtils_calculate_packet_hash_def hash_input_def)
qed

section \<open>The wire format\<close>

text \<open>The bytes of a packet, and the packets that have them.\<close>

definition wire_codes :: "packet \<Rightarrow> bytes" where
  "wire_codes p =
     (if has_transport_codes p
      then le_bytes 2 (fst (pk_transport_codes p)) @ le_bytes 2 (snd (pk_transport_codes p))
      else [])"

definition wire_bytes :: "packet \<Rightarrow> bytes" where
  "wire_bytes p =
     word_of_int (pk_header p) # wire_codes p @ word_of_int (pk_path_len p) # pk_path p @ pk_payload p"

definition codes_ok :: "packet \<Rightarrow> bool" where
  "codes_ok p \<longleftrightarrow>
     (if has_transport_codes p
      then 0 \<le> fst (pk_transport_codes p) \<and> fst (pk_transport_codes p) < 65536
         \<and> 0 \<le> snd (pk_transport_codes p) \<and> snd (pk_transport_codes p) < 65536
      else True)"

definition lengths_ok :: "packet \<Rightarrow> bool" where
  "lengths_ok p \<longleftrightarrow>
     int (length (pk_path p)) = Packet_get_path_byte_len p
     \<and> pk_payload_len p = int (length (pk_payload p)) \<and> length (pk_payload p) \<le> 184"

definition writable :: "packet \<Rightarrow> bool" where
  "writable p \<longleftrightarrow>
     0 \<le> pk_header p \<and> pk_header p < 256 \<and> 0 \<le> pk_path_len p \<and> pk_path_len p < 256
     \<and> codes_ok p \<and> lengths_ok p"

lemma write_to_iff: "write_to p = Inr d \<longleftrightarrow> writable p \<and> d = wire_bytes p"
proof -
  have len: "validate_lengths p = Inr u \<and> Packet_validate_payload_size p = Inr u \<longleftrightarrow> lengths_ok p" for u
    by (auto simp: validate_lengths_def validate_buffer_lengths_def Packet_validate_payload_size_def
        validate_payload_size_def lengths_ok_def size_defs)
  have codes: "write_transport_codes p = Inr c \<longleftrightarrow> codes_ok p \<and> c = wire_codes p" for c
    by (auto simp: write_transport_codes_def codes_ok_def wire_codes_def res_simps)
  have byte: "to_byte i = Inr b \<longleftrightarrow> 0 \<le> i \<and> i < 256 \<and> b = word_of_int i" for i b
    by (auto simp: to_byte_def)
  have "write_to p = Inr d \<longleftrightarrow>
      (validate_lengths p = Inr () \<and> Packet_validate_payload_size p = Inr ()) \<and> codes_ok p
      \<and> 0 \<le> pk_header p \<and> pk_header p < 256 \<and> 0 \<le> pk_path_len p \<and> pk_path_len p < 256
      \<and> d = word_of_int (pk_header p) # wire_codes p @ word_of_int (pk_path_len p)
              # slice_to (Packet_get_path_byte_len p) (pk_path p)
              @ slice_to (pk_payload_len p) (pk_payload p)"
    by (auto simp: write_to_def bind_res_eq_Inr codes byte)
  also have "\<dots> \<longleftrightarrow> writable p \<and> d = wire_bytes p"
    unfolding len writable_def wire_bytes_def
    by (auto simp: lengths_ok_def simp flip: slice_to_length)
  finally show ?thesis .
qed

lemma get_raw_length_wire: "writable p \<Longrightarrow> get_raw_length p = int (length (wire_bytes p))"
  by (auto simp: get_raw_length_def wire_bytes_def wire_codes_def writable_def lengths_ok_def Let_def)

section \<open>Parsing\<close>

definition parsed :: "byte \<Rightarrow> bytes \<Rightarrow> byte \<Rightarrow> bytes \<Rightarrow> bytes \<Rightarrow> packet \<Rightarrow> packet" where
  "parsed h codes pl pth body p =
     (read_reset p)\<lparr>pk_header := uint h,
       pk_transport_codes := (le_int (take 2 codes), le_int (drop 2 codes)),
       pk_path_len := uint pl, pk_path := pth, pk_payload := body,
       pk_payload_len := int (length body)\<rparr>"

definition frame_ok :: "byte \<Rightarrow> bytes \<Rightarrow> byte \<Rightarrow> bytes \<Rightarrow> bytes \<Rightarrow> bool" where
  "frame_ok h codes pl pth body \<longleftrightarrow>
     uint h div 64 = 0
     \<and> length codes = (if uint h mod 4 = 0 \<or> uint h mod 4 = 3 then 4 else 0)
     \<and> is_valid_path_len (uint pl) \<and> int (length pth) = get_path_byte_len (uint pl)
     \<and> length body \<le> 184"

lemma path_byte_len_nonneg: "0 \<le> get_path_byte_len (uint (b :: byte))"
proof -
  have "0 \<le> uint b div 64 + 1" by (simp add: pos_imp_zdiv_nonneg_iff)
  then show ?thesis by (simp add: path_len_arith)
qed

lemma int_div_small: "0 \<le> (x :: int) \<Longrightarrow> x < 256 \<Longrightarrow> x div 64 mod 4 = 0 \<Longrightarrow> x div 64 = 0"
proof -
  assume "0 \<le> x" "x < 256" "x div 64 mod 4 = 0"
  moreover from this have "0 \<le> x div 64" "x div 64 < 4" by (auto simp: pos_imp_zdiv_nonneg_iff)
  ultimately show ?thesis by simp
qed

lemma drop_6_Cons: "drop (6 + n) (a # b # c # d # e # f # xs) = drop n xs"
  by (simp add: numeral_eq_Suc)

lemmas read_defs = read_header_def read_transport_codes_def read_path_len_def read_path_def
  read_payload_def seq_st_def check_bounds_def validate_packet_bounds_def
  validate_payload_size_def

lemma read_from_frame:
  assumes "frame_ok h codes pl pth body"
  shows "read_from (h # codes @ pl # pth @ body) p = (parsed h codes pl pth body p, Inr True)"
proof -
  note ok = assms [unfolded frame_ok_def]
  define n where "n = get_path_byte_len (uint pl)"
  have n: "int (length pth) = n" "0 \<le> n" "nat n = length pth"
    using ok path_byte_len_nonneg [of pl] by (auto simp: n_def)
  have ver: "uint h div 64 mod 4 = 0" using ok by simp
  show ?thesis
  proof (cases "uint h mod 4 = 0 \<or> uint h mod 4 = 3")
    case True
    with ok obtain a b c d where "codes = [a, b, c, d]"
      by (auto simp: length_Suc_conv numeral_eq_Suc)
    with ok True ver n show ?thesis
      by (simp add: read_from_def read_defs parsed_def accessor_arith route_arith version_defs
          index_res_def packet_path_defs n_def [symmetric] size_defs nat_add_distrib Let_def drop_6_Cons)
  next
    case False
    with ok have "codes = []" by simp
    with ok False ver n show ?thesis
      by (simp add: read_from_def read_defs parsed_def accessor_arith route_arith version_defs
          index_res_def packet_path_defs n_def [symmetric] size_defs nat_add_distrib Let_def)
  qed
qed


lemma read_from_frame_parts:
  assumes "read_from data p = (q, Inr r)"
  shows "\<exists>h codes pl pth body. frame_ok h codes pl pth body \<and> data = h # codes @ pl # pth @ body"
proof -
  obtain h rest where data: "data = h # rest"
    using assms by (cases data) (auto simp: read_from_def read_defs)
  have ver: "uint h div 64 mod 4 = 0"
    using assms data by (auto simp: read_from_def read_defs accessor_arith version_defs Let_def
        not_less order_antisym split: if_splits)
  have h64: "uint h div 64 = 0"
    by (rule int_div_small [OF uint_byte_ge uint_byte_less ver])
  define k where "k = (if uint h mod 4 = 0 \<or> uint h mod 4 = 3 then 4 else 0 :: nat)"
  have k: "k < length rest"
    using assms data ver by (auto simp: read_from_def read_defs accessor_arith route_arith
        version_defs Let_def k_def check_def split: if_splits prod.splits sum.splits)
  define codes pl body where "codes = take k rest" and "pl = rest ! k" and "body = drop (Suc k) rest"
  have rest: "rest = codes @ pl # body" and lc: "length codes = k"
    using k by (auto simp: codes_def pl_def body_def Cons_nth_drop_Suc)
  define n where "n = nat (get_path_byte_len (uint pl))"
  have n: "get_path_byte_len (uint pl) = int n"
    using path_byte_len_nonneg [of pl] by (simp add: n_def)
  have "is_valid_path_len (uint pl) \<and> n \<le> length body \<and> length body - n \<le> 184"
  proof (cases "uint h mod 4 = 0 \<or> uint h mod 4 = 3")
    case True
    then have "k = 4" by (simp add: k_def)
    then obtain a b c d where "codes = [a, b, c, d]"
      using lc by (auto simp: length_Suc_conv numeral_eq_Suc)
    with assms data rest ver True n show ?thesis
      by (auto simp: read_from_def read_defs accessor_arith route_arith version_defs index_res_def
          packet_path_defs size_defs Let_def nat_add_distrib check_def
          split: if_splits prod.splits sum.splits)
  next
    case False
    then have "codes = []" using lc by (simp add: k_def)
    with assms data rest ver False n show ?thesis
      by (auto simp: read_from_def read_defs accessor_arith route_arith version_defs index_res_def
          packet_path_defs size_defs Let_def nat_add_distrib check_def
          split: if_splits prod.splits sum.splits)
  qed
  then have "frame_ok h codes pl (take n body) (drop n body)"
    using h64 lc n by (auto simp: frame_ok_def k_def)
  then show ?thesis
    using data rest by (metis append_take_drop_id)
qed

lemma read_from_success:
  assumes "read_from data p = (q, Inr r)"
  obtains h codes pl pth body
  where "frame_ok h codes pl pth body" and "data = h # codes @ pl # pth @ body"
    and "q = parsed h codes pl pth body p" and "r = True"
  using read_from_frame_parts [OF assms] assms read_from_frame [of _ _ _ _ _ p] by fastforce


text \<open>What every parsed packet satisfies, and what of a packet goes on the wire.\<close>

definition sendable :: "packet \<Rightarrow> bool" where
  "sendable p \<longleftrightarrow> writable p \<and> get_payload_ver p = 0 \<and> is_valid_path_len (pk_path_len p)"

definition wire_into :: "packet \<Rightarrow> packet \<Rightarrow> packet" where
  "wire_into p q =
     (read_reset q)\<lparr>pk_header := pk_header p,
       pk_transport_codes := (if has_transport_codes p then pk_transport_codes p else (0, 0)),
       pk_path_len := pk_path_len p, pk_path := pk_path p, pk_payload := pk_payload p,
       pk_payload_len := pk_payload_len p\<rparr>"

lemma sendable_frame:
  assumes "sendable p"
  shows "frame_ok (word_of_int (pk_header p)) (wire_codes p) (word_of_int (pk_path_len p))
           (pk_path p) (pk_payload p)"
    and "parsed (word_of_int (pk_header p)) (wire_codes p) (word_of_int (pk_path_len p))
           (pk_path p) (pk_payload p) q = wire_into p q"
proof -
  from assms have h: "0 \<le> pk_header p" "pk_header p < 256" "pk_header p div 64 mod 4 = 0"
    and l: "0 \<le> pk_path_len p" "pk_path_len p < 256" "is_valid_path_len (pk_path_len p)"
    and c: "codes_ok p" and len: "lengths_ok p"
    by (auto simp: sendable_def writable_def accessor_arith)
  have h0: "pk_header p div 64 = 0" using h by (rule int_div_small)
  show "frame_ok (word_of_int (pk_header p)) (wire_codes p) (word_of_int (pk_path_len p))
           (pk_path p) (pk_payload p)"
    using h h0 l len by (auto simp: frame_ok_def uint_byte_of_int wire_codes_def route_arith
        lengths_ok_def packet_path_defs)
  show "parsed (word_of_int (pk_header p)) (wire_codes p) (word_of_int (pk_path_len p))
           (pk_path p) (pk_payload p) q = wire_into p q"
    using h l len c
    by (auto simp: parsed_def wire_into_def uint_byte_of_int wire_codes_def codes_ok_def
        lengths_ok_def byte_simps prod_eq_iff)
qed

lemma read_write:
  assumes "sendable p"
  shows "write_to p = Inr (wire_bytes p)"
    and "read_from (wire_bytes p) q = (wire_into p q, Inr True)"
  using assms read_from_frame [OF sendable_frame(1) [OF assms], of q] sendable_frame(2) [OF assms]
  by (simp_all add: write_to_iff sendable_def wire_bytes_def)

lemma parsed_sendable:
  assumes "frame_ok h codes pl pth body"
  shows "sendable (parsed h codes pl pth body p)"
    and "wire_bytes (parsed h codes pl pth body p) = h # codes @ pl # pth @ body"
    and "wire_into (parsed h codes pl pth body p) p = parsed h codes pl pth body p"
proof -
  let ?q = "parsed h codes pl pth body p"
  have rt: "has_transport_codes ?q \<longleftrightarrow> length codes = 4"
    using assms by (auto simp: frame_ok_def parsed_def route_arith)
  have codes: "wire_codes ?q = codes" and cok: "codes_ok ?q"
  proof -
    show "wire_codes ?q = codes"
    proof (cases "length codes = 4")
      case True
      then have "le_bytes 2 (le_int (take 2 codes)) = take 2 codes"
        and "le_bytes 2 (le_int (drop 2 codes)) = drop 2 codes"
        using le_bytes_le_int [of "take 2 codes"] le_bytes_le_int [of "drop 2 codes"] by auto
      with True rt show ?thesis by (simp add: wire_codes_def) (simp add: parsed_def)
    next
      case False
      with assms have "codes = []" by (auto simp: frame_ok_def split: if_splits)
      with rt show ?thesis by (simp add: wire_codes_def)
    qed
    show "codes_ok ?q"
      using le_int_less [of "take 2 codes"] le_int_less [of "drop 2 codes"] rt
      by (auto simp: codes_ok_def) (auto simp: parsed_def)
  qed
  show "wire_bytes ?q = h # codes @ pl # pth @ body"
    unfolding wire_bytes_def codes by (simp add: parsed_def)
  show "sendable ?q"
    using assms cok
    by (auto simp: sendable_def writable_def lengths_ok_def packet_path_defs accessor_arith frame_ok_def)
      (auto simp: parsed_def)
  show "wire_into ?q p = ?q"
  proof (cases "length codes = 4")
    case True
    with rt show ?thesis by (simp add: wire_into_def) (simp add: parsed_def)
  next
    case False
    with assms have "codes = []" by (auto simp: frame_ok_def split: if_splits)
    with rt show ?thesis by (simp add: wire_into_def) (simp add: parsed_def)
  qed
qed

lemma read_from_sendable:
  assumes "read_from data p = (q, Inr r)"
  shows "sendable q" and "write_to q = Inr data" and "wire_into q p = q" and "r = True"
proof -
  obtain h codes pl pth body where ok: "frame_ok h codes pl pth body"
    and data: "data = h # codes @ pl # pth @ body"
    and q: "q = parsed h codes pl pth body p" and r: "r = True"
    using read_from_success [OF assms] by blast
  note s = parsed_sendable [OF ok, of p]
  show "sendable q" "wire_into q p = q" "r = True" using s q r by simp_all
  show "write_to q = Inr data"
    using s read_write(1) [OF s(1)] by (simp add: q data)
qed

text \<open>A freshly constructed packet that parses a frame, as every receive path does.\<close>

definition parse_packet :: "bytes \<Rightarrow> packet res" where
  "parse_packet data =
     (case read_from data new_packet of (p, Inl e) \<Rightarrow> Inl e | (p, Inr _) \<Rightarrow> Inr p)"

lemma parse_packet_eq:
  "parse_packet data = Inr p \<longleftrightarrow> read_from data new_packet = (p, Inr True)"
  by (auto simp: parse_packet_def dest: read_from_sendable(4) split: prod.splits sum.splits)

interpretation packet_codec:
  exact_codec write_to parse_packet "\<lambda>p. wire_into p new_packet" sendable
proof unfold_locales
  fix p w
  assume "sendable p" and "write_to p = Inr w"
  then show "parse_packet w = Inr (wire_into p new_packet)"
    using read_write(1) [of p] read_write(2) [of p new_packet] by (simp add: parse_packet_eq)
next
  fix w v
  assume "parse_packet w = Inr v"
  then have "read_from w new_packet = (v, Inr True)" by (simp add: parse_packet_eq)
  from read_from_sendable [OF this]
  show "\<exists>p. sendable p \<and> wire_into p new_packet = v \<and> write_to p = Inr w" by blast
qed


text \<open>
  C1: A packet that is ready to send (a header of the supported version, a valid path_len byte,
  path and payload buffers of the announced lengths, transport codes in range when the route
  carries them) serialises, to as many bytes as \<open>get_raw_length\<close> says, and whatever packet
  object reads those bytes ends up with exactly the fields that were sent; transport codes of a
  route that carries none are read as zero.
\<close>

theorem packet_wire_roundtrip:
  assumes "sendable p"
  shows "\<exists>w. write_to p = Inr w \<and> int (length w) = get_raw_length p
           \<and> read_from w q = (wire_into p q, Inr True)"
  using read_write [OF assms] get_raw_length_wire [of p] assms by (auto simp: sendable_def)

definition sample_packet :: packet where
  "sample_packet = new_packet\<lparr>pk_header := 20, pk_path_len := 65, pk_path := [7, 9],
     pk_payload := [1, 2, 3], pk_payload_len := 3, pk_transport_codes := (513, 4)\<rparr>"

lemma sample_packet_sendable: "sendable sample_packet"
  by (simp add: sample_packet_def new_packet_def sendable_def writable_def codes_ok_def lengths_ok_def
      route_arith accessor_arith is_valid_path_len_arith packet_path_defs path_len_arith)

theorem packet_wire_roundtrip_witness:
  "sendable sample_packet \<and>
   (\<exists>w. write_to sample_packet = Inr w \<and> int (length w) = get_raw_length sample_packet
      \<and> read_from w new_packet = (wire_into sample_packet new_packet, Inr True))"
  by (intro conjI sample_packet_sendable packet_wire_roundtrip)

text \<open>
  C26: Parsing accepts no byte string but the serialisations of packets that are ready to send:
  a frame that \<open>read_from\<close> accepts is reproduced byte for byte by \<open>write_to\<close>, and its
  length never exceeds the transport unit of 255 bytes.
\<close>

theorem read_from_reserialises:
  assumes "read_from data p = (q, Inr r)"
  shows "sendable q \<and> write_to q = Inr data \<and> length data \<le> 255"
proof -
  obtain h codes pl pth body where ok: "frame_ok h codes pl pth body"
    and data: "data = h # codes @ pl # pth @ body"
    by (rule read_from_success [OF assms])
  from ok have "length pth \<le> 64" "length codes \<le> 4" "length body \<le> 184"
    unfolding frame_ok_def is_valid_path_len_arith path_len_arith by (linarith, simp, linarith)
  then have "length data \<le> 255" by (simp add: data)
  with read_from_sendable [OF assms] show ?thesis by simp
qed

theorem read_from_reserialises_witness:
  "\<exists>q. read_from [21, 1, 7, 1, 2] new_packet = (q, Inr True) \<and> sendable q
     \<and> write_to q = Inr [21, 1, 7, 1, 2]"
proof -
  have "frame_ok 21 [] 1 [7] [1, 2]"
    by (simp add: frame_ok_def is_valid_path_len_arith path_len_arith)
  from read_from_frame [OF this, of new_packet] obtain q
    where q: "read_from [21, 1, 7, 1, 2] new_packet = (q, Inr True)" by simp
  from read_from_reserialises [OF q] have "sendable q" "write_to q = Inr [21, 1, 7, 1, 2]"
    by (rule conjunct1, elim conjE)
  with q show ?thesis by (intro exI [of _ q] conjI)
qed

text \<open>
  Serialisation fails exactly on the packets whose header or path_len is no byte, whose
  transport codes are needed and do not fit 16 bits, or whose buffers disagree with the lengths
  they announce or exceed the payload limit; and no two packets that are ready to send and differ
  in what they put on the wire share a serialisation.
\<close>

lemma res_cases: "(\<exists>e. x = Inl e) \<longleftrightarrow> \<not> (\<exists>y. x = Inr y)"
  by (cases x) auto

lemma write_to_total_injective:
  "((\<exists>e. write_to p = Inl e) \<longleftrightarrow> \<not> writable p)
   \<and> (sendable p \<and> sendable q \<and> write_to p = write_to q
      \<longrightarrow> wire_into p new_packet = wire_into q new_packet)"
proof -
  have "(\<exists>e. write_to p = Inl e) \<longleftrightarrow> \<not> writable p"
    unfolding res_cases write_to_iff by simp
  moreover have "wire_into p new_packet = wire_into q new_packet"
    if "sendable p" "sendable q" "write_to p = write_to q"
    by (rule packet_codec.enc_inj [OF that(1,2) read_write(1) [OF that(1)]])
      (simp add: that(3) [symmetric] read_write(1) [OF that(1)])
  ultimately show ?thesis by blast
qed

end
