(* ===== verification/Crypto.thy ===== *)
theory Crypto
  imports Constants Interfaces
begin

text \<open>
  \<open>protocol/crypto.py\<close>: the encrypt-then-MAC envelope that every encrypted payload uses, and
  the key conversions. The primitives come from other packages (\<open>hashlib\<close>, \<open>hmac\<close>,
  pycryptodome's AES, libsodium): they are the fields of the record \<open>crypto\<close>, an argument of
  every definition that uses one. What the code relies on is the predicate \<open>crypto_laws\<close>:
  digest sizes, the key sizes that AES accepts, and that ECB mode works block by block and
  invertibly. The laws are hypotheses of the theorems that need them; \<open>toy_crypto\<close> shows that
  they can hold.
\<close>

record aes_cipher =
  ac_encrypt :: "bytes \<Rightarrow> bytes res"
  ac_decrypt :: "bytes \<Rightarrow> bytes res"

record crypto =
  cr_sha256 :: "bytes \<Rightarrow> bytes"
  cr_sha512 :: "bytes \<Rightarrow> bytes"
  cr_hmac_sha256 :: "bytes \<Rightarrow> bytes \<Rightarrow> bytes"
  cr_aes_new_ecb :: "bytes \<Rightarrow> aes_cipher res"
  cr_scalarmult :: "bytes \<Rightarrow> bytes \<Rightarrow> bytes res"
  cr_scalarmult_base :: "bytes \<Rightarrow> bytes res"
  cr_scalarmult_ed25519_base_noclamp :: "bytes \<Rightarrow> bytes res"
  cr_ed25519_pk_to_curve25519 :: "bytes \<Rightarrow> bytes res"
  cr_ed25519_sk_to_curve25519 :: "bytes \<Rightarrow> bytes res"
  cr_verify_key :: "bytes \<Rightarrow> unit res"
  cr_verify :: "bytes \<Rightarrow> bytes \<Rightarrow> bytes \<Rightarrow> unit res"
  cr_signing_key_public :: "bytes \<Rightarrow> bytes res"
  cr_sign :: "bytes \<Rightarrow> bytes \<Rightarrow> bytes res"
  cr_scalar_reduce :: "bytes \<Rightarrow> bytes res"
  cr_scalar_mul :: "bytes \<Rightarrow> bytes \<Rightarrow> bytes res"
  cr_scalar_add :: "bytes \<Rightarrow> bytes \<Rightarrow> bytes res"

section \<open>The cipher envelope\<close>

definition block_pad :: "nat \<Rightarrow> nat" where
  "block_pad n = (CIPHER_BLOCK_SIZE - n mod CIPHER_BLOCK_SIZE) mod CIPHER_BLOCK_SIZE"

definition aes_encrypt :: "crypto \<Rightarrow> bytes \<Rightarrow> bytes \<Rightarrow> bytes res" where
  "aes_encrypt c key data =
     bind_res (cr_aes_new_ecb c key) (\<lambda>cipher.
     let pad_len = block_pad (length data);
         data = (if 0 < pad_len then data @ replicate pad_len 0 else data)
     in ac_encrypt cipher data)"

text \<open>The slices \<open>ciphertext[i : i + CIPHER_BLOCK_SIZE]\<close> of the decryption loop.\<close>

function cipher_blocks :: "bytes \<Rightarrow> bytes list" where
  "cipher_blocks xs =
     (if xs = [] then []
      else take CIPHER_BLOCK_SIZE xs # cipher_blocks (drop CIPHER_BLOCK_SIZE xs))"
  by auto
termination
  by (relation "measure length") (auto simp: CIPHER_BLOCK_SIZE_def)

declare cipher_blocks.simps [simp del]

definition aes_decrypt :: "crypto \<Rightarrow> bytes \<Rightarrow> bytes \<Rightarrow> bytes res" where
  "aes_decrypt c key ciphertext =
     bind_res (cr_aes_new_ecb c key) (\<lambda>cipher.
     let orig_len = length ciphertext;
         ciphertext =
           (if orig_len mod CIPHER_BLOCK_SIZE \<noteq> 0
            then ciphertext @ replicate (CIPHER_BLOCK_SIZE - orig_len mod CIPHER_BLOCK_SIZE) 0
            else ciphertext)
     in bind_res (map_res (ac_decrypt cipher) (cipher_blocks ciphertext)) (\<lambda>out.
        Inr (take orig_len (concat out))))"

definition encrypt_then_mac :: "crypto \<Rightarrow> bytes \<Rightarrow> bytes \<Rightarrow> bytes \<Rightarrow> bytes res" where
  "encrypt_then_mac c key_aes shared_secret plaintext =
     bind_res (aes_encrypt c key_aes plaintext) (\<lambda>ciphertext.
     let mac = take CIPHER_MAC_SIZE (cr_hmac_sha256 c shared_secret ciphertext)
     in Inr (mac @ ciphertext))"

definition mac_then_decrypt :: "crypto \<Rightarrow> bytes \<Rightarrow> bytes \<Rightarrow> bytes \<Rightarrow> bytes res" where
  "mac_then_decrypt c aes_key shared_secret data =
     (if length data \<le> CIPHER_MAC_SIZE
      then Inl (ValueError ''Data too short to contain MAC + ciphertext'')
      else let mac = take CIPHER_MAC_SIZE data;
               ciphertext = drop CIPHER_MAC_SIZE data;
               expected_mac = take CIPHER_MAC_SIZE (cr_hmac_sha256 c shared_secret ciphertext)
           in if mac \<noteq> expected_mac then Inl (ValueError ''Invalid HMAC'')
              else aes_decrypt c aes_key ciphertext)"

section \<open>Key formats\<close>

definition x25519_clamp_scalar :: "bytes \<Rightarrow> bytes res" where
  "x25519_clamp_scalar scalar =
     (if length scalar \<noteq> 32 then Inl (ValueError ''scalar must be 32 bytes'')
      else let s = scalar[0 := scalar ! 0 AND 248];
               s = s[31 := s ! 31 AND 63];
               s = s[31 := s ! 31 OR 64]
           in Inr s)"

definition ed25519_expand_seed_to_meshcore_64 :: "crypto \<Rightarrow> bytes \<Rightarrow> bytes res" where
  "ed25519_expand_seed_to_meshcore_64 c seed =
     (if length seed \<noteq> 32 then Inl (ValueError ''seed must be 32 bytes'')
      else let h = cr_sha512 c seed
           in bind_res (x25519_clamp_scalar (take 32 h)) (\<lambda>s. Inr (s @ take 32 (drop 32 h))))"

definition ed25519_public_from_meshcore_64 :: "crypto \<Rightarrow> bytes \<Rightarrow> bytes res" where
  "ed25519_public_from_meshcore_64 c meshcore_private_64 =
     (if length meshcore_private_64 \<noteq> 64
      then Inl (ValueError ''meshcore_private_64 must be 64 bytes'')
      else cr_scalarmult_ed25519_base_noclamp c (take 32 meshcore_private_64))"

definition scalarmult :: "crypto \<Rightarrow> bytes \<Rightarrow> bytes \<Rightarrow> bytes res" where
  "scalarmult c private_key public_key = cr_scalarmult c private_key public_key"

definition scalarmult_base :: "crypto \<Rightarrow> bytes \<Rightarrow> bytes res" where
  "scalarmult_base c private_key = cr_scalarmult_base c private_key"

definition ed25519_pk_to_x25519 :: "crypto \<Rightarrow> bytes \<Rightarrow> bytes res" where
  "ed25519_pk_to_x25519 c pk = cr_ed25519_pk_to_curve25519 c pk"

definition ed25519_sk_to_x25519 :: "crypto \<Rightarrow> bytes \<Rightarrow> bytes res" where
  "ed25519_sk_to_x25519 c sk = cr_ed25519_sk_to_curve25519 c sk"

section \<open>What the primitives promise\<close>

text \<open>Documented behaviour of AES in ECB mode for one key.\<close>

definition ecb_cipher :: "aes_cipher \<Rightarrow> bool" where
  "ecb_cipher cipher \<longleftrightarrow>
     ac_encrypt cipher [] = Inr []
     \<and> (\<forall>b. length b = 16 \<longrightarrow>
          (\<exists>e. ac_encrypt cipher b = Inr e \<and> length e = 16 \<and> ac_decrypt cipher e = Inr b))
     \<and> (\<forall>e. length e = 16 \<longrightarrow> (\<exists>b. ac_decrypt cipher e = Inr b \<and> length b = 16))
     \<and> (\<forall>b rest eb er. length b = 16 \<longrightarrow> ac_encrypt cipher b = Inr eb \<longrightarrow>
          ac_encrypt cipher rest = Inr er \<longrightarrow> ac_encrypt cipher (b @ rest) = Inr (eb @ er))"

definition crypto_laws :: "crypto \<Rightarrow> bool" where
  "crypto_laws c \<longleftrightarrow>
     (\<forall>m. length (cr_sha256 c m) = 32) \<and> (\<forall>m. length (cr_sha512 c m) = 64)
     \<and> (\<forall>k m. length (cr_hmac_sha256 c k m) = 32)
     \<and> (\<forall>k. length k \<in> {16, 24, 32} \<longrightarrow> (\<exists>cipher. cr_aes_new_ecb c k = Inr cipher \<and> ecb_cipher cipher))"

lemma cipher_blocks_simps:
  "cipher_blocks [] = []"
  "length b = 16 \<Longrightarrow> cipher_blocks (b @ xs) = b # cipher_blocks xs"
  by (subst cipher_blocks.simps, simp)
    (subst cipher_blocks.simps, auto simp: CIPHER_BLOCK_SIZE_def)

lemma aligned_cases:
  assumes "16 dvd length (xs :: 'a list)"
  obtains "xs = []" | b rest where "xs = b @ rest" "length b = 16" "16 dvd length rest"
proof (cases xs)
  case Nil
  then show thesis by (rule that(1))
next
  case Cons
  with assms have "16 \<le> length xs" by (intro dvd_imp_le) auto
  then show thesis
    using that(2) [of "take 16 xs" "drop 16 xs"] assms by (simp add: dvd_diff_nat)
qed

lemma aligned_induct [consumes 1, case_names Nil Block]:
  assumes "16 dvd length (xs :: 'a list)"
    and "P []"
    and "\<And>b rest. length b = 16 \<Longrightarrow> 16 dvd length rest \<Longrightarrow> P rest \<Longrightarrow> P (b @ rest)"
  shows "P xs"
  using assms(1)
proof (induction xs rule: length_induct)
  case (1 xs)
  from 1(2) show ?case
  proof (cases rule: aligned_cases)
    case 1
    then show ?thesis using assms(2) by simp
  next
    case (2 b rest)
    then have "length rest < length xs" by auto
    with 1 2 show ?thesis using assms(3) by blast
  qed
qed

lemma ecb_roundtrip:
  assumes "ecb_cipher cipher" and "16 dvd length data"
  shows "\<exists>ct ps. ac_encrypt cipher data = Inr ct \<and> length ct = length data
           \<and> map_res (ac_decrypt cipher) (cipher_blocks ct) = Inr ps \<and> concat ps = data"
  using assms(2)
proof (induction data rule: aligned_induct)
  case Nil
  from assms(1) show ?case by (simp add: ecb_cipher_def cipher_blocks_simps)
next
  case (Block b rest)
  from Block(3) obtain ct ps where rest: "ac_encrypt cipher rest = Inr ct" "length ct = length rest"
    "map_res (ac_decrypt cipher) (cipher_blocks ct) = Inr ps" "concat ps = rest" by blast
  from assms(1) Block(1) obtain e where e: "ac_encrypt cipher b = Inr e" "length e = 16"
    "ac_decrypt cipher e = Inr b" unfolding ecb_cipher_def by blast
  have "ac_encrypt cipher (b @ rest) = Inr (e @ ct)"
    using assms(1) Block(1) e(1) rest(1) unfolding ecb_cipher_def by blast
  with e rest Block(1) show ?case
    by (intro exI [of _ "e @ ct"] exI [of _ "b # ps"]) (simp add: cipher_blocks_simps)
qed

lemma ecb_decrypt_total:
  assumes "ecb_cipher cipher" and "16 dvd length ct"
  shows "\<exists>ps. map_res (ac_decrypt cipher) (cipher_blocks ct) = Inr ps \<and> length (concat ps) = length ct"
  using assms(2)
proof (induction ct rule: aligned_induct)
  case Nil
  show ?case by (simp add: cipher_blocks_simps)
next
  case (Block e rest)
  from assms(1) Block(1) obtain b where "ac_decrypt cipher e = Inr b" "length b = 16"
    unfolding ecb_cipher_def by blast
  with Block show ?case by (auto simp: cipher_blocks_simps)
qed

lemma block_pad_cases:
  "block_pad n = (if n mod 16 = 0 then 0 else 16 - n mod 16)"
  by (simp add: block_pad_def CIPHER_BLOCK_SIZE_def)

lemma block_pad_less: "block_pad n < 16"
  by (simp add: block_pad_cases)

lemma block_pad_aligned: "16 dvd n + block_pad n"
proof (cases "n mod 16 = 0")
  case True
  then show ?thesis by (simp add: block_pad_cases dvd_eq_mod_eq_0)
next
  case False
  have "n mod 16 < 16" by simp
  with False have "n + block_pad n = (n - n mod 16) + 16" by (simp add: block_pad_cases)
  moreover have "16 dvd n - n mod 16" by (rule dvd_minus_mod)
  ultimately show ?thesis by (simp only: dvd_add_triv_right_iff)
qed

lemma padded_eq: "(if 0 < block_pad n then xs @ replicate (block_pad n) z else xs)
    = xs @ replicate (block_pad n) z"
  by simp

lemma encrypt_then_mac_ok:
  assumes "crypto_laws c" and "length key \<in> {16, 24, 32}"
  shows "\<exists>ct. encrypt_then_mac c key ss pt = Inr (take 2 (cr_hmac_sha256 c ss ct) @ ct)
           \<and> length ct = length pt + block_pad (length pt)
           \<and> aes_decrypt c key ct = Inr (pt @ replicate (block_pad (length pt)) 0)"
proof -
  let ?data = "pt @ replicate (block_pad (length pt)) 0"
  from assms obtain cipher where cipher: "cr_aes_new_ecb c key = Inr cipher" "ecb_cipher cipher"
    unfolding crypto_laws_def by blast
  have "16 dvd length ?data" using block_pad_aligned by simp
  from ecb_roundtrip [OF cipher(2) this] obtain ct ps where
    ct: "ac_encrypt cipher ?data = Inr ct" "length ct = length ?data"
    "map_res (ac_decrypt cipher) (cipher_blocks ct) = Inr ps" "concat ps = ?data" by blast
  have "length ct mod CIPHER_BLOCK_SIZE = 0"
    using ct(2) \<open>16 dvd length ?data\<close> by (simp add: CIPHER_BLOCK_SIZE_def)
  with cipher ct show ?thesis
    by (intro exI [of _ ct])
      (simp add: encrypt_then_mac_def aes_encrypt_def aes_decrypt_def padded_eq Let_def size_defs)
qed

lemma aes_roundtrip:
  assumes "crypto_laws c" and "length key \<in> {16, 24, 32}" and "aes_encrypt c key pt = Inr ct"
  shows "aes_decrypt c key ct = Inr (pt @ replicate (block_pad (length pt)) 0)"
    and "length ct = length pt + block_pad (length pt)"
  using encrypt_then_mac_ok [OF assms(1,2), of "[]" pt] assms
  by (auto simp: encrypt_then_mac_def Let_def size_defs crypto_laws_def)

lemma length_encrypt_then_mac:
  assumes "crypto_laws c" and "length key \<in> {16, 24, 32}" and "encrypt_then_mac c key ss pt = Inr data"
  shows "length data = 2 + length pt + block_pad (length pt)"
  using encrypt_then_mac_ok [OF assms(1,2), of ss pt] assms(1,3) by (auto simp: crypto_laws_def)


lemma mac_then_decrypt_iff:
  "mac_then_decrypt c key ss data = Inr pt \<longleftrightarrow>
     2 < length data \<and> take 2 data = take 2 (cr_hmac_sha256 c ss (drop 2 data))
     \<and> aes_decrypt c key (drop 2 data) = Inr pt"
  by (auto simp: mac_then_decrypt_def size_defs Let_def)

text \<open>Primitives for which the laws hold: byte-wise masking as the cipher, padding as the digests.\<close>

definition toy_digest :: "nat \<Rightarrow> bytes \<Rightarrow> bytes" where
  "toy_digest n m = take n (m @ replicate n 7)"

definition toy_cipher :: aes_cipher where
  "toy_cipher = \<lparr>ac_encrypt = (\<lambda>d. Inr (map (\<lambda>b. b XOR 90) d)),
                 ac_decrypt = (\<lambda>d. Inr (map (\<lambda>b. b XOR 90) d))\<rparr>"

definition toy_crypto :: crypto where
  "toy_crypto =
     \<lparr>cr_sha256 = toy_digest 32, cr_sha512 = toy_digest 64,
      cr_hmac_sha256 = (\<lambda>k m. toy_digest 32 (rev m @ k)),
      cr_aes_new_ecb = (\<lambda>k. if length k \<in> {16, 24, 32} then Inr toy_cipher
                            else Inl (ValueError ''Incorrect AES key length'')),
      cr_scalarmult = (\<lambda>a b. Inr (toy_digest 32 (map2 (XOR) a b))),
      cr_scalarmult_base = (\<lambda>a. Inr a),
      cr_scalarmult_ed25519_base_noclamp = (\<lambda>a. Inr a),
      cr_ed25519_pk_to_curve25519 = (\<lambda>a. Inr a),
      cr_ed25519_sk_to_curve25519 = (\<lambda>a. Inr (take 32 a)),
      cr_verify_key = (\<lambda>k. if length k = 32 then Inr () else Inl (ValueError ''The key must be exactly 32 bytes long'')),
      cr_verify = (\<lambda>k m sig. if sig = toy_digest 64 (k @ m) then Inr () else Inl BadSignatureError),
      cr_signing_key_public = (\<lambda>s. if length s = 32 then Inr s
                                     else Inl (ValueError ''SigningKey must be created from a 32 byte seed'')),
      cr_sign = (\<lambda>s m. Inr (toy_digest 64 (s @ m))),
      cr_scalar_reduce = (\<lambda>a. Inr (take 32 a)),
      cr_scalar_mul = (\<lambda>a b. Inr (map2 (XOR) a b)),
      cr_scalar_add = (\<lambda>a b. Inr (map2 (XOR) a b))\<rparr>"

lemma length_toy_digest: "length (toy_digest n m) = n"
  by (simp add: toy_digest_def min_def)

lemma toy_crypto_laws: "crypto_laws toy_crypto"
proof -
  have "ecb_cipher toy_cipher"
    by (auto simp: ecb_cipher_def toy_cipher_def o_def xor.assoc)
  then show ?thesis
    by (simp add: crypto_laws_def toy_crypto_def length_toy_digest)
qed

text \<open>
  Decryption inverts encryption. For any AES key size, any shared secret and any non-empty
  plaintext, \<open>encrypt_then_mac\<close> succeeds and \<open>mac_then_decrypt\<close> of its output under the
  same keys returns the plaintext followed by fewer than 16 zero bytes of padding; the output is
  the 2-byte MAC and whole cipher blocks. An empty plaintext encrypts to the bare MAC, which
  decryption refuses.
\<close>

lemma encrypt_decrypt_roundtrip:
  assumes "crypto_laws c" and "length key = 16 \<or> length key = 24 \<or> length key = 32"
  shows "\<exists>data. encrypt_then_mac c key ss pt = Inr data
           \<and> length data = 2 + length pt + block_pad (length pt)
           \<and> 16 dvd length pt + block_pad (length pt) \<and> block_pad (length pt) < 16
           \<and> mac_then_decrypt c key ss data =
               (if pt = [] then Inl (ValueError ''Data too short to contain MAC + ciphertext'')
                else Inr (pt @ replicate (block_pad (length pt)) 0))"
proof -
  from assms(2) have key: "length key \<in> {16, 24, 32}" by auto
  from encrypt_then_mac_ok [OF assms(1) key, of ss pt] obtain ct where
    ct: "encrypt_then_mac c key ss pt = Inr (take 2 (cr_hmac_sha256 c ss ct) @ ct)"
    "length ct = length pt + block_pad (length pt)"
    "aes_decrypt c key ct = Inr (pt @ replicate (block_pad (length pt)) 0)" by blast
  have mac: "length (take 2 (cr_hmac_sha256 c ss ct)) = 2"
    using assms(1) by (simp add: crypto_laws_def)
  have "mac_then_decrypt c key ss (take 2 (cr_hmac_sha256 c ss ct) @ ct) =
      (if pt = [] then Inl (ValueError ''Data too short to contain MAC + ciphertext'')
       else Inr (pt @ replicate (block_pad (length pt)) 0))"
    using mac ct(2,3) by (auto simp: mac_then_decrypt_def size_defs Let_def block_pad_cases)
  with ct mac block_pad_aligned block_pad_less show ?thesis by auto
qed

text \<open>
  A received envelope is accepted only with the right MAC: \<open>mac_then_decrypt\<close> raises
  unless the first two bytes are the truncated HMAC of the rest, so an envelope that differs from
  an accepted one in its MAC bytes only is refused; and whatever it accepts, aligned to cipher
  blocks or not, decrypts to exactly as many bytes as the ciphertext has.
\<close>

lemma mac_then_decrypt_authentic:
  assumes "crypto_laws c" and "length key = 16 \<or> length key = 24 \<or> length key = 32"
    and "length mac = 2" and "ct \<noteq> []"
  shows "if mac = take 2 (cr_hmac_sha256 c ss ct)
         then \<exists>pt. mac_then_decrypt c key ss (mac @ ct) = Inr pt \<and> length pt = length ct
         else mac_then_decrypt c key ss (mac @ ct) = Inl (ValueError ''Invalid HMAC'')"
proof (cases "mac = take 2 (cr_hmac_sha256 c ss ct)")
  case True
  from assms(1,2) obtain cipher where cipher: "cr_aes_new_ecb c key = Inr cipher" "ecb_cipher cipher"
    unfolding crypto_laws_def by blast
  let ?padded = "ct @ replicate (block_pad (length ct)) 0"
  have "16 dvd length ?padded" using block_pad_aligned by simp
  from ecb_decrypt_total [OF cipher(2) this] obtain ps where
    ps: "map_res (ac_decrypt cipher) (cipher_blocks ?padded) = Inr ps"
    "length (concat ps) = length ?padded" by blast
  have pad: "(if length ct mod 16 \<noteq> 0 then ct @ replicate (16 - length ct mod 16) 0 else ct) = ?padded"
    by (simp add: block_pad_cases)
  have "aes_decrypt c key ct = Inr (take (length ct) (concat ps))"
    unfolding aes_decrypt_def CIPHER_BLOCK_SIZE_def Let_def by (simp only: pad cipher bind_res_simps ps)
  with ps(2) True assms(3,4) show ?thesis by (simp add: mac_then_decrypt_iff)
next
  case False
  with assms(3,4) show ?thesis by (simp add: mac_then_decrypt_def size_defs Let_def)
qed

end
