(* ===== verification/Transport_Keys.thy ===== *)
theory Transport_Keys
  imports Packet Crypto
begin

text \<open>
  \<open>protocol/transport_keys.py\<close>: region keys, transport codes, and the scoping of a flood. The
  lemmas say when a code is computed, that it avoids the two reserved values, and that scoping
  leaves everything a code depends on as it was, so that the receiver computes the same code.
\<close>

definition get_auto_key_for :: "crypto \<Rightarrow> pystr \<Rightarrow> bytes res" where
  "get_auto_key_for c name =
     (if name = [] then Inl (ValueError ''Region name cannot be empty'')
      else let canonical_name = (if hd name = 35 then name else 35 # name)
           in if 64 < length canonical_name
              then Inl (ValueError ''Region name is too long (max 64 characters)'')
              else bind_res (ascii_encode canonical_name) (\<lambda>bs.
                   let key_hash = cr_sha256 c bs in Inr (take 16 key_hash)))"

definition reserve_code :: "int \<Rightarrow> int" where
  "reserve_code code = (if code = 0 then 1 else if code = 0xFFFF then 0xFFFE else code)"

text \<open>\<open>struct.unpack("<H", ...)\<close> refuses anything but two bytes.\<close>

definition unpack_u16 :: "bytes \<Rightarrow> int res" where
  "unpack_u16 bs = (if length bs = 2 then Inr (le_int bs) else Inl StructError)"

definition calc_transport_code :: "crypto \<Rightarrow> bytes \<Rightarrow> packet \<Rightarrow> int res" where
  "calc_transport_code c key p =
     (if length key \<noteq> 16 then Inl (ValueError ''Transport key must be 16 bytes'')
      else bind_res (to_byte (get_payload_type p)) (\<lambda>t.
           let hmac_data = [t] @ get_payload p;
               hmac_digest = cr_hmac_sha256 c key hmac_data
           in bind_res (unpack_u16 (take 2 hmac_digest)) (\<lambda>code. Inr (reserve_code code))))"

definition scope_packet :: "crypto \<Rightarrow> bytes \<Rightarrow> packet \<Rightarrow> packet res" where
  "scope_packet c key p =
     bind_res (calc_transport_code c key p) (\<lambda>code.
     Inr (p\<lparr>pk_transport_codes := (code, 0),
            pk_header := (pk_header p AND NOT 3) OR ROUTE_TYPE_TRANSPORT_FLOOD\<rparr>))"

section \<open>Codes and scoping\<close>

lemma transport_code_depends:
  assumes "get_payload_type p = get_payload_type q" and "get_payload p = get_payload q"
  shows "calc_transport_code c key p = calc_transport_code c key q"
  by (simp add: calc_transport_code_def assms)

lemma transport_code_range:
  assumes "calc_transport_code c key p = Inr code"
  shows "0 < code \<and> code < 0xFFFF"
proof -
  from assms obtain bs where bs: "length bs = 2" "code = reserve_code (le_int bs)"
    by (auto simp: calc_transport_code_def unpack_u16_def res_simps Let_def
        simp del: length_take split: if_splits)
  with le_int_less [of bs] le_int_nonneg [of bs] show ?thesis
    by (simp add: reserve_code_def order_less_le)
qed

lemma transport_code_total:
  assumes "crypto_laws c" and "length key = 16"
  shows "\<exists>code. calc_transport_code c key p = Inr code"
proof -
  have "to_byte (get_payload_type p) = Inr (word_of_int (get_payload_type p))"
    using payload_type_range [of p] by (intro to_byte_Inr) auto
  moreover have "length (take 2 (cr_hmac_sha256 c key m)) = 2" for m
    using assms(1) by (simp add: crypto_laws_def)
  ultimately show ?thesis
    using assms(2) by (simp add: calc_transport_code_def unpack_u16_def Let_def)
qed

lemma transport_code_key_length:
  "calc_transport_code c key p = Inr code \<Longrightarrow> length key = 16"
  by (simp add: calc_transport_code_def split: if_splits)

lemma scoped_header:
  "((h :: int) AND NOT 3) OR ROUTE_TYPE_TRANSPORT_FLOOD = h - h mod 4"
  unfolding route_defs and_not_3 by simp

lemma scoped_header_fields:
  "((h :: int) - h mod 4) mod 4 = 0"
  "(h - h mod 4) div 4 = h div 4"
  "(h - h mod 4) div 64 = h div 64"
proof -
  have e: "h - h mod 4 = 4 * (h div 4)" by (simp add: minus_mod_eq_mult_div)
  show "(h - h mod 4) mod 4 = 0" "(h - h mod 4) div 4 = h div 4" by (simp_all add: e)
  have "4 * (h div 4) div (4 * 16) = (4 * (h div 4) div 4) div 16" by (rule zdiv_zmult2_eq) simp
  also have "\<dots> = h div (4 * 16)" by (simp add: zdiv_zmult2_eq)
  finally show "(h - h mod 4) div 64 = h div 64" by (simp add: e)
qed

lemma scope_packet_fields:
  assumes "scope_packet c key p = Inr q"
  obtains code where "calc_transport_code c key p = Inr code"
    and "q = p\<lparr>pk_transport_codes := (code, 0), pk_header := pk_header p - pk_header p mod 4\<rparr>"
    and "calc_transport_code c key q = Inr code"
proof -
  from assms obtain code where code: "calc_transport_code c key p = Inr code"
    and q: "q = p\<lparr>pk_transport_codes := (code, 0), pk_header := pk_header p - pk_header p mod 4\<rparr>"
    unfolding scope_packet_def scoped_header by (auto simp: res_simps)
  have "calc_transport_code c key q = calc_transport_code c key p"
    by (rule transport_code_depends) (simp_all add: q accessor_arith get_payload_def scoped_header_fields)
  with that code q show thesis by simp
qed

lemma scope_packet_route:
  assumes "scope_packet c key p = Inr q"
  shows "get_route_type q = ROUTE_TYPE_TRANSPORT_FLOOD" and "has_transport_codes q"
    and "get_payload_type q = get_payload_type p" and "get_payload_ver q = get_payload_ver p"
    and "get_payload q = get_payload p" and "pk_path_len q = pk_path_len p"
proof -
  obtain code where
    q: "q = p\<lparr>pk_transport_codes := (code, 0), pk_header := pk_header p - pk_header p mod 4\<rparr>"
    by (rule scope_packet_fields [OF assms])
  show "get_route_type q = ROUTE_TYPE_TRANSPORT_FLOOD" "has_transport_codes q"
    "get_payload_type q = get_payload_type p" "get_payload_ver q = get_payload_ver p"
    "get_payload q = get_payload p" "pk_path_len q = pk_path_len p"
    by (simp_all add: q accessor_arith route_arith route_defs get_payload_def scoped_header_fields)
qed

lemma scope_packet_sendable:
  assumes "scope_packet c key p = Inr q" and "sendable p"
  shows "sendable q"
proof (rule scope_packet_fields [OF assms(1)])
  fix code
  assume code: "calc_transport_code c key p = Inr code"
    and q: "q = p\<lparr>pk_transport_codes := (code, 0), pk_header := pk_header p - pk_header p mod 4\<rparr>"
  have h: "0 \<le> pk_header p" "pk_header p < 256"
    using assms(2) by (auto simp: sendable_def writable_def)
  have "0 \<le> pk_header p - pk_header p mod 4" "pk_header p - pk_header p mod 4 \<le> pk_header p"
    using h(1) by (simp_all add: zmod_le_nonneg_dividend)
  with h transport_code_range [OF code] assms(2) show "sendable q"
    by (simp add: q sendable_def writable_def codes_ok_def lengths_ok_def packet_path_defs
        accessor_arith scoped_header_fields)
qed

end
