(* ===== verification/Region_Map.thy ===== *)
theory Region_Map
  imports Transport_Keys
begin

text \<open>
  \<open>protocol/region_map.py\<close>: regions, matching of a transport code to a region, capture of the
  region a packet arrived under, and the scope of a reply. \<open>UnicodeEncodeError\<close> is a
  \<open>ValueError\<close> in Python, so a region name that is not ASCII is ignored like an overlong one.
\<close>

definition REGION_DENY_FLOOD :: int where "REGION_DENY_FLOOD = 1"
definition REGION_DENY_DIRECT :: int where "REGION_DENY_DIRECT = 2"

datatype reply_scope = REPLY_SCOPE_REQUEST | REPLY_SCOPE_DEFAULT | REPLY_SCOPE_NONE

record region_entry =
  re_id :: int
  re_parent :: int
  re_flags :: int
  re_name :: pystr
  re_private_keys :: "bytes list option"

record region_map =
  rm_regions :: "region_entry list"
  rm_wildcard :: region_entry

definition is_wildcard :: "region_entry \<Rightarrow> bool" where
  "is_wildcard e = (re_id e = 0)"

definition wildcard_entry :: region_entry where
  "wildcard_entry = \<lparr>re_id = 0, re_parent = 0, re_flags = 0, re_name = str ''*'',
                     re_private_keys = None\<rparr>"

definition new_region_map :: "region_entry list option \<Rightarrow> region_map" where
  "new_region_map regions =
     \<lparr>rm_regions = (case regions of None \<Rightarrow> [] | Some rs \<Rightarrow> rs), rm_wildcard = wildcard_entry\<rparr>"

definition add_region :: "region_entry \<Rightarrow> region_map \<Rightarrow> region_map" where
  "add_region entry m = m\<lparr>rm_regions := rm_regions m @ [entry]\<rparr>"

definition extend :: "region_entry list \<Rightarrow> region_map \<Rightarrow> region_map" where
  "extend entries m = m\<lparr>rm_regions := rm_regions m @ entries\<rparr>"

text \<open>The generator yields its keys in the order of the list; the result is an error only when
  an exception other than a \<open>ValueError\<close> leaves it.\<close>

definition iter_region_keys :: "crypto \<Rightarrow> region_entry \<Rightarrow> bytes list res" where
  "iter_region_keys c region =
     (let name = re_name region;
          private_keys = (case re_private_keys region of None \<Rightarrow> [] | Some ks \<Rightarrow> ks)
      in if name \<noteq> [] \<and> hd name = 36 then Inr (filter (\<lambda>key. length key = 16) private_keys)
         else if private_keys \<noteq> [] then Inr (filter (\<lambda>key. length key = 16) private_keys)
         else if name = [] then Inr []
         else let canonical = (if hd name = 35 then name else 35 # name)
              in case get_auto_key_for c canonical of
                   Inr key \<Rightarrow> Inr [key]
                 | Inl e \<Rightarrow> if is_value_error e then Inr [] else Inl e)"

definition first_key_for :: "crypto \<Rightarrow> region_entry option \<Rightarrow> bytes option res" where
  "first_key_for c region =
     (case region of
        None \<Rightarrow> Inr None
      | Some r \<Rightarrow> bind_res (iter_region_keys c r) (\<lambda>keys.
          Inr (case keys of [] \<Rightarrow> None | key # _ \<Rightarrow> Some key)))"

definition key_matches :: "crypto \<Rightarrow> packet \<Rightarrow> int \<Rightarrow> bytes \<Rightarrow> bool" where
  "key_matches c p code key =
     (case calc_transport_code c key p of Inl _ \<Rightarrow> False | Inr expected \<Rightarrow> expected = code)"

fun match_region :: "crypto \<Rightarrow> packet \<Rightarrow> int \<Rightarrow> int \<Rightarrow> region_entry list \<Rightarrow> region_entry option res" where
  "match_region c p flag_mask code [] = Inr None"
| "match_region c p flag_mask code (region # regions) =
     (if re_flags region AND flag_mask \<noteq> 0 then match_region c p flag_mask code regions
      else bind_res (iter_region_keys c region) (\<lambda>keys.
           if list_ex (key_matches c p code) keys then Inr (Some region)
           else match_region c p flag_mask code regions))"

definition find_match :: "crypto \<Rightarrow> region_map \<Rightarrow> packet \<Rightarrow> int \<Rightarrow> region_entry option res" where
  "find_match c m p flag_mask =
     (if \<not> has_transport_codes p then Inr None
      else let code = fst (pk_transport_codes p)
           in if code = 0 then Inr None else match_region c p flag_mask code (rm_regions m))"

definition choose_reply_scope :: "bool \<Rightarrow> bool \<Rightarrow> bool \<Rightarrow> reply_scope" where
  "choose_reply_scope request_scope_known request_was_unscoped_flood default_scope_known =
     (if request_scope_known then REPLY_SCOPE_REQUEST
      else if request_was_unscoped_flood then REPLY_SCOPE_NONE
      else if default_scope_known then REPLY_SCOPE_DEFAULT
      else REPLY_SCOPE_NONE)"

definition capture_decided :: "packet \<Rightarrow> bool" where
  "capture_decided p =
     (pk_recv_region_captured p \<and> (pk_recv_region_key p \<noteq> None \<or> pk_recv_region_unscoped p))"

definition capture_recv_region :: "crypto \<Rightarrow> region_map option \<Rightarrow> packet \<Rightarrow> packet \<times> unit res" where
  "capture_recv_region c region_map p =
     (case region_map of
        None \<Rightarrow> (p, Inr ())
      | Some m \<Rightarrow>
          if capture_decided p then (p, Inr ())
          else let p = p\<lparr>pk_recv_region_captured := True, pk_recv_region_unscoped := False\<rparr>;
                   route_type = get_route_type p
               in if route_type = ROUTE_TYPE_TRANSPORT_FLOOD then
                    (case find_match c m p REGION_DENY_FLOOD of
                       Inl e \<Rightarrow> (p, Inl e)
                     | Inr entry \<Rightarrow>
                         if entry \<noteq> None \<and> is_wildcard (the entry)
                         then (p\<lparr>pk_recv_region_key := None, pk_recv_region_unscoped := True\<rparr>, Inr ())
                         else (case first_key_for c entry of
                                 Inl e \<Rightarrow> (p, Inl e)
                               | Inr key \<Rightarrow> (p\<lparr>pk_recv_region_key := key\<rparr>, Inr ())))
                  else if route_type = ROUTE_TYPE_FLOOD then
                    (p\<lparr>pk_recv_region_key := None,
                       pk_recv_region_unscoped := (re_flags (rm_wildcard m) AND REGION_DENY_FLOOD = 0)\<rparr>,
                     Inr ())
                  else (p\<lparr>pk_recv_region_key := None\<rparr>, Inr ()))"

definition apply_reply_scope :: "crypto \<Rightarrow> packet \<Rightarrow> packet option \<Rightarrow> packet res" where
  "apply_reply_scope c reply request =
     (case request of
        None \<Rightarrow> Inr reply
      | Some req \<Rightarrow>
          if \<not> pk_recv_region_captured req then Inr reply
          else case pk_recv_region_key req of
                 Some req_key \<Rightarrow>
                   bind_res (if get_route_type reply = ROUTE_TYPE_FLOOD then scope_packet c req_key reply
                             else Inr reply) (\<lambda>reply.
                   Inr (reply\<lparr>pk_flood_scope_applied := True\<rparr>))
               | None \<Rightarrow>
                   if pk_recv_region_unscoped req then Inr (reply\<lparr>pk_flood_scope_applied := True\<rparr>)
                   else Inr reply)"

section \<open>Region keys\<close>

lemma auto_key_length:
  assumes "crypto_laws c" and "get_auto_key_for c name = Inr key"
  shows "length key = 16"
  using assms by (auto simp: get_auto_key_for_def res_simps Let_def crypto_laws_def split: if_splits)

lemma auto_key_error: "get_auto_key_for c name = Inl e \<Longrightarrow> is_value_error e"
  by (auto simp: get_auto_key_for_def res_simps ascii_encode_def is_value_error_def Let_def
      split: if_splits)

text \<open>No exception leaves the key generator, and every key it yields is usable.\<close>

lemma iter_region_keys_total:
  assumes "crypto_laws c"
  shows "\<exists>keys. iter_region_keys c r = Inr keys \<and> list_all (\<lambda>k. length k = 16) keys"
  using auto_key_length [OF assms] auto_key_error [of c]
  by (auto simp: iter_region_keys_def Let_def list_all_iff split: sum.split)

definition region_keys :: "crypto \<Rightarrow> region_entry \<Rightarrow> bytes list" where
  "region_keys c r = (case iter_region_keys c r of Inl _ \<Rightarrow> [] | Inr ks \<Rightarrow> ks)"

lemma iter_region_keys_eq: "crypto_laws c \<Longrightarrow> iter_region_keys c r = Inr (region_keys c r)"
  using iter_region_keys_total [of c r] by (auto simp: region_keys_def)

lemma region_keys_length: "crypto_laws c \<Longrightarrow> k \<in> set (region_keys c r) \<Longrightarrow> length k = 16"
  using iter_region_keys_total [of c r] by (auto simp: region_keys_def list_all_iff)

lemma match_region_eq:
  assumes "crypto_laws c"
  shows "match_region c p flag_mask code rs =
     Inr (find (\<lambda>r. re_flags r AND flag_mask = 0 \<and> list_ex (key_matches c p code) (region_keys c r)) rs)"
  by (induction rs) (auto simp: iter_region_keys_eq [OF assms])

lemma first_key_for_eq:
  assumes "crypto_laws c"
  shows "first_key_for c r =
     Inr (case r of None \<Rightarrow> None | Some r \<Rightarrow> (case region_keys c r of [] \<Rightarrow> None | k # _ \<Rightarrow> Some k))"
  by (simp add: first_key_for_def iter_region_keys_eq [OF assms] split: option.split)

lemma key_matches_iff: "key_matches c p code key \<longleftrightarrow> calc_transport_code c key p = Inr code"
  by (cases "calc_transport_code c key p") (simp_all add: key_matches_def)

section \<open>Capture and reply\<close>

text \<open>Matching reads only the header, the codes and the payload.\<close>

lemma find_match_cong:
  assumes "pk_header p = pk_header q" and "pk_transport_codes p = pk_transport_codes q"
    and "get_payload p = get_payload q"
  shows "find_match c m p flag_mask = find_match c m q flag_mask"
proof -
  have "calc_transport_code c key p = calc_transport_code c key q" for key
    using transport_code_depends [of p q] accessor_header_cong [OF assms(1)] assms(3) by simp
  then have "match_region c p flag_mask code rs = match_region c q flag_mask code rs" for code rs
    by (induction rs) (simp_all add: key_matches_def [abs_def] cong: if_cong)
  with assms(2) accessor_header_cong [OF assms(1)] show ?thesis
    by (simp add: find_match_def Let_def)
qed

text \<open>The capture of an undecided packet, computed from the map alone.\<close>

definition captured_scope :: "crypto \<Rightarrow> region_map \<Rightarrow> packet \<Rightarrow> bytes option \<times> bool" where
  "captured_scope c m p =
     (if get_route_type p = ROUTE_TYPE_TRANSPORT_FLOOD then
        (case find_match c m p REGION_DENY_FLOOD of
           Inr (Some r) \<Rightarrow> if is_wildcard r then (None, True)
                          else ((case region_keys c r of [] \<Rightarrow> None | k # _ \<Rightarrow> Some k), False)
         | _ \<Rightarrow> (None, False))
      else (None, get_route_type p = ROUTE_TYPE_FLOOD \<and> re_flags (rm_wildcard m) AND REGION_DENY_FLOOD = 0))"

definition with_capture :: "bytes option \<times> bool \<Rightarrow> packet \<Rightarrow> packet" where
  "with_capture s p = p\<lparr>pk_recv_region_captured := True, pk_recv_region_unscoped := snd s,
                        pk_recv_region_key := fst s\<rparr>"

lemma find_match_total:
  assumes "crypto_laws c"
  shows "\<exists>r. find_match c m p flag_mask = Inr r"
  by (simp add: find_match_def match_region_eq [OF assms] Let_def)

lemma capture_recv_region_eq:
  assumes "crypto_laws c"
  shows "capture_recv_region c (Some m) p =
           (if capture_decided p then p else with_capture (captured_scope c m p) p, Inr ())"
proof (cases "capture_decided p")
  case True
  then show ?thesis by (simp add: capture_recv_region_def)
next
  case False
  let ?p = "p\<lparr>pk_recv_region_captured := True, pk_recv_region_unscoped := False\<rparr>"
  have same: "find_match c m ?p x = find_match c m p x" for x
    by (rule find_match_cong) (simp_all add: get_payload_def)
  have route: "get_route_type ?p = get_route_type p" by (simp add: accessor_arith)
  obtain r where r: "find_match c m p REGION_DENY_FLOOD = Inr r"
    using find_match_total [OF assms] by blast
  show ?thesis
    using False by (cases r) (simp_all add: capture_recv_region_def captured_scope_def with_capture_def
      same route r first_key_for_eq [OF assms] Let_def)
qed

lemma captured_scope_with_capture: "captured_scope c m (with_capture s p) = captured_scope c m p"
proof -
  have "find_match c m (with_capture s p) x = find_match c m p x" for x
    by (rule find_match_cong) (simp_all add: with_capture_def get_payload_def)
  moreover have "get_route_type (with_capture s p) = get_route_type p"
    by (simp add: with_capture_def accessor_arith)
  ultimately show ?thesis by (simp add: captured_scope_def)
qed

text \<open>
  Capturing the region of a received packet never raises and is taken once: a second capture
  under the same map, and under any other map when the first one reached a decision, changes
  nothing.
\<close>

lemma capture_recv_region_once:
  assumes "crypto_laws c"
  shows "\<exists>q. capture_recv_region c (Some m) p = (q, Inr ())
           \<and> pk_recv_region_captured q
           \<and> capture_recv_region c (Some m) q = (q, Inr ())
           \<and> (capture_decided q \<longrightarrow> capture_recv_region c (Some m') q = (q, Inr ()))"
proof (cases "capture_decided p")
  case True
  then show ?thesis
    by (intro exI [of _ p]) (simp add: capture_recv_region_eq [OF assms] capture_decided_def)
next
  case False
  have "with_capture s (with_capture s p) = with_capture s p" for s by (simp add: with_capture_def)
  with False show ?thesis
    by (intro exI [of _ "with_capture (captured_scope c m p) p"])
      (simp add: capture_recv_region_eq [OF assms] captured_scope_with_capture,
       simp add: with_capture_def)
qed

text \<open>A region that is open for floods and has a key under which the packet carries its code.\<close>

definition region_matches :: "crypto \<Rightarrow> packet \<Rightarrow> region_entry \<Rightarrow> bool" where
  "region_matches c p r \<longleftrightarrow>
     re_flags r AND REGION_DENY_FLOOD = 0
     \<and> list_ex (key_matches c p (fst (pk_transport_codes p))) (region_keys c r)"

lemma find_match_first:
  assumes "crypto_laws c" and "has_transport_codes p" and "fst (pk_transport_codes p) \<noteq> 0"
    and "rm_regions m = us @ r # vs" and "\<forall>u \<in> set us. \<not> region_matches c p u" and "region_matches c p r"
  shows "find_match c m p REGION_DENY_FLOOD = Inr (Some r)"
proof -
  have "find (region_matches c p) (us @ r # vs) = Some r"
    using assms(5,6) by (induction us) simp_all
  then show ?thesis
    using assms(2-4) by (simp add: find_match_def match_region_eq [OF assms(1)] region_matches_def [abs_def])
qed

text \<open>A flood scoped with a key of a region, as every node that has the region sees it.\<close>

lemma scoped_reply:
  assumes "crypto_laws c" and "region_keys c r = k # ks" and "re_flags r AND REGION_DENY_FLOOD = 0"
    and "get_route_type reply = ROUTE_TYPE_FLOOD" and "pk_recv_region_captured req" and "pk_recv_region_key req = Some k"
  obtains q where "apply_reply_scope c reply (Some req) = Inr q" and "pk_flood_scope_applied q"
    and "get_route_type q = ROUTE_TYPE_TRANSPORT_FLOOD" and "has_transport_codes q" and "get_payload q = get_payload reply"
    and "calc_transport_code c k q = Inr (fst (pk_transport_codes q))"
    and "0 < fst (pk_transport_codes q)" and "fst (pk_transport_codes q) < 0xFFFF"
    and "region_matches c q r" and "sendable reply \<longrightarrow> sendable q"
proof -
  have "length k = 16" using region_keys_length [OF assms(1), of k r] assms(2) by simp
  from transport_code_total [OF assms(1) this, of reply]
  obtain code where code: "calc_transport_code c k reply = Inr code" by blast
  define q where "q = reply\<lparr>pk_transport_codes := (code, 0),
    pk_header := (pk_header reply AND NOT 3) OR ROUTE_TYPE_TRANSPORT_FLOOD\<rparr>"
  have scoped: "scope_packet c k reply = Inr q" by (simp only: scope_packet_def code q_def bind_res_simps)
  let ?q = "q\<lparr>pk_flood_scope_applied := True\<rparr>"
  have send: "sendable ?q \<longleftrightarrow> sendable q"
    by (simp add: sendable_def writable_def codes_ok_def lengths_ok_def packet_path_defs
        accessor_arith route_arith)
  have codes: "pk_transport_codes ?q = (code, 0)" by (simp add: q_def)
  have "calc_transport_code c k q = Inr code"
    by (rule scope_packet_fields [OF scoped]) (use code in simp)
  then have own: "calc_transport_code c k ?q = Inr (fst (pk_transport_codes ?q))"
    using transport_code_depends [of q ?q] by (simp add: codes accessor_arith get_payload_def)
  show thesis
  proof (rule that)
    show "apply_reply_scope c reply (Some req) = Inr ?q"
      using assms(4-6) scoped by (simp add: apply_reply_scope_def)
    show "get_route_type ?q = ROUTE_TYPE_TRANSPORT_FLOOD" "has_transport_codes ?q"
      using scope_packet_route(1,2) [OF scoped] by (simp_all add: get_route_type_def route_arith)
    show "get_payload ?q = get_payload reply"
      using scope_packet_route(5) [OF scoped] by (simp add: get_payload_def)
    show "0 < fst (pk_transport_codes ?q)" "fst (pk_transport_codes ?q) < 0xFFFF"
      using transport_code_range [OF code] by (simp_all add: codes)
    show "region_matches c ?q r"
      using assms(2,3) own by (simp add: region_matches_def key_matches_iff)
    show "sendable reply \<longrightarrow> sendable ?q"
      unfolding send using scope_packet_sendable [OF scoped] by (rule impI)
  qed (use own in simp_all)
qed

text \<open>
  C29: A flood reply to a request that arrived under a region goes back under the same region. If
  a region of the map, other than the wildcard, is the first open one that has a key under which
  the request carries its transport code, then the capture records the first key of that region;
  a flood reply becomes a transport flood with the same payload, whose code is that key's code of
  the reply and neither reserved value, and every map in which no open region before this one
  happens to give the same code matches the reply to this region.
\<close>

theorem reply_matches_request_region:
  assumes "crypto_laws c" and "rm_regions m = us @ r # vs"
    and "\<forall>u \<in> set us. \<not> region_matches c req u" and "region_matches c req r" and "\<not> is_wildcard r"
    and "get_route_type req = ROUTE_TYPE_TRANSPORT_FLOOD" and "fst (pk_transport_codes req) \<noteq> 0"
    and "\<not> capture_decided req" and "get_route_type reply = ROUTE_TYPE_FLOOD"
  shows "\<exists>req' reply'. capture_recv_region c (Some m) req = (req', Inr ())
           \<and> pk_recv_region_key req' = Some (hd (region_keys c r))
           \<and> apply_reply_scope c reply (Some req') = Inr reply'
           \<and> pk_flood_scope_applied reply'
           \<and> get_route_type reply' = ROUTE_TYPE_TRANSPORT_FLOOD
           \<and> get_payload reply' = get_payload reply
           \<and> calc_transport_code c (hd (region_keys c r)) reply' = Inr (fst (pk_transport_codes reply'))
           \<and> 0 < fst (pk_transport_codes reply') \<and> fst (pk_transport_codes reply') < 0xFFFF
           \<and> (\<forall>m' us' vs'. rm_regions m' = us' @ r # vs' \<and> (\<forall>u \<in> set us'. \<not> region_matches c reply' u)
                \<longrightarrow> find_match c m' reply' REGION_DENY_FLOOD = Inr (Some r))
           \<and> (sendable reply \<longrightarrow> sendable reply')"
proof -
  obtain k ks where keys: "region_keys c r = k # ks"
    using assms(4) by (cases "region_keys c r") (simp_all add: region_matches_def)
  have open_r: "re_flags r AND REGION_DENY_FLOOD = 0" using assms(4) by (simp add: region_matches_def)
  have tc: "has_transport_codes req" using assms(6) by (simp add: has_transport_codes_def route_defs)
  have "find_match c m req REGION_DENY_FLOOD = Inr (Some r)"
    by (rule find_match_first [OF assms(1) tc assms(7,2-4)])
  then have "captured_scope c m req = (Some k, False)"
    using assms(5,6) keys by (simp add: captured_scope_def)
  then have cap: "capture_recv_region c (Some m) req = (with_capture (Some k, False) req, Inr ())"
    using assms(8) by (simp add: capture_recv_region_eq [OF assms(1)])
  have "pk_recv_region_captured (with_capture (Some k, False) req)"
    and key: "pk_recv_region_key (with_capture (Some k, False) req) = Some k" by (simp_all add: with_capture_def)
  then obtain q where
    q: "apply_reply_scope c reply (Some (with_capture (Some k, False) req)) = Inr q" "pk_flood_scope_applied q"
      "get_route_type q = ROUTE_TYPE_TRANSPORT_FLOOD" "has_transport_codes q" "get_payload q = get_payload reply"
      "calc_transport_code c k q = Inr (fst (pk_transport_codes q))"
      "0 < fst (pk_transport_codes q)" "fst (pk_transport_codes q) < 0xFFFF" "region_matches c q r"
      "sendable reply \<longrightarrow> sendable q"
    by (rule scoped_reply [OF assms(1) keys open_r assms(9)])
  have "find_match c m' q REGION_DENY_FLOOD = Inr (Some r)"
    if "rm_regions m' = us' @ r # vs'" "\<forall>u \<in> set us'. \<not> region_matches c q u" for m' us' vs'
    by (rule find_match_first [OF assms(1) q(4) _ that q(9)]) (use q(7) in simp)
  then show ?thesis using cap key q keys
    by (intro exI [of _ "with_capture (Some k, False) req"] exI [of _ q]) simp
qed

definition private_region :: region_entry where
  "private_region = \<lparr>re_id = 7, re_parent = 0, re_flags = 0, re_name = str ''$ops'',
                     re_private_keys = Some [replicate 16 3]\<rparr>"

definition other_region :: region_entry where
  "other_region = \<lparr>re_id = 8, re_parent = 0, re_flags = 0, re_name = str ''$lab'',
                   re_private_keys = Some [replicate 16 5]\<rparr>"

definition scoped_request :: packet where
  "scoped_request = new_packet\<lparr>pk_transport_codes := (768, 0)\<rparr>"

lemma sample_region_keys:
  "region_keys toy_crypto private_region = [replicate 16 3]" "region_keys toy_crypto other_region = [replicate 16 5]"
  by (simp_all add: region_keys_def iter_region_keys_def private_region_def other_region_def str_def)

lemma scoped_request_matches:
  "region_matches toy_crypto scoped_request private_region" "\<not> region_matches toy_crypto scoped_request other_region"
  by code_simp+

theorem reply_matches_request_region_witness:
  "\<exists>req' reply'. capture_recv_region toy_crypto (Some (new_region_map (Some [other_region, private_region]))) scoped_request
       = (req', Inr ())
     \<and> pk_recv_region_key req' = Some (replicate 16 3)
     \<and> apply_reply_scope toy_crypto (new_packet\<lparr>pk_header := 5\<rparr>) (Some req') = Inr reply'
     \<and> get_route_type reply' = ROUTE_TYPE_TRANSPORT_FLOOD
     \<and> find_match toy_crypto (new_region_map (Some [private_region])) reply' REGION_DENY_FLOOD
           = Inr (Some private_region)"
proof -
  have a: "\<not> capture_decided scoped_request" "get_route_type scoped_request = ROUTE_TYPE_TRANSPORT_FLOOD"
    "fst (pk_transport_codes scoped_request) \<noteq> 0"
    by (simp_all add: capture_decided_def scoped_request_def new_packet_def accessor_arith route_defs)
  have b: "get_route_type (new_packet\<lparr>pk_header := 5\<rparr>) = ROUTE_TYPE_FLOOD"
    by (simp add: accessor_arith route_defs)
  have c: "\<not> is_wildcard private_region" by (simp add: is_wildcard_def private_region_def)
  have m: "rm_regions (new_region_map (Some [other_region, private_region])) = [other_region] @ private_region # []"
    "rm_regions (new_region_map (Some [private_region])) = [] @ private_region # []"
    by (simp_all add: new_region_map_def)
  have d: "\<forall>u \<in> set [other_region]. \<not> region_matches toy_crypto scoped_request u"
    using scoped_request_matches(2) by simp
  from reply_matches_request_region [OF toy_crypto_laws m(1) d scoped_request_matches(1) c a(2,3,1) b]
  obtain req' reply' where
    r: "capture_recv_region toy_crypto (Some (new_region_map (Some [other_region, private_region]))) scoped_request = (req', Inr ())"
      "pk_recv_region_key req' = Some (hd (region_keys toy_crypto private_region))"
      "apply_reply_scope toy_crypto (new_packet\<lparr>pk_header := 5\<rparr>) (Some req') = Inr reply'"
      "get_route_type reply' = ROUTE_TYPE_TRANSPORT_FLOOD"
    and f: "\<forall>m' us' vs'. rm_regions m' = us' @ private_region # vs' \<and> (\<forall>u \<in> set us'. \<not> region_matches toy_crypto reply' u)
      \<longrightarrow> find_match toy_crypto m' reply' REGION_DENY_FLOOD = Inr (Some private_region)"
    by (elim exE conjE)
  have "find_match toy_crypto (new_region_map (Some [private_region])) reply' REGION_DENY_FLOOD = Inr (Some private_region)"
    using f [rule_format, of _ "[]" "[]"] m(2) by simp
  with r show ?thesis by (auto simp: sample_region_keys)
qed

text \<open>
  The reply helper follows the reply-scope table: with the region of the request known, a
  flood reply is scoped with that region's key and marked decided; after an un-scoped flood it
  stays plain and is marked decided; in the two remaining rows it is returned untouched and
  unmarked, whether or not a default scope exists, for the send layer to resolve.
\<close>

lemma apply_reply_scope_policy:
  assumes "crypto_laws c" and "pk_recv_region_captured req"
    and "\<And>k. pk_recv_region_key req = Some k \<Longrightarrow> length k = 16"
    and "get_route_type reply = ROUTE_TYPE_FLOOD"
  shows "case choose_reply_scope (pk_recv_region_key req \<noteq> None) (pk_recv_region_unscoped req) default_known of
           REPLY_SCOPE_REQUEST \<Rightarrow>
             \<exists>q. scope_packet c (the (pk_recv_region_key req)) reply = Inr q
               \<and> apply_reply_scope c reply (Some req) = Inr (q\<lparr>pk_flood_scope_applied := True\<rparr>)
         | REPLY_SCOPE_DEFAULT \<Rightarrow> apply_reply_scope c reply (Some req) = Inr reply
         | REPLY_SCOPE_NONE \<Rightarrow>
             apply_reply_scope c reply (Some req) =
               Inr (if pk_recv_region_unscoped req then reply\<lparr>pk_flood_scope_applied := True\<rparr> else reply)"
proof (cases "pk_recv_region_key req")
  case None
  with assms(2) show ?thesis by (simp add: choose_reply_scope_def apply_reply_scope_def)
next
  case (Some k)
  from transport_code_total [OF assms(1) assms(3) [OF Some], of reply]
  obtain code where "calc_transport_code c k reply = Inr code" by blast
  with Some assms(2,4) show ?thesis
    by (simp add: choose_reply_scope_def apply_reply_scope_def scope_packet_def)
qed

end
