(* ===== verification/Packet_Filter.thy ===== *)
theory Packet_Filter
  imports Packet_Utils Crypto
begin

text \<open>
  \<open>protocol/packet_filter.py\<close>: duplicate detection, the malformed-frame blacklist and the
  bounded time-to-live cache of packet hashes. The clock (\<open>time.time\<close>,
  \<open>time.monotonic\<close>) is an argument of the operations that read it. The filter provides the
  seen table that the dispatcher uses; the blacklist and the cache are bounded stores.
\<close>

section \<open>PacketFilter\<close>

record packet_filter =
  pf_window_seconds :: real
  pf_packet_hashes :: "(pystr, real) dict"
  pf_blacklist :: "(pystr, real) dict"

definition BLACKLIST_MAX_ENTRIES :: nat where "BLACKLIST_MAX_ENTRIES = 4096"
definition BLACKLIST_TTL_SECONDS :: real where "BLACKLIST_TTL_SECONDS = 300"

definition new_packet_filter :: "real \<Rightarrow> packet_filter" where
  "new_packet_filter window_seconds =
     \<lparr>pf_window_seconds = window_seconds, pf_packet_hashes = [], pf_blacklist = []\<rparr>"

definition generate_hash :: "crypto \<Rightarrow> bytes \<Rightarrow> pystr" where
  "generate_hash c data = take 16 (hex_str (cr_sha256 c data))"

definition is_duplicate :: "packet_filter \<Rightarrow> real \<Rightarrow> pystr \<Rightarrow> bool" where
  "is_duplicate f now packet_hash =
     (case map_of (pf_packet_hashes f) packet_hash of
        None \<Rightarrow> False
      | Some ts \<Rightarrow> let age = now - ts in if age < pf_window_seconds f then True else False)"

definition track_packet :: "packet_filter \<Rightarrow> real \<Rightarrow> pystr \<Rightarrow> packet_filter" where
  "track_packet f now packet_hash =
     f\<lparr>pf_packet_hashes := AList.update packet_hash now (pf_packet_hashes f)\<rparr>"

text \<open>Insert at the recent end, evicting the oldest entry past the capacity.\<close>

definition insert_bounded :: "nat \<Rightarrow> 'k \<Rightarrow> 'v \<Rightarrow> ('k, 'v) dict \<Rightarrow> ('k, 'v) dict" where
  "insert_bounded capacity k v d =
     (let d = move_to_end k (AList.update k v d)
      in if capacity < length d then tl d else d)"

definition blacklist :: "packet_filter \<Rightarrow> real \<Rightarrow> pystr \<Rightarrow> packet_filter" where
  "blacklist f now packet_hash =
     f\<lparr>pf_blacklist := insert_bounded BLACKLIST_MAX_ENTRIES packet_hash now (pf_blacklist f)\<rparr>"

definition is_blacklisted :: "packet_filter \<Rightarrow> real \<Rightarrow> pystr \<Rightarrow> bool" where
  "is_blacklisted f now packet_hash =
     (case map_of (pf_blacklist f) packet_hash of
        None \<Rightarrow> False
      | Some inserted_at \<Rightarrow> now - inserted_at < BLACKLIST_TTL_SECONDS)"

definition drop_older :: "real \<Rightarrow> real \<Rightarrow> (pystr, real) dict \<Rightarrow> (pystr, real) dict" where
  "drop_older now limit d =
     (let old_hashes = map fst (filter (\<lambda>(h, ts). limit < now - ts) d)
      in fold AList.delete old_hashes d)"

definition cleanup_old_hashes :: "packet_filter \<Rightarrow> real \<Rightarrow> packet_filter" where
  "cleanup_old_hashes f now =
     f\<lparr>pf_packet_hashes := drop_older now (pf_window_seconds f) (pf_packet_hashes f),
       pf_blacklist := drop_older now BLACKLIST_TTL_SECONDS (pf_blacklist f)\<rparr>"

record filter_stats =
  fs_tracked_packets :: nat
  fs_blacklisted_packets :: nat
  fs_window_seconds :: real

definition PacketFilter_get_stats :: "packet_filter \<Rightarrow> filter_stats" where
  "PacketFilter_get_stats f =
     \<lparr>fs_tracked_packets = length (pf_packet_hashes f),
      fs_blacklisted_packets = length (pf_blacklist f), fs_window_seconds = pf_window_seconds f\<rparr>"

definition PacketFilter_clear :: "packet_filter \<Rightarrow> packet_filter" where
  "PacketFilter_clear f = f\<lparr>pf_packet_hashes := [], pf_blacklist := []\<rparr>"

section \<open>PacketHashCache\<close>

record packet_hash_cache =
  hc_ttl_seconds :: real
  hc_max_entries :: int
  hc_entries :: "(pystr, real) dict"

definition new_packet_hash_cache :: "real \<Rightarrow> int \<Rightarrow> packet_hash_cache res" where
  "new_packet_hash_cache ttl_seconds max_entries =
     (if ttl_seconds < 0 then Inl (ValueError ''ttl_seconds must be non-negative'')
      else if max_entries \<le> 0 then Inl (ValueError ''max_entries must be positive'')
      else Inr \<lparr>hc_ttl_seconds = ttl_seconds, hc_max_entries = max_entries, hc_entries = []\<rparr>)"

fun evict_expired :: "real \<Rightarrow> real \<Rightarrow> (pystr, real) dict \<Rightarrow> (pystr, real) dict" where
  "evict_expired ttl now [] = []"
| "evict_expired ttl now ((h, seen_at) # entries) =
     (if now - seen_at \<le> ttl then (h, seen_at) # entries else evict_expired ttl now entries)"

definition check_and_add :: "packet_hash_cache \<Rightarrow> real \<Rightarrow> pystr \<Rightarrow> packet_hash_cache \<times> bool" where
  "check_and_add hc now packet_hash =
     (let entries = evict_expired (hc_ttl_seconds hc) now (hc_entries hc);
          hit = packet_hash \<in> set (dict_keys entries);
          entries = insert_bounded (nat (hc_max_entries hc)) packet_hash now entries
      in (hc\<lparr>hc_entries := entries\<rparr>, hit))"

section \<open>Bounded insertion\<close>

lemma dict_ok_update: "dict_ok d \<Longrightarrow> dict_ok (AList.update k v d)"
  by (rule distinct_update)

lemma dict_ok_insert_bounded: "dict_ok d \<Longrightarrow> dict_ok (insert_bounded n k v d)"
  by (simp add: insert_bounded_def Let_def dict_ok_tl dict_ok_move_to_end dict_ok_update)

lemma length_insert_bounded:
  assumes "dict_ok d" and "length d \<le> n"
  shows "length (insert_bounded n k v d) \<le> n"
  using assms by (auto simp: insert_bounded_def Let_def length_move_to_end dict_ok_update length_update)

lemma move_to_end_update:
  "move_to_end k (AList.update k v d) = AList.delete k d @ [(k, v)]"
proof -
  have "AList.delete k (AList.update k v d) = AList.delete k d"
    by (induction d) auto
  then show ?thesis by (simp add: move_to_end_def update_conv')
qed

lemma map_of_tl:
  assumes "dict_ok d" and "d \<noteq> []"
  shows "map_of (tl d) = (map_of d)(fst (hd d) := None)"
  using assms by (cases d) (auto simp: fun_eq_iff map_of_eq_None_iff)

text \<open>The inserted key is present afterwards, whatever was evicted.\<close>

lemma map_of_insert_bounded_same:
  assumes "0 < n"
  shows "map_of (insert_bounded n k v d) k = Some v"
proof -
  have k: "map_of (xs @ [(k, v)]) k = Some v" if "k \<notin> set (dict_keys xs)" for xs
    using that by (simp add: map_add_def map_of_eq_None_iff [THEN iffD2])
  have notin: "k \<notin> set (dict_keys (AList.delete k d))" by (simp add: delete_keys)
  show ?thesis
  proof (cases "AList.delete k d")
    case Nil
    with assms show ?thesis by (simp add: insert_bounded_def move_to_end_update)
  next
    case (Cons x xs)
    with notin have "k \<notin> set (dict_keys xs)" by auto
    with k notin Cons show ?thesis
      by (simp add: insert_bounded_def move_to_end_update Let_def)
  qed
qed

section \<open>Operation sequences\<close>

datatype filter_op = Track real pystr | Blacklist real pystr | Cleanup real | Clear

fun filter_step :: "filter_op \<Rightarrow> packet_filter \<Rightarrow> packet_filter" where
  "filter_step (Track now h) f = track_packet f now h"
| "filter_step (Blacklist now h) f = blacklist f now h"
| "filter_step (Cleanup now) f = cleanup_old_hashes f now"
| "filter_step Clear f = PacketFilter_clear f"

definition filter_ok :: "packet_filter \<Rightarrow> bool" where
  "filter_ok f \<longleftrightarrow> dict_ok (pf_packet_hashes f) \<and> dict_ok (pf_blacklist f)
     \<and> length (pf_blacklist f) \<le> BLACKLIST_MAX_ENTRIES"

lemma fold_delete_filter: "fold AList.delete ks d = filter (\<lambda>(k, _). k \<notin> set ks) d"
proof (induction ks arbitrary: d)
  case Nil
  then show ?case by simp
next
  case (Cons k ks)
  then show ?case by (auto simp: AList.delete_eq intro!: filter_cong)
qed

lemma drop_older_filter:
  assumes "dict_ok d"
  shows "drop_older now limit d = filter (\<lambda>(h, ts). now - ts \<le> limit) d"
proof -
  have "h \<in> set (map fst (filter (\<lambda>(h, ts). limit < now - ts) d)) \<longleftrightarrow> \<not> now - ts \<le> limit"
    if "(h, ts) \<in> set d" for h ts
    using that assms by (force simp: image_iff dest: eq_key_imp_eq_value)
  then show ?thesis
    unfolding drop_older_def Let_def fold_delete_filter by (intro filter_cong) auto
qed

lemma dict_ok_filter: "dict_ok d \<Longrightarrow> dict_ok (filter P d)"
  by (rule distinct_map_filter)

lemma filter_ok_step: "filter_ok f \<Longrightarrow> filter_ok (filter_step op f)"
proof (cases op)
  case (Cleanup now)
  assume ok: "filter_ok f"
  then show ?thesis
    by (auto simp: Cleanup filter_ok_def cleanup_old_hashes_def drop_older_filter dict_ok_filter
        intro: order_trans [OF length_filter_le])
qed (auto simp: filter_ok_def track_packet_def blacklist_def PacketFilter_clear_def dict_ok_update
      dict_ok_insert_bounded length_insert_bounded)

interpretation blacklist_store:
  bounded_store filter_step filter_ok "\<lambda>f. length (pf_blacklist f)" "\<lambda>_. BLACKLIST_MAX_ENTRIES"
  by unfold_locales (simp_all add: filter_ok_step, simp add: filter_ok_def)

interpretation dedup_table: seen_table is_duplicate track_packet pf_window_seconds
  by unfold_locales (auto simp: is_duplicate_def track_packet_def update_conv' Let_def split: option.split)


lemma new_packet_filter_ok: "filter_ok (new_packet_filter w)"
  by (simp add: filter_ok_def new_packet_filter_def)

lemma window_step: "pf_window_seconds (filter_step op f) = pf_window_seconds f"
  by (cases op) (simp_all add: track_packet_def blacklist_def cleanup_old_hashes_def PacketFilter_clear_def)

lemma map_of_filter_value:
  "dict_ok d \<Longrightarrow> map_of (filter (\<lambda>(h, ts). P ts) d) k =
     (case map_of d k of None \<Rightarrow> None | Some ts \<Rightarrow> if P ts then Some ts else None)"
  by (induction d) (auto simp: map_of_eq_None_iff split: option.split)

text \<open>The operations of a run that happen in a time interval and forget nothing.\<close>

fun op_between :: "real \<Rightarrow> real \<Rightarrow> filter_op \<Rightarrow> bool" where
  "op_between t0 t1 (Track t h) \<longleftrightarrow> t0 \<le> t \<and> t \<le> t1"
| "op_between t0 t1 (Blacklist t h) \<longleftrightarrow> t0 \<le> t \<and> t \<le> t1"
| "op_between t0 t1 (Cleanup t) \<longleftrightarrow> t0 \<le> t \<and> t \<le> t1"
| "op_between t0 t1 Clear \<longleftrightarrow> False"

lemma tracked_step:
  assumes "filter_ok f" and "op_between ts now op" and "now - ts < pf_window_seconds f"
    and "map_of (pf_packet_hashes f) h = Some t" and "ts \<le> t"
  shows "\<exists>t'. map_of (pf_packet_hashes (filter_step op f)) h = Some t' \<and> ts \<le> t'"
  using assms
  by (cases op) (auto simp: track_packet_def blacklist_def cleanup_old_hashes_def update_conv'
      drop_older_filter map_of_filter_value filter_ok_def)

lemma tracked_run:
  assumes "filter_ok f" and "list_all (op_between ts now) ops" and "now - ts < pf_window_seconds f"
    and "map_of (pf_packet_hashes f) h = Some t" and "ts \<le> t"
  shows "\<exists>t'. map_of (pf_packet_hashes (fold filter_step ops f)) h = Some t' \<and> ts \<le> t'"
  using assms
proof (induction ops arbitrary: f t)
  case Nil
  then show ?case by auto
next
  case (Cons op ops)
  from Cons.prems obtain t' where "map_of (pf_packet_hashes (filter_step op f)) h = Some t'" "ts \<le> t'"
    using tracked_step [of f ts now op h t] by auto
  with Cons.prems Cons.IH [of "filter_step op f" t'] show ?case
    by (simp add: filter_ok_step window_step)
qed

lemma window_run: "pf_window_seconds (fold filter_step ops f) = pf_window_seconds f"
  by (induction ops arbitrary: f) (simp_all add: window_step)

lemma tracked_origin:
  assumes "filter_ok f" and "map_of (pf_packet_hashes (fold filter_step ops f)) h = Some t"
  shows "map_of (pf_packet_hashes f) h = Some t \<or> Track t h \<in> set ops"
  using assms
proof (induction ops arbitrary: f)
  case Nil
  then show ?case by simp
next
  case (Cons op ops)
  from Cons.IH [of "filter_step op f"] Cons.prems
  have "map_of (pf_packet_hashes (filter_step op f)) h = Some t \<or> Track t h \<in> set ops"
    by (simp add: filter_ok_step)
  moreover have "map_of (pf_packet_hashes f) h = Some t \<or> op = Track t h"
    if "map_of (pf_packet_hashes (filter_step op f)) h = Some t"
    using that Cons.prems(1)
    by (cases op) (auto simp: track_packet_def blacklist_def cleanup_old_hashes_def update_conv'
        PacketFilter_clear_def drop_older_filter map_of_filter_value filter_ok_def
        split: if_splits option.splits)
  ultimately show ?case by auto
qed

text \<open>
  C27: Duplicate detection has no false negative within the window: once a hash is tracked, it is
  reported as duplicate for less than the window after that moment, whatever other packets are
  tracked or blacklisted and however often the filter is cleaned up in between, as long as it is
  not cleared.
\<close>

theorem dedup_no_false_negative:
  assumes "filter_ok f" and "now - ts < pf_window_seconds f" and "list_all (op_between ts now) ops"
  shows "is_duplicate (fold filter_step ops (track_packet f ts h)) now h"
proof -
  let ?f = "track_packet f ts h"
  have ok: "filter_ok ?f" using filter_ok_step [OF assms(1), of "Track ts h"] by simp
  have w: "pf_window_seconds ?f = pf_window_seconds f" by (rule dedup_table.window_mark)
  have "map_of (pf_packet_hashes ?f) h = Some ts" by (simp add: track_packet_def update_conv')
  from tracked_run [OF ok assms(3) _ this] assms(2) obtain t' where
    "map_of (pf_packet_hashes (fold filter_step ops ?f)) h = Some t'" "ts \<le> t'" by (auto simp: w)
  with assms(2) show ?thesis by (simp add: is_duplicate_def window_run w)
qed

theorem dedup_no_false_negative_witness:
  "is_duplicate (fold filter_step [Track 5 (str ''bb''), Cleanup 20] (track_packet (new_packet_filter 30) 0 (str ''aa'')))
     25 (str ''aa'')"
  by (rule dedup_no_false_negative) (simp_all add: new_packet_filter_ok, simp add: new_packet_filter_def)

text \<open>
  Duplicate detection has no false positive: a hash that a filter reports as duplicate was
  tracked, by itself, less than the window ago.
\<close>

lemma dedup_no_false_positive:
  assumes "is_duplicate (fold filter_step ops (new_packet_filter w)) now h"
  shows "\<exists>ts. Track ts h \<in> set ops \<and> now - ts < w"
proof -
  have w: "pf_window_seconds (new_packet_filter w) = w" by (simp add: new_packet_filter_def)
  from assms obtain ts where
    "map_of (pf_packet_hashes (fold filter_step ops (new_packet_filter w))) h = Some ts" "now - ts < w"
    by (auto simp: is_duplicate_def window_run w Let_def split: option.splits if_splits)
  with tracked_origin [OF new_packet_filter_ok] show ?thesis
    by (force simp: new_packet_filter_def)
qed

text \<open>
  The malformed-frame blacklist never holds more than \<open>BLACKLIST_MAX_ENTRIES\<close> entries,
  whatever sequence of operations a peer provokes, and a frame is blacklisted right after it was
  blacklisted even when the list was full.
\<close>

lemma blacklist_bounded:
  "length (pf_blacklist (fold filter_step ops (new_packet_filter w))) \<le> 4096
   \<and> is_blacklisted (blacklist (fold filter_step ops (new_packet_filter w)) now h) now h"
proof -
  have "is_blacklisted (blacklist f now h) now h" for f
    by (simp add: is_blacklisted_def blacklist_def map_of_insert_bounded_same BLACKLIST_MAX_ENTRIES_def
        BLACKLIST_TTL_SECONDS_def)
  with blacklist_store.run_bounded [OF new_packet_filter_ok, of ops w] show ?thesis
    by (simp add: BLACKLIST_MAX_ENTRIES_def)
qed

section \<open>The hash cache\<close>

definition cache_ok :: "real \<Rightarrow> packet_hash_cache \<Rightarrow> bool" where
  "cache_ok clock hc \<longleftrightarrow>
     0 < hc_max_entries hc \<and> dict_ok (hc_entries hc)
     \<and> sorted (map snd (hc_entries hc)) \<and> list_all (\<lambda>(h, t). t \<le> clock) (hc_entries hc)
     \<and> int (length (hc_entries hc)) \<le> hc_max_entries hc"

lemma evict_expired_filter:
  "sorted (map snd d) \<Longrightarrow> evict_expired ttl now d = filter (\<lambda>(h, t). now - t \<le> ttl) d"
proof (induction d)
  case Nil
  then show ?case by simp
next
  case (Cons x d)
  obtain h t where x: "x = (h, t)" by (cases x)
  show ?case
  proof (cases "now - t \<le> ttl")
    case True
    with Cons.prems x have "filter (\<lambda>(h, t). now - t \<le> ttl) d = d"
      by (force simp: filter_id_conv)
    with True x show ?thesis by simp
  next
    case False
    with Cons x show ?thesis by simp
  qed
qed

lemma delete_filter: "AList.delete k d = filter (\<lambda>(k', _). k \<noteq> k') d"
  by (simp add: AList.delete_eq)

lemma list_all_tl: "list_all P xs \<Longrightarrow> list_all P (tl xs)"
  by (cases xs) auto

lemma sorted_insert_bounded:
  assumes "sorted (map snd d)" and "list_all (\<lambda>(h, t). t \<le> now) d"
  shows "sorted (map snd (insert_bounded n h now d))"
    and "list_all (\<lambda>(h, t). t \<le> now) (insert_bounded n h now d)"
proof -
  let ?d = "AList.delete h d @ [(h, now)]"
  have s: "sorted (map snd (AList.delete h d))"
    unfolding delete_filter using assms(1) by (rule sorted_filter)
  have l: "list_all (\<lambda>(h, t). t \<le> now) (AList.delete h d)"
    unfolding delete_filter using assms(2) by (auto simp: list_all_iff)
  from s l have sd: "sorted (map snd ?d)" by (auto simp: sorted_append list_all_iff)
  from l have ld: "list_all (\<lambda>(h, t). t \<le> now) ?d" by simp
  show "sorted (map snd (insert_bounded n h now d))"
    using sd sorted_tl [OF sd] unfolding insert_bounded_def move_to_end_update Let_def
    by (simp only: map_tl simp_thms split: if_split)
  show "list_all (\<lambda>(h, t). t \<le> now) (insert_bounded n h now d)"
    using ld list_all_tl [OF ld] unfolding insert_bounded_def move_to_end_update Let_def
    by (simp only: simp_thms split: if_split)
qed

lemma cache_ok_step:
  assumes "cache_ok clock hc" and "clock \<le> now"
  shows "cache_ok now (fst (check_and_add hc now h))"
proof -
  let ?e = "evict_expired (hc_ttl_seconds hc) now (hc_entries hc)"
  from assms(1) have s: "sorted (map snd (hc_entries hc))" and d: "dict_ok (hc_entries hc)"
    and l: "int (length (hc_entries hc)) \<le> hc_max_entries hc" and m: "0 < hc_max_entries hc"
    by (auto simp: cache_ok_def)
  have e: "?e = filter (\<lambda>(h, t). now - t \<le> hc_ttl_seconds hc) (hc_entries hc)"
    by (rule evict_expired_filter [OF s])
  have se: "sorted (map snd ?e)" unfolding e by (rule sorted_filter [OF s])
  have le: "list_all (\<lambda>(h, t). t \<le> now) ?e"
    using assms unfolding e cache_ok_def by (auto simp: list_all_iff)
  have de: "dict_ok ?e" unfolding e by (rule dict_ok_filter [OF d])
  have "length ?e \<le> nat (hc_max_entries hc)"
    using l length_filter_le [of "\<lambda>(h, t). now - t \<le> hc_ttl_seconds hc" "hc_entries hc"]
    unfolding e by linarith
  from length_insert_bounded [OF de this, of h now] m
  have "int (length (insert_bounded (nat (hc_max_entries hc)) h now ?e)) \<le> hc_max_entries hc" by linarith
  with sorted_insert_bounded [OF se le] dict_ok_insert_bounded [OF de] m
  show ?thesis by (simp add: cache_ok_def check_and_add_def Let_def)
qed

text \<open>
  With a clock that does not run backwards, the cache reports a hit exactly for a hash that it
  was asked about at most the time-to-live ago and has not evicted for capacity: dropping expired
  entries from the old end only is as good as dropping all of them. Every call leaves the hash
  cached at the current time, within capacity, entries still in time order.
\<close>

lemma cache_hit_iff:
  assumes "cache_ok clock hc" and "clock \<le> now"
  shows "(snd (check_and_add hc now h) \<longleftrightarrow>
            (\<exists>t. map_of (hc_entries hc) h = Some t \<and> now - t \<le> hc_ttl_seconds hc))
         \<and> map_of (hc_entries (fst (check_and_add hc now h))) h = Some now
         \<and> cache_ok now (fst (check_and_add hc now h))"
proof (intro conjI)
  from assms(1) have s: "sorted (map snd (hc_entries hc))" and d: "dict_ok (hc_entries hc)"
    and m: "0 < nat (hc_max_entries hc)"
    by (auto simp: cache_ok_def)
  have e: "evict_expired (hc_ttl_seconds hc) now (hc_entries hc)
      = filter (\<lambda>(h, t). now - t \<le> hc_ttl_seconds hc) (hc_entries hc)"
    by (rule evict_expired_filter [OF s])
  show "snd (check_and_add hc now h) \<longleftrightarrow>
      (\<exists>t. map_of (hc_entries hc) h = Some t \<and> now - t \<le> hc_ttl_seconds hc)"
    using d by (auto simp: check_and_add_def e Let_def image_iff)
  show "map_of (hc_entries (fst (check_and_add hc now h))) h = Some now"
    by (simp add: check_and_add_def Let_def map_of_insert_bounded_same [OF m])
  show "cache_ok now (fst (check_and_add hc now h))"
    by (rule cache_ok_step [OF assms])
qed

end
