(* ===== verification/Message_Queue.thy ===== *)
theory Message_Queue
  imports Interfaces "HOL-Library.Sublist"
begin

text \<open>
  \<open>companion/message_queue.py\<close>: the offline message queue with protected eviction. A queue
  entry is a message object: its identity (\<open>is\<close> in Python) is the number it is paired with,
  and two entries with the same number are the same object.
\<close>

record queued_message =
  qm_sender_key :: bytes
  qm_txt_type :: int
  qm_timestamp :: int
  qm_text :: pystr
  qm_is_channel :: bool
  qm_channel_idx :: int
  qm_path_len :: int
  qm_snr :: real
  qm_rssi :: int
  qm_channel_data_type :: int
  qm_channel_data_payload :: bytes
  qm_sender_prefix :: bytes

type_synonym queue_entry = "nat \<times> queued_message"

record message_queue =
  mq_queue :: "queue_entry list"
  mq_max_size :: int

definition DEFAULT_OFFLINE_QUEUE_SIZE :: int where "DEFAULT_OFFLINE_QUEUE_SIZE = 512"

definition new_message_queue :: "int \<Rightarrow> message_queue" where
  "new_message_queue max_size = \<lparr>mq_queue = [], mq_max_size = max_size\<rparr>"

text \<open>The search loops: delete the first entry that satisfies a test, or report that none does.\<close>

fun del_first :: "('a \<Rightarrow> bool) \<Rightarrow> 'a list \<Rightarrow> 'a list option" where
  "del_first P [] = None"
| "del_first P (x # xs) =
     (if P x then Some xs else (case del_first P xs of None \<Rightarrow> None | Some ys \<Rightarrow> Some (x # ys)))"

abbreviation is_channel :: "queue_entry \<Rightarrow> bool" where
  "is_channel e \<equiv> qm_is_channel (snd e)"

definition push :: "queue_entry \<Rightarrow> message_queue \<Rightarrow> message_queue \<times> bool" where
  "push msg q =
     (if mq_max_size q \<le> 0 then (q, False)
      else if mq_max_size q \<le> int (length (mq_queue q)) then
        (case del_first is_channel (mq_queue q) of
           None \<Rightarrow> (q, False)
         | Some rest \<Rightarrow> (q\<lparr>mq_queue := rest @ [msg]\<rparr>, True))
      else (q\<lparr>mq_queue := mq_queue q @ [msg]\<rparr>, True))"

definition pop :: "message_queue \<Rightarrow> message_queue \<times> queue_entry option" where
  "pop q = (case mq_queue q of [] \<Rightarrow> (q, None) | x # xs \<Rightarrow> (q\<lparr>mq_queue := xs\<rparr>, Some x))"

definition pop_last :: "message_queue \<Rightarrow> message_queue \<times> queue_entry option" where
  "pop_last q =
     (if mq_queue q \<noteq> [] then (q\<lparr>mq_queue := butlast (mq_queue q)\<rparr>, Some (last (mq_queue q)))
      else (q, None))"

definition MessageQueue_remove :: "queue_entry \<Rightarrow> message_queue \<Rightarrow> message_queue \<times> bool" where
  "MessageQueue_remove msg q =
     (case del_first (\<lambda>e. fst e = fst msg) (mq_queue q) of
        None \<Rightarrow> (q, False)
      | Some rest \<Rightarrow> (q\<lparr>mq_queue := rest\<rparr>, True))"

definition peek :: "message_queue \<Rightarrow> queue_entry option" where
  "peek q = (case mq_queue q of [] \<Rightarrow> None | x # _ \<Rightarrow> Some x)"

definition is_empty :: "message_queue \<Rightarrow> bool" where
  "is_empty q = (length (mq_queue q) = 0)"

definition MessageQueue_is_full :: "message_queue \<Rightarrow> bool" where
  "MessageQueue_is_full q = (int (length (mq_queue q)) \<ge> mq_max_size q)"

definition MessageQueue_count :: "message_queue \<Rightarrow> nat" where
  "MessageQueue_count q = length (mq_queue q)"

definition MessageQueue_clear :: "message_queue \<Rightarrow> message_queue" where
  "MessageQueue_clear q = q\<lparr>mq_queue := []\<rparr>"

section \<open>Searching and deleting\<close>

lemma del_first_None: "del_first P xs = None \<longleftrightarrow> (\<forall>x \<in> set xs. \<not> P x)"
  by (induction xs) (auto split: option.splits)

lemma del_first_Some:
  assumes "del_first P xs = Some ys"
  obtains us x vs where "xs = us @ x # vs" and "ys = us @ vs" and "P x" and "\<forall>u \<in> set us. \<not> P u"
proof -
  have "\<exists>us x vs. xs = us @ x # vs \<and> ys = us @ vs \<and> P x \<and> (\<forall>u \<in> set us. \<not> P u)"
    using assms
  proof (induction xs arbitrary: ys)
    case Nil
    then show ?case by simp
  next
    case (Cons a xs)
    show ?case
    proof (cases "P a")
      case True
      with Cons.prems show ?thesis by (intro exI [of _ "[]"]) auto
    next
      case False
      with Cons.prems obtain zs where zs: "del_first P xs = Some zs" "ys = a # zs"
        by (auto split: option.splits)
      from Cons.IH [OF zs(1)] obtain us x vs where
        "xs = us @ x # vs" "zs = us @ vs" "P x" "\<forall>u \<in> set us. \<not> P u" by blast
      with zs(2) False show ?thesis by (intro exI [of _ "a # us"]) auto
    qed
  qed
  with that show thesis by blast
qed

lemma length_del_first: "del_first P xs = Some ys \<Longrightarrow> length xs = Suc (length ys)"
  by (elim del_first_Some) simp

lemma del_first_ex: "del_first P xs = Some ys \<Longrightarrow> \<exists>x \<in> set xs. P x"
  by (elim del_first_Some) auto

lemma filter_del_first:
  "del_first P xs = Some ys \<Longrightarrow> (\<And>x. P x \<Longrightarrow> \<not> Q x) \<Longrightarrow> filter Q ys = filter Q xs"
  by (elim del_first_Some) auto

lemma subseq_del_first: "del_first P xs = Some ys \<Longrightarrow> subseq ys xs"
  by (elim del_first_Some) (auto intro: list_emb_append_mono)

section \<open>The queue as a bounded store\<close>

datatype queue_op = Push queue_entry | Pop | PopLast | Remove queue_entry | ClearQueue

fun queue_step :: "queue_op \<Rightarrow> message_queue \<Rightarrow> message_queue" where
  "queue_step (Push m) q = fst (push m q)"
| "queue_step Pop q = fst (pop q)"
| "queue_step PopLast q = fst (pop_last q)"
| "queue_step (Remove m) q = fst (MessageQueue_remove m q)"
| "queue_step ClearQueue q = MessageQueue_clear q"

definition queue_ok :: "message_queue \<Rightarrow> bool" where
  "queue_ok q \<longleftrightarrow> length (mq_queue q) \<le> nat (mq_max_size q)"

lemma mq_max_size_step: "mq_max_size (queue_step op q) = mq_max_size q"
  by (cases op) (auto simp: push_def pop_def pop_last_def MessageQueue_remove_def MessageQueue_clear_def
      split: option.split list.split)

lemma queue_ok_step: "queue_ok q \<Longrightarrow> queue_ok (queue_step op q)"
  by (cases op) (auto simp: queue_ok_def push_def pop_def pop_last_def MessageQueue_remove_def
      MessageQueue_clear_def dest: length_del_first split: option.split list.split)

interpretation offline_queue:
  bounded_store queue_step queue_ok "\<lambda>q. length (mq_queue q)" "\<lambda>q. nat (mq_max_size q)"
  by unfold_locales (auto simp: queue_ok_step mq_max_size_step, simp add: queue_ok_def)

text \<open>
  Whatever sequence of operations runs on a new queue, it never holds more than its maximum
  size; a push at capacity displaces the oldest channel message and nothing else, and is refused
  exactly when storage is disabled or the queue is full of direct messages, in which case the
  queue is unchanged.
\<close>

lemma message_queue_bounded:
  "length (mq_queue (fold queue_step ops (new_message_queue n))) \<le> nat n
   \<and> (\<not> snd (push m q) \<longleftrightarrow> mq_max_size q \<le> 0 \<or>
        MessageQueue_is_full q \<and> list_all (\<lambda>e. \<not> is_channel e) (mq_queue q))
   \<and> (\<not> snd (push m q) \<longrightarrow> fst (push m q) = q)
   \<and> (snd (push m q) \<longrightarrow> mq_queue (fst (push m q)) =
        (if MessageQueue_is_full q then the (del_first is_channel (mq_queue q)) else mq_queue q) @ [m])"
proof (intro conjI)
  have "queue_ok (new_message_queue n)" by (simp add: queue_ok_def new_message_queue_def)
  from offline_queue.run_bounded [OF this, of ops]
  show "length (mq_queue (fold queue_step ops (new_message_queue n))) \<le> nat n"
    by (simp add: new_message_queue_def)
qed (auto simp: push_def MessageQueue_is_full_def del_first_None list_all_iff
    dest: del_first_ex split: if_splits option.splits)

definition sample_message :: queued_message where
  "sample_message =
     \<lparr>qm_sender_key = [1], qm_txt_type = 0, qm_timestamp = 0, qm_text = [], qm_is_channel = False,
      qm_channel_idx = 0, qm_path_len = 0, qm_snr = 0, qm_rssi = 0, qm_channel_data_type = 0,
      qm_channel_data_payload = [], qm_sender_prefix = []\<rparr>"

section \<open>Delivery\<close>

text \<open>
  A run of pushes and pops with its history: the entries that were accepted and the entries that
  were delivered, both in order.
\<close>

datatype traffic = Arrive queue_entry | Deliver

record queue_history =
  qh_queue :: message_queue
  qh_accepted :: "queue_entry list"
  qh_delivered :: "queue_entry list"

fun traffic_step :: "traffic \<Rightarrow> queue_history \<Rightarrow> queue_history" where
  "traffic_step (Arrive m) h =
     (let (q, ok) = push m (qh_queue h)
      in h\<lparr>qh_queue := q, qh_accepted := qh_accepted h @ (if ok then [m] else [])\<rparr>)"
| "traffic_step Deliver h =
     (let (q, m) = pop (qh_queue h)
      in h\<lparr>qh_queue := q, qh_delivered := qh_delivered h @ (case m of None \<Rightarrow> [] | Some x \<Rightarrow> [x])\<rparr>)"

definition direct_of :: "queue_entry list \<Rightarrow> queue_entry list" where
  "direct_of es = filter (\<lambda>e. \<not> is_channel e) es"

lemma direct_of_append: "direct_of (xs @ ys) = direct_of xs @ direct_of ys"
  by (simp add: direct_of_def)

definition history_ok :: "queue_history \<Rightarrow> bool" where
  "history_ok h \<longleftrightarrow>
     direct_of (qh_delivered h) @ direct_of (mq_queue (qh_queue h)) = direct_of (qh_accepted h)
     \<and> subseq (qh_delivered h @ mq_queue (qh_queue h)) (qh_accepted h)"

lemma push_accepts:
  assumes "push m q = (q', True)"
  shows "direct_of (mq_queue q') = direct_of (mq_queue q) @ direct_of [m]"
    and "\<exists>kept. mq_queue q' = kept @ [m] \<and> subseq kept (mq_queue q)"
  using assms
  by (auto simp: push_def direct_of_def filter_del_first dest: subseq_del_first
      split: if_splits option.splits)

lemma history_ok_step: "history_ok h \<Longrightarrow> history_ok (traffic_step t h)"
proof (cases t)
  case (Arrive m)
  assume ok: "history_ok h"
  obtain q acc where push: "push m (qh_queue h) = (q, acc)" by (cases "push m (qh_queue h)")
  show ?thesis
  proof (cases acc)
    case True
    with push have push': "push m (qh_queue h) = (q, True)" by simp
    from push_accepts(2) [OF this] obtain kept where
      kept: "mq_queue q = kept @ [m]" "subseq kept (mq_queue (qh_queue h))" by blast
    from kept(2) have "subseq (qh_delivered h @ kept) (qh_delivered h @ mq_queue (qh_queue h))"
      by (intro list_emb_append_mono) auto
    with ok have "subseq (qh_delivered h @ kept) (qh_accepted h)"
      unfolding history_ok_def using subseq_order.order_trans by blast
    then have "subseq ((qh_delivered h @ kept) @ [m]) (qh_accepted h @ [m])"
      by (intro list_emb_append_mono) auto
    with push_accepts(1) [OF push'] ok kept push True show ?thesis
      by (simp add: Arrive history_ok_def direct_of_append flip: append_assoc)
  next
    case False
    with push have "q = qh_queue h" by (auto simp: push_def split: if_splits option.splits)
    with ok push False show ?thesis by (simp add: Arrive history_ok_def)
  qed
next
  case Deliver
  assume "history_ok h"
  then show ?thesis
    by (auto simp: Deliver history_ok_def pop_def direct_of_def split: list.splits)
qed

interpretation traffic: step_system traffic_step history_ok
  by unfold_locales (rule history_ok_step)

definition queue_run :: "int \<Rightarrow> traffic list \<Rightarrow> queue_history" where
  "queue_run n ops = fold traffic_step ops
     \<lparr>qh_queue = new_message_queue n, qh_accepted = [], qh_delivered = []\<rparr>"

text \<open>
  C23: No direct message is ever lost or reordered: after any sequence of arrivals and deliveries,
  the direct messages delivered so far followed by those still queued are exactly the direct
  messages that were accepted, in order; channel messages may be displaced but are never
  reordered or duplicated.
\<close>

theorem direct_messages_delivered_in_order:
  "direct_of (qh_delivered (queue_run n ops)) @ direct_of (mq_queue (qh_queue (queue_run n ops)))
     = direct_of (qh_accepted (queue_run n ops))
   \<and> subseq (qh_delivered (queue_run n ops) @ mq_queue (qh_queue (queue_run n ops)))
       (qh_accepted (queue_run n ops))"
proof -
  have "history_ok \<lparr>qh_queue = new_message_queue n, qh_accepted = [], qh_delivered = []\<rparr>"
    by (simp add: history_ok_def direct_of_def new_message_queue_def)
  from traffic.invar_run [OF this, of ops] show ?thesis by (simp add: queue_run_def history_ok_def)
qed

end
