(* ===== verification/Path_Cache.thy ===== *)
theory Path_Cache
  imports Interfaces
begin

text \<open>
  \<open>companion/path_cache.py\<close>: the table of recently heard advertiser paths, in order of
  refresh. With a capacity of zero or less an update of an empty cache raises, since there is
  nothing to evict.
\<close>

record advert_path =
  ap_public_key_prefix :: bytes
  ap_name :: pystr
  ap_path_len :: int
  ap_path :: bytes
  ap_recv_timestamp :: int

record path_cache =
  pc_paths :: "advert_path list"
  pc_max :: int

definition new_path_cache :: "int \<Rightarrow> path_cache" where
  "new_path_cache max_entries = \<lparr>pc_paths = [], pc_max = max_entries\<rparr>"

text \<open>\<open>deque.remove(existing)\<close> deletes the first entry that is equal.\<close>

definition drop_prefix :: "bytes \<Rightarrow> advert_path list \<Rightarrow> advert_path list" where
  "drop_prefix prefix paths =
     (case find (\<lambda>existing. ap_public_key_prefix existing = prefix) paths of
        None \<Rightarrow> paths
      | Some existing \<Rightarrow> remove1 existing paths)"

definition PathCache_update :: "advert_path \<Rightarrow> path_cache \<Rightarrow> path_cache \<times> unit res" where
  "PathCache_update advert_path pc =
     (let paths = drop_prefix (ap_public_key_prefix advert_path) (pc_paths pc)
      in if pc_max pc \<le> int (length paths) then
           (case paths of
              [] \<Rightarrow> (pc\<lparr>pc_paths := []\<rparr>, Inl IndexError)
            | _ # rest \<Rightarrow> (pc\<lparr>pc_paths := rest @ [advert_path]\<rparr>, Inr ()))
         else (pc\<lparr>pc_paths := paths @ [advert_path]\<rparr>, Inr ()))"

definition PathCache_get_by_prefix :: "bytes \<Rightarrow> path_cache \<Rightarrow> advert_path option" where
  "PathCache_get_by_prefix prefix pc =
     find (\<lambda>path. take (length prefix) (ap_public_key_prefix path) = prefix) (pc_paths pc)"

definition PathCache_get_all :: "path_cache \<Rightarrow> advert_path list" where
  "PathCache_get_all pc = pc_paths pc"

definition PathCache_clear :: "path_cache \<Rightarrow> path_cache" where
  "PathCache_clear pc = pc\<lparr>pc_paths := []\<rparr>"

section \<open>One entry per prefix, least recently refreshed first out\<close>

abbreviation prefixes_of :: "advert_path list \<Rightarrow> bytes list" where
  "prefixes_of paths \<equiv> map ap_public_key_prefix paths"

definition path_cache_ok :: "path_cache \<Rightarrow> bool" where
  "path_cache_ok pc \<longleftrightarrow> distinct (prefixes_of (pc_paths pc)) \<and> length (pc_paths pc) \<le> nat (pc_max pc)"

lemma drop_prefix_filter:
  assumes "distinct (prefixes_of paths)"
  shows "drop_prefix k paths = filter (\<lambda>a. ap_public_key_prefix a \<noteq> k) paths"
  using assms
proof (induction paths)
  case Nil
  then show ?case by (simp add: drop_prefix_def)
next
  case (Cons a paths)
  show ?case
  proof (cases "ap_public_key_prefix a = k")
    case True
    with Cons.prems have "k \<notin> ap_public_key_prefix ` set paths" by auto
    then have "filter (\<lambda>a. ap_public_key_prefix a \<noteq> k) paths = paths" by (intro filter_True) auto
    with True show ?thesis by (simp add: drop_prefix_def)
  next
    case False
    have "x \<noteq> a" if "find (\<lambda>a. ap_public_key_prefix a = k) paths = Some x" for x
      using that False by (auto simp: find_Some_iff)
    with False Cons show ?thesis
      by (auto simp: drop_prefix_def split: option.splits)
  qed
qed

text \<open>The update in closed form.\<close>

definition refreshed :: "advert_path \<Rightarrow> path_cache \<Rightarrow> advert_path list" where
  "refreshed a pc =
     (let paths = filter (\<lambda>x. ap_public_key_prefix x \<noteq> ap_public_key_prefix a) (pc_paths pc)
      in (if pc_max pc \<le> int (length paths) then tl paths else paths) @ [a])"

lemma PathCache_update_eq:
  assumes "path_cache_ok pc" and "0 < pc_max pc"
  shows "PathCache_update a pc = (pc\<lparr>pc_paths := refreshed a pc\<rparr>, Inr ())"
  using assms
  by (auto simp: PathCache_update_def refreshed_def path_cache_ok_def drop_prefix_filter Let_def
      split: list.split)

lemma distinct_prefixes_tl: "distinct (prefixes_of paths) \<Longrightarrow> distinct (prefixes_of (tl paths))"
  by (cases paths) auto

lemma refreshed_ok:
  assumes "path_cache_ok pc" and "0 < pc_max pc"
  shows "distinct (prefixes_of (refreshed a pc))" and "length (refreshed a pc) \<le> nat (pc_max pc)"
proof -
  let ?ps = "filter (\<lambda>x. ap_public_key_prefix x \<noteq> ap_public_key_prefix a) (pc_paths pc)"
  have d: "distinct (prefixes_of ?ps)"
    using assms(1) by (simp add: path_cache_ok_def distinct_map_filter)
  have notin: "ap_public_key_prefix a \<notin> set (prefixes_of ?ps)" by auto
  then have notin_tl: "ap_public_key_prefix a \<notin> set (prefixes_of (tl ?ps))"
    by (cases ?ps) auto
  show "distinct (prefixes_of (refreshed a pc))"
    using d notin notin_tl distinct_prefixes_tl [OF d] by (auto simp: refreshed_def Let_def)
  have "length ?ps \<le> nat (pc_max pc)"
    using assms(1) le_trans [OF length_filter_le] unfolding path_cache_ok_def by blast
  with assms(2) show "length (refreshed a pc) \<le> nat (pc_max pc)"
    by (auto simp: refreshed_def Let_def)
qed

datatype path_op = Update advert_path | ClearPaths

fun path_step :: "path_op \<Rightarrow> path_cache \<Rightarrow> path_cache" where
  "path_step (Update a) pc = fst (PathCache_update a pc)"
| "path_step ClearPaths pc = PathCache_clear pc"

lemma path_step_ok:
  assumes "path_cache_ok pc \<and> 0 < pc_max pc"
  shows "path_cache_ok (path_step op pc) \<and> 0 < pc_max (path_step op pc)"
proof (cases op)
  case (Update a)
  with assms refreshed_ok [of pc a] show ?thesis
    by (simp add: PathCache_update_eq) (simp add: path_cache_ok_def)
next
  case ClearPaths
  with assms show ?thesis by (simp add: PathCache_clear_def path_cache_ok_def)
qed

lemma pc_max_step: "pc_max (path_step op pc) = pc_max pc"
  by (cases op) (auto simp: PathCache_update_def PathCache_clear_def Let_def split: list.split)

interpretation advert_paths:
  bounded_store path_step "\<lambda>pc. path_cache_ok pc \<and> 0 < pc_max pc" "\<lambda>pc. length (pc_paths pc)"
    "\<lambda>pc. nat (pc_max pc)"
proof unfold_locales
  show "path_cache_ok pc \<and> 0 < pc_max pc \<Longrightarrow>
      path_cache_ok (path_step op pc) \<and> 0 < pc_max (path_step op pc)" for pc op
    by (rule path_step_ok)
qed (auto simp: path_cache_ok_def pc_max_step)

lemma refreshed_lookup:
  assumes "\<forall>x \<in> set (pc_paths pc). length (ap_public_key_prefix x) = length (ap_public_key_prefix a)"
  shows "PathCache_get_by_prefix (ap_public_key_prefix a) (pc\<lparr>pc_paths := refreshed a pc\<rparr>) = Some a"
proof -
  let ?P = "\<lambda>p. take (length (ap_public_key_prefix a)) (ap_public_key_prefix p) = ap_public_key_prefix a"
  let ?ps = "filter (\<lambda>x. ap_public_key_prefix x \<noteq> ap_public_key_prefix a) (pc_paths pc)"
  have find_app: "find ?P (xs @ [a]) = Some a" if "\<forall>x \<in> set xs. \<not> ?P x" for xs
    using that by (induction xs) auto
  have "\<forall>x \<in> set ?ps. \<not> ?P x" using assms by auto
  moreover from this have "\<forall>x \<in> set (tl ?ps). \<not> ?P x" by (cases ?ps) auto
  ultimately show ?thesis
    using find_app [of ?ps] find_app [of "tl ?ps"]
    by (auto simp: PathCache_get_by_prefix_def refreshed_def Let_def)
qed

text \<open>
  C40: The path table is a least-recently-refreshed cache. After any sequence of updates and
  clears, a cache of positive capacity holds at most that many entries and one entry per public
  key prefix; an update never raises, puts its entry last, and removes only the previous entry
  of the same prefix and, when the table is still full, the entry refreshed longest ago. With
  prefixes of one length, as the node stores them, the entry is then found under its prefix.
\<close>

theorem path_cache_lru:
  assumes "0 < n" and "pc = fold path_step ops (new_path_cache n)"
  shows "length (pc_paths pc) \<le> nat n \<and> distinct (prefixes_of (pc_paths pc))
         \<and> PathCache_update a pc = (pc\<lparr>pc_paths := refreshed a pc\<rparr>, Inr ())
         \<and> ((\<forall>x \<in> set (pc_paths pc). length (ap_public_key_prefix x) = length (ap_public_key_prefix a))
            \<longrightarrow> PathCache_get_by_prefix (ap_public_key_prefix a) (fst (PathCache_update a pc)) = Some a)"
proof -
  have "path_cache_ok (new_path_cache n) \<and> 0 < pc_max (new_path_cache n)"
    using assms(1) by (simp add: path_cache_ok_def new_path_cache_def)
  from advert_paths.invar_run [OF this, of ops] advert_paths.cap_run [of ops "new_path_cache n"]
  have ok: "path_cache_ok pc" "0 < pc_max pc" "nat (pc_max pc) = nat n"
    using assms(2) by (simp_all add: new_path_cache_def)
  show ?thesis
    using ok(1,3) refreshed_lookup [of pc a]
    by (simp add: PathCache_update_eq [OF ok(1,2)]) (simp add: path_cache_ok_def)
qed

definition sample_path :: "nat \<Rightarrow> advert_path" where
  "sample_path i = \<lparr>ap_public_key_prefix = [of_nat i], ap_name = [], ap_path_len = 0, ap_path = [],
                    ap_recv_timestamp = 0\<rparr>"

theorem path_cache_lru_witness:
  "PathCache_update (sample_path 3) (fold path_step [Update (sample_path 1), Update (sample_path 2)] (new_path_cache 2))
     = (\<lparr>pc_paths = [sample_path 2, sample_path 3], pc_max = 2\<rparr>, Inr ())"
proof -
  let ?pc = "fold path_step [Update (sample_path 1), Update (sample_path 2)] (new_path_cache 2)"
  have pc: "?pc = \<lparr>pc_paths = [sample_path 1, sample_path 2], pc_max = 2\<rparr>"
    by (simp add: new_path_cache_def PathCache_update_def drop_prefix_def sample_path_def)
  from path_cache_lru [of 2 ?pc "[Update (sample_path 1), Update (sample_path 2)]" "sample_path 3"]
  have "PathCache_update (sample_path 3) ?pc = (?pc\<lparr>pc_paths := refreshed (sample_path 3) ?pc\<rparr>, Inr ())"
    by simp
  then show ?thesis unfolding pc by (simp add: refreshed_def sample_path_def)
qed

end
