(* ===== verification/Channel_Store.thy ===== *)
theory Channel_Store
  imports Packet_Utils
begin

text \<open>
  \<open>companion/channel_store.py\<close> and \<open>companion/stats_collector.py\<close>: the fixed table of
  group channels, addressed by index and by name, and the packet counters.
\<close>

section \<open>Channels\<close>

record channel =
  ch_name :: pystr
  ch_secret :: bytes

record channel_store =
  chs_channels :: "channel option list"
  chs_max_channels :: int

definition new_channel_store :: "int \<Rightarrow> channel_store" where
  "new_channel_store max_channels =
     \<lparr>chs_channels = replicate (nat max_channels) None, chs_max_channels = max_channels\<rparr>"

text \<open>The list of dictionaries with name and secret, the secret in hexadecimal.\<close>

definition get_channels :: "channel_store \<Rightarrow> (pystr \<times> pystr) list" where
  "get_channels s =
     concat (map (\<lambda>ch. case ch of None \<Rightarrow> [] | Some c \<Rightarrow> [(ch_name c, hex_str (ch_secret c))])
                 (chs_channels s))"

definition ChannelStore_get :: "int \<Rightarrow> channel_store \<Rightarrow> channel option res" where
  "ChannelStore_get idx s =
     (if 0 \<le> idx \<and> idx < chs_max_channels s then index_res (chs_channels s) idx else Inr None)"

text \<open>Assignment to an index past the end of the list raises.\<close>

definition assign_res :: "'a list \<Rightarrow> int \<Rightarrow> 'a \<Rightarrow> 'a list res" where
  "assign_res xs i v = bind_res (index_res xs i) (\<lambda>_. Inr (xs[nat (if i < 0 then i + int (length xs) else i) := v]))"

definition ChannelStore_set :: "int \<Rightarrow> channel \<Rightarrow> channel_store \<Rightarrow> (channel_store \<times> bool) res" where
  "ChannelStore_set idx channel s =
     (if 0 \<le> idx \<and> idx < chs_max_channels s
      then bind_res (assign_res (chs_channels s) idx (Some channel)) (\<lambda>chs.
           Inr (s\<lparr>chs_channels := chs\<rparr>, True))
      else Inr (s, False))"

definition ChannelStore_remove :: "int \<Rightarrow> channel_store \<Rightarrow> (channel_store \<times> bool) res" where
  "ChannelStore_remove idx s =
     (if 0 \<le> idx \<and> idx < chs_max_channels s
      then bind_res (index_res (chs_channels s) idx) (\<lambda>ch.
           if ch \<noteq> None
           then bind_res (assign_res (chs_channels s) idx None) (\<lambda>chs. Inr (s\<lparr>chs_channels := chs\<rparr>, True))
           else Inr (s, False))
      else Inr (s, False))"

fun find_name_from :: "nat \<Rightarrow> pystr \<Rightarrow> channel option list \<Rightarrow> nat option" where
  "find_name_from idx name [] = None"
| "find_name_from idx name (ch # chs) =
     (if ch \<noteq> None \<and> ch_name (the ch) = name then Some idx else find_name_from (Suc idx) name chs)"

definition find_by_name :: "pystr \<Rightarrow> channel_store \<Rightarrow> nat option" where
  "find_by_name name s = find_name_from 0 name (chs_channels s)"

definition ChannelStore_get_count :: "channel_store \<Rightarrow> nat" where
  "ChannelStore_get_count s = length (filter (\<lambda>ch. ch \<noteq> None) (chs_channels s))"

definition ChannelStore_clear :: "channel_store \<Rightarrow> channel_store" where
  "ChannelStore_clear s = s\<lparr>chs_channels := replicate (nat (chs_max_channels s)) None\<rparr>"

definition channel_store_ok :: "channel_store \<Rightarrow> bool" where
  "channel_store_ok s \<longleftrightarrow> length (chs_channels s) = nat (chs_max_channels s)"

text \<open>The table as a partial function from valid indices.\<close>

definition slot :: "channel_store \<Rightarrow> int \<Rightarrow> channel option" where
  "slot s i = (if 0 \<le> i \<and> i < chs_max_channels s then chs_channels s ! nat i else None)"

lemma ChannelStore_get_slot: "channel_store_ok s \<Longrightarrow> ChannelStore_get i s = Inr (slot s i)"
  by (auto simp: ChannelStore_get_def slot_def channel_store_ok_def index_res_def)

lemma ChannelStore_set_slot:
  assumes "channel_store_ok s"
  shows "\<exists>s'. ChannelStore_set i c s = Inr (s', 0 \<le> i \<and> i < chs_max_channels s)
           \<and> channel_store_ok s' \<and> chs_max_channels s' = chs_max_channels s
           \<and> slot s' = (if 0 \<le> i \<and> i < chs_max_channels s then (slot s)(i := Some c) else slot s)"
  using assms
  by (auto simp: ChannelStore_set_def channel_store_ok_def assign_res_def index_res_def slot_def
      fun_eq_iff nth_list_update nat_eq_iff)

lemma ChannelStore_remove_slot:
  assumes "channel_store_ok s"
  shows "\<exists>s'. ChannelStore_remove i s = Inr (s', slot s i \<noteq> None)
           \<and> channel_store_ok s' \<and> chs_max_channels s' = chs_max_channels s
           \<and> slot s' = (slot s)(i := None)"
proof (cases "slot s i = None")
  case True
  with assms show ?thesis
    by (auto simp: ChannelStore_remove_def channel_store_ok_def index_res_def slot_def fun_eq_iff)
next
  case False
  then have "0 \<le> i" "i < chs_max_channels s" "chs_channels s ! nat i \<noteq> None"
    by (auto simp: slot_def split: if_splits)
  with assms show ?thesis
    by (auto simp: ChannelStore_remove_def channel_store_ok_def assign_res_def index_res_def slot_def
        fun_eq_iff nth_list_update nat_eq_iff)
qed

text \<open>The search returns the lowest index that carries the name.\<close>

definition has_name :: "pystr \<Rightarrow> channel option \<Rightarrow> bool" where
  "has_name name ch \<longleftrightarrow> ch \<noteq> None \<and> ch_name (the ch) = name"

lemma find_name_from_None: "find_name_from k name chs = None \<longleftrightarrow> (\<forall>ch \<in> set chs. \<not> has_name name ch)"
  by (induction chs arbitrary: k) (auto simp: has_name_def)

lemma find_name_from_Some:
  "find_name_from k name chs = Some i \<Longrightarrow>
     \<exists>us ch vs. chs = us @ ch # vs \<and> i = k + length us \<and> has_name name ch
       \<and> (\<forall>u \<in> set us. \<not> has_name name u)"
proof (induction chs arbitrary: k)
  case Nil
  then show ?case by simp
next
  case (Cons ch chs)
  show ?case
  proof (cases "has_name name ch")
    case True
    with Cons.prems show ?thesis by (intro exI [of _ "[]"]) (auto simp: has_name_def)
  next
    case False
    with Cons.prems have "find_name_from (Suc k) name chs = Some i" by (auto simp: has_name_def)
    from Cons.IH [OF this] obtain us c vs where
      "chs = us @ c # vs" "i = Suc k + length us" "has_name name c" "\<forall>u \<in> set us. \<not> has_name name u"
      by blast
    with False show ?thesis by (intro exI [of _ "ch # us"]) auto
  qed
qed

text \<open>
  The channel table is an array of optional channels. On a table whose list has the announced
  length no operation raises; reading an index after writing or removing one returns what was
  written there, leaves every other index alone, and out-of-range indices are refused without
  effect; a lookup by name returns the lowest index holding that name, or nothing when no
  channel has it.
\<close>

lemma channel_store_laws:
  assumes "channel_store_ok s"
  shows "ChannelStore_get i s = Inr (slot s i)
         \<and> (\<exists>s'. ChannelStore_set i c s = Inr (s', 0 \<le> i \<and> i < chs_max_channels s) \<and> channel_store_ok s'
              \<and> (\<forall>j. ChannelStore_get j s' =
                    Inr (if j = i \<and> 0 \<le> i \<and> i < chs_max_channels s then Some c else slot s j)))
         \<and> (\<exists>s'. ChannelStore_remove i s = Inr (s', slot s i \<noteq> None) \<and> channel_store_ok s'
              \<and> (\<forall>j. ChannelStore_get j s' = Inr (if j = i then None else slot s j)))
         \<and> (case find_by_name name s of
              None \<Rightarrow> \<forall>j. \<not> has_name name (slot s j)
            | Some k \<Rightarrow> has_name name (slot s (int k)) \<and> (\<forall>j. j < int k \<longrightarrow> \<not> has_name name (slot s j)))"
proof (intro conjI)
  show "ChannelStore_get i s = Inr (slot s i)" by (rule ChannelStore_get_slot [OF assms])
  from ChannelStore_set_slot [OF assms, of i c] obtain s' where
    s': "ChannelStore_set i c s = Inr (s', 0 \<le> i \<and> i < chs_max_channels s)" "channel_store_ok s'"
    "slot s' = (if 0 \<le> i \<and> i < chs_max_channels s then (slot s)(i := Some c) else slot s)" by blast
  then show "\<exists>s'. ChannelStore_set i c s = Inr (s', 0 \<le> i \<and> i < chs_max_channels s) \<and> channel_store_ok s'
      \<and> (\<forall>j. ChannelStore_get j s' =
            Inr (if j = i \<and> 0 \<le> i \<and> i < chs_max_channels s then Some c else slot s j))"
    by (intro exI [of _ s']) (auto simp: ChannelStore_get_slot)
  from ChannelStore_remove_slot [OF assms, of i] obtain s'' where
    s'': "ChannelStore_remove i s = Inr (s'', slot s i \<noteq> None)" "channel_store_ok s''"
    "slot s'' = (slot s)(i := None)" by blast
  then show "\<exists>s'. ChannelStore_remove i s = Inr (s', slot s i \<noteq> None) \<and> channel_store_ok s'
      \<and> (\<forall>j. ChannelStore_get j s' = Inr (if j = i then None else slot s j))"
    by (intro exI [of _ s'']) (auto simp: ChannelStore_get_slot)
  have len: "int (length (chs_channels s)) = max 0 (chs_max_channels s)"
    using assms by (simp add: channel_store_ok_def)
  have slot_set: "has_name name (slot s j) \<Longrightarrow> slot s j \<in> set (chs_channels s)" for j
    using len by (auto simp: slot_def has_name_def split: if_splits)
  show "case find_by_name name s of
      None \<Rightarrow> \<forall>j. \<not> has_name name (slot s j)
    | Some k \<Rightarrow> has_name name (slot s (int k)) \<and> (\<forall>j. j < int k \<longrightarrow> \<not> has_name name (slot s j))"
  proof (cases "find_by_name name s")
    case None
    then have "\<forall>ch \<in> set (chs_channels s). \<not> has_name name ch"
      by (simp add: find_by_name_def find_name_from_None)
    with None show ?thesis using slot_set by auto
  next
    case (Some k)
    then obtain us ch vs where chs: "chs_channels s = us @ ch # vs" "k = length us" "has_name name ch"
      "\<forall>u \<in> set us. \<not> has_name name u"
      using find_name_from_Some [of 0 name "chs_channels s" k] by (auto simp: find_by_name_def)
    have "int (length us) < chs_max_channels s" using len chs(1) by (simp add: max_def split: if_splits)
    then have "slot s (int k) = ch" using chs by (simp add: slot_def nth_append)
    moreover have "\<not> has_name name (slot s j)" if "j < int k" for j
    proof (cases "0 \<le> j")
      case True
      with that chs have "chs_channels s ! nat j \<in> set us" by (simp add: nth_append nat_less_iff)
      with True chs(4) show ?thesis by (auto simp: slot_def has_name_def)
    next
      case False
      then show ?thesis by (simp add: slot_def has_name_def)
    qed
    ultimately show ?thesis using Some chs(3) by simp
  qed
qed

section \<open>Packet counters\<close>

record packet_stats =
  ps_flood_tx :: int
  ps_flood_rx :: int
  ps_direct_tx :: int
  ps_direct_rx :: int
  ps_tx_errors :: int

record stats_collector =
  sc_packets :: packet_stats
  sc_start_time :: real

definition new_packet_stats :: packet_stats where
  "new_packet_stats =
     \<lparr>ps_flood_tx = 0, ps_flood_rx = 0, ps_direct_tx = 0, ps_direct_rx = 0, ps_tx_errors = 0\<rparr>"

definition new_stats_collector :: "real \<Rightarrow> stats_collector" where
  "new_stats_collector now = \<lparr>sc_packets = new_packet_stats, sc_start_time = now\<rparr>"

definition record_tx :: "bool \<Rightarrow> stats_collector \<Rightarrow> stats_collector" where
  "record_tx is_flood s =
     s\<lparr>sc_packets := (let p = sc_packets s
                      in if is_flood then p\<lparr>ps_flood_tx := ps_flood_tx p + 1\<rparr>
                         else p\<lparr>ps_direct_tx := ps_direct_tx p + 1\<rparr>)\<rparr>"

definition record_rx :: "bool \<Rightarrow> stats_collector \<Rightarrow> stats_collector" where
  "record_rx is_flood s =
     s\<lparr>sc_packets := (let p = sc_packets s
                      in if is_flood then p\<lparr>ps_flood_rx := ps_flood_rx p + 1\<rparr>
                         else p\<lparr>ps_direct_rx := ps_direct_rx p + 1\<rparr>)\<rparr>"

definition record_tx_error :: "stats_collector \<Rightarrow> stats_collector" where
  "record_tx_error s =
     s\<lparr>sc_packets := (let p = sc_packets s in p\<lparr>ps_tx_errors := ps_tx_errors p + 1\<rparr>)\<rparr>"

definition get_uptime_secs :: "real \<Rightarrow> stats_collector \<Rightarrow> int" where
  "get_uptime_secs now s = py_int (now - sc_start_time s)"

record stats_totals =
  st_packets :: packet_stats
  st_total_tx :: int
  st_total_rx :: int
  st_uptime_secs :: int

definition get_totals :: "real \<Rightarrow> stats_collector \<Rightarrow> stats_totals" where
  "get_totals now s =
     (let p = sc_packets s
      in \<lparr>st_packets = p, st_total_tx = ps_flood_tx p + ps_direct_tx p,
          st_total_rx = ps_flood_rx p + ps_direct_rx p, st_uptime_secs = get_uptime_secs now s\<rparr>)"

definition StatsCollector_reset :: "real \<Rightarrow> stats_collector \<Rightarrow> stats_collector" where
  "StatsCollector_reset now s = s\<lparr>sc_packets := new_packet_stats, sc_start_time := now\<rparr>"

end
