(* ===== verification/Identity.thy ===== *)
theory Identity
  imports Crypto
begin

text \<open>
  \<open>protocol/identity.py\<close>: peer identities, local identities from a seed or from a 64-byte
  firmware key, signatures and the shared secret. Signing keys are represented by their seed. The
  random generator that mints a key is a list of candidate seeds: the loop over it has no bound in
  the source, and the model returns \<open>None\<close> when the candidates run out. \<open>identity_laws\<close>
  states what the code relies on of Ed25519 and X25519.
\<close>

record identity =
  id_verify_key :: bytes
  id_x25519_pubkey :: bytes

record local_identity = identity +
  li_firmware_key :: "bytes option"
  li_signing_key :: "bytes option"
  li_x25519_private :: bytes
  li_x25519_public :: bytes

definition new_identity :: "crypto \<Rightarrow> bytes \<Rightarrow> identity res" where
  "new_identity c ed25519_public_key =
     bind_res (cr_verify_key c ed25519_public_key) (\<lambda>_.
     bind_res (ed25519_pk_to_x25519 c ed25519_public_key) (\<lambda>x.
     Inr \<lparr>id_verify_key = ed25519_public_key, id_x25519_pubkey = x\<rparr>))"

definition verify :: "crypto \<Rightarrow> 'a identity_scheme \<Rightarrow> bytes \<Rightarrow> bytes \<Rightarrow> bool res" where
  "verify c ident message signature =
     (case cr_verify c (id_verify_key ident) message signature of
        Inr _ \<Rightarrow> Inr True
      | Inl BadSignatureError \<Rightarrow> Inr False
      | Inl e \<Rightarrow> Inl e)"

definition get_public_key :: "'a identity_scheme \<Rightarrow> bytes" where
  "get_public_key ident = id_verify_key ident"

definition calc_shared_secret :: "crypto \<Rightarrow> 'a identity_scheme \<Rightarrow> bytes \<Rightarrow> bytes res" where
  "calc_shared_secret c ident local_private_x25519 =
     scalarmult c local_private_x25519 (id_x25519_pubkey ident)"

text \<open>The last step of every constructor: the base class is initialised with the public key.\<close>

definition local_identity_of ::
  "crypto \<Rightarrow> bytes \<Rightarrow> bytes option \<Rightarrow> bytes option \<Rightarrow> bytes \<Rightarrow> bytes \<Rightarrow> local_identity res" where
  "local_identity_of c ed25519_pub firmware_key signing_key priv pub =
     bind_res (new_identity c ed25519_pub) (\<lambda>base.
     Inr \<lparr>id_verify_key = id_verify_key base, id_x25519_pubkey = id_x25519_pubkey base,
          li_firmware_key = firmware_key, li_signing_key = signing_key,
          li_x25519_private = priv, li_x25519_public = pub\<rparr>)"

definition local_identity_of_firmware_key :: "crypto \<Rightarrow> bytes \<Rightarrow> local_identity res" where
  "local_identity_of_firmware_key c seed =
     (let scalar_first32 = take 32 seed
      in bind_res (cr_scalarmult_ed25519_base_noclamp c scalar_first32) (\<lambda>ed25519_pub.
         bind_res (cr_verify_key c ed25519_pub) (\<lambda>_.
         bind_res (x25519_clamp_scalar scalar_first32) (\<lambda>clamped.
         bind_res (scalarmult_base c clamped) (\<lambda>pub.
         local_identity_of c ed25519_pub (Some seed) None clamped pub)))))"

definition local_identity_of_seed :: "crypto \<Rightarrow> bytes \<Rightarrow> local_identity res" where
  "local_identity_of_seed c seed =
     bind_res (cr_signing_key_public c seed) (\<lambda>ed25519_pub.
     let ed25519_sk = seed @ ed25519_pub
     in bind_res (ed25519_sk_to_x25519 c ed25519_sk) (\<lambda>priv.
        bind_res (scalarmult_base c priv) (\<lambda>pub.
        local_identity_of c ed25519_pub None (Some seed) priv pub)))"

definition reserved_prefix :: "crypto \<Rightarrow> bytes \<Rightarrow> bool" where
  "reserved_prefix c seed =
     (case cr_signing_key_public c seed of
        Inr (b # _) \<Rightarrow> b = 0 \<or> b = 0xFF
      | _ \<Rightarrow> False)"

fun generate_signing_key :: "crypto \<Rightarrow> bytes list \<Rightarrow> bytes option" where
  "generate_signing_key c [] = None"
| "generate_signing_key c (candidate # candidates) =
     (if \<not> reserved_prefix c candidate then Some candidate else generate_signing_key c candidates)"

definition new_local_identity :: "crypto \<Rightarrow> bytes option \<Rightarrow> bytes list \<Rightarrow> local_identity res option" where
  "new_local_identity c seed candidates =
     (case seed of
        Some s \<Rightarrow>
          if s \<noteq> [] \<and> length s = 64 then Some (local_identity_of_firmware_key c s)
          else if s \<noteq> [] then Some (local_identity_of_seed c s)
          else map_option (local_identity_of_seed c) (generate_signing_key c candidates)
      | None \<Rightarrow> map_option (local_identity_of_seed c) (generate_signing_key c candidates))"

definition get_address_bytes :: "crypto \<Rightarrow> local_identity \<Rightarrow> bytes" where
  "get_address_bytes c li = take 1 (cr_sha256 c (get_public_key li))"

definition get_private_key :: "local_identity \<Rightarrow> bytes" where
  "get_private_key li = li_x25519_private li"

definition get_shared_public_key :: "local_identity \<Rightarrow> bytes" where
  "get_shared_public_key li = li_x25519_public li"

text \<open>Every constructor sets one of the two keys; \<open>the\<close> reads the one that is set.\<close>

definition get_signing_key_bytes :: "local_identity \<Rightarrow> bytes" where
  "get_signing_key_bytes li =
     (case li_firmware_key li of Some k \<Rightarrow> k | None \<Rightarrow> the (li_signing_key li))"

definition sign_firmware :: "crypto \<Rightarrow> bytes \<Rightarrow> bytes \<Rightarrow> bytes \<Rightarrow> bytes res" where
  "sign_firmware c key public_key message =
     (let scalar = take 32 key;
          nonce_prefix = take 32 (drop 32 key)
      in bind_res (cr_scalar_reduce c (cr_sha512 c (nonce_prefix @ message))) (\<lambda>r.
         bind_res (cr_scalarmult_ed25519_base_noclamp c r) (\<lambda>R_point.
         bind_res (cr_scalar_reduce c (cr_sha512 c (R_point @ public_key @ message))) (\<lambda>h.
         bind_res (cr_scalar_mul c h scalar) (\<lambda>h_times_scalar.
         bind_res (cr_scalar_add c h_times_scalar r) (\<lambda>s.
         Inr (R_point @ s)))))))"

definition sign :: "crypto \<Rightarrow> local_identity \<Rightarrow> bytes \<Rightarrow> bytes res" where
  "sign c li message =
     (case li_firmware_key li of
        Some key \<Rightarrow> sign_firmware c key (get_public_key li) message
      | None \<Rightarrow> cr_sign c (the (li_signing_key li)) message)"

section \<open>What Ed25519 and X25519 promise\<close>

text \<open>
  Documented behaviour of libsodium: key sizes, that the Curve25519 form of an Ed25519 public key
  belongs to the Curve25519 form of its secret key, that the Diffie-Hellman function commutes,
  and that a signature made with a key verifies under its public key.
\<close>

definition identity_laws :: "crypto \<Rightarrow> bool" where
  "identity_laws c \<longleftrightarrow>
     (\<forall>s pk. cr_signing_key_public c s = Inr pk \<longrightarrow> length pk = 32)
     \<and> (\<forall>pk. length pk = 32 \<longrightarrow> cr_verify_key c pk = Inr ())
     \<and> (\<forall>s pk sk x. cr_signing_key_public c s = Inr pk \<longrightarrow>
          cr_ed25519_sk_to_curve25519 c (s @ pk) = Inr sk \<longrightarrow> cr_scalarmult_base c sk = Inr x \<longrightarrow>
          cr_ed25519_pk_to_curve25519 c pk = Inr x)
     \<and> (\<forall>a b pa pb. cr_scalarmult_base c a = Inr pa \<longrightarrow> cr_scalarmult_base c b = Inr pb \<longrightarrow>
          cr_scalarmult c a pb = cr_scalarmult c b pa)
     \<and> (\<forall>a p ss. cr_scalarmult c a p = Inr ss \<longrightarrow> length ss = 32)
     \<and> (\<forall>s pk m. cr_signing_key_public c s = Inr pk \<longrightarrow>
          (\<exists>sig. cr_sign c s m = Inr sig \<and> length sig = 64 \<and> cr_verify c pk m sig = Inr ()))"

lemma local_identity_of_seed_fields:
  assumes "identity_laws c" and "local_identity_of_seed c seed = Inr li"
  shows "cr_signing_key_public c seed = Inr (get_public_key li)" and "length (get_public_key li) = 32"
    and "cr_scalarmult_base c (get_private_key li) = Inr (li_x25519_public li)"
    and "new_identity c (get_public_key li)
       = Inr \<lparr>id_verify_key = get_public_key li, id_x25519_pubkey = li_x25519_public li\<rparr>"
    and "li_firmware_key li = None" and "li_signing_key li = Some seed"
proof -
  from assms(2) obtain pk priv pub x where
    pk: "cr_signing_key_public c seed = Inr pk" and priv: "cr_ed25519_sk_to_curve25519 c (seed @ pk) = Inr priv"
    and pub: "cr_scalarmult_base c priv = Inr pub" and vk: "cr_verify_key c pk = Inr ()"
    and x: "cr_ed25519_pk_to_curve25519 c pk = Inr x"
    and li: "li = \<lparr>id_verify_key = pk, id_x25519_pubkey = x, li_firmware_key = None,
                  li_signing_key = Some seed, li_x25519_private = priv, li_x25519_public = pub\<rparr>"
    by (auto simp: local_identity_of_seed_def local_identity_of_def new_identity_def res_simps
        ed25519_sk_to_x25519_def ed25519_pk_to_x25519_def scalarmult_base_def Let_def)
  from assms(1) pk priv pub have "cr_ed25519_pk_to_curve25519 c pk = Inr pub"
    unfolding identity_laws_def by blast
  with pk priv pub vk x li assms(1)
  show "cr_signing_key_public c seed = Inr (get_public_key li)" "length (get_public_key li) = 32"
    "cr_scalarmult_base c (get_private_key li) = Inr (li_x25519_public li)"
    "new_identity c (get_public_key li)
       = Inr \<lparr>id_verify_key = get_public_key li, id_x25519_pubkey = li_x25519_public li\<rparr>"
    "li_firmware_key li = None" "li_signing_key li = Some seed"
    by (auto simp: get_public_key_def get_private_key_def new_identity_def ed25519_pk_to_x25519_def
        identity_laws_def)
qed

text \<open>Both ends of a conversation compute the same secret.\<close>

lemma shared_secret_agrees:
  assumes "identity_laws c" and "local_identity_of_seed c sa = Inr a" and "local_identity_of_seed c sb = Inr b"
  obtains ia ib where "new_identity c (get_public_key a) = Inr ia" and "new_identity c (get_public_key b) = Inr ib"
    and "calc_shared_secret c ib (get_private_key a) = calc_shared_secret c ia (get_private_key b)"
proof -
  note fa = local_identity_of_seed_fields [OF assms(1,2)]
  note fb = local_identity_of_seed_fields [OF assms(1,3)]
  have "cr_scalarmult c (get_private_key a) (li_x25519_public b)
      = cr_scalarmult c (get_private_key b) (li_x25519_public a)"
    using assms(1) fa(3) fb(3) unfolding identity_laws_def by blast
  then show thesis
    by (intro that [OF fa(4) fb(4)]) (simp add: calc_shared_secret_def scalarmult_def)
qed

lemma generate_signing_key_prefix:
  "generate_signing_key c candidates = Some s \<Longrightarrow> s \<in> set candidates \<and> \<not> reserved_prefix c s"
  by (induction candidates) (auto split: if_splits)

lemma verify_ok: "cr_verify c (id_verify_key i) m s = Inr u \<Longrightarrow> verify c i m s = Inr True"
  unfolding verify_def by (erule ssubst) simp

lemma sign_verifies:
  assumes "identity_laws c" and "local_identity_of_seed c seed = Inr li"
  obtains sig where "sign c li m = Inr sig" and "length sig = 64" and "verify c li m sig = Inr True"
proof -
  note f = local_identity_of_seed_fields [OF assms]
  from assms(1) f(1) obtain sig where "cr_sign c seed m = Inr sig" "length sig = 64"
    "cr_verify c (get_public_key li) m sig = Inr ()" unfolding identity_laws_def by blast
  with f(5,6) show thesis by (intro that verify_ok) (simp_all add: sign_def get_public_key_def)
qed

lemma xor_comm_list: "map2 (XOR) a b = map2 (XOR) b (a :: bytes)"
  by (rule nth_equalityI) (simp_all add: xor.commute)

lemma toy_identity_laws: "identity_laws toy_crypto"
proof -
  have "map2 (XOR) a b = map2 (XOR) b a" for a b :: bytes by (rule xor_comm_list)
  then show ?thesis
    by (auto simp: identity_laws_def toy_crypto_def length_toy_digest split: if_splits)
qed

text \<open>
  Key agreement is symmetric. For any two local identities made from seeds, each side can
  build the identity of the other from its public key, and the secret that one side computes
  from its own private key and the other's public key is the secret the other side computes;
  their public keys are 32 bytes long, and a signature made by one verifies under the identity
  that the other holds of it.
\<close>

lemma shared_secret_symmetric:
  assumes "identity_laws c" and "local_identity_of_seed c sa = Inr a" and "local_identity_of_seed c sb = Inr b"
  shows "\<exists>ia ib. new_identity c (get_public_key a) = Inr ia \<and> new_identity c (get_public_key b) = Inr ib
           \<and> length (get_public_key a) = 32
           \<and> calc_shared_secret c ib (get_private_key a) = calc_shared_secret c ia (get_private_key b)
           \<and> (\<exists>sig. sign c a m = Inr sig \<and> verify c ia m sig = Inr True)"
proof -
  note fa = local_identity_of_seed_fields [OF assms(1,2)]
  obtain ia ib where i: "new_identity c (get_public_key a) = Inr ia" "new_identity c (get_public_key b) = Inr ib"
    "calc_shared_secret c ib (get_private_key a) = calc_shared_secret c ia (get_private_key b)"
    using shared_secret_agrees [OF assms] by blast
  obtain sig where "sign c a m = Inr sig" "verify c a m sig = Inr True"
    using sign_verifies [OF assms(1,2)] by blast
  moreover have "id_verify_key ia = id_verify_key a"
    using i(1) fa(4) by (simp add: get_public_key_def)
  ultimately show ?thesis using i fa(2) by (auto simp: verify_def)
qed

end
