(* ===== verification/Contact_Store.thy ===== *)
theory Contact_Store
  imports Packet_Utils
begin

text \<open>
  \<open>companion/contact_store.py\<close>: the contact table and the proxies that the handlers read.
  Contacts are values here: a caller that keeps a contact object and changes it in place is not
  modelled. Both tables are insertion-ordered dictionaries keyed by the public key.
\<close>

record contact =
  ct_public_key :: bytes
  ct_name :: pystr
  ct_adv_type :: int
  ct_flags :: int
  ct_out_path_len :: int
  ct_out_path :: bytes
  ct_last_advert_timestamp :: int
  ct_lastmod :: int
  ct_gps_lat :: real
  ct_gps_lon :: real
  ct_sync_since :: int
  ct_last_advert_packet :: "bytes option"

record contact_proxy =
  cx_contact :: contact
  cx_public_key :: pystr
  cx_name :: pystr
  cx_type :: int
  cx_flags :: int
  cx_out_path :: bytes
  cx_out_path_len :: int
  cx_sync_since :: int
  cx_last_advert_timestamp :: int
  cx_lastmod :: int
  cx_gps_lat :: real
  cx_gps_lon :: real

definition contact_proxy_of :: "contact \<Rightarrow> contact_proxy" where
  "contact_proxy_of c =
     \<lparr>cx_contact = c, cx_public_key = hex_str (ct_public_key c), cx_name = ct_name c,
      cx_type = ct_adv_type c, cx_flags = ct_flags c, cx_out_path = ct_out_path c,
      cx_out_path_len = ct_out_path_len c, cx_sync_since = ct_sync_since c,
      cx_last_advert_timestamp = ct_last_advert_timestamp c, cx_lastmod = ct_lastmod c,
      cx_gps_lat = ct_gps_lat c, cx_gps_lon = ct_gps_lon c\<rparr>"

record contact_store =
  cs_contacts :: "(bytes, contact) dict"
  cs_proxies :: "(bytes, contact_proxy) dict"
  cs_max_contacts :: int

definition ADV_TYPE_NONE :: int where "ADV_TYPE_NONE = 0"
definition MAX_ANON_CONTACTS :: nat where "MAX_ANON_CONTACTS = 8"

definition new_contact_store :: "int \<Rightarrow> contact_store" where
  "new_contact_store max_contacts =
     \<lparr>cs_contacts = [], cs_proxies = [], cs_max_contacts = max_contacts\<rparr>"

section \<open>Lookup\<close>

definition contacts :: "contact_store \<Rightarrow> contact_proxy list" where
  "contacts s = map snd (cs_proxies s)"

definition list_contacts :: "contact_store \<Rightarrow> contact_proxy list" where
  "list_contacts s = contacts s"

definition get_by_name :: "pystr \<Rightarrow> contact_store \<Rightarrow> contact_proxy option" where
  "get_by_name name s = find (\<lambda>proxy. cx_name proxy = name) (map snd (cs_proxies s))"

definition get_proxy_by_key :: "bytes \<Rightarrow> contact_store \<Rightarrow> contact_proxy option" where
  "get_proxy_by_key public_key s = map_of (cs_proxies s) public_key"

definition get_by_key :: "bytes \<Rightarrow> contact_store \<Rightarrow> contact option" where
  "get_by_key public_key s = map_of (cs_contacts s) public_key"

definition get_by_key_prefix :: "bytes \<Rightarrow> contact_store \<Rightarrow> contact option" where
  "get_by_key_prefix prefix s =
     map_option snd (find (\<lambda>(key, contact). take (length prefix) key = prefix) (cs_contacts s))"

definition ContactStore_get_all :: "int \<Rightarrow> contact_store \<Rightarrow> contact list" where
  "ContactStore_get_all since s =
     (if since = 0 then map snd (cs_contacts s)
      else filter (\<lambda>c. since \<le> ct_lastmod c) (map snd (cs_contacts s)))"

definition ContactStore_get_count :: "contact_store \<Rightarrow> nat" where
  "ContactStore_get_count s = length (cs_contacts s)"

definition ContactStore_count :: "contact_store \<Rightarrow> nat" where
  "ContactStore_count s = length (filter (\<lambda>c. ct_adv_type c \<noteq> ADV_TYPE_NONE) (map snd (cs_contacts s)))"

definition ContactStore_is_full :: "contact_store \<Rightarrow> bool" where
  "ContactStore_is_full s = (int (length (cs_contacts s)) \<ge> cs_max_contacts s)"

definition iterate :: "int \<Rightarrow> contact_store \<Rightarrow> contact list" where
  "iterate since s = filter (\<lambda>c. since = 0 \<or> since \<le> ct_lastmod c) (map snd (cs_contacts s))"

section \<open>Changes\<close>

text \<open>The two assignments that every insertion makes.\<close>

definition put_contact :: "contact \<Rightarrow> contact_store \<Rightarrow> contact_store" where
  "put_contact c s =
     s\<lparr>cs_contacts := AList.update (ct_public_key c) c (cs_contacts s),
       cs_proxies := AList.update (ct_public_key c) (contact_proxy_of c) (cs_proxies s)\<rparr>"

abbreviation known :: "bytes \<Rightarrow> contact_store \<Rightarrow> bool" where
  "known k s \<equiv> k \<in> set (dict_keys (cs_contacts s))"

text \<open>
  \<open>add\<close> and \<open>update\<close> call each other, each in the case that the other handles
  itself; the lemma \<open>add_update_calls\<close> below states the source's two equations.
\<close>

definition ContactStore_add :: "contact \<Rightarrow> contact_store \<Rightarrow> contact_store \<times> bool" where
  "ContactStore_add c s =
     (if known (ct_public_key c) s then (put_contact c s, True)
      else if cs_max_contacts s \<le> int (length (cs_contacts s)) then (s, False)
      else (put_contact c s, True))"

definition ContactStore_update :: "contact \<Rightarrow> contact_store \<Rightarrow> contact_store \<times> bool" where
  "ContactStore_update c s =
     (if \<not> known (ct_public_key c) s then ContactStore_add c s else (put_contact c s, True))"

definition ContactStore_remove :: "bytes \<Rightarrow> contact_store \<Rightarrow> contact_store \<times> bool" where
  "ContactStore_remove public_key s =
     (if \<not> known public_key s then (s, False)
      else (s\<lparr>cs_contacts := AList.delete public_key (cs_contacts s),
              cs_proxies := AList.delete public_key (cs_proxies s)\<rparr>, True))"

definition evictable :: "contact \<Rightarrow> bool" where
  "evictable c \<longleftrightarrow> ct_flags c AND 1 = 0 \<and> ct_adv_type c \<noteq> ADV_TYPE_NONE"

fun find_oldest :: "bytes option \<Rightarrow> int \<Rightarrow> (bytes, contact) dict \<Rightarrow> bytes option" where
  "find_oldest oldest_key oldest_lastmod [] = oldest_key"
| "find_oldest oldest_key oldest_lastmod ((key, c) # items) =
     (if evictable c \<and> ct_lastmod c < oldest_lastmod then find_oldest (Some key) (ct_lastmod c) items
      else find_oldest oldest_key oldest_lastmod items)"

definition add_or_overwrite :: "contact \<Rightarrow> contact_store \<Rightarrow> contact_store \<times> bool \<times> bytes option" where
  "add_or_overwrite c s =
     (if known (ct_public_key c) s then
        (let (s, ok) = ContactStore_update c s in (s, ok, None))
      else if cs_max_contacts s \<le> int (length (cs_contacts s)) then
        (case find_oldest None 0xFFFFFFFF (cs_contacts s) of
           None \<Rightarrow> (s, False, None)
         | Some oldest_key \<Rightarrow>
             (put_contact c (fst (ContactStore_remove oldest_key s)), True, Some oldest_key))
      else (put_contact c s, True, None))"

text \<open>\<open>min(keys, key=...)\<close> returns the first key with the least value.\<close>

fun min_key :: "('k \<Rightarrow> int) \<Rightarrow> 'k \<Rightarrow> 'k list \<Rightarrow> 'k" where
  "min_key f best [] = best"
| "min_key f best (k # ks) = (if f k < f best then min_key f k ks else min_key f best ks)"

definition anon_keys :: "contact_store \<Rightarrow> bytes list" where
  "anon_keys s = map fst (filter (\<lambda>(k, c). ct_adv_type c = ADV_TYPE_NONE) (cs_contacts s))"

definition add_transient :: "contact \<Rightarrow> contact_store \<Rightarrow> contact_store \<times> bool" where
  "add_transient c s =
     (if known (ct_public_key c) s then ContactStore_update c s
      else let anon = anon_keys s;
               s = (if MAX_ANON_CONTACTS \<le> length anon
                    then fst (ContactStore_remove
                           (min_key (\<lambda>k. ct_lastmod (the (map_of (cs_contacts s) k))) (hd anon) (tl anon)) s)
                    else s)
           in (put_contact c s, True))"

definition ContactStore_clear :: "contact_store \<Rightarrow> contact_store" where
  "ContactStore_clear s = s\<lparr>cs_contacts := [], cs_proxies := []\<rparr>"

fun load_contacts :: "contact list \<Rightarrow> contact_store \<Rightarrow> contact_store" where
  "load_contacts [] s = s"
| "load_contacts (c # cs) s =
     (if cs_max_contacts s \<le> int (length (cs_contacts s)) then s
      else load_contacts cs (put_contact c s))"

definition load_from :: "contact list \<Rightarrow> contact_store \<Rightarrow> contact_store" where
  "load_from cs s = load_contacts cs (ContactStore_clear s)"

section \<open>Export and import\<close>

text \<open>
  A record of the exported list: a key that is absent is \<open>None\<close>. Byte strings may be given
  in hexadecimal, as bytes or as a list of integers.
\<close>

datatype byte_repr = HexStr pystr | RawBytes bytes | IntList "int list"

record contact_dict =
  cd_public_key :: "byte_repr option"
  cd_name :: "pystr option"
  cd_adv_type :: "int option"
  cd_flags :: "int option"
  cd_out_path_len :: "int option"
  cd_out_path :: "byte_repr option"
  cd_last_advert_timestamp :: "int option"
  cd_lastmod :: "int option"
  cd_gps_lat :: "real option"
  cd_gps_lon :: "real option"
  cd_sync_since :: "int option"
  cd_last_advert_packet :: "byte_repr option"

text \<open>\<open>bytes.fromhex\<close>: pairs of digits, with ASCII white space allowed between the pairs.\<close>

definition ascii_space :: "nat \<Rightarrow> bool" where
  "ascii_space c \<longleftrightarrow> c = 32 \<or> (9 \<le> c \<and> c \<le> 13)"

fun fromhex :: "pystr \<Rightarrow> bytes res" where
  "fromhex [] = Inr []"
| "fromhex [c] = (if ascii_space c then Inr [] else Inl (ValueError ''non-hexadecimal number found''))"
| "fromhex (c # d # s) =
     (if ascii_space c then fromhex (d # s)
      else case (hex_digit c, hex_digit d) of
             (Some h, Some l) \<Rightarrow> bind_res (fromhex s) (\<lambda>bs. Inr (of_nat (16 * h + l) # bs))
           | _ \<Rightarrow> Inl (ValueError ''non-hexadecimal number found''))"

definition dict_public_key :: "contact_dict \<Rightarrow> bytes res" where
  "dict_public_key rec =
     (case cd_public_key rec of
        None \<Rightarrow> Inl KeyError
      | Some (HexStr h) \<Rightarrow> fromhex h
      | Some (RawBytes bs) \<Rightarrow> Inr bs
      | Some (IntList _) \<Rightarrow> Inl TypeError)"

definition dict_out_path :: "contact_dict \<Rightarrow> bytes res" where
  "dict_out_path rec =
     (case cd_out_path rec of
        None \<Rightarrow> Inr []
      | Some (HexStr h) \<Rightarrow> fromhex h
      | Some (RawBytes bs) \<Rightarrow> Inr bs
      | Some (IntList is) \<Rightarrow> map_res to_byte is)"

definition dict_advert_packet :: "contact_dict \<Rightarrow> bytes option" where
  "dict_advert_packet rec =
     (case cd_last_advert_packet rec of
        Some (HexStr h) \<Rightarrow>
          (if h = [] then None else case fromhex h of Inl _ \<Rightarrow> None | Inr bs \<Rightarrow> Some bs)
      | Some (RawBytes bs) \<Rightarrow> Some bs
      | _ \<Rightarrow> None)"

definition contact_of_dict :: "contact_dict \<Rightarrow> contact res" where
  "contact_of_dict rec =
     bind_res (dict_public_key rec) (\<lambda>pub_key.
     bind_res (dict_out_path rec) (\<lambda>out_path.
     Inr \<lparr>ct_public_key = pub_key,
          ct_name = opt_default [] (cd_name rec),
          ct_adv_type = opt_default 0 (cd_adv_type rec),
          ct_flags = opt_default 0 (cd_flags rec),
          ct_out_path_len = (let n = opt_default (-1) (cd_out_path_len rec)
                             in if n \<in> {-1, 255} then -1 else n),
          ct_out_path = out_path,
          ct_last_advert_timestamp = opt_default 0 (cd_last_advert_timestamp rec),
          ct_lastmod = opt_default 0 (cd_lastmod rec),
          ct_gps_lat = opt_default 0 (cd_gps_lat rec),
          ct_gps_lon = opt_default 0 (cd_gps_lon rec),
          ct_sync_since = opt_default 0 (cd_sync_since rec),
          ct_last_advert_packet = dict_advert_packet rec\<rparr>))"

fun load_dicts :: "contact_dict list \<Rightarrow> contact_store \<Rightarrow> contact_store \<times> unit res" where
  "load_dicts [] s = (s, Inr ())"
| "load_dicts (rec # records) s =
     (if cs_max_contacts s \<le> int (length (cs_contacts s)) then (s, Inr ())
      else case contact_of_dict rec of
             Inl e \<Rightarrow> (s, Inl e)
           | Inr c \<Rightarrow> load_dicts records (put_contact c s))"

definition load_from_dicts :: "contact_dict list \<Rightarrow> contact_store \<Rightarrow> contact_store \<times> unit res" where
  "load_from_dicts records s = load_dicts records (ContactStore_clear s)"

definition dict_of_contact :: "contact \<Rightarrow> contact_dict" where
  "dict_of_contact c =
     \<lparr>cd_public_key = Some (HexStr (hex_str (ct_public_key c))), cd_name = Some (ct_name c),
      cd_adv_type = Some (ct_adv_type c), cd_flags = Some (ct_flags c),
      cd_out_path_len = Some (ct_out_path_len c),
      cd_out_path = Some (HexStr (if ct_out_path c \<noteq> [] then hex_str (ct_out_path c) else [])),
      cd_last_advert_timestamp = Some (ct_last_advert_timestamp c), cd_lastmod = Some (ct_lastmod c),
      cd_gps_lat = Some (ct_gps_lat c), cd_gps_lon = Some (ct_gps_lon c),
      cd_sync_since = Some (ct_sync_since c),
      cd_last_advert_packet =
        Some (HexStr (case ct_last_advert_packet c of
                        None \<Rightarrow> [] | Some bs \<Rightarrow> if bs \<noteq> [] then hex_str bs else []))\<rparr>"

definition to_dicts :: "contact_store \<Rightarrow> contact_dict list" where
  "to_dicts s =
     map dict_of_contact (filter (\<lambda>c. ct_adv_type c \<noteq> ADV_TYPE_NONE) (map snd (cs_contacts s)))"

section \<open>Well-formed stores\<close>

text \<open>
  Every contact is stored under its own key, once, and the proxies are those of the contacts, in
  the same order.
\<close>

definition contact_store_ok :: "contact_store \<Rightarrow> bool" where
  "contact_store_ok s \<longleftrightarrow>
     dict_ok (cs_contacts s) \<and> list_all (\<lambda>(k, c). k = ct_public_key c) (cs_contacts s)
     \<and> cs_proxies s = map (\<lambda>(k, c). (k, contact_proxy_of c)) (cs_contacts s)"

lemma update_map_values:
  "AList.update k (f v) (map (\<lambda>(k, v). (k, f v)) d) = map (\<lambda>(k, v). (k, f v)) (AList.update k v d)"
  by (induction d) auto

lemma delete_map_values:
  "AList.delete k (map (\<lambda>(k, v). (k, f v)) d) = map (\<lambda>(k, v). (k, f v)) (AList.delete k d)"
  by (induction d) auto

lemma set_update_subset: "set (AList.update k v d) \<subseteq> insert (k, v) (set d)"
  by (induction d) auto

lemma put_contact_ok: "contact_store_ok s \<Longrightarrow> contact_store_ok (put_contact c s)"
  using set_update_subset [of "ct_public_key c" c "cs_contacts s"]
  by (auto simp: contact_store_ok_def put_contact_def update_map_values distinct_update list_all_iff)

lemma in_delete: "x \<in> set (AList.delete k d) \<Longrightarrow> x \<in> set d"
  by (simp add: AList.delete_eq)

lemma map_of_map_values: "map_of (map (\<lambda>(k, v). (k, f v)) d) k = map_option f (map_of d k)"
  by (induction d) auto

lemma ContactStore_remove_ok: "contact_store_ok s \<Longrightarrow> contact_store_ok (fst (ContactStore_remove k s))"
  by (auto simp: contact_store_ok_def ContactStore_remove_def delete_map_values distinct_delete
      list_all_iff dest: in_delete)

lemma add_update_calls:
  "ContactStore_add c s =
     (if known (ct_public_key c) s then ContactStore_update c s
      else if cs_max_contacts s \<le> int (length (cs_contacts s)) then (s, False)
      else (put_contact c s, True))"
  "ContactStore_update c s =
     (if \<not> known (ct_public_key c) s then ContactStore_add c s else (put_contact c s, True))"
  by (simp_all add: ContactStore_add_def ContactStore_update_def)


lemma add_transient_ok: "contact_store_ok s \<Longrightarrow> contact_store_ok (fst (add_transient c s))"
  by (simp add: add_transient_def ContactStore_update_def ContactStore_add_def put_contact_ok
      ContactStore_remove_ok Let_def)

lemma add_or_overwrite_ok: "contact_store_ok s \<Longrightarrow> contact_store_ok (fst (add_or_overwrite c s))"
  by (auto simp: add_or_overwrite_def ContactStore_update_def put_contact_ok ContactStore_remove_ok
      split: option.split)

lemma load_contacts_ok: "contact_store_ok s \<Longrightarrow> contact_store_ok (load_contacts cs s)"
  by (induction cs arbitrary: s) (auto simp: put_contact_ok)

datatype contact_op =
    Add contact | AddOrOverwrite contact | AddTransient contact | UpdateContact contact
  | RemoveContact bytes | ClearContacts | LoadFrom "contact list"

fun contact_step :: "contact_op \<Rightarrow> contact_store \<Rightarrow> contact_store" where
  "contact_step (Add c) s = fst (ContactStore_add c s)"
| "contact_step (AddOrOverwrite c) s = fst (add_or_overwrite c s)"
| "contact_step (AddTransient c) s = fst (add_transient c s)"
| "contact_step (UpdateContact c) s = fst (ContactStore_update c s)"
| "contact_step (RemoveContact k) s = fst (ContactStore_remove k s)"
| "contact_step ClearContacts s = ContactStore_clear s"
| "contact_step (LoadFrom cs) s = load_from cs s"

lemma ContactStore_clear_ok: "contact_store_ok (ContactStore_clear s)"
  by (simp add: contact_store_ok_def ContactStore_clear_def)

lemma contact_step_ok: "contact_store_ok s \<Longrightarrow> contact_store_ok (contact_step op s)"
  by (cases op) (simp_all add: add_transient_ok add_or_overwrite_ok ContactStore_remove_ok load_contacts_ok
      load_from_def ContactStore_clear_ok ContactStore_update_def ContactStore_add_def put_contact_ok)

interpretation contact_table: step_system contact_step contact_store_ok
  by unfold_locales (rule contact_step_ok)

lemma new_contact_store_ok: "contact_store_ok (new_contact_store n)"
  by (simp add: contact_store_ok_def new_contact_store_def)

lemma proxy_agrees:
  "contact_store_ok s \<Longrightarrow> get_proxy_by_key k s = map_option contact_proxy_of (get_by_key k s)"
  by (simp add: get_proxy_by_key_def get_by_key_def contact_store_ok_def map_of_map_values)

text \<open>
  C38: The two tables of the contact store never drift apart. After any sequence of additions,
  overwriting additions, transient additions, updates, removals, clears and bulk loads, every
  contact is stored once, under its own public key, and the proxy that a handler finds under a
  key is the proxy of the contact stored there.
\<close>

theorem contact_tables_agree:
  "let s = fold contact_step ops (new_contact_store n)
   in distinct (map ct_public_key (ContactStore_get_all 0 s))
      \<and> contacts s = map contact_proxy_of (ContactStore_get_all 0 s)
      \<and> get_proxy_by_key k s = map_option contact_proxy_of (get_by_key k s)
      \<and> (case get_by_key k s of None \<Rightarrow> True | Some c \<Rightarrow> ct_public_key c = k)"
proof -
  define s where "s = fold contact_step ops (new_contact_store n)"
  have ok: "contact_store_ok s" unfolding s_def by (rule contact_table.invar_run [OF new_contact_store_ok])
  have keys: "map (ct_public_key \<circ> snd) (cs_contacts s) = dict_keys (cs_contacts s)"
    using ok by (auto simp: contact_store_ok_def list_all_iff)
  have dist: "distinct (map (ct_public_key \<circ> snd) (cs_contacts s))"
    unfolding keys using ok by (simp add: contact_store_ok_def)
  have "ct_public_key c = k" if "get_by_key k s = Some c" for c
    using that ok by (auto simp: get_by_key_def contact_store_ok_def list_all_iff dest!: map_of_SomeD)
  with ok dist proxy_agrees [OF ok, of k] show ?thesis
    unfolding s_def [symmetric] Let_def
    by (auto simp: contacts_def ContactStore_get_all_def contact_store_ok_def split: option.split)
qed

section \<open>Eviction\<close>

lemma find_oldest_spec:
  "find_oldest ok om d = Some k \<Longrightarrow>
     ok = Some k \<and> (\<forall>(k', c) \<in> set d. evictable c \<longrightarrow> om \<le> ct_lastmod c)
     \<or> (\<exists>c. (k, c) \<in> set d \<and> evictable c \<and> ct_lastmod c < om
          \<and> (\<forall>(k', c') \<in> set d. evictable c' \<longrightarrow> ct_lastmod c \<le> ct_lastmod c'))"
proof (induction d arbitrary: ok om)
  case Nil
  then show ?case by simp
next
  case (Cons x d)
  obtain key c where x: "x = (key, c)" by (cases x)
  show ?case
  proof (cases "evictable c \<and> ct_lastmod c < om")
    case True
    with Cons.prems x have "find_oldest (Some key) (ct_lastmod c) d = Some k" by simp
    from Cons.IH [OF this] show ?thesis
    proof (elim disjE exE conjE)
      assume "Some key = Some k" "\<forall>(k', c') \<in> set d. evictable c' \<longrightarrow> ct_lastmod c \<le> ct_lastmod c'"
      with True x show ?thesis by (intro disjI2 exI [of _ c]) auto
    next
      fix c1
      assume "(k, c1) \<in> set d" "evictable c1" "ct_lastmod c1 < ct_lastmod c"
        "\<forall>(k', c') \<in> set d. evictable c' \<longrightarrow> ct_lastmod c1 \<le> ct_lastmod c'"
      with True x show ?thesis by (intro disjI2 exI [of _ c1]) auto
    qed
  next
    case False
    with Cons.prems x have "find_oldest ok om d = Some k" by simp
    from Cons.IH [OF this] False x show ?thesis by fastforce
  qed
qed

lemma find_oldest_evicts:
  assumes "dict_ok d" and "find_oldest None om d = Some k"
  shows "\<exists>c. map_of d k = Some c \<and> evictable c
           \<and> (\<forall>k' c'. map_of d k' = Some c' \<longrightarrow> evictable c' \<longrightarrow> ct_lastmod c \<le> ct_lastmod c')"
  using find_oldest_spec [OF assms(2)] assms(1) by (force dest: map_of_SomeD simp: map_of_eq_Some_iff)

lemma min_key_in: "min_key f b ks \<in> set (b # ks)"
  by (induction ks arbitrary: b) auto

lemma anon_key_type:
  assumes "dict_ok (cs_contacts s)" and "k \<in> set (anon_keys s)"
  shows "\<exists>c. map_of (cs_contacts s) k = Some c \<and> ct_adv_type c = ADV_TYPE_NONE"
  using assms by (auto simp: anon_keys_def map_of_eq_Some_iff intro: map_of_is_SomeI)

lemma transient_victim:
  assumes "dict_ok (cs_contacts s)" and "MAX_ANON_CONTACTS \<le> length (anon_keys s)"
  shows "\<exists>c. map_of (cs_contacts s) (min_key f (hd (anon_keys s)) (tl (anon_keys s))) = Some c
           \<and> ct_adv_type c = ADV_TYPE_NONE"
proof -
  from assms(2) have "anon_keys s \<noteq> []" by (auto simp: MAX_ANON_CONTACTS_def)
  with min_key_in [of f "hd (anon_keys s)" "tl (anon_keys s)"] anon_key_type [OF assms(1)]
  show ?thesis by simp
qed

lemma map_of_put: "get_by_key k (put_contact c s) = (if k = ct_public_key c then Some c else get_by_key k s)"
  by (simp add: get_by_key_def put_contact_def update_conv')

lemma map_of_remove:
  "get_by_key k (fst (ContactStore_remove k' s)) = (if k = k' then None else get_by_key k s)"
proof (cases "known k' s")
  case True
  then show ?thesis by (simp add: get_by_key_def ContactStore_remove_def delete_conv')
next
  case False
  then have "map_of (cs_contacts s) k' = None" by (simp add: map_of_eq_None_iff)
  with False show ?thesis by (auto simp: get_by_key_def ContactStore_remove_def)
qed

text \<open>The additions and updates of contacts with other keys.\<close>

fun touches_other :: "bytes \<Rightarrow> contact_op \<Rightarrow> bool" where
  "touches_other k (Add c) \<longleftrightarrow> ct_public_key c \<noteq> k"
| "touches_other k (AddOrOverwrite c) \<longleftrightarrow> ct_public_key c \<noteq> k"
| "touches_other k (AddTransient c) \<longleftrightarrow> ct_public_key c \<noteq> k"
| "touches_other k (UpdateContact c) \<longleftrightarrow> ct_public_key c \<noteq> k"
| "touches_other k (RemoveContact k') \<longleftrightarrow> k' \<noteq> k"
| "touches_other k ClearContacts \<longleftrightarrow> False"
| "touches_other k (LoadFrom cs) \<longleftrightarrow> False"

lemma favourite_step:
  assumes "contact_store_ok s" and "get_by_key k s = Some c" and "ct_flags c AND 1 \<noteq> 0"
    and "ct_adv_type c \<noteq> ADV_TYPE_NONE" and "touches_other k op"
  shows "get_by_key k (contact_step op s) = Some c"
proof (cases op)
  case (AddOrOverwrite c')
  have "dict_ok (cs_contacts s)" using assms(1) by (simp add: contact_store_ok_def)
  from find_oldest_evicts [OF this] assms(2,3)
  have "find_oldest None 0xFFFFFFFF (cs_contacts s) \<noteq> Some k"
    by (force simp: get_by_key_def evictable_def)
  with assms AddOrOverwrite show ?thesis
    by (auto simp: add_or_overwrite_def ContactStore_update_def map_of_put map_of_remove split: option.split)
next
  case (AddTransient c')
  have "dict_ok (cs_contacts s)" using assms(1) by (simp add: contact_store_ok_def)
  then have "min_key f (hd (anon_keys s)) (tl (anon_keys s)) \<noteq> k"
    if "MAX_ANON_CONTACTS \<le> length (anon_keys s)" for f
    using transient_victim [OF _ that, of f] assms(2,4)
    by (auto simp: get_by_key_def simp del: map_of_eq_Some_iff)
  with assms AddTransient show ?thesis
    by (auto simp: add_transient_def ContactStore_update_def map_of_put map_of_remove Let_def)
qed (use assms in \<open>auto simp: ContactStore_add_def ContactStore_update_def map_of_put map_of_remove\<close>)


text \<open>
  C39: A favourite is safe. A real contact whose favourite bit is set stays in the store,
  unchanged, through any sequence of additions, overwriting additions, transient additions,
  updates and removals of contacts with other keys, however full the store is.
\<close>

theorem favourite_never_evicted:
  assumes "contact_store_ok s" and "get_by_key k s = Some c" and "ct_flags c AND 1 \<noteq> 0"
    and "ct_adv_type c \<noteq> ADV_TYPE_NONE" and "list_all (touches_other k) ops"
  shows "get_by_key k (fold contact_step ops s) = Some c"
  using assms
proof (induction ops arbitrary: s)
  case Nil
  then show ?case by simp
next
  case (Cons op ops)
  then show ?case by (simp add: favourite_step contact_step_ok)
qed

definition sample_contact :: "nat \<Rightarrow> int \<Rightarrow> int \<Rightarrow> int \<Rightarrow> contact" where
  "sample_contact i typ fl modified =
     \<lparr>ct_public_key = [of_nat i], ct_name = [], ct_adv_type = typ, ct_flags = fl, ct_out_path_len = -1,
      ct_out_path = [], ct_last_advert_timestamp = 0, ct_lastmod = modified, ct_gps_lat = 0, ct_gps_lon = 0,
      ct_sync_since = 0, ct_last_advert_packet = None\<rparr>"

theorem favourite_never_evicted_witness:
  "get_by_key [1] (fold contact_step [AddOrOverwrite (sample_contact 2 1 0 5), AddOrOverwrite (sample_contact 3 1 0 6)]
      (fst (ContactStore_add (sample_contact 1 1 1 4) (new_contact_store 1))))
   = Some (sample_contact 1 1 1 4)"
proof (rule favourite_never_evicted)
  show "contact_store_ok (fst (ContactStore_add (sample_contact 1 1 1 4) (new_contact_store 1)))"
    using contact_step_ok [OF new_contact_store_ok, of "Add (sample_contact 1 1 1 4)" 1] by simp
qed (simp_all add: ContactStore_add_def new_contact_store_def put_contact_def get_by_key_def
    sample_contact_def ADV_TYPE_NONE_def)

text \<open>
  When the store is full, an overwriting addition of a new contact either fails and changes
  nothing, because no stored contact may be evicted, or replaces exactly one: a real contact that
  is no favourite and was modified no later than every other such contact. The number of contacts
  stays the same, the new contact is stored and all other contacts are kept.
\<close>

lemma overwrite_evicts_oldest:
  assumes "contact_store_ok s" and "get_by_key (ct_public_key c) s = None" and "ContactStore_is_full s"
  shows "case add_or_overwrite c s of
           (s', ok, None) \<Rightarrow> \<not> ok \<and> s' = s
         | (s', ok, Some k) \<Rightarrow> ok \<and> ContactStore_get_count s' = ContactStore_get_count s
             \<and> (\<exists>old. get_by_key k s = Some old \<and> evictable old
                 \<and> (\<forall>k' c'. get_by_key k' s = Some c' \<longrightarrow> evictable c' \<longrightarrow> ct_lastmod old \<le> ct_lastmod c'))
             \<and> (\<forall>k'. get_by_key k' s' =
                  (if k' = ct_public_key c then Some c else if k' = k then None else get_by_key k' s))"
proof -
  have d: "dict_ok (cs_contacts s)" using assms(1) by (simp add: contact_store_ok_def)
  have new: "\<not> known (ct_public_key c) s"
    using assms(2) by (simp add: get_by_key_def map_of_eq_None_iff)
  have full: "cs_max_contacts s \<le> int (length (cs_contacts s))"
    using assms(3) by (simp add: ContactStore_is_full_def)
  show ?thesis
  proof (cases "find_oldest None 0xFFFFFFFF (cs_contacts s)")
    case None
    with new full show ?thesis by (simp add: add_or_overwrite_def)
  next
    case (Some k)
    from find_oldest_evicts [OF d Some] obtain old where old: "map_of (cs_contacts s) k = Some old"
      "evictable old" "\<forall>k' c'. map_of (cs_contacts s) k' = Some c' \<longrightarrow> evictable c' \<longrightarrow> ct_lastmod old \<le> ct_lastmod c'"
      by blast
    from old(1) have k: "known k s" using d by (force simp: image_iff)
    have "length (cs_contacts (put_contact c (fst (ContactStore_remove k s)))) = length (cs_contacts s)"
      using k new length_delete_Suc [OF d k] by (auto simp: put_contact_def ContactStore_remove_def length_update
          delete_keys)
    with new full Some old show ?thesis
      by (simp add: add_or_overwrite_def ContactStore_get_count_def map_of_put map_of_remove
          del: map_of_eq_Some_iff) (auto simp: get_by_key_def simp del: map_of_eq_Some_iff)
  qed
qed

section \<open>Capacity\<close>

text \<open>
  Only \<open>add\<close>, \<open>add_or_overwrite\<close> and the bulk loads look at the capacity, and only for a
  key that is not stored yet. A transient contact that is later updated to a real one has never
  met the check, so the number of real contacts is not bounded by \<open>max_contacts\<close>.
\<close>

definition promote_ops :: "bytes list \<Rightarrow> contact_op list" where
  "promote_ops ks =
     concat (map (\<lambda>k. [AddTransient ((sample_contact 0 0 0 1)\<lparr>ct_public_key := k\<rparr>),
                       AddOrOverwrite ((sample_contact 0 1 0 1)\<lparr>ct_public_key := k\<rparr>)]) ks)"

lemma update_append_new:
  "k \<notin> fst ` set d \<Longrightarrow> AList.update k v d = d @ [(k, v)]"
  by (induction d) auto

lemma update_last:
  "k \<notin> fst ` set d \<Longrightarrow> AList.update k v (d @ [(k, w)]) = d @ [(k, v)]"
  by (induction d) auto

lemma promote_contacts:
  assumes "distinct ks"
  shows "cs_contacts (fold contact_step (promote_ops ks) (new_contact_store n)) =
           map (\<lambda>k. (k, (sample_contact 0 1 0 1)\<lparr>ct_public_key := k\<rparr>)) ks"
  using assms
proof (induction ks rule: rev_induct)
  case Nil
  then show ?case by (simp add: promote_ops_def new_contact_store_def)
next
  case (snoc k ks)
  let ?s = "fold contact_step (promote_ops ks) (new_contact_store n)"
  let ?d = "map (\<lambda>k. (k, (sample_contact 0 1 0 1)\<lparr>ct_public_key := k\<rparr>)) ks"
  from snoc have d: "cs_contacts ?s = ?d" and k: "k \<notin> fst ` set ?d" by auto
  have anon: "anon_keys ?s = []"
    by (simp add: anon_keys_def d filter_empty_conv sample_contact_def ADV_TYPE_NONE_def)
  have step1: "cs_contacts (fst (add_transient ((sample_contact 0 0 0 1)\<lparr>ct_public_key := k\<rparr>) ?s))
      = ?d @ [(k, (sample_contact 0 0 0 1)\<lparr>ct_public_key := k\<rparr>)]"
    using k by (simp add: add_transient_def anon d put_contact_def MAX_ANON_CONTACTS_def update_append_new image_image Let_def)
  have "cs_contacts (fst (add_or_overwrite ((sample_contact 0 1 0 1)\<lparr>ct_public_key := k\<rparr>) s'))
      = ?d @ [(k, (sample_contact 0 1 0 1)\<lparr>ct_public_key := k\<rparr>)]"
    if "cs_contacts s' = ?d @ [(k, c)]" for s' c
    using k by (simp add: add_or_overwrite_def ContactStore_update_def that put_contact_def update_last)
  with step1 show ?case by (simp add: promote_ops_def)
qed

text \<open>
  The capacity of the contact store is not a bound on the contacts it holds: for every
  capacity and every number there is a sequence of transient additions, each followed by an
  overwriting addition of the same contact as a real one, after which the store reports that
  many real contacts.
\<close>

lemma contact_capacity_not_enforced:
  "\<exists>ops. ContactStore_count (fold contact_step ops (new_contact_store n)) = m"
proof
  let ?ks = "map (\<lambda>i. replicate i (0 :: byte)) [0..<m]"
  have "distinct ?ks" by (auto simp: distinct_map inj_on_def)
  from promote_contacts [OF this, of n]
  show "ContactStore_count (fold contact_step (promote_ops ?ks) (new_contact_store n)) = m"
    by (simp add: ContactStore_count_def sample_contact_def ADV_TYPE_NONE_def o_def)
qed

section \<open>Export and import round trip\<close>

lemma hex_digit_char: "0 \<le> n \<Longrightarrow> n < 16 \<Longrightarrow> hex_digit (hex_char n) = Some (nat n)"
  by (auto simp: hex_digit_def hex_char_def)

lemma hex_char_no_space: "0 \<le> n \<Longrightarrow> \<not> ascii_space (hex_char n)"
  by (auto simp: ascii_space_def hex_char_def)

lemma hex_pair: "16 * word_of_int (uint b div 16) + word_of_int (uint b mod 16) = (b :: byte)"
proof -
  have "(word_of_int (16 * (uint b div 16) + uint b mod 16) :: byte) = b"
    by (simp only: mult_div_mod_eq word_of_int_uint)
  then show ?thesis by (simp only: of_int_add of_int_mult of_int_numeral)
qed

lemma fromhex_hex_str [simp]: "fromhex (hex_str bs) = Inr bs"
proof (induction bs)
  case Nil
  then show ?case by (simp add: hex_str_def)
next
  case (Cons b bs)
  have "0 \<le> uint b div 16" "uint b div 16 < 16" "0 \<le> uint b mod 16" "uint b mod 16 < 16"
    using uint_byte_less [of b] by (simp_all add: pos_imp_zdiv_nonneg_iff del: uint_byte_less)
  with Cons show ?case
    by (simp add: hex_str_def hex_digit_char hex_char_no_space hex_pair)
qed

lemma hex_str_Nil_iff: "hex_str bs = [] \<longleftrightarrow> bs = []"
  by (cases bs) (simp_all add: hex_str_def)

definition exportable :: "contact \<Rightarrow> bool" where
  "exportable c \<longleftrightarrow> ct_out_path_len c \<noteq> 255 \<and> ct_last_advert_packet c \<noteq> Some []"

lemma contact_of_dict_of_contact: "exportable c \<Longrightarrow> contact_of_dict (dict_of_contact c) = Inr c"
  by (cases "ct_last_advert_packet c")
    (auto simp: contact_of_dict_def dict_of_contact_def dict_public_key_def dict_out_path_def
      dict_advert_packet_def opt_default_def exportable_def hex_str_Nil_iff)

lemma load_dicts_map:
  assumes "list_all exportable cs" and "distinct (map ct_public_key cs)"
    and "fst ` set (cs_contacts s) \<inter> ct_public_key ` set cs = {}"
    and "int (length (cs_contacts s) + length cs) \<le> cs_max_contacts s"
  shows "\<exists>s'. load_dicts (map dict_of_contact cs) s = (s', Inr ())
           \<and> cs_contacts s' = cs_contacts s @ map (\<lambda>c. (ct_public_key c, c)) cs
           \<and> (contact_store_ok s \<longrightarrow> contact_store_ok s')"
  using assms
proof (induction cs arbitrary: s)
  case Nil
  then show ?case by simp
next
  case (Cons c cs)
  let ?s = "put_contact c s"
  have new: "cs_contacts ?s = cs_contacts s @ [(ct_public_key c, c)]"
    using Cons.prems(3) by (simp add: put_contact_def update_append_new)
  have "cs_max_contacts ?s = cs_max_contacts s" by (simp add: put_contact_def)
  with Cons.prems new Cons.IH [of ?s] obtain s' where
    "load_dicts (map dict_of_contact cs) ?s = (s', Inr ())"
    "cs_contacts s' = cs_contacts ?s @ map (\<lambda>c. (ct_public_key c, c)) cs"
    "contact_store_ok ?s \<longrightarrow> contact_store_ok s'"
    by auto
  with Cons.prems new show ?case
    by (auto simp: contact_of_dict_of_contact put_contact_ok)
qed

lemma real_contacts:
  "list_all (\<lambda>(k, c). k = ct_public_key c) d \<Longrightarrow>
     map (\<lambda>c. (ct_public_key c, c)) (filter P (map snd d)) = filter (\<lambda>(k, c). P c) d"
  by (induction d) auto

text \<open>
  Export followed by import restores the real contacts. Loading the exported list of a
  well-formed store into a store with room for them succeeds and yields a well-formed store with
  exactly the non-transient contacts, equal in every field and in the same order, provided none
  uses the path length 255, which import reads as unknown, or an empty stored advert.
\<close>

lemma contacts_export_import:
  assumes "contact_store_ok s" and "int (ContactStore_count s) \<le> cs_max_contacts t"
    and "list_all exportable (ContactStore_get_all 0 s)"
  shows "\<exists>s'. load_from_dicts (to_dicts s) t = (s', Inr ()) \<and> contact_store_ok s'
           \<and> cs_contacts s' = filter (\<lambda>(k, c). ct_adv_type c \<noteq> ADV_TYPE_NONE) (cs_contacts s)"
proof -
  let ?cs = "filter (\<lambda>c. ct_adv_type c \<noteq> ADV_TYPE_NONE) (map snd (cs_contacts s))"
  have keys: "map ct_public_key (map snd (cs_contacts s)) = dict_keys (cs_contacts s)"
    using assms(1) by (auto simp: contact_store_ok_def list_all_iff)
  have "distinct (map ct_public_key (map snd (cs_contacts s)))"
    unfolding keys using assms(1) by (simp add: contact_store_ok_def)
  then have d: "distinct (map ct_public_key ?cs)" by (rule distinct_map_filter)
  have e: "list_all exportable ?cs"
    using assms(3) by (auto simp: ContactStore_get_all_def list_all_iff)
  have restore: "map (\<lambda>c. (ct_public_key c, c)) ?cs
      = filter (\<lambda>(k, c). ct_adv_type c \<noteq> ADV_TYPE_NONE) (cs_contacts s)"
    using assms(1) by (simp add: contact_store_ok_def real_contacts)
  have "int (length (cs_contacts (ContactStore_clear t)) + length ?cs) \<le> cs_max_contacts (ContactStore_clear t)"
    using assms(2) by (simp add: ContactStore_clear_def ContactStore_count_def)
  from load_dicts_map [OF e d _ this] ContactStore_clear_ok [of t] restore show ?thesis
    by (auto simp: load_from_dicts_def to_dicts_def ContactStore_clear_def)
qed


end
