(* ===== verification/Packet_Builder.thy ===== *)
theory Packet_Builder
  imports Packet Identity Contact_Store
begin

text \<open>
  \<open>protocol/packet_builder.py\<close>: the factory for every packet the node originates. A contact is
  the proxy that the contact store hands out. The clock is an argument, the class attribute
  \<open>_last_unique_timestamp\<close> is passed and returned by the operations that draw a timestamp,
  and the bytes of \<open>os.urandom\<close> are arguments. The builder's own \<open>_hash_byte\<close>,
  \<open>_hash_bytes\<close>, \<open>_encrypt_payload\<close>, \<open>_pack_timestamp_data\<close> and
  \<open>_validate_routing_path\<close> only forward to the functions used here directly.
\<close>

section \<open>Helpers\<close>

definition create_packet :: "int \<Rightarrow> bytes \<Rightarrow> packet res" where
  "create_packet header payload =
     bind_res (validate_payload_size (int (length payload))) (\<lambda>_.
     Inr (new_packet\<lparr>pk_header := header, pk_payload := payload,
                     pk_payload_len := int (length payload)\<rparr>))"

definition PacketBuilder_create_header :: "int \<Rightarrow> pystr \<Rightarrow> bool \<Rightarrow> int" where
  "PacketBuilder_create_header payload_type route_type has_routing_path =
     (let route_value = get_route_type_value route_type has_routing_path
      in create_header payload_type route_value PAYLOAD_VER_1)"

definition get_timestamp :: "real \<Rightarrow> int \<Rightarrow> int \<times> int" where
  "get_timestamp now last_unique_timestamp =
     (let t = py_int now;
          t = (if t \<le> last_unique_timestamp then last_unique_timestamp + 1 else t)
      in (t, t))"

text \<open>The timestamp argument, or a fresh one: the new class state and the timestamp.\<close>

definition timestamp_or_fresh :: "real \<Rightarrow> int option \<Rightarrow> int \<Rightarrow> int \<times> int" where
  "timestamp_or_fresh now timestamp last_unique =
     (case timestamp of Some t \<Rightarrow> (last_unique, t) | None \<Rightarrow> get_timestamp now last_unique)"

definition calc_shared_secret_and_key ::
  "crypto \<Rightarrow> contact_proxy \<Rightarrow> local_identity \<Rightarrow> (bytes \<times> bytes) res" where
  "calc_shared_secret_and_key c contact local_identity =
     bind_res (fromhex (cx_public_key contact)) (\<lambda>pubkey.
     bind_res (new_identity c pubkey) (\<lambda>peer_identity.
     bind_res (calc_shared_secret c peer_identity (get_private_key local_identity)) (\<lambda>shared_secret.
     Inr (shared_secret, take 16 shared_secret))))"

definition create_encrypted_payload ::
  "crypto \<Rightarrow> contact_proxy \<Rightarrow> local_identity \<Rightarrow> bytes \<Rightarrow> bytes res" where
  "create_encrypted_payload c contact local_identity plaintext =
     bind_res (calc_shared_secret_and_key c contact local_identity) (\<lambda>(shared_secret, aes_key).
     bind_res (encrypt_then_mac c aes_key shared_secret plaintext) (\<lambda>encrypted.
     bind_res (fromhex (cx_public_key contact)) (\<lambda>pubkey.
     bind_res (hash_bytes pubkey (get_public_key local_identity)) (\<lambda>hashes.
     Inr (hashes @ encrypted)))))"

text \<open>\<open>pkt.set_path\<close> on a packet that is dropped when the call raises.\<close>

definition with_path :: "bytes \<Rightarrow> int option \<Rightarrow> packet \<Rightarrow> packet res" where
  "with_path path path_len_encoded p =
     (case set_path path path_len_encoded p of (q, Inr _) \<Rightarrow> Inr q | (q, Inl e) \<Rightarrow> Inl e)"

text \<open>The stored path of a contact, with its encoded length when that is usable.\<close>

definition attach_contact_path :: "int \<Rightarrow> bytes \<Rightarrow> packet \<Rightarrow> packet res" where
  "attach_contact_path out_path_len out_path p =
     (let path_bytes = take (nat MAX_PATH_SIZE) out_path
      in if is_valid_path_len out_path_len
            \<and> get_path_byte_len out_path_len \<le> int (length path_bytes)
         then with_path path_bytes (Some out_path_len) p
         else with_path (if length path_bytes = 64 then take 63 path_bytes else path_bytes) None p)"

section \<open>Adverts\<close>

definition advert_flags :: "pystr \<Rightarrow> real \<Rightarrow> real \<Rightarrow> int \<Rightarrow> int \<Rightarrow> int \<Rightarrow> int" where
  "advert_flags name lat lon feature1 feature2 flags =
     (let final_flags = flags;
          final_flags = (if lat \<noteq> 0 \<or> lon \<noteq> 0 then final_flags OR ADVERT_FLAG_HAS_LOCATION else final_flags);
          final_flags = (if feature1 \<noteq> 0 then final_flags OR ADVERT_FLAG_HAS_FEATURE1 else final_flags);
          final_flags = (if feature2 \<noteq> 0 then final_flags OR ADVERT_FLAG_HAS_FEATURE2 else final_flags);
          final_flags = (if name \<noteq> [] then final_flags OR ADVERT_FLAG_HAS_NAME else final_flags)
      in final_flags)"

definition encode_location :: "real \<Rightarrow> real \<Rightarrow> bytes res" where
  "encode_location lat lon =
     (let lat_int = py_int (lat * 1000000);
          lon_int = py_int (lon * 1000000)
      in bind_res (pack_s 4 lat_int) (\<lambda>a. bind_res (pack_s 4 lon_int) (\<lambda>b. Inr (a @ b))))"

definition encode_advert_data :: "pystr \<Rightarrow> real \<Rightarrow> real \<Rightarrow> int \<Rightarrow> int \<Rightarrow> int \<Rightarrow> bytes res" where
  "encode_advert_data name lat lon feature1 feature2 flags =
     (let final_flags = advert_flags name lat lon feature1 feature2 flags
      in bind_res (to_byte final_flags) (\<lambda>f.
         bind_res (if final_flags AND ADVERT_FLAG_HAS_LOCATION \<noteq> 0 then encode_location lat lon
                   else Inr []) (\<lambda>loc.
         bind_res (if final_flags AND ADVERT_FLAG_HAS_FEATURE1 \<noteq> 0 then pack_u 2 feature1
                   else Inr []) (\<lambda>f1.
         bind_res (if final_flags AND ADVERT_FLAG_HAS_FEATURE2 \<noteq> 0 then pack_u 2 feature2
                   else Inr []) (\<lambda>f2.
         let buf = [f] @ loc @ f1 @ f2
         in if final_flags AND ADVERT_FLAG_HAS_NAME \<noteq> 0 then
              bind_res (utf8_encode name) (\<lambda>name_bytes.
              let remaining = int MAX_ADVERT_DATA_SIZE - int (length buf)
              in Inr (buf @ slice_to remaining name_bytes))
            else Inr buf)))))"

definition create_advert ::
  "crypto \<Rightarrow> real \<Rightarrow> local_identity \<Rightarrow> pystr \<Rightarrow> real \<Rightarrow> real \<Rightarrow> int \<Rightarrow> int \<Rightarrow> int \<Rightarrow> pystr \<Rightarrow> packet res" where
  "create_advert c now local_identity name lat lon feature1 feature2 flags route_type =
     (let timestamp = py_int now;
          pubkey = get_public_key local_identity
      in bind_res (pack_u 4 timestamp) (\<lambda>ts_bytes.
         bind_res (encode_advert_data name lat lon feature1 feature2 flags) (\<lambda>appdata.
         if MAX_ADVERT_DATA_SIZE < length appdata then Inl (ValueError ''advert appdata too large'')
         else
           let body_to_sign = pubkey @ ts_bytes @ appdata
           in bind_res (sign c local_identity body_to_sign) (\<lambda>signature.
              let payload = pubkey @ ts_bytes @ signature @ appdata;
                  header = PacketBuilder_create_header PAYLOAD_TYPE_ADVERT route_type False
              in create_packet header payload))))"

definition create_self_advert ::
  "crypto \<Rightarrow> real \<Rightarrow> local_identity \<Rightarrow> pystr \<Rightarrow> real \<Rightarrow> real \<Rightarrow> int \<Rightarrow> int \<Rightarrow> pystr \<Rightarrow> packet res" where
  "create_self_advert c now local_identity name lat lon feature1 feature2 route_type =
     create_advert c now local_identity name lat lon feature1 feature2 ADVERT_FLAG_IS_CHAT_NODE route_type"

definition create_flood_advert ::
  "crypto \<Rightarrow> real \<Rightarrow> local_identity \<Rightarrow> pystr \<Rightarrow> real \<Rightarrow> real \<Rightarrow> int \<Rightarrow> int \<Rightarrow> int \<Rightarrow> packet res" where
  "create_flood_advert c now local_identity name lat lon feature1 feature2 flags =
     create_advert c now local_identity name lat lon feature1 feature2 flags (str ''flood'')"

definition create_direct_advert ::
  "crypto \<Rightarrow> real \<Rightarrow> local_identity \<Rightarrow> pystr \<Rightarrow> real \<Rightarrow> real \<Rightarrow> int \<Rightarrow> int \<Rightarrow> int \<Rightarrow> packet res" where
  "create_direct_advert c now local_identity name lat lon feature1 feature2 flags =
     create_advert c now local_identity name lat lon feature1 feature2 flags (str ''direct'')"

section \<open>Acknowledgements\<close>

datatype text_arg = TextStr pystr | TextBytes bytes

definition text_arg_bytes :: "text_arg \<Rightarrow> bytes res" where
  "text_arg_bytes t = (case t of TextStr s \<Rightarrow> utf8_encode s | TextBytes bs \<Rightarrow> Inr bs)"

text \<open>\<open>strip\<close> of NUL, on a string or on bytes.\<close>

definition strip_zero :: "'a :: zero list \<Rightarrow> 'a list" where
  "strip_zero xs = rev (dropWhile (\<lambda>x. x = 0) (rev (dropWhile (\<lambda>x. x = 0) xs)))"

definition calc_text_ack_hash ::
  "crypto \<Rightarrow> bytes \<Rightarrow> bytes \<Rightarrow> int \<Rightarrow> int \<Rightarrow> text_arg \<Rightarrow> int \<Rightarrow> bool \<Rightarrow> bytes res" where
  "calc_text_ack_hash c urandom1 pubkey timestamp flags_byte text ext_attempt randomize =
     bind_res (text_arg_bytes text) (\<lambda>text_bytes.
     bind_res (pack_timestamp_data timestamp [PartInt (flags_byte AND 0xFF), PartBytes text_bytes]) (\<lambda>temp.
     let digest = cr_sha256 c (temp @ pubkey);
         last_byte = (if randomize then urandom1 else [0])
     in bind_res (to_byte (ext_attempt AND 0xFF)) (\<lambda>e. Inr (take 4 digest @ [e] @ last_byte))))"

definition create_ack_from_bytes ::
  "bytes \<Rightarrow> int list option \<Rightarrow> int option \<Rightarrow> pystr \<Rightarrow> packet res" where
  "create_ack_from_bytes ack_bytes path path_len_encoded route_type =
     (let has_path = (path \<noteq> None \<and> the path \<noteq> []);
          header = PacketBuilder_create_header PAYLOAD_TYPE_ACK route_type has_path
      in bind_res (create_packet header ack_bytes) (\<lambda>pkt.
         if has_path then bind_res (map_res to_byte (the path)) (\<lambda>bs. with_path bs path_len_encoded pkt)
         else Inr pkt))"

definition create_ack :: "crypto \<Rightarrow> bytes \<Rightarrow> bytes \<Rightarrow> int \<Rightarrow> int \<Rightarrow> text_arg \<Rightarrow> packet res" where
  "create_ack c urandom1 pubkey timestamp attempt text =
     (if length pubkey \<noteq> 32 then Inl (ValueError ''pubkey must be 32 bytes'')
      else bind_res (case text of TextStr s \<Rightarrow> utf8_encode (strip_zero s)
                                | TextBytes bs \<Rightarrow> Inr (strip_zero bs)) (\<lambda>text_bytes.
           bind_res (calc_text_ack_hash c urandom1 pubkey timestamp attempt (TextBytes text_bytes) 0 True) (\<lambda>ack_hash.
           create_ack_from_bytes ack_hash None None (str ''direct''))))"

definition create_multi_ack :: "bytes \<Rightarrow> int \<Rightarrow> int list option \<Rightarrow> int option \<Rightarrow> packet res" where
  "create_multi_ack ack_bytes remaining path path_len_encoded =
     (let has_path = (path \<noteq> None \<and> the path \<noteq> []);
          header = PacketBuilder_create_header PAYLOAD_TYPE_MULTIPART (str ''direct'') has_path
      in bind_res (to_byte (push_bit 4 (remaining AND 0x0F) OR PAYLOAD_TYPE_ACK)) (\<lambda>w.
         bind_res (create_packet header ([w] @ ack_bytes)) (\<lambda>pkt.
         if has_path then bind_res (map_res to_byte (the path)) (\<lambda>bs. with_path bs path_len_encoded pkt)
         else Inr pkt)))"

section \<open>Datagrams and requests\<close>

definition create_datagram ::
  "crypto \<Rightarrow> int \<Rightarrow> 'a identity_scheme \<Rightarrow> local_identity \<Rightarrow> bytes \<Rightarrow> bytes \<Rightarrow> pystr \<Rightarrow> packet res" where
  "create_datagram c ptype dest local_identity secret plaintext route_type =
     (if ptype \<notin> {PAYLOAD_TYPE_TXT_MSG, PAYLOAD_TYPE_REQ, PAYLOAD_TYPE_RESPONSE}
      then Inl (ValueError ''invalid payload type'')
      else
        let aes_key = take 16 secret
        in bind_res (encrypt_then_mac c aes_key secret plaintext) (\<lambda>cipher.
           bind_res (hash_bytes (get_public_key dest) (get_public_key local_identity)) (\<lambda>hashes.
           let header = PacketBuilder_create_header ptype route_type False
           in bind_res (create_packet header (hashes @ cipher)) (\<lambda>pkt.
              Inr (pkt\<lparr>pk_path_len := 0, pk_path := []\<rparr>)))))"

definition create_anon_req ::
  "crypto \<Rightarrow> 'a identity_scheme \<Rightarrow> local_identity \<Rightarrow> bytes \<Rightarrow> bytes \<Rightarrow> pystr \<Rightarrow> packet res" where
  "create_anon_req c dest local_identity shared_secret plaintext route_type =
     (let header = PacketBuilder_create_header PAYLOAD_TYPE_ANON_REQ route_type False
      in bind_res (hash_byte (get_public_key dest)) (\<lambda>dest_hash.
         let aes_key = take 16 shared_secret
         in bind_res (encrypt_then_mac c aes_key shared_secret plaintext) (\<lambda>cipher.
            let payload = [dest_hash] @ get_public_key local_identity @ cipher
            in bind_res (create_packet header payload) (\<lambda>pkt.
               Inr (pkt\<lparr>pk_path_len := 0, pk_path := []\<rparr>)))))"

definition anon_request_packet ::
  "crypto \<Rightarrow> contact_proxy \<Rightarrow> local_identity \<Rightarrow> bytes \<Rightarrow> int \<Rightarrow> packet res" where
  "anon_request_packet c contact local_identity req_data timestamp =
     bind_res (pack_timestamp_data timestamp [PartBytes req_data]) (\<lambda>plaintext.
     bind_res (fromhex (cx_public_key contact)) (\<lambda>contact_pubkey.
     bind_res (calc_shared_secret_and_key c contact local_identity) (\<lambda>(shared_secret, aes_key).
     bind_res (encrypt_then_mac c aes_key shared_secret plaintext) (\<lambda>cipher.
     bind_res (hash_byte contact_pubkey) (\<lambda>dest_hash.
     let payload = [dest_hash] @ get_public_key local_identity @ cipher;
         out_path_len = cx_out_path_len contact;
         out_path = cx_out_path contact;
         route_type = (if 0 \<le> out_path_len then str ''direct'' else str ''flood'');
         header = PacketBuilder_create_header PAYLOAD_TYPE_ANON_REQ route_type False
     in bind_res (create_packet header payload) (\<lambda>packet.
        let packet = packet\<lparr>pk_path_len := 0, pk_path := []\<rparr>
        in if 0 \<le> out_path_len \<and> 0 < length out_path
           then attach_contact_path out_path_len out_path packet
           else Inr packet))))))"

definition create_anon_request ::
  "crypto \<Rightarrow> real \<Rightarrow> contact_proxy \<Rightarrow> local_identity \<Rightarrow> bytes \<Rightarrow> int option \<Rightarrow> int
     \<Rightarrow> int \<times> (packet \<times> int) res" where
  "create_anon_request c now contact local_identity req_data timestamp last_unique =
     (let (last_unique, t) = timestamp_or_fresh now timestamp last_unique
      in (last_unique,
          bind_res (anon_request_packet c contact local_identity req_data t) (\<lambda>p. Inr (p, t))))"

definition login_packet ::
  "crypto \<Rightarrow> contact_proxy \<Rightarrow> local_identity \<Rightarrow> pystr \<Rightarrow> int \<Rightarrow> packet res" where
  "login_packet c contact local_identity password timestamp =
     bind_res (utf8_encode password) (\<lambda>encoded.
     let password_bytes = take 15 encoded;
         is_room = (cx_type contact = CONTACT_TYPE_ROOM_SERVER)
     in bind_res (if is_room then
                    bind_res (pack_u 4 (cx_sync_since contact)) (\<lambda>sync_since.
                    pack_timestamp_data timestamp [PartBytes sync_since, PartBytes password_bytes])
                  else pack_timestamp_data timestamp [PartBytes password_bytes]) (\<lambda>plaintext.
        bind_res (fromhex (cx_public_key contact)) (\<lambda>contact_pubkey.
        bind_res (new_identity c contact_pubkey) (\<lambda>contact_identity.
        bind_res (calc_shared_secret c contact_identity (get_private_key local_identity)) (\<lambda>shared_secret.
        let out_path_len = cx_out_path_len contact;
            route_type = (if out_path_len < 0 then str ''flood'' else str ''direct'')
        in bind_res (create_anon_req c contact_identity local_identity shared_secret plaintext route_type) (\<lambda>pkt.
           if 0 < out_path_len \<and> cx_out_path contact \<noteq> []
           then attach_contact_path out_path_len (cx_out_path contact) pkt
           else Inr pkt))))))"

definition create_login_packet ::
  "crypto \<Rightarrow> real \<Rightarrow> contact_proxy \<Rightarrow> local_identity \<Rightarrow> pystr \<Rightarrow> int \<Rightarrow> int \<times> packet res" where
  "create_login_packet c now contact local_identity password last_unique =
     (let (last_unique, timestamp) = get_timestamp now last_unique
      in (last_unique, login_packet c contact local_identity password timestamp))"

definition protocol_request_packet ::
  "crypto \<Rightarrow> contact_proxy \<Rightarrow> local_identity \<Rightarrow> int \<Rightarrow> bytes \<Rightarrow> pystr option \<Rightarrow> int \<Rightarrow> packet res" where
  "protocol_request_packet c contact local_identity protocol_code data route_type timestamp =
     bind_res (pack_timestamp_data timestamp [PartInt protocol_code, PartBytes data]) (\<lambda>plaintext.
     bind_res (create_encrypted_payload c contact local_identity plaintext) (\<lambda>payload.
     let out_path_len = cx_out_path_len contact;
         out_path = cx_out_path contact;
         route = (case route_type of
                    Some r \<Rightarrow> if r \<noteq> [] then r else if 0 \<le> out_path_len then str ''direct'' else str ''flood''
                  | None \<Rightarrow> if 0 \<le> out_path_len then str ''direct'' else str ''flood'');
         header = PacketBuilder_create_header PAYLOAD_TYPE_REQ route False
     in bind_res (create_packet header payload) (\<lambda>packet.
        if route = str ''direct'' \<and> 0 < length out_path
        then attach_contact_path out_path_len out_path packet
        else Inr packet)))"

definition create_protocol_request ::
  "crypto \<Rightarrow> real \<Rightarrow> contact_proxy \<Rightarrow> local_identity \<Rightarrow> int \<Rightarrow> bytes \<Rightarrow> int option \<Rightarrow> pystr option
     \<Rightarrow> int \<Rightarrow> int \<times> (packet \<times> int) res" where
  "create_protocol_request c now contact local_identity protocol_code data timestamp route_type last_unique =
     (let (last_unique, t) = timestamp_or_fresh now timestamp last_unique
      in (last_unique,
          bind_res (protocol_request_packet c contact local_identity protocol_code data route_type t)
            (\<lambda>p. Inr (p, t))))"

definition compute_inverse_perm_mask :: "bool \<Rightarrow> bool \<Rightarrow> bool \<Rightarrow> int" where
  "compute_inverse_perm_mask want_base want_location want_environment =
     (let remove_mask = 0;
          remove_mask = (if \<not> want_base then remove_mask OR TELEM_PERM_BASE else remove_mask);
          remove_mask = (if \<not> want_location then remove_mask OR TELEM_PERM_LOCATION else remove_mask);
          remove_mask = (if \<not> want_environment then remove_mask OR TELEM_PERM_ENVIRONMENT else remove_mask)
      in remove_mask AND 0xFF)"

definition create_telem_request ::
  "crypto \<Rightarrow> real \<Rightarrow> contact_proxy \<Rightarrow> local_identity \<Rightarrow> bool \<Rightarrow> bool \<Rightarrow> bool \<Rightarrow> pystr option
     \<Rightarrow> int \<Rightarrow> int \<times> (packet \<times> int) res" where
  "create_telem_request c now contact local_identity want_base want_location want_environment route_type last_unique =
     (let inv = compute_inverse_perm_mask want_base want_location want_environment
      in case to_byte inv of
           Inl e \<Rightarrow> (last_unique, Inl e)
         | Inr b \<Rightarrow> create_protocol_request c now contact local_identity REQ_TYPE_GET_TELEMETRY_DATA [b]
                     None route_type last_unique)"

section \<open>Groups, traces, control\<close>

text \<open>A configured channel: its secret in hexadecimal or as bytes.\<close>

datatype channel_secret = SecretHex pystr | SecretRaw bytes

definition group_secret :: "channel_secret \<Rightarrow> bytes res" where
  "group_secret s = (case s of SecretHex h \<Rightarrow> fromhex h | SecretRaw bs \<Rightarrow> Inr bs)"

definition group_hash_input :: "bytes \<Rightarrow> bytes" where
  "group_hash_input secret_bytes =
     (if 32 \<le> length secret_bytes \<and> take 16 (drop 16 secret_bytes) = replicate 16 0
      then take 16 secret_bytes
      else if 32 < length secret_bytes then take 32 secret_bytes else secret_bytes)"

definition group_content :: "pystr \<Rightarrow> pystr \<Rightarrow> bytes res" where
  "group_content sender_name message =
     bind_res (utf8_encode (sender_name @ str '': '')) (\<lambda>prefix.
     bind_res (utf8_encode message) (\<lambda>text_bytes.
     let max_text = max (int MAX_TEXT_LEN - int (length prefix)) 0
     in bind_res (if max_text < int (length text_bytes)
                  then bind_res (utf8_decode Ignore (take (nat max_text) text_bytes)) utf8_encode
                  else Inr text_bytes) (\<lambda>text_bytes.
        Inr (prefix @ text_bytes))))"

definition group_datagram_packet ::
  "crypto \<Rightarrow> pystr \<Rightarrow> bytes \<Rightarrow> pystr \<Rightarrow> int \<Rightarrow> packet res" where
  "group_datagram_packet c message secret_bytes sender_name timestamp =
     bind_res (index_res (cr_sha256 c (group_hash_input secret_bytes)) 0) (\<lambda>channel_hash.
     let secret_bytes = take 32 (secret_bytes @ replicate 32 0);
         flags = 0
     in bind_res (group_content sender_name message) (\<lambda>content.
        bind_res (pack_timestamp_data timestamp [PartInt flags, PartBytes content]) (\<lambda>plaintext.
        bind_res (aes_encrypt c (take 16 secret_bytes) plaintext) (\<lambda>ciphertext.
        let mac = take 2 (cr_hmac_sha256 c secret_bytes ciphertext);
            payload = [channel_hash] @ mac @ ciphertext;
            header = PacketBuilder_create_header PAYLOAD_TYPE_GRP_TXT (str ''flood'') False
        in create_packet header payload))))"

text \<open>The timestamp is drawn after the channel was found and its secret and hash were read.\<close>

definition create_group_datagram ::
  "crypto \<Rightarrow> real \<Rightarrow> pystr \<Rightarrow> pystr \<Rightarrow> pystr \<Rightarrow> (pystr \<times> channel_secret) list option \<Rightarrow> int option \<Rightarrow> int
     \<Rightarrow> int \<times> packet res" where
  "create_group_datagram c now group_name message sender_name channels_config timestamp last_unique =
     (case channels_config of
        None \<Rightarrow> (last_unique, Inl (ValueError ''channels_config parameter is required''))
      | Some channels \<Rightarrow>
          (case find (\<lambda>(name, _). name = group_name) channels of
             None \<Rightarrow> (last_unique, Inl (ValueError ''Channel not in provided channels_config''))
           | Some (_, secret) \<Rightarrow>
               (case bind_res (group_secret secret) (\<lambda>secret_bytes.
                       bind_res (index_res (cr_sha256 c (group_hash_input secret_bytes)) 0) (\<lambda>_.
                       Inr secret_bytes)) of
                  Inl e \<Rightarrow> (last_unique, Inl e)
                | Inr secret_bytes \<Rightarrow>
                    (let (last_unique, t) = timestamp_or_fresh now timestamp last_unique
                     in (last_unique, group_datagram_packet c message secret_bytes sender_name t)))))"

definition create_group_data_packet ::
  "crypto \<Rightarrow> int \<Rightarrow> int \<Rightarrow> bytes \<Rightarrow> bytes \<Rightarrow> packet res" where
  "create_group_data_packet c ptype channel_hash plaintext secret =
     (if ptype \<notin> {PAYLOAD_TYPE_GRP_TXT, PAYLOAD_TYPE_GRP_DATA} then Inl (ValueError ''invalid payload type'')
      else
        let aes_key = take 16 secret
        in bind_res (encrypt_then_mac c aes_key secret plaintext) (\<lambda>cipher.
           bind_res (to_byte channel_hash) (\<lambda>h.
           let header = PacketBuilder_create_header ptype (str ''flood'') False
           in create_packet header ([h] @ cipher))))"

text \<open>Builders that fill a packet field by field, with no check of the payload size.\<close>

definition unchecked_packet :: "int \<Rightarrow> bytes \<Rightarrow> packet" where
  "unchecked_packet payload_type payload =
     new_packet\<lparr>pk_header := PacketBuilder_create_header payload_type (str ''direct'') False,
                pk_path_len := 0, pk_path := [], pk_payload := payload,
                pk_payload_len := int (length payload)\<rparr>"

definition create_trace :: "int \<Rightarrow> int \<Rightarrow> int \<Rightarrow> int list option \<Rightarrow> packet res" where
  "create_trace tag auth_code flags path =
     bind_res (pack_u 4 tag) (\<lambda>t. bind_res (pack_u 4 auth_code) (\<lambda>a. bind_res (pack_u 1 flags) (\<lambda>f.
     bind_res (case path of None \<Rightarrow> Inr [] | Some p \<Rightarrow> map_res to_byte p) (\<lambda>path_bytes.
     Inr (unchecked_packet PAYLOAD_TYPE_TRACE (t @ a @ f @ path_bytes))))))"

definition create_raw_data :: "bytes \<Rightarrow> packet res" where
  "create_raw_data data =
     (if MAX_PACKET_PAYLOAD < int (length data)
      then Inl (ValueError ''Raw data length exceeds MAX_PACKET_PAYLOAD'')
      else create_packet (PacketBuilder_create_header PAYLOAD_TYPE_RAW_CUSTOM (str ''direct'') False) data)"

definition path_return_first_byte :: "int \<Rightarrow> int option \<Rightarrow> int res" where
  "path_return_first_byte path_length path_len_encoded =
     (case path_len_encoded of
        None \<Rightarrow> if 0 < path_length then Inl (ValueError ''path_len_encoded is required for a non-empty path'')
                else Inr 0
      | Some enc \<Rightarrow>
          if \<not> is_valid_path_len enc then Inl (ValueError ''invalid path_len_encoded'')
          else if path_length \<noteq> get_path_byte_len enc
          then Inl (ValueError ''path length does not match path_len_encoded'')
          else Inr enc)"

definition create_path_return ::
  "crypto \<Rightarrow> bytes \<Rightarrow> int \<Rightarrow> int \<Rightarrow> bytes \<Rightarrow> int list \<Rightarrow> int \<Rightarrow> bytes \<Rightarrow> int option \<Rightarrow> packet res" where
  "create_path_return c urandom4 dest_hash src_hash secret path extra_type extra path_len_encoded =
     (if MAX_PACKET_PAYLOAD - 2 - int CIPHER_BLOCK_SIZE < int (length path) + int (length extra) + 5
      then Inl (ValueError ''Combined path/extra too long'')
      else
        bind_res (path_return_first_byte (int (length path)) path_len_encoded) (\<lambda>first_byte.
        bind_res (to_byte first_byte) (\<lambda>fb.
        bind_res (map_res to_byte path) (\<lambda>path_bytes.
        bind_res (if extra \<noteq> [] then bind_res (to_byte extra_type) (\<lambda>et. Inr ([fb] @ path_bytes @ [et] @ extra))
                  else Inr ([fb] @ path_bytes @ [0xFF] @ urandom4)) (\<lambda>inner.
        let aes_key = take 16 secret
        in bind_res (encrypt_then_mac c aes_key secret inner) (\<lambda>cipher.
           bind_res (to_byte dest_hash) (\<lambda>d. bind_res (to_byte src_hash) (\<lambda>s.
           let header = PacketBuilder_create_header PAYLOAD_TYPE_PATH (str ''flood'') False
           in create_packet header ([d, s] @ cipher))))))))) "

definition create_discovery_request :: "int \<Rightarrow> int \<Rightarrow> int \<Rightarrow> bool \<Rightarrow> packet res" where
  "create_discovery_request tag filter_mask since prefix_only =
     (let flags = (if prefix_only then 0x01 else 0x00)
      in bind_res (to_byte (0x80 OR flags)) (\<lambda>b0.
         bind_res (to_byte (filter_mask AND 0xFF)) (\<lambda>b1.
         bind_res (pack_u 4 tag) (\<lambda>t.
         bind_res (if 0 < since then pack_u 4 since else Inr []) (\<lambda>sn.
         Inr (unchecked_packet PAYLOAD_TYPE_CONTROL ([b0, b1] @ t @ sn)))))))"

definition create_discovery_response :: "int \<Rightarrow> int \<Rightarrow> real \<Rightarrow> bytes \<Rightarrow> bool \<Rightarrow> packet res" where
  "create_discovery_response tag node_type inbound_snr pub_key prefix_only =
     bind_res (to_byte (0x90 OR (node_type AND 0x0F))) (\<lambda>b0.
     let snr_byte = max (-128) (min 127 (py_int (inbound_snr * 4)))
     in bind_res (to_byte (snr_byte AND 0xFF)) (\<lambda>b1.
        bind_res (pack_u 4 tag) (\<lambda>t.
        Inr (unchecked_packet PAYLOAD_TYPE_CONTROL
               ([b0, b1] @ t @ (if prefix_only then take 8 pub_key else take 32 pub_key))))))"

section \<open>Text messages\<close>

text \<open>
  The parts of \<open>create_text_message\<close>: the flags byte, the checked body, the plaintext, the
  acknowledgement checksum and the path.
\<close>

definition text_flags_byte :: "int \<Rightarrow> int \<Rightarrow> int" where
  "text_flags_byte txt_type attempt_full = push_bit 2 txt_type OR (attempt_full AND 0x03)"

definition is_cli_type :: "int \<Rightarrow> bool" where
  "is_cli_type txt_type \<longleftrightarrow> txt_type = TXT_TYPE_CLI_DATA \<or> txt_type = TXT_TYPE_CLI_COMMAND"

definition text_check_length :: "int \<Rightarrow> int \<Rightarrow> pystr \<Rightarrow> unit res" where
  "text_check_length txt_type attempt_full message =
     bind_res (utf8_encode message) (\<lambda>encoded.
     if MAX_TEXT_LEN < length encoded then Inl (ValueError ''text message too long'')
     else if \<not> is_cli_type txt_type \<and> 3 < attempt_full \<and> int MAX_TEXT_LEN - 2 < int (length encoded)
     then Inl (ValueError ''text message too long for extended attempt'')
     else Inr ())"

definition text_tail :: "int \<Rightarrow> int \<Rightarrow> bytes res" where
  "text_tail txt_type attempt_full =
     (if 3 < attempt_full \<and> \<not> is_cli_type txt_type
      then bind_res (to_byte attempt_full) (\<lambda>a. Inr ([0] @ [a])) else Inr [])"

definition text_route ::
  "contact_proxy \<Rightarrow> path_item list option \<Rightarrow> int list \<Rightarrow> packet \<Rightarrow> packet res" where
  "text_route contact out_path routing_path pkt =
     (if routing_path \<noteq> [] then
        let routing_path = (if MAX_PATH_SIZE < int (length routing_path)
                            then take (nat MAX_PATH_SIZE) routing_path else routing_path);
            contact_path_len = cx_out_path_len contact
        in if out_path = None \<and> 0 \<le> contact_path_len \<and> is_valid_path_len contact_path_len
              \<and> get_path_byte_len contact_path_len \<le> int (length routing_path)
           then bind_res (map_res to_byte routing_path) (\<lambda>bs. with_path bs (Some contact_path_len) pkt)
           else bind_res (map_res to_byte (if length routing_path = 64 then take 63 routing_path else routing_path))
                  (\<lambda>bs. with_path bs None pkt)
      else Inr (pkt\<lparr>pk_path_len := 0, pk_path := []\<rparr>))"

definition text_message_packet ::
  "crypto \<Rightarrow> contact_proxy \<Rightarrow> local_identity \<Rightarrow> pystr \<Rightarrow> int \<Rightarrow> pystr \<Rightarrow> path_item list option \<Rightarrow> int \<Rightarrow> int
     \<Rightarrow> (packet \<times> int) res" where
  "text_message_packet c contact local_identity message attempt message_type out_path txt_type timestamp =
     (let attempt_full = attempt AND 0xFF;
          txt_type = txt_type AND 0x3F;
          flags_byte = text_flags_byte txt_type attempt_full;
          message = takeWhile (\<lambda>ch. ch \<noteq> 0) message;
          signed = (txt_type = TXT_TYPE_SIGNED_PLAIN);
          signed_sender_prefix = (if signed then take 4 (get_public_key local_identity) else [])
      in bind_res (text_check_length txt_type attempt_full message) (\<lambda>_.
         bind_res (text_tail txt_type attempt_full) (\<lambda>tail.
         bind_res (pack_timestamp_data timestamp
                     [PartInt flags_byte, PartBytes signed_sender_prefix, PartStr message, PartBytes tail]) (\<lambda>plaintext.
         bind_res (create_encrypted_payload c contact local_identity plaintext) (\<lambda>payload.
         bind_res (pack_timestamp_data timestamp
                     [PartInt flags_byte, PartBytes signed_sender_prefix, PartStr message]) (\<lambda>crc_input.
         bind_res (if signed then fromhex (cx_public_key contact) else Inr (get_public_key local_identity)) (\<lambda>ack_key.
         let ack_crc = le_int (take 4 (cr_sha256 c (crc_input @ ack_key)));
             routing_path = (case out_path of
                               Some p \<Rightarrow> p
                             | None \<Rightarrow> map (\<lambda>b. PathInt (uint b)) (cx_out_path contact))
         in bind_res (validate_routing_path routing_path) (\<lambda>routing_path.
            let has_path = (routing_path \<noteq> []);
                pkt = new_packet\<lparr>pk_header := PacketBuilder_create_header PAYLOAD_TYPE_TXT_MSG message_type has_path\<rparr>
            in bind_res (text_route contact out_path routing_path pkt) (\<lambda>pkt.
               Inr (pkt\<lparr>pk_payload := payload, pk_payload_len := int (length payload)\<rparr>, ack_crc))))))))))"

definition create_text_message ::
  "crypto \<Rightarrow> real \<Rightarrow> contact_proxy \<Rightarrow> local_identity \<Rightarrow> pystr \<Rightarrow> int \<Rightarrow> pystr \<Rightarrow> path_item list option \<Rightarrow> int
     \<Rightarrow> int option \<Rightarrow> int \<Rightarrow> int \<times> (packet \<times> int) res" where
  "create_text_message c now contact local_identity message attempt message_type out_path txt_type timestamp last_unique =
     (let (last_unique, t) = timestamp_or_fresh now timestamp last_unique
      in (last_unique,
          text_message_packet c contact local_identity message attempt message_type out_path txt_type t))"

definition create_logout_packet ::
  "crypto \<Rightarrow> real \<Rightarrow> contact_proxy \<Rightarrow> local_identity \<Rightarrow> int \<Rightarrow> int \<times> (packet \<times> int) res" where
  "create_logout_packet c now contact local_identity last_unique =
     create_text_message c now contact local_identity (str ''logout'') 0 (str ''direct'') None 1 None last_unique"

section \<open>Headers, sizes and paths\<close>

lemma builder_header:
  assumes "0 \<le> pt" and "pt < 16"
  shows "0 \<le> PacketBuilder_create_header pt r hp" and "PacketBuilder_create_header pt r hp < 256"
    and "PacketBuilder_create_header pt r hp div 4 mod 16 = pt"
    and "PacketBuilder_create_header pt r hp div 64 = 0"
    and "PacketBuilder_create_header pt r hp mod 4 = get_route_type_value r hp"
proof -
  let ?h = "PacketBuilder_create_header pt r hp"
  have rt: "0 \<le> get_route_type_value r hp" "get_route_type_value r hp < 4"
    using route_type_value_range [of r hp] by simp_all
  have h: "?h = get_route_type_value r hp + 4 * pt + 64 * 0"
    using create_header_arith [OF assms, of "get_route_type_value r hp" 0] rt
    by (simp add: PacketBuilder_create_header_def version_defs)
  note f = pack_fields [OF rt assms, of 0]
  show "0 \<le> ?h" "?h < 256" using rt assms h by simp_all
  show "?h div 4 mod 16 = pt" "?h div 64 = 0" "?h mod 4 = get_route_type_value r hp"
    unfolding h using f by simp_all
qed

text \<open>A packet whose path, codes and payload are in order, apart from the header.\<close>

lemma built_sendable:
  assumes "0 \<le> pt" "pt < 16" and "pk_header p = PacketBuilder_create_header pt r hp"
    and "pk_transport_codes p = (0, 0)" and "lengths_ok p"
    and "0 \<le> pk_path_len p" "pk_path_len p < 256" "is_valid_path_len (pk_path_len p)"
  shows "sendable p" and "get_payload_type p = pt"
  using assms builder_header [OF assms(1,2), of r hp]
  by (simp_all add: sendable_def writable_def codes_ok_def accessor_arith)

lemma create_packet_sendable:
  assumes "0 \<le> pt" "pt < 16" and "create_packet (PacketBuilder_create_header pt r hp) payload = Inr p"
  shows "sendable p" and "get_payload_type p = pt" and "pk_payload p = payload"
    and "length payload \<le> 184" and "pk_path p = []" and "pk_path_len p = 0"
    and "pk_header p = PacketBuilder_create_header pt r hp" and "pk_transport_codes p = (0, 0)"
    and "pk_payload_len p = int (length payload)"
proof -
  from assms(3) have p: "p = new_packet\<lparr>pk_header := PacketBuilder_create_header pt r hp,
      pk_payload := payload, pk_payload_len := int (length payload)\<rparr>" and len: "length payload \<le> 184"
    by (auto simp: create_packet_def validate_payload_size_def res_simps size_defs split: if_splits)
  have "lengths_ok p" using len
    by (simp add: p new_packet_def lengths_ok_def packet_path_defs path_len_arith)
  then show "sendable p" "get_payload_type p = pt"
    using built_sendable [OF assms(1,2), of p r hp]
    by (simp_all add: p new_packet_def is_valid_path_len_arith)
  show "pk_payload p = payload" "length payload \<le> 184" "pk_path p = []" "pk_path_len p = 0"
    "pk_header p = PacketBuilder_create_header pt r hp" "pk_transport_codes p = (0, 0)"
    "pk_payload_len p = int (length payload)"
    using len by (simp_all add: p new_packet_def)
qed

lemma with_path_fields:
  assumes "with_path bs enc p = Inr q"
  shows "q = p\<lparr>pk_path := bs, pk_path_len := (case enc of Some b \<Rightarrow> b | None \<Rightarrow> int (length bs))\<rparr>"
    and "enc = None \<Longrightarrow> length bs \<le> 63"
proof -
  have "encode_path_len 1 n = Inr n" if "0 \<le> n" "n \<le> 63" for n
    using that by (simp add: encode_path_len_arith)
  with assms show "q = p\<lparr>pk_path := bs, pk_path_len := (case enc of Some b \<Rightarrow> b | None \<Rightarrow> int (length bs))\<rparr>"
    "enc = None \<Longrightarrow> length bs \<le> 63"
    by (auto simp: with_path_def set_path_def Let_def split: option.splits if_splits)
qed

lemma short_path_len:
  assumes "n \<le> 63"
  shows "get_path_byte_len (int n) = int n" and "is_valid_path_len (int n)"
proof -
  have "int n div 64 = 0" "int n mod 64 = int n" using assms by simp_all
  then show "get_path_byte_len (int n) = int n" "is_valid_path_len (int n)"
    using assms by (simp_all add: path_len_arith is_valid_path_len_arith)
qed

lemma valid_path_len_byte:
  assumes "0 \<le> b" and "is_valid_path_len b"
  shows "b < 256"
proof -
  from assms(2) have "b div 64 \<le> 2" by (simp add: is_valid_path_len_arith)
  then show ?thesis by linarith
qed

section \<open>Timestamps\<close>

fun draw_timestamps :: "real list \<Rightarrow> int \<Rightarrow> int list" where
  "draw_timestamps [] lst = []"
| "draw_timestamps (now # nows) lst =
     (let (lst', t) = get_timestamp now lst in t # draw_timestamps nows lst')"

lemma draw_timestamps_above: "list_all (\<lambda>t. lst < t) (draw_timestamps nows lst)"
proof (induction nows arbitrary: lst)
  case Nil
  then show ?case by simp
next
  case (Cons now nows)
  obtain t where t: "get_timestamp now lst = (t, t)" "lst < t"
    by (simp add: get_timestamp_def Let_def)
  with Cons.IH [of t] show ?case by (auto simp: list_all_iff)
qed

text \<open>
  Request tags never repeat: whatever the wall clock reads at each call, also when it stands
  still or runs backwards, the timestamps that the builder draws are strictly increasing, and a
  tag is the current second whenever that is later than every tag before.
\<close>

lemma timestamps_strictly_increase:
  "sorted_wrt (<) (draw_timestamps nows lst)
   \<and> (if lst < py_int now then snd (get_timestamp now lst) = py_int now
      else snd (get_timestamp now lst) = lst + 1)"
proof -
  have "sorted_wrt (<) (draw_timestamps nows lst)"
  proof (induction nows arbitrary: lst)
    case Nil
    then show ?case by simp
  next
    case (Cons now nows)
    obtain t where "get_timestamp now lst = (t, t)" by (simp add: get_timestamp_def Let_def)
    with Cons.IH draw_timestamps_above [of t nows] show ?case by (simp add: list_all_iff)
  qed
  then show ?thesis by (simp add: get_timestamp_def Let_def)
qed


section \<open>Encrypted payloads\<close>

lemma shared_secret_key_ok:
  assumes "identity_laws c" and "calc_shared_secret_and_key c contact li = Inr (ss, key)"
  shows "length ss = 32" and "key = take 16 ss" and "length key = 16"
    and "\<exists>pk peer. fromhex (cx_public_key contact) = Inr pk \<and> new_identity c pk = Inr peer
           \<and> calc_shared_secret c peer (get_private_key li) = Inr ss"
proof -
  from assms(2) obtain pk peer where *: "fromhex (cx_public_key contact) = Inr pk"
    "new_identity c pk = Inr peer" "calc_shared_secret c peer (get_private_key li) = Inr ss" "key = take 16 ss"
    by (auto simp: calc_shared_secret_and_key_def res_simps)
  then have len: "length ss = 32"
    using assms(1) by (auto simp: calc_shared_secret_def scalarmult_def identity_laws_def)
  with * show "length ss = 32" "key = take 16 ss" "length key = 16"
    "\<exists>pk peer. fromhex (cx_public_key contact) = Inr pk \<and> new_identity c pk = Inr peer
       \<and> calc_shared_secret c peer (get_private_key li) = Inr ss"
    by auto
qed

lemma encrypted_payload_ok:
  assumes "crypto_laws c" and "identity_laws c" and "create_encrypted_payload c contact li pt = Inr payload"
  obtains ss d s enc where "calc_shared_secret_and_key c contact li = Inr (ss, take 16 ss)"
    and "encrypt_then_mac c (take 16 ss) ss pt = Inr enc" and "payload = [d, s] @ enc"
    and "length payload = 4 + length pt + block_pad (length pt)"
    and "\<exists>pk. fromhex (cx_public_key contact) = Inr pk \<and> hash_byte pk = Inr d"
    and "hash_byte (get_public_key li) = Inr s" and "length ss = 32"
proof -
  from assms(3) obtain ss key enc pk d s where
    sk: "calc_shared_secret_and_key c contact li = Inr (ss, key)" and enc: "encrypt_then_mac c key ss pt = Inr enc"
    and pk: "fromhex (cx_public_key contact) = Inr pk" and d: "hash_byte pk = Inr d"
    and s: "hash_byte (get_public_key li) = Inr s" and payload: "payload = [d, s] @ enc"
    by (auto simp: create_encrypted_payload_def hash_bytes_def res_simps)
  note k = shared_secret_key_ok [OF assms(2) sk]
  have "length enc = 2 + length pt + block_pad (length pt)"
    by (rule length_encrypt_then_mac [OF assms(1) _ enc]) (simp add: k)
  with sk enc pk d s payload k show thesis by (intro that) auto
qed

text \<open>Padding a plaintext of at most 176 bytes stays within 176 bytes.\<close>

lemma padded_le: "n \<le> 176 \<Longrightarrow> n + block_pad n \<le> 176"
proof -
  assume n: "n \<le> 176"
  obtain k where k: "n + block_pad n = 16 * k" using block_pad_aligned [of n] by (auto elim: dvdE)
  have "16 * k < 192" using n block_pad_less [of n] k by linarith
  then have "k \<le> 11" by simp
  then show ?thesis using k by simp
qed

section \<open>Text messages\<close>

lemma text_plaintext_parts:
  assumes "pack_timestamp_data ts [PartInt fl, PartBytes pre, PartStr msg, PartBytes tail] = Inr pt"
  obtains enc f where "utf8_encode msg = Inr enc" and "fl = uint f"
    and "pt = le_bytes 4 ts @ f # pre @ enc @ tail" and "0 \<le> ts" and "ts < 2 ^ 32"
  using assms
  by (auto simp: pack_timestamp_data_def part_bytes_def res_simps elim: that)

definition stored_path_ok :: "contact_proxy \<Rightarrow> bool" where
  "stored_path_ok contact \<longleftrightarrow>
     cx_out_path contact = [] \<or> cx_out_path_len contact < 0 \<or> \<not> is_valid_path_len (cx_out_path_len contact)
     \<or> get_path_byte_len (cx_out_path_len contact) = int (length (cx_out_path contact))"

lemma map_res_to_byte: "map_res to_byte is = Inr bs \<Longrightarrow> is = map uint bs"
  by (induction "is" arbitrary: bs) (auto simp: res_simps)

lemma text_route_ok:
  assumes "text_route contact out_path rp p = Inr q" and "length rp \<le> 64"
    and "out_path = None \<longrightarrow> length rp = length (cx_out_path contact)"
    and "stored_path_ok contact \<or> out_path \<noteq> None" and "pk_path p = []" and "pk_path_len p = 0"
  shows "\<exists>bs b. q = p\<lparr>pk_path := bs, pk_path_len := b\<rparr> \<and> get_path_byte_len b = int (length bs)
           \<and> is_valid_path_len b \<and> 0 \<le> b"
proof (cases "rp = []")
  case True
  with assms(1) show ?thesis
    by (intro exI [of _ "[]"] exI [of _ 0])
      (auto simp: text_route_def path_len_arith is_valid_path_len_arith)
next
  case False
  let ?use = "out_path = None \<and> 0 \<le> cx_out_path_len contact \<and> is_valid_path_len (cx_out_path_len contact)
     \<and> get_path_byte_len (cx_out_path_len contact) \<le> int (length rp)"
  have noclip: "(if MAX_PATH_SIZE < int (length rp) then take (nat MAX_PATH_SIZE) rp else rp) = rp"
    using assms(2) by (simp add: size_defs)
  show ?thesis
  proof (cases ?use)
    case True
    with assms(1) False noclip obtain bs where bs: "map_res to_byte rp = Inr bs"
      "with_path bs (Some (cx_out_path_len contact)) p = Inr q"
      by (auto simp: text_route_def Let_def res_simps)
    have "length bs = length rp" using map_res_length [OF bs(1)] .
    with True assms(3,4) False have "get_path_byte_len (cx_out_path_len contact) = int (length bs)"
      by (auto simp: stored_path_ok_def)
    with True with_path_fields(1) [OF bs(2)] show ?thesis
      by (intro exI [of _ bs] exI [of _ "cx_out_path_len contact"]) simp
  next
    case no: False
    with assms(1) False noclip obtain bs rp' where bs: "with_path bs None p = Inr q"
      by (auto simp: text_route_def Let_def res_simps split: if_splits)
    note w = with_path_fields [OF bs]
    from w(2) short_path_len [of "length bs"] w(1) show ?thesis
      by (intro exI [of _ bs] exI [of _ "int (length bs)"]) simp
  qed
qed


text \<open>What a successful call has computed.\<close>

lemma text_message_parts:
  assumes "crypto_laws c" and "identity_laws c"
    and "text_message_packet c contact li message attempt mtype out_path tt ts = Inr (p, crc)"
  obtains tail prefix enc f payload rp q key where
    "utf8_encode (takeWhile (\<lambda>ch. ch \<noteq> 0) message) = Inr enc" "length enc \<le> 160"
    "length prefix \<le> 4" "length enc + length tail \<le> 160"
    "uint f = text_flags_byte (tt AND 0x3F) (attempt AND 0xFF)"
    "prefix = (if tt AND 0x3F = TXT_TYPE_SIGNED_PLAIN then take 4 (get_public_key li) else [])"
    "create_encrypted_payload c contact li (le_bytes 4 ts @ f # prefix @ enc @ tail) = Inr payload"
    "text_route contact out_path rp
       (new_packet\<lparr>pk_header := PacketBuilder_create_header PAYLOAD_TYPE_TXT_MSG mtype (rp \<noteq> [])\<rparr>) = Inr q"
    "length rp \<le> 64" "out_path = None \<longrightarrow> length rp = length (cx_out_path contact)"
    "p = q\<lparr>pk_payload := payload, pk_payload_len := int (length payload)\<rparr>"
    "0 \<le> ts" "ts < 2 ^ 32"
    "tail = (if 3 < attempt AND 0xFF \<and> \<not> is_cli_type (tt AND 0x3F) then [0, word_of_int (attempt AND 0xFF)] else [])"
    "(if tt AND 0x3F = TXT_TYPE_SIGNED_PLAIN then fromhex (cx_public_key contact) else Inr (get_public_key li)) = Inr key"
    "crc = le_int (take 4 (cr_sha256 c (le_bytes 4 ts @ f # prefix @ enc @ key)))"
proof -
  let ?m = "takeWhile (\<lambda>ch. ch \<noteq> 0) message"
  let ?a = "attempt AND 0xFF" and ?t = "tt AND 0x3F"
  let ?pre = "if ?t = TXT_TYPE_SIGNED_PLAIN then take 4 (get_public_key li) else []"
  from assms(3) obtain tail pt payload rp q ci key where
    check: "text_check_length ?t ?a ?m = Inr ()" and tail: "text_tail ?t ?a = Inr tail"
    and pt: "pack_timestamp_data ts [PartInt (text_flags_byte ?t ?a), PartBytes ?pre, PartStr ?m, PartBytes tail] = Inr pt"
    and payload: "create_encrypted_payload c contact li pt = Inr payload"
    and ci: "pack_timestamp_data ts [PartInt (text_flags_byte ?t ?a), PartBytes ?pre, PartStr ?m] = Inr ci"
    and key: "(if ?t = TXT_TYPE_SIGNED_PLAIN then fromhex (cx_public_key contact) else Inr (get_public_key li)) = Inr key"
    and crc: "crc = le_int (take 4 (cr_sha256 c (ci @ key)))"
    and rp: "validate_routing_path (case out_path of Some p \<Rightarrow> p
               | None \<Rightarrow> map (\<lambda>b. PathInt (uint b)) (cx_out_path contact)) = Inr rp"
    and route: "text_route contact out_path rp
       (new_packet\<lparr>pk_header := PacketBuilder_create_header PAYLOAD_TYPE_TXT_MSG mtype (rp \<noteq> [])\<rparr>) = Inr q"
    and p: "p = q\<lparr>pk_payload := payload, pk_payload_len := int (length payload)\<rparr>"
    by (auto simp: text_message_packet_def res_simps Let_def)
  obtain enc f where enc: "utf8_encode ?m = Inr enc" "text_flags_byte ?t ?a = uint f"
    "pt = le_bytes 4 ts @ f # ?pre @ enc @ tail" "0 \<le> ts" "ts < 2 ^ 32"
    by (rule text_plaintext_parts [OF pt])
  have ci': "ci = le_bytes 4 ts @ f # ?pre @ enc"
    using ci enc by (auto simp: pack_timestamp_data_def part_bytes_def res_simps)
  from check enc(1) have "length enc \<le> 160"
    "\<not> is_cli_type ?t \<and> 3 < ?a \<longrightarrow> int (length enc) \<le> 158"
    by (auto simp: text_check_length_def size_defs split: if_splits)
  moreover have tl: "tail = (if 3 < ?a \<and> \<not> is_cli_type ?t then [0, word_of_int ?a] else [])"
    using tail by (auto simp: text_tail_def res_simps split: if_splits)
  ultimately have "length enc + length tail \<le> 160" "length enc \<le> 160" by auto
  moreover note v = validate_routing_path_bytes [OF rp]
  ultimately show thesis
    using enc payload route p tl key crc ci'
    by (intro that [of enc ?pre tail f payload rp q key]) (auto split: option.splits)
qed

definition toy_node :: "byte \<Rightarrow> local_identity" where
  "toy_node n =
     \<lparr>id_verify_key = replicate 32 n, id_x25519_pubkey = replicate 32 n, li_firmware_key = None,
      li_signing_key = Some (replicate 32 n), li_x25519_private = replicate 32 n,
      li_x25519_public = replicate 32 n\<rparr>"

lemma toy_node_seed: "local_identity_of_seed toy_crypto (replicate 32 n) = Inr (toy_node n)"
  by (simp add: local_identity_of_seed_def local_identity_of_def new_identity_def toy_crypto_def
      ed25519_sk_to_x25519_def ed25519_pk_to_x25519_def scalarmult_base_def toy_node_def)

definition toy_contact :: "int \<Rightarrow> bytes \<Rightarrow> contact_proxy" where
  "toy_contact path_len path =
     contact_proxy_of ((sample_contact 0 1 0 0)\<lparr>ct_public_key := replicate 32 2,
       ct_out_path_len := path_len, ct_out_path := path\<rparr>)"

lemma toy_text_message:
  "\<exists>r. text_message_packet toy_crypto (toy_contact 2 [5, 6]) (toy_node 1) (str ''hi'') 4 (str ''direct'') None 0 7 = Inr r"
proof -
  have "case text_message_packet toy_crypto (toy_contact 2 [5, 6]) (toy_node 1) (str ''hi'') 4 (str ''direct'') None 0 7
    of Inl _ \<Rightarrow> False | Inr _ \<Rightarrow> True" by code_simp
  then show ?thesis by (auto split: sum.splits)
qed

text \<open>
  Every text message that the builder returns can be transmitted. Whatever the text, attempt
  number, text type and timestamp, a call that does not raise yields a packet of type TXT_MSG
  whose payload has at most 180 bytes and that serialises, provided the path is given explicitly
  or the contact's stored path length describes its stored path.
\<close>

lemma text_message_sendable:
  assumes "crypto_laws c" and "identity_laws c"
    and "create_text_message c now contact li message attempt mtype out_path tt ts lst = (lst', Inr (p, crc))"
    and "stored_path_ok contact \<or> out_path \<noteq> None"
  shows "sendable p \<and> get_payload_type p = PAYLOAD_TYPE_TXT_MSG \<and> length (pk_payload p) \<le> 180
         \<and> (\<exists>w. write_to p = Inr w)"
proof -
  from assms(3) obtain t where
    "text_message_packet c contact li message attempt mtype out_path tt t = Inr (p, crc)"
    by (auto simp: create_text_message_def split: prod.splits)
  then obtain tail prefix enc f payload rp q where parts:
    "length prefix \<le> 4" "length enc + length tail \<le> 160"
    "create_encrypted_payload c contact li (le_bytes 4 t @ f # prefix @ enc @ tail) = Inr payload"
    "text_route contact out_path rp
       (new_packet\<lparr>pk_header := PacketBuilder_create_header PAYLOAD_TYPE_TXT_MSG mtype (rp \<noteq> [])\<rparr>) = Inr q"
    "length rp \<le> 64" "out_path = None \<longrightarrow> length rp = length (cx_out_path contact)"
    "p = q\<lparr>pk_payload := payload, pk_payload_len := int (length payload)\<rparr>"
    by (rule text_message_parts [OF assms(1,2)])
  let ?pt = "le_bytes 4 t @ f # prefix @ enc @ tail"
  have "length ?pt \<le> 176" using parts(1,2) by simp
  moreover have "length payload = 4 + length ?pt + block_pad (length ?pt)"
    by (rule encrypted_payload_ok [OF assms(1,2) parts(3)])
  ultimately have len: "length payload \<le> 180" using padded_le [of "length ?pt"] by linarith
  from text_route_ok [OF parts(4,5,6) assms(4)] obtain bs b where
    q: "q = new_packet\<lparr>pk_header := PacketBuilder_create_header PAYLOAD_TYPE_TXT_MSG mtype (rp \<noteq> []),
          pk_path := bs, pk_path_len := b\<rparr>" and b: "get_path_byte_len b = int (length bs)"
      "is_valid_path_len b" "0 \<le> b"
    by (auto simp: new_packet_def)
  have ty: "0 \<le> PAYLOAD_TYPE_TXT_MSG" "PAYLOAD_TYPE_TXT_MSG < 16" by (simp_all add: payload_type_defs)
  have "lengths_ok p" using len b by (simp add: parts(7) q lengths_ok_def packet_path_defs)
  with built_sendable [OF ty, of p mtype "rp \<noteq> []"] b valid_path_len_byte [OF b(3,2)]
  have "sendable p" "get_payload_type p = PAYLOAD_TYPE_TXT_MSG"
    by (simp_all add: parts(7) q new_packet_def)
  with len read_write(1) [of p] show ?thesis by (simp add: parts(7))
qed

text \<open>
  A text message opens at its recipient: if node A builds a message for a contact that carries the
  public key of node B, then B derives from A's public key the keys under which the payload
  authenticates and decrypts to the timestamp, the flags byte, the signer prefix, the text, the
  retry tail and zero padding; and the CRC that A waits for is determined by these bytes.
\<close>

lemma text_message_opens:
  assumes "crypto_laws c" and "identity_laws c"
    and "local_identity_of_seed c sa = Inr a" and "local_identity_of_seed c sb = Inr b"
    and "cx_public_key contact = hex_str (get_public_key b)"
    and "text_message_packet c contact a message attempt mtype out_path tt ts = Inr (p, crc)"
  obtains ia ss f prefix enc tail n ct where
    "new_identity c (get_public_key a) = Inr ia" "calc_shared_secret c ia (get_private_key b) = Inr ss"
    "pk_payload p = [hd (get_public_key b), hd (get_public_key a)] @ ct" "2 \<le> length ct"
    "mac_then_decrypt c (take 16 ss) ss ct = Inr (le_bytes 4 ts @ f # prefix @ enc @ tail @ replicate n 0)"
    "uint f = text_flags_byte (tt AND 0x3F) (attempt AND 0xFF)"
    "prefix = (if tt AND 0x3F = TXT_TYPE_SIGNED_PLAIN then take 4 (get_public_key a) else [])"
    "utf8_encode (takeWhile (\<lambda>ch. ch \<noteq> 0) message) = Inr enc" "0 \<le> ts" "ts < 2 ^ 32"
    "tail = (if 3 < attempt AND 0xFF \<and> \<not> is_cli_type (tt AND 0x3F) then [0, word_of_int (attempt AND 0xFF)] else [])"
    "crc = le_int (take 4 (cr_sha256 c (le_bytes 4 ts @ f # prefix @ enc
       @ (if tt AND 0x3F = TXT_TYPE_SIGNED_PLAIN then get_public_key b else get_public_key a))))"
    "length ss = 32"
proof -
  obtain tail prefix enc f payload rp q key where parts:
    "utf8_encode (takeWhile (\<lambda>ch. ch \<noteq> 0) message) = Inr enc"
    "uint f = text_flags_byte (tt AND 0x3F) (attempt AND 0xFF)"
    "create_encrypted_payload c contact a (le_bytes 4 ts @ f # prefix @ enc @ tail) = Inr payload"
    "p = q\<lparr>pk_payload := payload, pk_payload_len := int (length payload)\<rparr>"
    "prefix = (if tt AND 0x3F = TXT_TYPE_SIGNED_PLAIN then take 4 (get_public_key a) else [])" "0 \<le> ts" "ts < 2 ^ 32"
    "tail = (if 3 < attempt AND 0xFF \<and> \<not> is_cli_type (tt AND 0x3F) then [0, word_of_int (attempt AND 0xFF)] else [])"
    "(if tt AND 0x3F = TXT_TYPE_SIGNED_PLAIN then fromhex (cx_public_key contact) else Inr (get_public_key a)) = Inr key"
    "crc = le_int (take 4 (cr_sha256 c (le_bytes 4 ts @ f # prefix @ enc @ key)))"
    by (rule text_message_parts [OF assms(1,2,6)])
  let ?pt = "le_bytes 4 ts @ f # prefix @ enc @ tail"
  obtain ss d s en where sk: "calc_shared_secret_and_key c contact a = Inr (ss, take 16 ss)"
    and en: "encrypt_then_mac c (take 16 ss) ss ?pt = Inr en" and pl: "payload = [d, s] @ en"
    and d: "\<exists>pk. fromhex (cx_public_key contact) = Inr pk \<and> hash_byte pk = Inr d"
    and s: "hash_byte (get_public_key a) = Inr s" and lss: "length ss = 32"
    by (rule encrypted_payload_ok [OF assms(1,2) parts(3)])
  obtain ia ib where ids: "new_identity c (get_public_key a) = Inr ia" "new_identity c (get_public_key b) = Inr ib"
    "calc_shared_secret c ib (get_private_key a) = calc_shared_secret c ia (get_private_key b)"
    by (rule shared_secret_agrees [OF assms(2,3,4)])
  have ss: "calc_shared_secret c ia (get_private_key b) = Inr ss"
    using shared_secret_key_ok(4) [OF assms(2) sk] assms(5) ids(2,3) by auto
  have hs: "payload = [hd (get_public_key b), hd (get_public_key a)] @ en"
    using d s assms(5) pl by (auto simp: hash_byte_def split: list.splits)
  have key: "key = (if tt AND 0x3F = TXT_TYPE_SIGNED_PLAIN then get_public_key b else get_public_key a)"
    using parts(9) assms(5) by (auto split: if_splits)
  have k: "length (take 16 ss) \<in> {16, 24, 32}" using lss by simp
  from encrypt_then_mac_ok [OF assms(1) k, of ss ?pt] obtain ct where
    ct: "encrypt_then_mac c (take 16 ss) ss ?pt = Inr (take 2 (cr_hmac_sha256 c ss ct) @ ct)"
    "length ct = length ?pt + block_pad (length ?pt)"
    "aes_decrypt c (take 16 ss) ct = Inr (?pt @ replicate (block_pad (length ?pt)) 0)" by blast
  have l2: "length (take 2 (cr_hmac_sha256 c ss ct)) = 2" using assms(1) by (simp add: crypto_laws_def)
  with ct en have dec: "mac_then_decrypt c (take 16 ss) ss en = Inr (?pt @ replicate (block_pad (length ?pt)) 0)"
    by (simp add: mac_then_decrypt_iff)
  show thesis
    using parts hs dec key l2 ct(1) en lss
    by (intro that [of ia ss en f prefix enc tail, OF ids(1) ss]) (auto simp del: le_bytes.simps)
qed

text \<open>
  The stored-path condition is needed: for a contact whose encoded path length is valid but
  describes fewer bytes than its stored path, the builder attaches the whole path under the
  shorter length without an error, and every packet it returns is one that serialisation refuses.
\<close>

lemma text_message_stale_path_unsendable:
  assumes "crypto_laws c" and "identity_laws c"
    and "text_message_packet c contact li message attempt mtype None tt ts = Inr (p, crc)"
    and "0 \<le> cx_out_path_len contact" and "is_valid_path_len (cx_out_path_len contact)"
    and "get_path_byte_len (cx_out_path_len contact) < int (length (cx_out_path contact))"
  shows "write_to p = Inl (ValueError ''path_len mismatch'')"
proof -
  obtain payload rp q where
    route: "text_route contact None rp
       (new_packet\<lparr>pk_header := PacketBuilder_create_header PAYLOAD_TYPE_TXT_MSG mtype (rp \<noteq> [])\<rparr>) = Inr q"
    and rp: "length rp \<le> 64" "(None :: path_item list option) = None \<longrightarrow> length rp = length (cx_out_path contact)"
    and p: "p = q\<lparr>pk_payload := payload, pk_payload_len := int (length payload)\<rparr>"
    by (rule text_message_parts [OF assms(1,2,3)])
  have noclip: "(if MAX_PATH_SIZE < int (length rp) then take (nat MAX_PATH_SIZE) rp else rp) = rp"
    using rp(1) by (simp add: size_defs)
  have "0 \<le> cx_out_path_len contact div 64 + 1"
    using pos_imp_zdiv_nonneg_iff [of 64 "cx_out_path_len contact"] assms(4) by simp
  then have "0 \<le> get_path_byte_len (cx_out_path_len contact)" by (simp add: path_len_arith)
  then have "rp \<noteq> []" using rp(2) assms(6) by auto
  with route noclip assms(4-6) rp(2) obtain bs where bs: "map_res to_byte rp = Inr bs"
    "with_path bs (Some (cx_out_path_len contact))
       (new_packet\<lparr>pk_header := PacketBuilder_create_header PAYLOAD_TYPE_TXT_MSG mtype (rp \<noteq> [])\<rparr>) = Inr q"
    by (auto simp: text_route_def Let_def res_simps)
  have "length bs = length (cx_out_path contact)" using map_res_length [OF bs(1)] rp(2) by simp
  with with_path_fields(1) [OF bs(2)] p assms(6) show ?thesis
    by (simp add: write_to_def validate_lengths_def validate_buffer_lengths_def packet_path_defs)
qed

section \<open>Group messages\<close>

lemma group_content_parts:
  assumes "group_content sender_name message = Inr content"
  shows "\<exists>prefix k body. utf8_encode (sender_name @ str '': '') = Inr prefix
           \<and> utf8_encode (take k message) = Inr body \<and> content = prefix @ body \<and> k \<le> length message
           \<and> length body \<le> 160 - length prefix
           \<and> (k < length message \<longrightarrow>
                (\<exists>ch. utf8_cp (message ! k) = Inr ch \<and> 160 - length prefix < length body + length ch))"
proof -
  from assms obtain prefix bs body where prefix: "utf8_encode (sender_name @ str '': '') = Inr prefix"
    and bs: "utf8_encode message = Inr bs" and content: "content = prefix @ body"
    and body: "(if max (int MAX_TEXT_LEN - int (length prefix)) 0 < int (length bs)
        then bind_res (utf8_decode Ignore (take (nat (max (int MAX_TEXT_LEN - int (length prefix)) 0)) bs)) utf8_encode
        else Inr bs) = Inr body"
    by (auto simp: group_content_def res_simps Let_def split: if_splits)
  have budget: "nat (max (int MAX_TEXT_LEN - int (length prefix)) 0) = 160 - length prefix"
    by (simp add: size_defs)
  show ?thesis
  proof (cases "max (int MAX_TEXT_LEN - int (length prefix)) 0 < int (length bs)")
    case True
    from utf8_truncate [OF bs, of "160 - length prefix"] obtain k es where k: "k \<le> length message"
      "utf8_decode Ignore (take (160 - length prefix) bs) = Inr (take k message)"
      "utf8_encode (take k message) = Inr es" "length es \<le> 160 - length prefix"
      "k < length message \<longrightarrow> (\<exists>ch. utf8_cp (message ! k) = Inr ch \<and> 160 - length prefix < length es + length ch)"
      by blast
    with body True budget have "body = es" by simp
    with k prefix content show ?thesis by blast
  next
    case False
    with body have "body = bs" by (auto split: if_splits)
    moreover have "length bs \<le> 160 - length prefix" using False budget by linarith
    ultimately show ?thesis using bs prefix content
      by (intro exI [of "\<lambda>prefix. \<exists>k body. _ prefix k body" prefix]
          exI [of "\<lambda>k. \<exists>body. _ k body" "length message"] exI [of _ bs]) simp
  qed
qed

text \<open>
  A group message is cut at a character, never inside one: its content is the sender prefix
  in UTF-8 followed by the UTF-8 of the longest prefix of the text that fits the 160-byte budget
  the sender prefix leaves, and the whole text when it fits; the prefix itself is never cut.
\<close>

lemma group_content_cut_at_character:
  assumes "group_content sender_name message = Inr content"
  shows "\<exists>prefix k body. utf8_encode (sender_name @ str '': '') = Inr prefix
           \<and> utf8_encode (take k message) = Inr body \<and> content = prefix @ body \<and> k \<le> length message
           \<and> length body \<le> 160 - length prefix
           \<and> (k < length message \<longrightarrow>
                (\<exists>ch. utf8_cp (message ! k) = Inr ch \<and> 160 - length prefix < length body + length ch))"
  by (rule group_content_parts [OF assms])

end
