(* ===== verification/Protocol_Utils.thy ===== *)
theory Protocol_Utils
  imports Packet_Builder
begin

text \<open>
  \<open>protocol/utils.py\<close>: adverts as a receiver reads them, the names used in logs, and the
  channel secret and hash. The theorems here close the loop with the packet builder: what it
  encodes into an advert is what these functions read back.
\<close>

section \<open>Names\<close>

fun nat_str :: "nat \<Rightarrow> pystr" where
  "nat_str n = (if n < 10 then [48 + n] else nat_str (n div 10) @ [48 + n mod 10])"

declare nat_str.simps [simp del]

definition int_str :: "int \<Rightarrow> pystr" where
  "int_str i = (if i < 0 then 45 # nat_str (nat (- i)) else nat_str (nat i))"

definition ROUTE_TYPES :: "(int, pystr) dict" where
  "ROUTE_TYPES =
     [(0x00, str ''TRANSPORT_FLOOD''), (0x01, str ''FLOOD''), (0x02, str ''DIRECT''),
      (0x03, str ''TRANSPORT_DIRECT'')]"

definition PAYLOAD_TYPES :: "(int, pystr) dict" where
  "PAYLOAD_TYPES =
     [(0x00, str ''REQ''), (0x01, str ''RESPONSE''), (0x02, str ''TXT_MSG''), (0x03, str ''ACK''),
      (0x04, str ''ADVERT''), (0x05, str ''GRP_TXT''), (0x06, str ''GRP_DATA''),
      (0x07, str ''ANON_REQ''), (0x08, str ''PATH''), (0x09, str ''TRACE''),
      (0x0A, str ''MULTIPART''), (0x0B, str ''CONTROL''), (0x0F, str ''RAW_CUSTOM'')]"

definition utils_describe_advert_flags :: "int \<Rightarrow> string" where
  "utils_describe_advert_flags flags =
     (let label = (\<lambda>flag name. if flags AND flag \<noteq> 0 then [name] else [])
      in join_labels
           (label ADVERT_FLAG_IS_CHAT_NODE ''is chat node'' @ label ADVERT_FLAG_IS_REPEATER ''is repeater''
            @ label ADVERT_FLAG_IS_ROOM_SERVER ''is room server'' @ label ADVERT_FLAG_IS_SENSOR ''is sensor''
            @ label ADVERT_FLAG_HAS_LOCATION ''has location'' @ label ADVERT_FLAG_HAS_FEATURE1 ''has feature 1''
            @ label ADVERT_FLAG_HAS_FEATURE2 ''has feature 2'' @ label ADVERT_FLAG_HAS_NAME ''has name''))"

definition determine_contact_type_from_flags :: "int \<Rightarrow> int" where
  "determine_contact_type_from_flags flags =
     (let node_type = flags AND 0x0F
      in if node_type = ADVERT_FLAG_IS_ROOM_SERVER then 3
         else if node_type = ADVERT_FLAG_IS_REPEATER then 2
         else if node_type = ADVERT_FLAG_IS_CHAT_NODE then 1
         else if node_type = ADVERT_FLAG_IS_SENSOR then 4
         else 0)"

definition get_contact_type_name :: "int \<Rightarrow> pystr" where
  "get_contact_type_name contact_type =
     (case map_of [(0 :: int, str ''Unknown''), (1, str ''Chat Node''), (2, str ''Repeater''),
                   (3, str ''Room Server''), (4, str ''Sensor'')] contact_type of
        Some name \<Rightarrow> name
      | None \<Rightarrow> str ''Unknown Type ('' @ int_str contact_type @ str '')'')"

definition get_packet_type_name :: "int \<Rightarrow> pystr" where
  "get_packet_type_name payload_type =
     (case map_of PAYLOAD_TYPES payload_type of Some n \<Rightarrow> n | None \<Rightarrow> str ''UNKNOWN_'' @ int_str payload_type)"

definition get_route_type_name :: "int \<Rightarrow> pystr" where
  "get_route_type_name route_type =
     (case map_of ROUTE_TYPES route_type of Some n \<Rightarrow> n | None \<Rightarrow> str ''UNKNOWN_'' @ int_str route_type)"

definition format_packet_info :: "int \<Rightarrow> int \<Rightarrow> pystr" where
  "format_packet_info header payload_length =
     (let payload_type = drop_bit PH_TYPE_SHIFT header AND PH_TYPE_MASK;
          route_type = header AND PH_ROUTE_MASK;
          info = str ''Type: '' @ get_packet_type_name payload_type @ str '', Route: ''
                 @ get_route_type_name route_type
      in if 0 < payload_length then info @ str '', Size: '' @ int_str payload_length @ str '' bytes''
         else info)"

section \<open>Adverts\<close>

record advert_payload =
  adv_pubkey :: pystr
  adv_timestamp :: int
  adv_signature :: pystr
  adv_appdata :: bytes

definition parse_advert_payload :: "bytes \<Rightarrow> advert_payload res" where
  "parse_advert_payload payload =
     (let min_len = PUB_KEY_SIZE + TIMESTAMP_SIZE + SIGNATURE_SIZE
      in if length payload < min_len then Inl (ValueError ''Advert payload too short'')
         else
           let sig_start = PUB_KEY_SIZE + TIMESTAMP_SIZE
           in Inr \<lparr>adv_pubkey = hex_str (take PUB_KEY_SIZE payload),
                   adv_timestamp = le_int (take TIMESTAMP_SIZE (drop PUB_KEY_SIZE payload)),
                   adv_signature = hex_str (take SIGNATURE_SIZE (drop sig_start payload)),
                   adv_appdata = drop (sig_start + SIGNATURE_SIZE) payload\<rparr>)"

definition is_self_advert :: "bytes \<Rightarrow> bytes \<Rightarrow> bool" where
  "is_self_advert payload self_public_key =
     (if self_public_key = [] then False
      else PUB_KEY_SIZE \<le> length payload \<and> take PUB_KEY_SIZE payload = self_public_key)"

text \<open>The dictionary that \<open>decode_appdata\<close> returns; a key that it leaves out is \<open>None\<close>.\<close>

record appdata =
  ad_flags :: int
  ad_latitude :: "real option"
  ad_longitude :: "real option"
  ad_feature_1 :: "int option"
  ad_feature_2 :: "int option"
  ad_raw_name_bytes :: "pystr option"
  ad_name_decode_error :: "bool option"
  ad_node_name :: "pystr option"

definition appdata_required_len :: "int \<Rightarrow> nat" where
  "appdata_required_len flags =
     1 + (if flags AND 0x10 \<noteq> 0 then 8 else 0) + (if flags AND 0x20 \<noteq> 0 then 2 else 0)
       + (if flags AND 0x40 \<noteq> 0 then 2 else 0)"

definition decode_name :: "bytes \<Rightarrow> appdata \<Rightarrow> appdata" where
  "decode_name rest d =
     (if rest \<noteq> [] then
        let name_bytes = takeWhile (\<lambda>b. b \<noteq> 0) rest
        in case utf8_decode Strict name_bytes of
             Inr name \<Rightarrow> d\<lparr>ad_node_name := (if name \<noteq> [] then Some name else ad_node_name d)\<rparr>
           | Inl _ \<Rightarrow>
               (let name = (case utf8_decode Replace name_bytes of Inr s \<Rightarrow> s | Inl _ \<Rightarrow> []);
                    d = d\<lparr>ad_raw_name_bytes := Some (hex_str name_bytes), ad_name_decode_error := Some True\<rparr>
                in d\<lparr>ad_node_name := (if name \<noteq> [] then Some name else ad_node_name d)\<rparr>)
      else d)"

definition decode_appdata :: "bytes \<Rightarrow> appdata res" where
  "decode_appdata data =
     (case data of
        [] \<Rightarrow> Inl (ValueError ''Appdata too short to contain flags'')
      | b # rest \<Rightarrow>
          (let flags = uint b;
               d = \<lparr>ad_flags = flags, ad_latitude = None, ad_longitude = None, ad_feature_1 = None,
                    ad_feature_2 = None, ad_raw_name_bytes = None, ad_name_decode_error = None,
                    ad_node_name = None\<rparr>
           in if length data < appdata_required_len flags
              then Inl (ValueError ''Advert appdata truncated for required fields'')
              else
                let (d, rest) = (if flags AND 0x10 \<noteq> 0
                      then (d\<lparr>ad_latitude := Some (of_int (le_sint (take 4 rest)) / 1000000),
                              ad_longitude := Some (of_int (le_sint (take 4 (drop 4 rest))) / 1000000)\<rparr>,
                            drop 8 rest)
                      else (d, rest));
                    (d, rest) = (if flags AND 0x20 \<noteq> 0
                      then (d\<lparr>ad_feature_1 := Some (le_int (take 2 rest))\<rparr>, drop 2 rest) else (d, rest));
                    (d, rest) = (if flags AND 0x40 \<noteq> 0
                      then (d\<lparr>ad_feature_2 := Some (le_int (take 2 rest))\<rparr>, drop 2 rest) else (d, rest))
                in Inr (if flags AND 0x80 \<noteq> 0 then decode_name rest d else d)))"

section \<open>Channel keys\<close>

definition normalize_channel_secret :: "bytes \<Rightarrow> bytes" where
  "normalize_channel_secret secret =
     (if length secret < 32 then secret @ replicate (32 - length secret) 0 else take 32 secret)"

definition channel_hash_input :: "bytes \<Rightarrow> bytes" where
  "channel_hash_input secret =
     (let secret = normalize_channel_secret secret
      in if take 16 (drop 16 secret) = replicate 16 0 then take 16 secret else secret)"

definition derive_channel_hash :: "crypto \<Rightarrow> bytes \<Rightarrow> byte res" where
  "derive_channel_hash c secret = index_res (cr_sha256 c (channel_hash_input secret)) 0"

lemma length_normalize: "length (normalize_channel_secret s) = 32"
  by (simp add: normalize_channel_secret_def)

lemma channel_hash_input_agrees:
  assumes "length s = 16 \<or> 32 \<le> length s"
  shows "group_hash_input s = channel_hash_input s"
  using assms
  by (auto simp: group_hash_input_def channel_hash_input_def normalize_channel_secret_def drop_take)

text \<open>
  The channel hash that the builder puts on a group message and the one the receiving side
  derives from the same secret are computed over the same bytes exactly for secrets of 16 bytes
  or of at least 32 bytes; for every other length they hash different inputs.
\<close>

lemma channel_hash_inputs_agree:
  "group_hash_input s = channel_hash_input s \<longleftrightarrow> length s = 16 \<or> 32 \<le> length s"
proof -
  consider "length s < 16" | "length s = 16" | "16 < length s" "length s < 32" | "32 \<le> length s" by linarith
  then show ?thesis
  proof cases
    case 1
    then have "length (group_hash_input s) < 16" by (simp add: group_hash_input_def)
    moreover have "16 \<le> length (channel_hash_input s)"
      by (simp add: channel_hash_input_def length_normalize Let_def)
    ultimately show ?thesis using 1 by auto
  next
    case 2
    then show ?thesis
      by (simp add: group_hash_input_def channel_hash_input_def normalize_channel_secret_def)
  next
    case 3
    then have "length (group_hash_input s) = length s" by (simp add: group_hash_input_def)
    moreover have "length (channel_hash_input s) \<in> {16, 32}"
      by (simp add: channel_hash_input_def length_normalize Let_def)
    ultimately show ?thesis using 3 by auto
  next
    case 4
    then show ?thesis
      by (simp add: group_hash_input_def channel_hash_input_def normalize_channel_secret_def drop_take)
  qed
qed

section \<open>Advert round trip\<close>

lemma length_encode_location: "encode_location lat lon = Inr bs \<Longrightarrow> length bs = 8"
  by (auto simp: encode_location_def res_simps Let_def)

lemma decode_location:
  assumes "encode_location lat lon = Inr bs"
  shows "le_sint (take 4 bs) = py_int (lat * 1000000)" and "le_sint (drop 4 bs) = py_int (lon * 1000000)"
proof -
  from assms obtain a b where a: "pack_s 4 (py_int (lat * 1000000)) = Inr a"
    and b: "pack_s 4 (py_int (lon * 1000000)) = Inr b" and bs: "bs = a @ b"
    by (auto simp: encode_location_def res_simps Let_def)
  have "length a = 4" using a by (auto simp: res_simps)
  with bs le_sint_pack_s [OF a] le_sint_pack_s [OF b]
  show "le_sint (take 4 bs) = py_int (lat * 1000000)" "le_sint (drop 4 bs) = py_int (lon * 1000000)" by simp_all
qed

lemma advert_fields_decoded:
  assumes "length loc = (if uint f AND 0x10 \<noteq> 0 then 8 else 0)"
    and "length f1 = (if uint f AND 0x20 \<noteq> 0 then 2 else 0)"
    and "length f2 = (if uint f AND 0x40 \<noteq> 0 then 2 else 0)"
  shows "decode_appdata (f # loc @ f1 @ f2 @ name) =
     (let d = \<lparr>ad_flags = uint f,
               ad_latitude = (if uint f AND 0x10 \<noteq> 0 then Some (of_int (le_sint (take 4 loc)) / 1000000) else None),
               ad_longitude = (if uint f AND 0x10 \<noteq> 0 then Some (of_int (le_sint (drop 4 loc)) / 1000000) else None),
               ad_feature_1 = (if uint f AND 0x20 \<noteq> 0 then Some (le_int f1) else None),
               ad_feature_2 = (if uint f AND 0x40 \<noteq> 0 then Some (le_int f2) else None),
               ad_raw_name_bytes = None, ad_name_decode_error = None, ad_node_name = None\<rparr>
      in Inr (if uint f AND 0x80 \<noteq> 0 then decode_name name d else d))"
  using assms unfolding decode_appdata_def appdata_required_len_def Let_def
  by (cases "uint f AND 0x10 = 0"; cases "uint f AND 0x20 = 0"; cases "uint f AND 0x40 = 0") simp_all

lemma utf8_cp_no_zero:
  assumes "utf8_cp c = Inr bs" and "c \<noteq> 0"
  shows "0 \<notin> set bs"
proof -
  have nz: "(of_nat n :: byte) \<noteq> 0" if "0 < n" "n < 256" for n :: nat
    using that unat_byte [of n] by auto
  from assms(1) show ?thesis
  proof (cases rule: utf8_cp_cases)
    case one
    with assms(2) nz [of c] show ?thesis by simp
  next
    case (two h l)
    with nz [of "0xC0 + h"] nz [of "0x80 + l"] show ?thesis by (auto simp del: of_nat_add)
  next
    case (three g h l)
    with nz [of "0xE0 + g"] nz [of "0x80 + h"] nz [of "0x80 + l"] show ?thesis by (auto simp del: of_nat_add)
  next
    case (four f g h l)
    with nz [of "0xF0 + f"] nz [of "0x80 + g"] nz [of "0x80 + h"] nz [of "0x80 + l"]
    show ?thesis by (auto simp del: of_nat_add)
  qed
qed

lemma utf8_encode_no_zero: "utf8_encode s = Inr bs \<Longrightarrow> 0 \<notin> set s \<Longrightarrow> 0 \<notin> set bs"
  by (induction s arbitrary: bs) (auto simp: utf8_encode_Cons res_simps dest: utf8_cp_no_zero)

lemma decode_name_whole:
  assumes "utf8_encode name = Inr bs" and "0 \<notin> set name" and "ad_node_name d = None"
  shows "decode_name bs d = d\<lparr>ad_node_name := (if name = [] then None else Some name)\<rparr>"
proof -
  have whole: "takeWhile (\<lambda>b. b \<noteq> 0) bs = bs"
    using utf8_encode_no_zero [OF assms(1,2)] by (auto simp: takeWhile_eq_all_conv)
  have nil: "bs = [] \<longleftrightarrow> name = []"
    using assms(1) by (cases name) (auto simp: utf8_encode_Cons res_simps dest: utf8_cp_nonempty)
  show ?thesis
    unfolding decode_name_def Let_def whole utf8_decode_encode [OF assms(1), of Strict] nil
    using assms(3) by simp
qed

lemma decode_name_other [simp]:
  "ad_flags (decode_name rest d) = ad_flags d" "ad_latitude (decode_name rest d) = ad_latitude d"
  "ad_longitude (decode_name rest d) = ad_longitude d" "ad_feature_1 (decode_name rest d) = ad_feature_1 d"
  "ad_feature_2 (decode_name rest d) = ad_feature_2 d"
  by (simp_all add: decode_name_def Let_def split: sum.splits)

lemma or_and_absorb: "(x OR y) AND y = (y :: int)"
  by (auto simp: bit_eq_iff bit_simps)

text \<open>What an encoded advert body consists of.\<close>

lemma bind_res_InrE:
  assumes "bind_res m f = Inr y"
  obtains x where "m = Inr x" and "f x = Inr y"
  using assms by (auto simp: bind_res_eq_Inr)

lemma advert_data_parts:
  assumes "encode_advert_data name lat lon feature1 feature2 flags = Inr d"
  defines "F \<equiv> advert_flags name lat lon feature1 feature2 flags"
  obtains f loc f1 f2 nm where "d = f # loc @ f1 @ f2 @ nm" and "uint f = F"
    and "if F AND 0x10 \<noteq> 0 then encode_location lat lon = Inr loc else loc = []"
    and "if F AND 0x20 \<noteq> 0 then pack_u 2 feature1 = Inr f1 else f1 = []"
    and "if F AND 0x40 \<noteq> 0 then pack_u 2 feature2 = Inr f2 else f2 = []"
    and "if F AND 0x80 \<noteq> 0 then \<exists>bs. utf8_encode name = Inr bs \<and> nm = take (31 - length (loc @ f1 @ f2)) bs
         else nm = []"
proof -
  from assms(1) obtain f loc f1 f2 where f: "to_byte F = Inr f"
    and loc: "(if F AND 0x10 \<noteq> 0 then encode_location lat lon else Inr []) = Inr loc"
    and f1: "(if F AND 0x20 \<noteq> 0 then pack_u 2 feature1 else Inr []) = Inr f1"
    and f2: "(if F AND 0x40 \<noteq> 0 then pack_u 2 feature2 else Inr []) = Inr f2"
    and d: "(if F AND 0x80 \<noteq> 0 then bind_res (utf8_encode name) (\<lambda>name_bytes.
              Inr (([f] @ loc @ f1 @ f2)
                   @ slice_to (int MAX_ADVERT_DATA_SIZE - int (length ([f] @ loc @ f1 @ f2))) name_bytes))
            else Inr ([f] @ loc @ f1 @ f2)) = Inr d"
    unfolding encode_advert_data_def Let_def F_def [symmetric] advert_flag_defs
    by (elim bind_res_InrE) (rule that)
  have len: "length loc \<le> 8" "length f1 \<le> 2" "length f2 \<le> 2"
    using loc f1 f2 length_encode_location [of lat lon loc] by (auto simp: res_simps split: if_splits)
  define n where "n = int MAX_ADVERT_DATA_SIZE - int (length ([f] @ loc @ f1 @ f2))"
  have n: "0 \<le> n" "nat n = 31 - length (loc @ f1 @ f2)" using len by (simp_all add: n_def size_defs)
  have f': "uint f = F" using f by (simp add: to_byte_eq_Inr)
  show thesis
  proof (cases "F AND 0x80 = 0")
    case True
    with d have "d = f # loc @ f1 @ f2 @ []" by simp
    with True f' loc f1 f2 show thesis by (intro that [of f loc f1 f2 "[]"]) (auto split: if_splits)
  next
    case False
    with d obtain bs where bs: "utf8_encode name = Inr bs" "d = ([f] @ loc @ f1 @ f2) @ slice_to n bs"
      by (auto simp: n_def bind_res_eq_Inr)
    then have "d = f # loc @ f1 @ f2 @ take (31 - length (loc @ f1 @ f2)) bs" using n by simp
    with False bs f' loc f1 f2 show thesis
      by (intro that [of f loc f1 f2 "take (31 - length (loc @ f1 @ f2)) bs"]) (auto split: if_splits)
  qed
qed

lemma advert_data_decodes:
  assumes "encode_advert_data name lat lon feature1 feature2 flags = Inr d"
  shows "\<exists>a. decode_appdata d = Inr a \<and> length d \<le> 32
     \<and> ad_flags a = advert_flags name lat lon feature1 feature2 flags
     \<and> ad_latitude a = (if ad_flags a AND 0x10 \<noteq> 0 then Some (of_int (py_int (lat * 1000000)) / 1000000) else None)
     \<and> ad_longitude a = (if ad_flags a AND 0x10 \<noteq> 0 then Some (of_int (py_int (lon * 1000000)) / 1000000) else None)
     \<and> ad_feature_1 a = (if ad_flags a AND 0x20 \<noteq> 0 then Some feature1 else None)
     \<and> ad_feature_2 a = (if ad_flags a AND 0x40 \<noteq> 0 then Some feature2 else None)
     \<and> (\<forall>bs. utf8_encode name = Inr bs \<and> 0 \<notin> set name \<and> name \<noteq> []
              \<and> length bs + appdata_required_len (ad_flags a) \<le> 32 \<longrightarrow> ad_node_name a = Some name)"
proof -
  let ?F = "advert_flags name lat lon feature1 feature2 flags"
  obtain f loc f1 f2 nm where d: "d = f # loc @ f1 @ f2 @ nm" and f: "uint f = ?F"
    and loc: "if ?F AND 0x10 \<noteq> 0 then encode_location lat lon = Inr loc else loc = []"
    and f1: "if ?F AND 0x20 \<noteq> 0 then pack_u 2 feature1 = Inr f1 else f1 = []"
    and f2: "if ?F AND 0x40 \<noteq> 0 then pack_u 2 feature2 = Inr f2 else f2 = []"
    and nm: "if ?F AND 0x80 \<noteq> 0 then \<exists>bs. utf8_encode name = Inr bs \<and> nm = take (31 - length (loc @ f1 @ f2)) bs
         else nm = []"
    by (rule advert_data_parts [OF assms])
  have len: "length loc = (if uint f AND 0x10 \<noteq> 0 then 8 else 0)"
    "length f1 = (if uint f AND 0x20 \<noteq> 0 then 2 else 0)"
    "length f2 = (if uint f AND 0x40 \<noteq> 0 then 2 else 0)"
    using loc f1 f2 length_encode_location [of lat lon loc] by (auto simp: f res_simps split: if_splits)
  have short: "length nm \<le> 31 - length (loc @ f1 @ f2)" using nm by (auto split: if_splits)
  have "length (loc @ f1 @ f2) \<le> 12" using len by (simp split: if_splits)
  with short have "length d \<le> 32" by (simp add: d)
  moreover have req: "appdata_required_len ?F = 1 + length (loc @ f1 @ f2)"
    using len by (simp add: appdata_required_len_def f)
  moreover have bit: "?F AND 0x80 \<noteq> 0" if "name \<noteq> []"
    using that by (simp add: advert_flags_def advert_flag_defs Let_def or_and_absorb)
  moreover have "utf8_encode name = Inr bs \<and> length bs + appdata_required_len ?F \<le> 32 \<and> name \<noteq> [] \<longrightarrow> nm = bs" for bs
    using nm bit req by auto
  moreover have "?F AND 0x10 \<noteq> 0 \<longrightarrow> le_sint (take 4 loc) = py_int (lat * 1000000)
      \<and> le_sint (drop 4 loc) = py_int (lon * 1000000)"
    using loc decode_location by (auto split: if_splits)
  moreover have "?F AND 0x20 \<noteq> 0 \<longrightarrow> le_int f1 = feature1" "?F AND 0x40 \<noteq> 0 \<longrightarrow> le_int f2 = feature2"
    using f1 f2 le_int_pack_u by (auto split: if_splits)
  ultimately show ?thesis
    unfolding d advert_fields_decoded [OF len, of nm] Let_def
    by (cases "?F AND 0x80 = 0") (auto simp: f decode_name_whole decode_name_other)
qed

text \<open>
  Advert data round trip. Whatever the builder encodes is at most 32 bytes and decodes: the
  flags byte is the given flags with the bits of the fields present, the coordinates come back
  truncated to millionths of a degree, the two feature words come back as given, and the name
  comes back whole when it has no NUL and its UTF-8 form fits after the fields that precede it.
\<close>

lemma advert_data_roundtrip:
  assumes "encode_advert_data name lat lon feature1 feature2 flags = Inr d"
  shows "\<exists>a. decode_appdata d = Inr a \<and> length d \<le> 32
     \<and> ad_flags a = advert_flags name lat lon feature1 feature2 flags
     \<and> ad_latitude a = (if ad_flags a AND 0x10 \<noteq> 0 then Some (of_int (py_int (lat * 1000000)) / 1000000) else None)
     \<and> ad_longitude a = (if ad_flags a AND 0x10 \<noteq> 0 then Some (of_int (py_int (lon * 1000000)) / 1000000) else None)
     \<and> ad_feature_1 a = (if ad_flags a AND 0x20 \<noteq> 0 then Some feature1 else None)
     \<and> ad_feature_2 a = (if ad_flags a AND 0x40 \<noteq> 0 then Some feature2 else None)
     \<and> (\<forall>bs. utf8_encode name = Inr bs \<and> 0 \<notin> set name \<and> name \<noteq> []
              \<and> length bs + appdata_required_len (ad_flags a) \<le> 32 \<longrightarrow> ad_node_name a = Some name)"
  using assms by (rule advert_data_decodes)

end
