(* ===== verification/Advert_Handler.thy ===== *)
theory Advert_Handler
  imports Protocol_Utils
begin

text \<open>
  \<open>node/handlers/advert.py\<close>: what a node does with a received advert. The handler returns the
  parsed advert, or \<open>None\<close> when it ignores the packet, together with the events that it
  publishes. The clock is read up to three times; \<open>now k\<close> is the k-th reading.
\<close>

record advert_data =
  av_public_key :: pystr
  av_name :: pystr
  av_longitude :: real
  av_latitude :: real
  av_flags :: int
  av_flags_description :: string
  av_contact_type_id :: int
  av_contact_type :: pystr
  av_advert_timestamp :: int
  av_timestamp :: int
  av_snr :: "real option"
  av_rssi :: int
  av_valid :: bool

record node_discovered =
  nd_public_key :: pystr
  nd_name :: pystr
  nd_contact_type :: int
  nd_flags :: int
  nd_lat :: real
  nd_lon :: real
  nd_advert_timestamp :: int
  nd_timestamp :: int
  nd_snr :: "real option"
  nd_rssi :: int
  nd_inbound_path :: bytes
  nd_path_len_encoded :: int
  nd_raw_advert_packet :: "bytes option"

definition verify_advert_signature :: "crypto \<Rightarrow> bytes \<Rightarrow> bytes \<Rightarrow> bytes \<Rightarrow> bytes \<Rightarrow> bool res" where
  "verify_advert_signature c pubkey timestamp appdata signature =
     (if length pubkey \<noteq> PUB_KEY_SIZE then Inr False
      else if length signature \<noteq> SIGNATURE_SIZE then Inr False
      else case new_identity c pubkey of
             Inl _ \<Rightarrow> Inr False
           | Inr peer_identity \<Rightarrow>
               let signed_region = pubkey @ timestamp @ appdata
               in verify c peer_identity signed_region signature)"

definition advert_event :: "(nat \<Rightarrow> real) \<Rightarrow> packet \<Rightarrow> advert_data \<Rightarrow> node_discovered" where
  "advert_event now p a =
     (let path_byte_len = get_path_byte_len (pk_path_len p)
      in \<lparr>nd_public_key = av_public_key a, nd_name = av_name a, nd_contact_type = av_contact_type_id a,
          nd_flags = av_flags a, nd_lat = av_latitude a, nd_lon = av_longitude a,
          nd_advert_timestamp = av_advert_timestamp a, nd_timestamp = py_int (now 2),
          nd_snr = av_snr a, nd_rssi = av_rssi a,
          nd_inbound_path = (if 0 < path_byte_len then slice_to path_byte_len (pk_path p) else []),
          nd_path_len_encoded = pk_path_len p,
          nd_raw_advert_packet = (case write_to p of Inr raw \<Rightarrow> Some raw | Inl _ \<Rightarrow> None)\<rparr>)"

text \<open>The body of the handler's \<open>try\<close> block: \<open>Inr None\<close> is an early \<open>return None\<close>.\<close>

definition advert_body ::
  "crypto \<Rightarrow> (nat \<Rightarrow> real) \<Rightarrow> local_identity option \<Rightarrow> packet \<Rightarrow> advert_data option res" where
  "advert_body c now local_identity p =
     (let payload = get_payload p
      in if payload = [] then Inr None
         else case parse_advert_payload payload of
           Inl _ \<Rightarrow> Inr None
         | Inr adv \<Rightarrow>
             bind_res (fromhex (adv_pubkey adv)) (\<lambda>pubkey_bytes.
             bind_res (pack_u 4 (adv_timestamp adv)) (\<lambda>timestamp_bytes.
             bind_res (fromhex (adv_signature adv)) (\<lambda>signature_bytes.
             let advert_timestamp = adv_timestamp adv;
                 appdata = (if MAX_ADVERT_DATA_SIZE < length (adv_appdata adv)
                            then take MAX_ADVERT_DATA_SIZE (adv_appdata adv) else adv_appdata adv);
                 self_key = (case local_identity of Some li \<Rightarrow> get_public_key li | None \<Rightarrow> [])
             in if is_self_advert payload self_key then Inr None
                else
                  bind_res (verify_advert_signature c pubkey_bytes timestamp_bytes appdata signature_bytes) (\<lambda>ok.
                  if \<not> ok then Inr None
                  else
                    bind_res (decode_appdata appdata) (\<lambda>decoded.
                    case ad_node_name decoded of
                      None \<Rightarrow> Inr None
                    | Some name \<Rightarrow>
                        if name = [] then Inr None
                        else
                          let lon = (case ad_longitude decoded of Some x \<Rightarrow> x | None \<Rightarrow> 0);
                              lat = (case ad_latitude decoded of Some x \<Rightarrow> x | None \<Rightarrow> 0);
                              flags_int = ad_flags decoded;
                              contact_type_id = determine_contact_type_from_flags flags_int;
                              n = py_int (now 0);
                              advert_timestamp = (if n < advert_timestamp then n else advert_timestamp)
                          in Inr (Some
                               \<lparr>av_public_key = adv_pubkey adv, av_name = name, av_longitude = lon,
                                av_latitude = lat, av_flags = flags_int,
                                av_flags_description = describe_advert_flags flags_int,
                                av_contact_type_id = contact_type_id,
                                av_contact_type = get_contact_type_name contact_type_id,
                                av_advert_timestamp = advert_timestamp, av_timestamp = py_int (now 1),
                                av_snr = pk_snr p, av_rssi = pk_rssi p, av_valid = True\<rparr>)))))))"

definition AdvertHandler_call ::
  "crypto \<Rightarrow> (nat \<Rightarrow> real) \<Rightarrow> local_identity option \<Rightarrow> bool \<Rightarrow> packet \<Rightarrow>
   advert_data option \<times> node_discovered list" where
  "AdvertHandler_call c now local_identity event_service p =
     (case advert_body c now local_identity p of
        Inl _ \<Rightarrow> (None, [])
      | Inr None \<Rightarrow> (None, [])
      | Inr (Some a) \<Rightarrow> (Some a, if event_service then [advert_event now p a] else []))"

section \<open>What the handler accepts\<close>

lemma parse_advert_payload_eq:
  "parse_advert_payload payload = Inr adv \<longleftrightarrow>
     100 \<le> length payload \<and>
     adv = \<lparr>adv_pubkey = hex_str (take 32 payload), adv_timestamp = le_int (take 4 (drop 32 payload)),
            adv_signature = hex_str (take 64 (drop 36 payload)), adv_appdata = drop 100 payload\<rparr>"
  by (auto simp: parse_advert_payload_def size_defs Let_def)

lemma pack_le_int: "length bs = n \<Longrightarrow> pack_u n (le_int bs) = Inr bs"
  using le_int_less [of bs] le_bytes_le_int [of bs] by (auto simp: pack_u_def)

text \<open>The handler's body on a payload that is long enough to be an advert.\<close>

lemma advert_body_eq:
  assumes "get_payload p = payload" and "100 \<le> length payload"
  defines "app \<equiv> take 32 (drop 100 payload)"
  shows "advert_body c now li p =
     (if is_self_advert payload (case li of Some i \<Rightarrow> get_public_key i | None \<Rightarrow> []) then Inr None
      else bind_res (verify_advert_signature c (take 32 payload) (take 4 (drop 32 payload)) app
                      (take 64 (drop 36 payload))) (\<lambda>ok.
        if \<not> ok then Inr None
        else bind_res (decode_appdata app) (\<lambda>d.
          Inr (case ad_node_name d of
             None \<Rightarrow> None
           | Some name \<Rightarrow> if name = [] then None else Some
               \<lparr>av_public_key = hex_str (take 32 payload), av_name = name,
                av_longitude = (case ad_longitude d of Some x \<Rightarrow> x | None \<Rightarrow> 0),
                av_latitude = (case ad_latitude d of Some x \<Rightarrow> x | None \<Rightarrow> 0),
                av_flags = ad_flags d, av_flags_description = describe_advert_flags (ad_flags d),
                av_contact_type_id = determine_contact_type_from_flags (ad_flags d),
                av_contact_type = get_contact_type_name (determine_contact_type_from_flags (ad_flags d)),
                av_advert_timestamp = min (py_int (now 0)) (le_int (take 4 (drop 32 payload))),
                av_timestamp = py_int (now 1), av_snr = pk_snr p, av_rssi = pk_rssi p, av_valid = True\<rparr>))))"
proof -
  have parsed: "parse_advert_payload payload = Inr \<lparr>adv_pubkey = hex_str (take 32 payload),
      adv_timestamp = le_int (take 4 (drop 32 payload)), adv_signature = hex_str (take 64 (drop 36 payload)),
      adv_appdata = drop 100 payload\<rparr>"
    using assms(2) by (simp add: parse_advert_payload_eq)
  have ts: "pack_u 4 (le_int (take 4 (drop 32 payload))) = Inr (take 4 (drop 32 payload))"
    using assms(2) by (intro pack_le_int) simp
  have app: "(if MAX_ADVERT_DATA_SIZE < length (drop 100 payload) then take MAX_ADVERT_DATA_SIZE (drop 100 payload)
      else drop 100 payload) = app"
    by (simp add: app_def size_defs)
  have "payload \<noteq> []" using assms(2) by auto
  then show ?thesis
    unfolding advert_body_def Let_def assms(1) parsed sum.case advert_payload.simps fromhex_hex_str bind_res_simps
      ts app
    by (auto simp: min_def intro!: arg_cong [where f = "bind_res _"] ext split: option.splits)
qed

text \<open>
  C25: An advert is taken only when it is authentic. If the handler returns an advert, then the
  payload is at least 100 bytes long, the key it reports is the one in the payload and is not the
  node's own, the signature in the payload is the key owner's over key, timestamp and at most 32
  bytes of advert data, and the reported time is neither later than the local clock nor than the
  time in the payload. At most one event is published, and only for an advert that is returned.
\<close>

theorem advert_accepted_authentic:
  assumes "AdvertHandler_call c now li ev p = (Some a, events)" and "get_payload p = payload"
  shows "100 \<le> length payload \<and> av_public_key a = hex_str (take 32 payload) \<and> av_name a \<noteq> []
     \<and> (\<forall>i. li = Some i \<and> get_public_key i \<noteq> [] \<longrightarrow> take 32 payload \<noteq> get_public_key i)
     \<and> cr_verify c (take 32 payload) (take 36 payload @ take 32 (drop 100 payload)) (take 64 (drop 36 payload)) = Inr ()
     \<and> av_advert_timestamp a \<le> py_int (now 0) \<and> av_advert_timestamp a \<le> le_int (take 4 (drop 32 payload))
     \<and> length events = (if ev then 1 else 0)"
proof -
  have body: "advert_body c now li p = Inr (Some a)" and ev: "length events = (if ev then 1 else 0)"
    using assms(1) by (auto simp: AdvertHandler_call_def split: sum.splits option.splits)
  have len: "100 \<le> length payload"
  proof (rule ccontr)
    assume "\<not> 100 \<le> length payload"
    with body show False
      by (auto simp: advert_body_def parse_advert_payload_def size_defs assms(2) Let_def split: if_splits)
  qed
  note eq = body [unfolded advert_body_eq [OF assms(2) len]]
  let ?sig = "take 64 (drop 36 payload)" and ?app = "take 32 (drop 100 payload)"
  have self: "\<not> is_self_advert payload (case li of Some i \<Rightarrow> get_public_key i | None \<Rightarrow> [])"
    and ok: "verify_advert_signature c (take 32 payload) (take 4 (drop 32 payload)) ?app ?sig = Inr True"
    using eq by (auto simp: bind_res_eq_Inr split: if_splits)
  have d: "av_name a \<noteq> [] \<and> av_public_key a = hex_str (take 32 payload)
      \<and> av_advert_timestamp a = min (py_int (now 0)) (le_int (take 4 (drop 32 payload)))"
    using eq self ok by (auto simp: bind_res_eq_Inr split: option.split_asm if_split_asm)
  have "take 36 payload = take 32 payload @ take 4 (drop 32 payload)"
    using take_add [of 32 4 payload] by simp
  with ok have "cr_verify c (take 32 payload) (take 36 payload @ ?app) ?sig = Inr ()"
    by (auto simp: verify_advert_signature_def new_identity_def verify_def bind_res_eq_Inr
        split: if_splits sum.splits py_error.splits)
  then show ?thesis
    using len d self ev by (auto simp: is_self_advert_def size_defs split: if_splits)
qed

theorem advert_accepted_authentic_witness:
  "\<exists>p adv ev. AdvertHandler_call toy_crypto (\<lambda>_. 50) None True p = (Some adv, [ev])
      \<and> av_name adv = str ''hop'' \<and> av_advert_timestamp adv \<le> 50 \<and> av_public_key adv = hex_str (replicate 32 1)"
proof -
  define p where "p = (case create_advert toy_crypto 40 (toy_node 1) (str ''hop'') 0 0 0 0 1 (str ''flood'') of
    Inr q \<Rightarrow> q | Inl _ \<Rightarrow> new_packet)"
  have "case AdvertHandler_call toy_crypto (\<lambda>_. 50) None True p of
      (Some adv, [ev]) \<Rightarrow> av_name adv = str ''hop'' | _ \<Rightarrow> False"
    unfolding p_def by code_simp
  then obtain adv ev where r: "AdvertHandler_call toy_crypto (\<lambda>_. 50) None True p = (Some adv, [ev])"
    and n: "av_name adv = str ''hop''" by (auto split: prod.splits option.splits list.splits)
  have "take 32 (get_payload p) = replicate 32 1" unfolding p_def by code_simp
  with advert_accepted_authentic [OF r refl] r n show ?thesis by (auto simp: py_int_def)
qed

section \<open>From the builder to the handler\<close>

lemma create_advert_parts:
  assumes "create_advert c t li name lat lon feature1 feature2 flags rt = Inr p"
  obtains ts sig d where "pack_u 4 (py_int t) = Inr ts"
    and "encode_advert_data name lat lon feature1 feature2 flags = Inr d"
    and "sign c li (get_public_key li @ ts @ d) = Inr sig"
    and "pk_payload p = get_public_key li @ ts @ sig @ d" and "sendable p"
    and "get_payload_type p = PAYLOAD_TYPE_ADVERT"
proof -
  have ty: "0 \<le> PAYLOAD_TYPE_ADVERT" "PAYLOAD_TYPE_ADVERT < 16" by (simp_all add: payload_type_defs)
  from assms obtain ts d where ts: "pack_u 4 (py_int t) = Inr ts"
    and d: "encode_advert_data name lat lon feature1 feature2 flags = Inr d"
    and r: "(if MAX_ADVERT_DATA_SIZE < length d then Inl (ValueError ''advert appdata too large'')
      else bind_res (sign c li (get_public_key li @ ts @ d)) (\<lambda>sig.
        create_packet (PacketBuilder_create_header PAYLOAD_TYPE_ADVERT rt False)
          (get_public_key li @ ts @ sig @ d))) = Inr p"
    unfolding create_advert_def Let_def by (elim bind_res_InrE) (rule that)
  then obtain sig where sig: "sign c li (get_public_key li @ ts @ d) = Inr sig"
    and p: "create_packet (PacketBuilder_create_header PAYLOAD_TYPE_ADVERT rt False)
          (get_public_key li @ ts @ sig @ d) = Inr p"
    by (auto simp: bind_res_eq_Inr split: if_splits)
  note f = create_packet_sendable [OF ty p]
  show thesis by (rule that [OF ts d sig f(3) f(1) f(2)])
qed

text \<open>A payload of the builder's shape, read by the handler.\<close>

lemma advert_body_of_payload:
  assumes "identity_laws c" and "local_identity_of_seed c seed = Inr a"
    and "sign c a (get_public_key a @ ts @ d) = Inr sig" and "length ts = 4" and "length d \<le> 32"
    and "get_payload q = get_public_key a @ ts @ sig @ d" and "decode_appdata d = Inr ad"
    and "ad_node_name ad = Some name" and "name \<noteq> []"
  shows "\<forall>i. li = Some i \<longrightarrow> get_public_key i \<noteq> get_public_key a \<Longrightarrow>
    \<exists>adv. advert_body c now li q = Inr (Some adv) \<and> av_public_key adv = hex_str (get_public_key a)
      \<and> av_name adv = name \<and> av_flags adv = ad_flags ad
      \<and> av_advert_timestamp adv = min (py_int (now 0)) (le_int ts)"
    and "li = Some a \<Longrightarrow> advert_body c now li q = Inr None"
proof -
  let ?pk = "get_public_key a" and ?payload = "get_public_key a @ ts @ sig @ d"
  note fields = local_identity_of_seed_fields [OF assms(1,2)]
  obtain sig' where "sign c a (?pk @ ts @ d) = Inr sig'" "length sig' = 64" "verify c a (?pk @ ts @ d) sig' = Inr True"
    by (rule sign_verifies [OF assms(1,2)])
  with assms(3) have sig: "length sig = 64" "verify c a (?pk @ ts @ d) sig = Inr True" by simp_all
  have parts: "take 32 ?payload = ?pk" "take 4 (drop 32 ?payload) = ts" "take 64 (drop 36 ?payload) = sig"
    "take 32 (drop 100 ?payload) = d"
    using fields(2) sig(1) assms(4,5) by simp_all
  have len: "100 \<le> length ?payload" using fields(2) sig(1) assms(4) by simp
  note eq = advert_body_eq [OF assms(6) len, of c now li, unfolded parts]
  have "verify c \<lparr>id_verify_key = ?pk, id_x25519_pubkey = li_x25519_public a\<rparr> (?pk @ ts @ d) sig = Inr True"
    using sig(2) by (simp add: verify_def get_public_key_def)
  then have ok: "verify_advert_signature c ?pk ts d sig = Inr True"
    using fields(2,4) sig(1) by (simp add: verify_advert_signature_def size_defs)
  have self: "is_self_advert ?payload k \<longleftrightarrow> k = ?pk" if "k \<noteq> []" for k
    using that fields(2) parts(1) by (auto simp: is_self_advert_def size_defs)
  have ne: "?pk \<noteq> []" using fields(2) by auto
  show "li = Some a \<Longrightarrow> advert_body c now li q = Inr None"
    using self [OF ne] unfolding eq by simp
  assume other: "\<forall>i. li = Some i \<longrightarrow> get_public_key i \<noteq> ?pk"
  have "\<not> is_self_advert ?payload (case li of Some i \<Rightarrow> get_public_key i | None \<Rightarrow> [])"
    using other self by (cases li) (auto simp: is_self_advert_def)
  then show "\<exists>adv. advert_body c now li q = Inr (Some adv) \<and> av_public_key adv = hex_str ?pk
      \<and> av_name adv = name \<and> av_flags adv = ad_flags ad
      \<and> av_advert_timestamp adv = min (py_int (now 0)) (le_int ts)"
    unfolding eq using ok assms(7,8,9) by simp
qed

text \<open>
  C24: An advert reaches other nodes intact and is ignored by its sender. An advert that the
  builder makes for a node, with a name that has no NUL and fits, can be sent; every other node
  that parses the bytes takes it, with the sender's public key, name and flags and the sender's
  time capped by its own clock; the sender itself, hearing it back, ignores it.
\<close>

theorem advert_end_to_end:
  assumes "identity_laws c" and "local_identity_of_seed c seed = Inr a"
    and "create_advert c t a name lat lon feature1 feature2 flags rt = Inr p"
    and "utf8_encode name = Inr nm" and "name \<noteq> []" and "0 \<notin> set name"
    and "length nm + appdata_required_len (advert_flags name lat lon feature1 feature2 flags) \<le> 32"
  shows "\<exists>w q. write_to p = Inr w \<and> parse_packet w = Inr q
     \<and> (\<forall>li ev. (\<forall>i. li = Some i \<longrightarrow> get_public_key i \<noteq> get_public_key a) \<longrightarrow>
          (\<exists>adv. fst (AdvertHandler_call c now li ev q) = Some adv
             \<and> av_public_key adv = hex_str (get_public_key a) \<and> av_name adv = name
             \<and> av_flags adv = advert_flags name lat lon feature1 feature2 flags
             \<and> av_advert_timestamp adv = min (py_int (now 0)) (py_int t)))
     \<and> (\<forall>ev. AdvertHandler_call c now (Some a) ev q = (None, []))"
proof -
  from assms(3) obtain ts sig d where parts: "pack_u 4 (py_int t) = Inr ts"
    "encode_advert_data name lat lon feature1 feature2 flags = Inr d"
    "sign c a (get_public_key a @ ts @ d) = Inr sig" "pk_payload p = get_public_key a @ ts @ sig @ d" "sendable p"
    "get_payload_type p = PAYLOAD_TYPE_ADVERT"
    by (rule create_advert_parts)
  from advert_data_decodes [OF parts(2)] assms(4-7) obtain ad where ad: "decode_appdata d = Inr ad" "length d \<le> 32"
    "ad_flags ad = advert_flags name lat lon feature1 feature2 flags" "ad_node_name ad = Some name" by auto
  have ts: "le_int ts = py_int t" "length ts = 4"
    using le_int_pack_u [OF parts(1)] parts(1) by (auto simp: res_simps)
  obtain w where w: "write_to p = Inr w" "parse_packet w = Inr (wire_into p new_packet)"
    using read_write(1) [OF parts(5)] packet_codec.dec_enc [OF parts(5)] by blast
  have pl: "get_payload (wire_into p new_packet) = get_public_key a @ ts @ sig @ d"
    using parts(4,5) by (simp add: get_payload_def wire_into_def sendable_def writable_def lengths_ok_def)
  note body = advert_body_of_payload [OF assms(1,2) parts(3) ts(2) ad(2) pl ad(1,4) assms(5)]
  have taken: "\<exists>adv. fst (AdvertHandler_call c now li ev (wire_into p new_packet)) = Some adv
       \<and> av_public_key adv = hex_str (get_public_key a) \<and> av_name adv = name
       \<and> av_flags adv = advert_flags name lat lon feature1 feature2 flags
       \<and> av_advert_timestamp adv = min (py_int (now 0)) (py_int t)"
    if "\<forall>i. li = Some i \<longrightarrow> get_public_key i \<noteq> get_public_key a" for li :: "local_identity option" and ev
  proof -
    from body(1) [OF that, of now] obtain adv where "advert_body c now li (wire_into p new_packet) = Inr (Some adv)"
      "av_public_key adv = hex_str (get_public_key a)" "av_name adv = name" "av_flags adv = ad_flags ad"
      "av_advert_timestamp adv = min (py_int (now 0)) (le_int ts)" by blast
    then show ?thesis by (simp add: AdvertHandler_call_def ad(3) ts(1))
  qed
  have ignored: "AdvertHandler_call c now (Some a) ev (wire_into p new_packet) = (None, [])" for ev
    using body(2) [OF refl] by (simp add: AdvertHandler_call_def)
  show ?thesis
    by (intro exI [of _ w] exI [of _ "wire_into p new_packet"] conjI allI impI w ignored taken) blast
qed

theorem advert_end_to_end_witness:
  "\<exists>p w q adv. create_advert toy_crypto 40 (toy_node 1) (str ''hop'') 0 0 0 0 1 (str ''flood'') = Inr p
      \<and> write_to p = Inr w \<and> parse_packet w = Inr q
      \<and> fst (AdvertHandler_call toy_crypto (\<lambda>_. 50) (Some (toy_node 2)) True q) = Some adv
      \<and> av_name adv = str ''hop'' \<and> av_advert_timestamp adv = 40"
proof -
  have "case create_advert toy_crypto 40 (toy_node 1) (str ''hop'') 0 0 0 0 1 (str ''flood'') of
      Inl _ \<Rightarrow> False | Inr _ \<Rightarrow> True" by code_simp
  then obtain p where p: "create_advert toy_crypto 40 (toy_node 1) (str ''hop'') 0 0 0 0 1 (str ''flood'') = Inr p"
    by (auto split: sum.splits)
  have n: "utf8_encode (str ''hop'') = Inr [104, 111, 112]" by code_simp
  have name: "str ''hop'' \<noteq> []" "0 \<notin> set (str ''hop'')" by (simp_all add: str_def)
  have len: "length [104, 111, 112 :: byte] + appdata_required_len (advert_flags (str ''hop'') 0 0 0 0 1) \<le> 32"
    by (simp add: advert_flags_def advert_flag_defs appdata_required_len_def)
  have other: "\<forall>i. Some (toy_node 2) = Some i \<longrightarrow> get_public_key i \<noteq> get_public_key (toy_node 1)"
    by (simp add: toy_node_def get_public_key_def)
  have t: "min (py_int 50) (py_int 40) = 40" by (simp add: py_int_def)
  note e = advert_end_to_end [OF toy_identity_laws toy_node_seed p n name len, of "\<lambda>_. 50"]
  from e obtain w q where w: "write_to p = Inr w" "parse_packet w = Inr q"
    and all: "\<forall>li ev. (\<forall>i. li = Some i \<longrightarrow> get_public_key i \<noteq> get_public_key (toy_node 1)) \<longrightarrow>
      (\<exists>adv. fst (AdvertHandler_call toy_crypto (\<lambda>_. 50) li ev q) = Some adv
         \<and> av_public_key adv = hex_str (get_public_key (toy_node 1)) \<and> av_name adv = str ''hop''
         \<and> av_flags adv = advert_flags (str ''hop'') 0 0 0 0 1
         \<and> av_advert_timestamp adv = min (py_int 50) (py_int 40))"
    by (elim exE conjE)
  from mp [OF spec [OF spec [OF all, of "Some (toy_node 2)"], of True] other]
  show ?thesis unfolding t using p w by (elim exE conjE) (intro exI conjI)
qed

end
