(* ===== verification/Forwarding.thy ===== *)
theory Forwarding
  imports Packet
begin

text \<open>
  The forwarding decisions of \<open>node/dispatcher.py\<close> (client repeat): what a node retransmits of a
  packet it received. The theorems say that a forwarded packet can be sent, that forwarding keeps
  the packet hash by which copies are recognised, and that a direct packet travels exactly along
  its path.
\<close>

section \<open>The builders\<close>

definition copy_packet_for_forward :: "packet \<Rightarrow> packet" where
  "copy_packet_for_forward pkt =
     new_packet\<lparr>pk_header := pk_header pkt, pk_path_len := pk_path_len pkt, pk_path := pk_path pkt,
       pk_payload := slice_to (pk_payload_len pkt) (pk_payload pkt),
       pk_payload_len := pk_payload_len pkt, pk_transport_codes := pk_transport_codes pkt,
       pk_snr := pk_snr pkt, pk_rssi := pk_rssi pkt, pk_flood_scope_applied := True,
       pk_path_hash_mode_applied := True\<rparr>"

text \<open>\<open>local_identity\<close> is given by its public key, \<open>None\<close> when the node has none.\<close>

definition is_transit_direct_not_next_hop :: "bytes option \<Rightarrow> packet \<Rightarrow> bool" where
  "is_transit_direct_not_next_hop self pkt =
     (if \<not> is_route_direct pkt \<or> Packet_get_path_hash_count pkt \<le> 0 then False
      else if get_payload_type pkt = PAYLOAD_TYPE_TRACE then False
      else case self of
        None \<Rightarrow> False
      | Some self_key \<Rightarrow>
          let hash_size = Packet_get_path_hash_size pkt
          in if int (length (pk_path pkt)) < hash_size then False
             else slice_to hash_size (pk_path pkt) \<noteq> slice_to hash_size self_key)"

definition build_flood_forward :: "packet \<Rightarrow> bytes \<Rightarrow> packet option res" where
  "build_flood_forward pkt self_key =
     (let hash_size = Packet_get_path_hash_size pkt;
          hop_count = Packet_get_path_hash_count pkt
      in if 63 \<le> hop_count then Inr None
         else if MAX_PATH_SIZE < (hop_count + 1) * hash_size then Inr None
         else
           let fwd = copy_packet_for_forward pkt;
               fwd = fwd\<lparr>pk_path := pk_path fwd @ slice_to hash_size self_key\<rparr>
           in bind_res (encode_path_len hash_size (hop_count + 1)) (\<lambda>b.
              Inr (Some (fwd\<lparr>pk_path_len := b\<rparr>))))"

definition build_direct_forward :: "packet \<Rightarrow> bytes \<Rightarrow> packet option res" where
  "build_direct_forward pkt self_key =
     (let hash_size = Packet_get_path_hash_size pkt
      in if int (length (pk_path pkt)) < hash_size then Inr None
         else if slice_to hash_size (pk_path pkt) \<noteq> slice_to hash_size self_key then Inr None
         else
           let hop_count = Packet_get_path_hash_count pkt;
               fwd = copy_packet_for_forward pkt;
               fwd = fwd\<lparr>pk_path := slice_from hash_size (pk_path fwd)\<rparr>
           in bind_res (encode_path_len hash_size (hop_count - 1)) (\<lambda>b.
              Inr (Some (fwd\<lparr>pk_path_len := b\<rparr>))))"

text \<open>\<open>xs[i] = v\<close>\<close>

definition set_index :: "'a list \<Rightarrow> int \<Rightarrow> 'a \<Rightarrow> 'a list res" where
  "set_index xs i v =
     (let j = (if i < 0 then i + int (length xs) else i)
      in if 0 \<le> j \<and> j < int (length xs) then Inr (xs[nat j := v]) else Inl IndexError)"

definition build_trace_forward :: "packet \<Rightarrow> bytes \<Rightarrow> packet option res" where
  "build_trace_forward pkt self_key =
     (if MAX_PATH_SIZE \<le> pk_path_len pkt then Inr None
      else if pk_payload_len pkt < 9 then Inr None
      else bind_res (index_res (pk_payload pkt) 8) (\<lambda>flags.
        let path_sz = nat (uint flags AND 0x03);
            hash_width = push_bit path_sz 1;
            header_len = 9;
            len = pk_payload_len pkt - header_len;
            offset = push_bit path_sz (pk_path_len pkt)
        in if len \<le> offset then Inr None
           else
             let start = header_len + offset
             in if slice start (start + hash_width) (pk_payload pkt) \<noteq> slice_to hash_width self_key
                then Inr None
                else
                  let fwd = copy_packet_for_forward pkt;
                      snr_byte = word_of_int (py_int (get_snr pkt * 4)) :: byte;
                      n = nat (pk_path_len fwd + 1 - int (length (pk_path fwd)));
                      path = pk_path fwd @ replicate n 0
                  in bind_res (set_index path (pk_path_len fwd) snr_byte) (\<lambda>path.
                     Inr (Some (fwd\<lparr>pk_path := path, pk_path_len := pk_path_len fwd + 1\<rparr>)))))"

definition build_client_repeat_forward :: "bytes option \<Rightarrow> packet \<Rightarrow> packet option res" where
  "build_client_repeat_forward self pkt =
     (case self of
        None \<Rightarrow> Inr None
      | Some self_key \<Rightarrow>
          let ptype = get_payload_type pkt
          in if is_route_direct pkt \<and> ptype = PAYLOAD_TYPE_TRACE then build_trace_forward pkt self_key
             else if is_route_direct pkt \<and> 0 < Packet_get_path_hash_count pkt
             then build_direct_forward pkt self_key
             else if is_route_flood pkt then build_flood_forward pkt self_key
             else Inr None)"

section \<open>Path arithmetic\<close>

text \<open>A packet that can be sent, with its path seen as hop count and hash size.\<close>

lemma sendable_path:
  assumes "sendable p"
  obtains hs hc where "Packet_get_path_hash_size p = int hs" and "Packet_get_path_hash_count p = int hc"
    and "1 \<le> hs" "hs \<le> 3" "hc \<le> 63" "hc * hs \<le> 64" "length (pk_path p) = hc * hs"
    and "pk_path_len p = (int hs - 1) * 64 + int hc"
proof -
  from assms have v: "is_valid_path_len (pk_path_len p)" "0 \<le> pk_path_len p"
    and len: "int (length (pk_path p)) = get_path_byte_len (pk_path_len p)"
    by (auto simp: sendable_def writable_def lengths_ok_def packet_path_defs)
  define hs hc where "hs = nat (pk_path_len p div 64 + 1)" and "hc = nat (pk_path_len p mod 64)"
  have s: "int hs = pk_path_len p div 64 + 1" "int hc = pk_path_len p mod 64"
    using v(2) by (simp_all add: hs_def hc_def pos_imp_zdiv_nonneg_iff)
  have "pk_path_len p mod 64 < 64" by simp
  then have "hc \<le> 63" using s by linarith
  moreover have "1 \<le> hs" "hs \<le> 3"
    using v s pos_imp_zdiv_nonneg_iff [of 64 "pk_path_len p"] by (auto simp: is_valid_path_len_arith)
  moreover have "int (hc * hs) \<le> 64" using v(1) s by (simp add: is_valid_path_len_arith)
  then have "hc * hs \<le> 64" by linarith
  moreover have "int (length (pk_path p)) = int (hc * hs)" using len s by (simp add: path_len_arith)
  then have "length (pk_path p) = hc * hs" by linarith
  moreover have "pk_path_len p = (int hs - 1) * 64 + int hc" using s by simp
  ultimately show thesis using s by (intro that [of hs hc]) (simp_all add: packet_path_defs path_len_arith)
qed

lemma path_len_fields:
  assumes "1 \<le> hs" and "hs \<le> 3" and "hc \<le> 63" and "hc * hs \<le> 64"
  defines "b \<equiv> (int hs - 1) * 64 + int hc"
  shows "get_path_hash_size b = int hs" and "get_path_hash_count b = int hc"
    and "get_path_byte_len b = int (hc * hs)" and "is_valid_path_len b" and "0 \<le> b" and "b < 256"
proof -
  define k where "k = int hs - 1"
  have b: "b = int hc + 64 * k" by (simp add: b_def k_def)
  have "b div 64 = k" "b mod 64 = int hc" unfolding b using assms(3) by simp_all
  then have d: "b div 64 = int hs - 1" "b mod 64 = int hc" by (simp_all add: k_def)
  then show "get_path_hash_size b = int hs" "get_path_hash_count b = int hc"
    "get_path_byte_len b = int (hc * hs)" by (simp_all add: path_len_arith)
  have "int (hc * hs) \<le> 64" using assms(4) by linarith
  with d assms(2) show "is_valid_path_len b" by (simp add: is_valid_path_len_arith)
  show "0 \<le> b" "b < 256" using assms by (simp_all add: b_def)
qed

text \<open>Changing the path of a packet that can be sent.\<close>

lemma sendable_with_path:
  assumes "sendable p" and "1 \<le> hs" "hs \<le> 3" "hc \<le> 63" "hc * hs \<le> 64" and "length path = hc * hs"
  defines "q \<equiv> (copy_packet_for_forward p)\<lparr>pk_path := path, pk_path_len := (int hs - 1) * 64 + int hc\<rparr>"
  shows "sendable q" and "Packet_get_path_hash_count q = int hc" and "Packet_get_path_hash_size q = int hs"
    and "pk_payload q = pk_payload p" and "pk_payload_len q = pk_payload_len p"
    and "pk_header q = pk_header p" and "pk_transport_codes q = pk_transport_codes p" and "pk_path q = path"
proof -
  note f = path_len_fields [OF assms(2-5)]
  have pl: "pk_payload_len p = int (length (pk_payload p))"
    using assms(1) by (simp add: sendable_def writable_def lengths_ok_def)
  then have q: "q = new_packet\<lparr>pk_header := pk_header p, pk_path_len := (int hs - 1) * 64 + int hc,
       pk_path := path, pk_payload := pk_payload p, pk_payload_len := pk_payload_len p,
       pk_transport_codes := pk_transport_codes p, pk_snr := pk_snr p, pk_rssi := pk_rssi p,
       pk_flood_scope_applied := True, pk_path_hash_mode_applied := True\<rparr>"
    by (simp add: q_def copy_packet_for_forward_def)
  show "Packet_get_path_hash_count q = int hc" "Packet_get_path_hash_size q = int hs"
    using f by (simp_all add: q packet_path_defs)
  show "pk_payload q = pk_payload p" "pk_payload_len q = pk_payload_len p" "pk_header q = pk_header p"
    "pk_transport_codes q = pk_transport_codes p" "pk_path q = path" by (simp_all add: q)
  have "has_transport_codes q = has_transport_codes p" by (simp add: q route_arith)
  with assms(1,6) f show "sendable q"
    by (simp add: sendable_def writable_def lengths_ok_def codes_ok_def accessor_arith packet_path_defs q)
qed

lemma forward_hash:
  assumes "pk_header q = pk_header p" and "pk_payload q = pk_payload p" and "pk_payload_len q = pk_payload_len p"
    and "get_payload_type p \<noteq> PAYLOAD_TYPE_TRACE"
  shows "calculate_packet_hash sha256 q = calculate_packet_hash sha256 p"
proof -
  have "get_payload_type q = get_payload_type p" using assms(1) by (simp add: accessor_arith)
  with assms show ?thesis
    by (simp add: calculate_packet_hash_def PacketHashingUtils_calculate_packet_hash_def hash_input_def)
qed

section \<open>Flood forwarding\<close>

lemma flood_forward_eq:
  assumes "sendable p" and "3 \<le> length key"
  shows "(\<exists>hc hs. Packet_get_path_hash_count p = int hc \<and> Packet_get_path_hash_size p = int hs
      \<and> (hc = 63 \<or> 64 < Suc hc * hs) \<and> build_flood_forward p key = Inr None)
    \<or> (\<exists>hc hs. Packet_get_path_hash_count p = int hc \<and> Packet_get_path_hash_size p = int hs
      \<and> 1 \<le> hs \<and> hs \<le> 3 \<and> Suc hc \<le> 63 \<and> Suc hc * hs \<le> 64 \<and> length (pk_path p @ take hs key) = Suc hc * hs
      \<and> build_flood_forward p key = Inr (Some ((copy_packet_for_forward p)
          \<lparr>pk_path := pk_path p @ take hs key, pk_path_len := (int hs - 1) * 64 + int (Suc hc)\<rparr>)))"
proof -
  obtain hs hc where h: "Packet_get_path_hash_size p = int hs" "Packet_get_path_hash_count p = int hc"
    "1 \<le> hs" "hs \<le> 3" "hc \<le> 63" "hc * hs \<le> 64" "length (pk_path p) = hc * hs"
    "pk_path_len p = (int hs - 1) * 64 + int hc"
    by (rule sendable_path [OF assms(1)])
  have cmp: "64 < (int hc + 1) * int hs \<longleftrightarrow> 64 < Suc hc * hs"
  proof -
    have "(int hc + 1) * int hs = int (Suc hc * hs)" by (simp add: algebra_simps)
    then show ?thesis by linarith
  qed
  have path: "pk_path (copy_packet_for_forward p) = pk_path p" by (simp add: copy_packet_for_forward_def)
  show ?thesis
  proof (cases "hc = 63 \<or> 64 < Suc hc * hs")
    case True
    then have "build_flood_forward p key = Inr None"
      using h(1,2) cmp by (auto simp: build_flood_forward_def size_defs Let_def)
    with True h show ?thesis by blast
  next
    case False
    with h(5) have "Suc hc \<le> 63" "Suc hc * hs \<le> 64" by auto
    moreover from this have "encode_path_len (int hs) (int hc + 1) = Inr ((int hs - 1) * 64 + int (Suc hc))"
      by (simp add: encode_path_len_arith algebra_simps)
    ultimately have "build_flood_forward p key = Inr (Some ((copy_packet_for_forward p)
          \<lparr>pk_path := pk_path p @ take hs key, pk_path_len := (int hs - 1) * 64 + int (Suc hc)\<rparr>))"
      using h(1,2) cmp by (auto simp: build_flood_forward_def size_defs Let_def path)
    moreover have "length (pk_path p @ take hs key) = Suc hc * hs" using h assms(2) by simp
    ultimately show ?thesis using h \<open>Suc hc \<le> 63\<close> \<open>Suc hc * hs \<le> 64\<close> by blast
  qed
qed

text \<open>
  C5: Flood forwarding. For every received packet and every node key, the builder never raises;
  it declines exactly when one more hop would not fit the path (63 hops, or 64 bytes), and
  otherwise yields a packet that can be sent, with one more hop, whose path is the received path
  followed by the node's own hash, with header, payload and transport codes unchanged and, for
  every type but TRACE, the same packet hash, so that every copy is recognised as a duplicate.
\<close>

theorem flood_forward_correct:
  assumes "sendable p" and "3 \<le> length key"
  shows "case build_flood_forward p key of
      Inl e \<Rightarrow> False
    | Inr None \<Rightarrow> Packet_get_path_hash_count p = 63
        \<or> 64 < (Packet_get_path_hash_count p + 1) * Packet_get_path_hash_size p
    | Inr (Some q) \<Rightarrow> sendable q \<and> Packet_get_path_hash_count q = Packet_get_path_hash_count p + 1
        \<and> Packet_get_path_hash_size q = Packet_get_path_hash_size p
        \<and> pk_path q = pk_path p @ take (nat (Packet_get_path_hash_size p)) key
        \<and> pk_header q = pk_header p \<and> pk_payload q = pk_payload p
        \<and> pk_transport_codes q = pk_transport_codes p
        \<and> (get_payload_type p = PAYLOAD_TYPE_TRACE \<or>
           calculate_packet_hash sha256 q = calculate_packet_hash sha256 p)"
  using flood_forward_eq [OF assms]
proof (elim disjE exE conjE)
  fix hc hs
  assume "Packet_get_path_hash_count p = int hc" "Packet_get_path_hash_size p = int hs"
    "hc = 63" "build_flood_forward p key = Inr None"
  then show ?thesis by simp
next
  fix hc hs
  assume h: "Packet_get_path_hash_count p = int hc" "Packet_get_path_hash_size p = int hs"
    "64 < Suc hc * hs" "build_flood_forward p key = Inr None"
  have "int (Suc hc * hs) = (int hc + 1) * int hs" by (simp add: algebra_simps)
  with h(3) have "64 < (int hc + 1) * int hs" by linarith
  with h show ?thesis by simp
next
  fix hc hs
  assume h: "Packet_get_path_hash_count p = int hc" "Packet_get_path_hash_size p = int hs" "1 \<le> hs" "hs \<le> 3"
    "Suc hc \<le> 63" "Suc hc * hs \<le> 64" "length (pk_path p @ take hs key) = Suc hc * hs"
    "build_flood_forward p key = Inr (Some ((copy_packet_for_forward p)
          \<lparr>pk_path := pk_path p @ take hs key, pk_path_len := (int hs - 1) * 64 + int (Suc hc)\<rparr>))"
  note q = sendable_with_path [OF assms(1) h(3-7)]
  have "get_payload_type p = PAYLOAD_TYPE_TRACE \<or> calculate_packet_hash sha256
      ((copy_packet_for_forward p)\<lparr>pk_path := pk_path p @ take hs key, pk_path_len := (int hs - 1) * 64 + int (Suc hc)\<rparr>)
      = calculate_packet_hash sha256 p"
    using forward_hash [OF q(6,4,5), of sha256] by blast
  with q h(1,2,8) show ?thesis by simp
qed

theorem flood_forward_correct_witness:
  "sendable sample_packet \<and> (\<exists>q. build_flood_forward sample_packet [1, 2, 3] = Inr (Some q) \<and> sendable q)"
proof -
  have "case build_flood_forward sample_packet [1, 2, 3] of Inr (Some _) \<Rightarrow> True | _ \<Rightarrow> False" by code_simp
  then obtain q where q: "build_flood_forward sample_packet [1, 2, 3] = Inr (Some q)"
    by (auto split: sum.splits option.splits)
  have "3 \<le> length [1, 2, 3 :: byte]" by simp
  from flood_forward_correct [OF sample_packet_sendable this, of "\<lambda>m. m"] q sample_packet_sendable
  show ?thesis by auto
qed

section \<open>Direct forwarding\<close>

lemma direct_forward_eq:
  assumes "sendable p" and "3 \<le> length key" and "0 < Packet_get_path_hash_count p"
  obtains hs hc where "Packet_get_path_hash_size p = int hs" and "Packet_get_path_hash_count p = int (Suc hc)"
    and "1 \<le> hs" "hs \<le> 3" "Suc hc \<le> 63" "Suc hc * hs \<le> 64" "length (pk_path p) = Suc hc * hs"
    and "build_direct_forward p key =
      Inr (if take hs (pk_path p) = take hs key
           then Some ((copy_packet_for_forward p)\<lparr>pk_path := drop hs (pk_path p),
                        pk_path_len := (int hs - 1) * 64 + int hc\<rparr>)
           else None)"
proof -
  obtain hs hc' where h: "Packet_get_path_hash_size p = int hs" "Packet_get_path_hash_count p = int hc'"
    "1 \<le> hs" "hs \<le> 3" "hc' \<le> 63" "hc' * hs \<le> 64" "length (pk_path p) = hc' * hs"
    "pk_path_len p = (int hs - 1) * 64 + int hc'"
    by (rule sendable_path [OF assms(1)])
  from assms(3) h(2) obtain hc where hc: "hc' = Suc hc" by (cases hc') auto
  have path: "pk_path (copy_packet_for_forward p) = pk_path p" by (simp add: copy_packet_for_forward_def)
  have enc: "encode_path_len (int hs) (int hc) = Inr ((int hs - 1) * 64 + int hc)"
    using h(5) hc by (simp add: encode_path_len_arith)
  have "hs \<le> length (pk_path p)" using h(7) hc by simp
  then have "build_direct_forward p key =
      Inr (if take hs (pk_path p) = take hs key
           then Some ((copy_packet_for_forward p)\<lparr>pk_path := drop hs (pk_path p),
                        pk_path_len := (int hs - 1) * 64 + int hc\<rparr>) else None)"
    using h(1,2) hc enc by (simp add: build_direct_forward_def Let_def path)
  with h hc show thesis by (intro that [of hs hc]) simp_all
qed

lemma direct_forward_step:
  assumes "sendable p" and "3 \<le> length key" and "0 < Packet_get_path_hash_count p"
    and "take (nat (Packet_get_path_hash_size p)) (pk_path p) = take (nat (Packet_get_path_hash_size p)) key"
  obtains q where "build_direct_forward p key = Inr (Some q)" and "sendable q"
    and "Packet_get_path_hash_count q = Packet_get_path_hash_count p - 1"
    and "Packet_get_path_hash_size q = Packet_get_path_hash_size p"
    and "pk_path q = drop (nat (Packet_get_path_hash_size p)) (pk_path p)"
    and "pk_header q = pk_header p" and "pk_payload q = pk_payload p" and "pk_payload_len q = pk_payload_len p"
proof -
  obtain hs hc where h: "Packet_get_path_hash_size p = int hs" "Packet_get_path_hash_count p = int (Suc hc)"
    "1 \<le> hs" "hs \<le> 3" "Suc hc \<le> 63" "Suc hc * hs \<le> 64" "length (pk_path p) = Suc hc * hs"
    "build_direct_forward p key = Inr (if take hs (pk_path p) = take hs key
       then Some ((copy_packet_for_forward p)\<lparr>pk_path := drop hs (pk_path p),
                    pk_path_len := (int hs - 1) * 64 + int hc\<rparr>) else None)"
    by (rule direct_forward_eq [OF assms(1-3)])
  have len: "hc \<le> 63" "hc * hs \<le> 64" "length (drop hs (pk_path p)) = hc * hs" using h by simp_all
  note q = sendable_with_path [OF assms(1) h(3,4) len]
  have "take hs (pk_path p) = take hs key" using assms(4) h(1) by simp
  with h(8) q h(1,2) show thesis by (intro that [OF _ q(1)]) simp_all
qed

text \<open>
  Only the next hop forwards, and the two places that ask agree. For a direct packet that is
  not a TRACE and has hops left, the builder retransmits if and only if the path starts with the
  node's own hash, and that is exactly when the packet is not classified as in transit past this
  node (which is what keeps it out of the seen table).
\<close>

lemma only_next_hop_forwards:
  assumes "sendable p" and "3 \<le> length key" and "is_route_direct p"
    and "get_payload_type p \<noteq> PAYLOAD_TYPE_TRACE" and "0 < Packet_get_path_hash_count p"
  shows "((\<exists>q. build_client_repeat_forward (Some key) p = Inr (Some q)) \<longleftrightarrow>
           \<not> is_transit_direct_not_next_hop (Some key) p)
         \<and> (build_client_repeat_forward (Some key) p = Inr None \<longleftrightarrow> is_transit_direct_not_next_hop (Some key) p)"
proof -
  obtain hs hc where h: "Packet_get_path_hash_size p = int hs" "Packet_get_path_hash_count p = int (Suc hc)"
    "1 \<le> hs" "hs \<le> 3" "Suc hc \<le> 63" "Suc hc * hs \<le> 64" "length (pk_path p) = Suc hc * hs"
    "build_direct_forward p key = Inr (if take hs (pk_path p) = take hs key
       then Some ((copy_packet_for_forward p)\<lparr>pk_path := drop hs (pk_path p),
                    pk_path_len := (int hs - 1) * 64 + int hc\<rparr>) else None)"
    by (rule direct_forward_eq [OF assms(1,2,5)])
  have "build_client_repeat_forward (Some key) p = build_direct_forward p key"
    using assms(3-5) by (simp add: build_client_repeat_forward_def)
  moreover have "hs \<le> length (pk_path p)" using h(7) by simp
  then have "is_transit_direct_not_next_hop (Some key) p \<longleftrightarrow> take hs (pk_path p) \<noteq> take hs key"
    using assms(3-5) h(1,2) by (auto simp: is_transit_direct_not_next_hop_def Let_def not_less)
  ultimately show ?thesis using h(8) by auto
qed

definition direct_sample :: packet where
  "direct_sample = sample_packet\<lparr>pk_header := 2, pk_transport_codes := (0, 0), pk_path := [1, 2], pk_path_len := 2\<rparr>"

lemma direct_sample_ok:
  "sendable direct_sample" "is_route_direct direct_sample" "get_payload_type direct_sample \<noteq> PAYLOAD_TYPE_TRACE"
  "0 < Packet_get_path_hash_count direct_sample"
  by code_simp+

text \<open>Relays in a row: each parses what the one before it transmitted, and retransmits it.\<close>

fun relay_chain :: "bytes list \<Rightarrow> packet \<Rightarrow> packet option" where
  "relay_chain [] p = Some p"
| "relay_chain (key # keys) p =
     (case build_client_repeat_forward (Some key) p of
        Inr (Some fwd) \<Rightarrow>
          (case write_to fwd of
             Inr w \<Rightarrow> (case parse_packet w of Inr q \<Rightarrow> relay_chain keys q | Inl _ \<Rightarrow> None)
           | Inl _ \<Rightarrow> None)
      | _ \<Rightarrow> None)"

lemma over_the_wire:
  assumes "sendable q"
  obtains w r where "write_to q = Inr w" and "parse_packet w = Inr r" and "sendable r"
    and "pk_header r = pk_header q" "pk_path r = pk_path q" "pk_path_len r = pk_path_len q"
    and "pk_payload r = pk_payload q" "pk_payload_len r = pk_payload_len q"
proof -
  have w: "write_to q = Inr (wire_bytes q)" using read_write(1) [OF assms] .
  moreover have r: "parse_packet (wire_bytes q) = Inr (wire_into q new_packet)"
    by (rule packet_codec.dec_enc [OF assms w])
  moreover have "sendable (wire_into q new_packet)"
    using r read_from_sendable(1) by (auto simp: parse_packet_eq)
  ultimately show thesis by (rule that) (simp_all add: wire_into_def)
qed

text \<open>
  C4: A direct packet travels along its path. If the path of a direct packet lists the hashes of
  a sequence of nodes, then handing it from each of them to the next over the air, every one of
  them forwards it, and what arrives after the last is the packet with an empty path, unchanged
  header and payload and the packet hash it started with.
\<close>

theorem direct_route_traversed:
  assumes "sendable p" and "is_route_direct p" and "get_payload_type p \<noteq> PAYLOAD_TYPE_TRACE"
    and "list_all (\<lambda>k. 3 \<le> length k) keys" and "Packet_get_path_hash_count p = int (length keys)"
    and "pk_path p = concat (map (take (nat (Packet_get_path_hash_size p))) keys)"
  shows "\<exists>q. relay_chain keys p = Some q \<and> sendable q \<and> Packet_get_path_hash_count q = 0 \<and> pk_path q = []
     \<and> pk_header q = pk_header p \<and> pk_payload q = pk_payload p
     \<and> calculate_packet_hash sha256 q = calculate_packet_hash sha256 p"
  using assms
proof (induction keys arbitrary: p)
  case Nil
  then show ?case by simp
next
  case (Cons key keys)
  let ?hs = "nat (Packet_get_path_hash_size p)"
  have key: "3 \<le> length key" and hops: "0 < Packet_get_path_hash_count p" using Cons.prems by simp_all
  have "?hs \<le> 3" using sendable_path [OF Cons.prems(1)] by (metis nat_int)
  then have tk: "length (take ?hs key) = ?hs" using key by simp
  with Cons.prems(6) have next_hop: "take ?hs (pk_path p) = take ?hs key"
    and rest: "drop ?hs (pk_path p) = concat (map (take ?hs) keys)" by simp_all
  obtain fwd where f: "build_direct_forward p key = Inr (Some fwd)" "sendable fwd"
    "Packet_get_path_hash_count fwd = Packet_get_path_hash_count p - 1"
    "Packet_get_path_hash_size fwd = Packet_get_path_hash_size p" "pk_path fwd = drop ?hs (pk_path p)"
    "pk_header fwd = pk_header p" "pk_payload fwd = pk_payload p" "pk_payload_len fwd = pk_payload_len p"
    by (rule direct_forward_step [OF Cons.prems(1) key hops next_hop])
  obtain w r where r: "write_to fwd = Inr w" "parse_packet w = Inr r" "sendable r"
    "pk_header r = pk_header fwd" "pk_path r = pk_path fwd" "pk_path_len r = pk_path_len fwd"
    "pk_payload r = pk_payload fwd" "pk_payload_len r = pk_payload_len fwd"
    by (rule over_the_wire [OF f(2)])
  have rp: "is_route_direct r" "get_payload_type r = get_payload_type p"
    using Cons.prems(2) r(4) f(6) by (simp_all add: route_arith accessor_arith)
  have size: "Packet_get_path_hash_size r = Packet_get_path_hash_size p"
    "Packet_get_path_hash_count r = int (length keys)"
    using r(6) f(3,4) Cons.prems(5) by (simp_all add: packet_path_defs)
  obtain q where q: "relay_chain keys r = Some q" "sendable q" "Packet_get_path_hash_count q = 0" "pk_path q = []"
    "pk_header q = pk_header r" "pk_payload q = pk_payload r"
    "calculate_packet_hash sha256 q = calculate_packet_hash sha256 r"
    using Cons.IH [of r] r(3) rp Cons.prems(3,4) size rest r(5) f(5) by auto
  have "calculate_packet_hash sha256 r = calculate_packet_hash sha256 p"
    using forward_hash [of r p] r(4,7,8) f(6,7,8) Cons.prems(3) by simp
  moreover have "build_client_repeat_forward (Some key) p = Inr (Some fwd)"
    using f(1) Cons.prems(2,3) hops by (simp add: build_client_repeat_forward_def)
  ultimately show ?case using q r f(6,7) by auto
qed

theorem direct_route_traversed_witness:
  "\<exists>q. relay_chain [[1, 7, 7], [2, 8, 8]] direct_sample = Some q \<and> pk_path q = []"
proof -
  have "list_all (\<lambda>k. 3 \<le> length k) [[1, 7, 7], [2, 8, 8 :: byte]]" by simp
  moreover have "Packet_get_path_hash_count direct_sample = int (length [[1, 7, 7], [2, 8, 8 :: byte]])" by code_simp
  moreover have "pk_path direct_sample
      = concat (map (take (nat (Packet_get_path_hash_size direct_sample))) [[1, 7, 7], [2, 8, 8]])" by code_simp
  ultimately show ?thesis
    using direct_route_traversed [OF direct_sample_ok(1-3), of "[[1, 7, 7], [2, 8, 8]]" "\<lambda>m. m"] by blast
qed

section \<open>TRACE forwarding\<close>

lemma trace_forward_eq:
  assumes "sendable p" and "build_trace_forward p key = Inr (Some q)"
  shows "pk_path_len p \<le> 63 \<and> length (pk_path p) = nat (pk_path_len p)
    \<and> q = (copy_packet_for_forward p)\<lparr>pk_path := pk_path p @ [word_of_int (py_int (get_snr p * 4))],
            pk_path_len := pk_path_len p + 1\<rparr>"
proof -
  from assms(2) have short: "pk_path_len p \<le> 63"
    by (auto simp: build_trace_forward_def size_defs split: if_splits)
  obtain hs hc where h: "Packet_get_path_hash_size p = int hs" "Packet_get_path_hash_count p = int hc"
    "1 \<le> hs" "hs \<le> 3" "hc \<le> 63" "hc * hs \<le> 64" "length (pk_path p) = hc * hs"
    "pk_path_len p = (int hs - 1) * 64 + int hc"
    by (rule sendable_path [OF assms(1)])
  have "hs = 1"
  proof (rule ccontr)
    assume "hs \<noteq> 1"
    with h(3) have "1 \<le> int hs - 1" by simp
    then have "64 \<le> (int hs - 1) * 64" by simp
    with h(8) short show False by linarith
  qed
  with h(7,8) have len: "pk_path_len p = int hc" "length (pk_path p) = hc" by simp_all
  have path: "pk_path (copy_packet_for_forward p) = pk_path p" "pk_path_len (copy_packet_for_forward p) = pk_path_len p"
    by (simp_all add: copy_packet_for_forward_def)
  have set: "set_index (pk_path p @ replicate (nat (pk_path_len p + 1 - int (length (pk_path p)))) 0) (pk_path_len p) v
      = Inr (pk_path p @ [v])" for v
    using len by (simp add: set_index_def list_update_append)
  have "q = (copy_packet_for_forward p)\<lparr>pk_path := pk_path p @ [word_of_int (py_int (get_snr p * 4))],
            pk_path_len := pk_path_len p + 1\<rparr>"
    using assms(2) unfolding build_trace_forward_def Let_def path set
    by (auto simp: bind_res_eq_Inr split: if_splits)
  with short len show ?thesis by simp
qed

text \<open>
  TRACE forwarding. A TRACE that a node forwards has the node's scaled SNR appended to its
  path and everything else unchanged, and it can be sent if it had fewer than 63 SNR bytes. At
  63 the builder still returns a packet, whose path_len 64 reads as no hops of two bytes: that
  packet cannot be serialised.
\<close>

lemma trace_forward_correct:
  assumes "sendable p" and "build_trace_forward p key = Inr (Some q)"
  shows "pk_path q = pk_path p @ [word_of_int (py_int (get_snr p * 4))] \<and> pk_path_len q = pk_path_len p + 1
     \<and> pk_header q = pk_header p \<and> pk_payload q = pk_payload p
     \<and> (if pk_path_len p < 63 then sendable q else pk_path_len q = 64 \<and> (\<exists>e. write_to q = Inl e))"
proof -
  let ?path = "pk_path p @ [word_of_int (py_int (get_snr p * 4))]"
  from trace_forward_eq [OF assms] have short: "pk_path_len p \<le> 63"
    and len: "length (pk_path p) = nat (pk_path_len p)"
    and q: "q = (copy_packet_for_forward p)\<lparr>pk_path := ?path, pk_path_len := pk_path_len p + 1\<rparr>" by auto
  have nn: "0 \<le> pk_path_len p" using assms(1) by (simp add: sendable_def writable_def)
  have f: "pk_path q = ?path" "pk_path_len q = pk_path_len p + 1" "pk_header q = pk_header p"
    by (simp_all add: q copy_packet_for_forward_def)
  have pl: "pk_payload q = pk_payload p"
    using assms(1) by (simp add: q copy_packet_for_forward_def sendable_def writable_def lengths_ok_def)
  have "if pk_path_len p < 63 then sendable q else pk_path_len q = 64 \<and> (\<exists>e. write_to q = Inl e)"
  proof (cases "pk_path_len p < 63")
    case True
    define hc where "hc = Suc (nat (pk_path_len p))"
    have b: "int hc = pk_path_len p + 1" using nn by (simp add: hc_def)
    have hc: "hc \<le> 63" "hc * 1 \<le> 64" "length ?path = hc * 1" using True nn len by (simp_all add: hc_def)
    have "(int 1 - 1) * 64 + int hc = pk_path_len p + 1" using b by simp
    with sendable_with_path(1) [OF assms(1) _ _ hc] True show ?thesis by (simp add: q)
  next
    case False
    with short f have "pk_path_len q = 64" by simp
    moreover have "\<not> lengths_ok q"
      using calculation f(1) by (simp add: lengths_ok_def packet_path_defs path_len_arith)
    then have "\<not> (\<exists>w. write_to q = Inr w)" by (simp add: write_to_iff writable_def)
    ultimately show ?thesis using False res_cases [of "write_to q"] by simp
  qed
  with f pl show ?thesis by simp
qed

definition trace_sample :: "nat \<Rightarrow> packet" where
  "trace_sample n = new_packet\<lparr>pk_header := 0x26, pk_path_len := int n, pk_path := replicate n 0,
     pk_payload := replicate 9 0 @ replicate 64 5, pk_payload_len := 73\<rparr>"

end
