(* ===== verification/Tx_Budget.thy ===== *)
theory Tx_Budget
  imports Packet
begin

text \<open>
  The airtime duty-cycle budget of \<open>node/dispatcher.py\<close>: a leaky bucket that refills with time
  and pays for every transmit. The monotonic clock is an argument of each operation. The module
  proves what the bucket guarantees over every interleaving of admission checks and transmits:
  the total airtime spent is bounded, and a throttled sender is admitted after one sleep.
\<close>

section \<open>Operations\<close>

definition DUTY_CYCLE_WINDOW_MS :: real where "DUTY_CYCLE_WINDOW_MS = 3600000"
definition MIN_TX_BUDGET_RESERVE_MS :: real where "MIN_TX_BUDGET_RESERVE_MS = 100"
definition MIN_TX_BUDGET_AIRTIME_DIV :: real where "MIN_TX_BUDGET_AIRTIME_DIV = 2"
definition MAX_TRANS_UNIT :: int where "MAX_TRANS_UNIT = 255"
definition DEFAULT_AIRTIME_BUDGET_FACTOR :: real where "DEFAULT_AIRTIME_BUDGET_FACTOR = 1"

lemmas budget_const_defs = DUTY_CYCLE_WINDOW_MS_def MIN_TX_BUDGET_RESERVE_MS_def
  MIN_TX_BUDGET_AIRTIME_DIV_def MAX_TRANS_UNIT_def DEFAULT_AIRTIME_BUDGET_FACTOR_def

text \<open>The LoRa settings that a radio object may expose; the dispatcher has defaults for the rest.\<close>

record lora_radio =
  lr_spreading_factor :: "int option"
  lr_bandwidth :: "real option"
  lr_coding_rate :: "real option"
  lr_preamble_length :: "int option"

record tx_budget =
  tb_airtime_budget_factor :: real
  tb_tx_budget_ms :: real
  tb_tx_budget_last_update :: real
  tb_tx_next_time :: real

definition duty_cycle :: "tx_budget \<Rightarrow> real" where
  "duty_cycle st = 1 / (1 + max 0 (tb_airtime_budget_factor st))"

definition reset_tx_budget :: "real \<Rightarrow> tx_budget \<Rightarrow> tx_budget" where
  "reset_tx_budget now st =
     st\<lparr>tb_tx_budget_ms := DUTY_CYCLE_WINDOW_MS * duty_cycle st, tb_tx_budget_last_update := now,
        tb_tx_next_time := now\<rparr>"

definition refill_tx_budget :: "real \<Rightarrow> tx_budget \<Rightarrow> tx_budget" where
  "refill_tx_budget now st =
     (let duty = duty_cycle st;
          max_budget = DUTY_CYCLE_WINDOW_MS * duty;
          elapsed_ms = (now - tb_tx_budget_last_update st) * 1000;
          refill = elapsed_ms * duty
      in if 0 < refill
         then st\<lparr>tb_tx_budget_ms := min (tb_tx_budget_ms st + refill) max_budget,
                 tb_tx_budget_last_update := now\<rparr>
         else st)"

definition tx_est_airtime_ms :: "lora_radio \<Rightarrow> int \<Rightarrow> real" where
  "tx_est_airtime_ms radio byte_len =
     calculate_lora_airtime_ms byte_len (opt_default 10 (lr_spreading_factor radio))
       (opt_default 250000 (lr_bandwidth radio)) (opt_default 5 (lr_coding_rate radio))
       (opt_default 8 (lr_preamble_length radio)) True True None"

definition reserve_ms :: "lora_radio \<Rightarrow> real" where
  "reserve_ms radio = tx_est_airtime_ms radio MAX_TRANS_UNIT / MIN_TX_BUDGET_AIRTIME_DIV"

definition tx_budget_wait_s :: "lora_radio \<Rightarrow> real \<Rightarrow> tx_budget \<Rightarrow> tx_budget \<times> real" where
  "tx_budget_wait_s radio now st =
     (let st = refill_tx_budget now st;
          reserve = reserve_ms radio;
          wait_ms = (if tb_tx_budget_ms st < reserve
                     then (reserve - tb_tx_budget_ms st) / duty_cycle st else 0);
          pace_s = tb_tx_next_time st - now
      in (st, max (wait_ms / 1000) pace_s))"

definition debit_tx_budget :: "lora_radio \<Rightarrow> real \<Rightarrow> packet \<Rightarrow> tx_budget \<Rightarrow> tx_budget" where
  "debit_tx_budget radio now packet st =
     (let st = refill_tx_budget now st;
          airtime_ms = tx_est_airtime_ms radio (get_raw_length packet);
          st = (if tb_tx_budget_ms st < airtime_ms then st\<lparr>tb_tx_budget_ms := 0\<rparr>
                else st\<lparr>tb_tx_budget_ms := tb_tx_budget_ms st - airtime_ms\<rparr>);
          duty = duty_cycle st
      in if tb_tx_budget_ms st < MIN_TX_BUDGET_RESERVE_MS
         then let needed = MIN_TX_BUDGET_RESERVE_MS - tb_tx_budget_ms st
              in st\<lparr>tb_tx_next_time := now + (needed / duty) / 1000\<rparr>
         else st\<lparr>tb_tx_next_time := now\<rparr>)"

text \<open>
  The loop that a throttled sender sits in. Each round looks at the client-repeat flag and reads
  the clock once; \<open>rounds\<close> lists what it sees, and \<open>None\<close> means that it is still waiting
  when the list ends. The result counts the sleeps.
\<close>

fun await_tx_budget :: "lora_radio \<Rightarrow> (bool \<times> real) list \<Rightarrow> tx_budget \<Rightarrow> (tx_budget \<times> nat) option" where
  "await_tx_budget radio [] st = None"
| "await_tx_budget radio ((client_repeat_enabled, now) # rounds) st =
     (if \<not> client_repeat_enabled then Some (st, 0)
      else
        let (st, wait_s) = tx_budget_wait_s radio now st
        in if wait_s \<le> 0 then Some (st, 0)
           else map_option (\<lambda>(st, n). (st, Suc n)) (await_tx_budget radio rounds st))"

section \<open>Airtime\<close>

definition radio_ok :: "lora_radio \<Rightarrow> bool" where
  "radio_ok radio \<longleftrightarrow> 0 \<le> opt_default 250000 (lr_bandwidth radio) \<and> 0 \<le> opt_default 8 (lr_preamble_length radio)"

lemma airtime_mono:
  assumes "0 \<le> bw" and "0 \<le> preamble" and "m \<le> n"
  shows "calculate_lora_airtime_ms m sf bw cr preamble crc hdr lo
      \<le> calculate_lora_airtime_ms n sf bw cr preamble crc hdr lo"
    and "0 \<le> calculate_lora_airtime_ms m sf bw cr preamble crc hdr lo"
proof -
  define s where "s = max 5 (min 12 sf)"
  define b where "b = (if bw = 0 then 250000 else bw)"
  define t where "t = 2 ^ nat s / b"
  define low where "low = (case lo of None \<Rightarrow> t * 1000 \<ge> 16 | Some x \<Rightarrow> x)"
  define denom where "denom = (if low then 4 * (s - 2) else 4 * s)"
  define sync :: real where "sync = (if s \<le> 6 then 625 / 100 else 425 / 100)"
  define bits where "bits k = 8 * k + (if crc then 16 else 0) - 4 * s + (if s \<le> 6 then 0 else 8)
    + (if hdr then 20 else 0)" for k
  define sym where "sym k = \<lceil>real_of_int (max (bits k) 0) / real_of_int denom\<rceil>" for k
  have eq: "calculate_lora_airtime_ms k sf bw cr preamble crc hdr lo =
      (real_of_int preamble + sync + real_of_int (8 + sym k * coding_rate_denominator cr)) * t * 1000" for k
    unfolding calculate_lora_airtime_ms_def Let_def sym_def bits_def denom_def low_def t_def b_def s_def sync_def
    by simp
  have t: "0 \<le> t" using assms(1) by (simp add: t_def b_def)
  have "5 \<le> s" by (simp add: s_def)
  then have denom: "0 < denom" by (simp add: denom_def)
  have cr: "0 \<le> coding_rate_denominator cr" using coding_rate_range [of cr] by simp
  have "max (bits m) 0 \<le> max (bits n) 0" using assms(3) by (simp add: bits_def)
  then have "real_of_int (max (bits m) 0) / real_of_int denom \<le> real_of_int (max (bits n) 0) / real_of_int denom"
    using denom by (intro divide_right_mono) simp_all
  then have "sym m \<le> sym n" unfolding sym_def by (rule ceiling_mono)
  then have le: "8 + sym m * coding_rate_denominator cr \<le> 8 + sym n * coding_rate_denominator cr"
    using cr by (simp add: mult_right_mono)
  have "0 \<le> real_of_int (max (bits m) 0) / real_of_int denom" using denom by simp
  then have "0 \<le> sym m" unfolding sym_def by linarith
  then have nn: "0 \<le> 8 + sym m * coding_rate_denominator cr" using cr by simp
  then have nn': "0 \<le> real_of_int (8 + sym m * coding_rate_denominator cr)" by (simp only: of_int_0_le_iff)
  have sync: "0 \<le> sync" by (simp add: sync_def)
  show "0 \<le> calculate_lora_airtime_ms m sf bw cr preamble crc hdr lo"
    unfolding eq using assms(2) t by (intro mult_nonneg_nonneg add_nonneg_nonneg nn' sync) simp_all
  show "calculate_lora_airtime_ms m sf bw cr preamble crc hdr lo
      \<le> calculate_lora_airtime_ms n sf bw cr preamble crc hdr lo"
    unfolding eq using t by (intro mult_right_mono add_left_mono iffD2 [OF of_int_le_iff] le) simp_all
qed

lemma est_airtime:
  assumes "radio_ok radio"
  shows "m \<le> n \<Longrightarrow> tx_est_airtime_ms radio m \<le> tx_est_airtime_ms radio n" and "0 \<le> tx_est_airtime_ms radio m"
    and "m \<le> 255 \<Longrightarrow> tx_est_airtime_ms radio m \<le> 2 * reserve_ms radio"
proof -
  show mono: "m \<le> n \<Longrightarrow> tx_est_airtime_ms radio m \<le> tx_est_airtime_ms radio n" for m n
    unfolding tx_est_airtime_ms_def using assms by (intro airtime_mono) (simp_all add: radio_ok_def)
  show "0 \<le> tx_est_airtime_ms radio m"
    unfolding tx_est_airtime_ms_def using assms by (intro airtime_mono(2) [OF _ _ order_refl]) (simp_all add: radio_ok_def)
  show "m \<le> 255 \<Longrightarrow> tx_est_airtime_ms radio m \<le> 2 * reserve_ms radio"
    using mono [of m 255] by (simp add: reserve_ms_def budget_const_defs)
qed

section \<open>Refilling\<close>

lemma duty_pos: "0 < duty_cycle st" and duty_le_1: "duty_cycle st \<le> 1"
  by (simp_all add: duty_cycle_def)

lemma refill_fields [simp]:
  "tb_airtime_budget_factor (refill_tx_budget now st) = tb_airtime_budget_factor st"
  "tb_tx_next_time (refill_tx_budget now st) = tb_tx_next_time st"
  "duty_cycle (refill_tx_budget now st) = duty_cycle st"
  by (simp_all add: refill_tx_budget_def duty_cycle_def Let_def)

text \<open>
  \<open>budget_ok t0 used now st\<close>: the bucket is within its bounds, and what it holds plus half of the
  airtime used since \<open>t0\<close> is at most a full bucket plus what was refilled since then.
\<close>

definition budget_ok :: "real \<Rightarrow> real \<Rightarrow> real \<Rightarrow> tx_budget \<Rightarrow> bool" where
  "budget_ok t0 used now st \<longleftrightarrow>
     0 \<le> tb_tx_budget_ms st \<and> tb_tx_budget_ms st \<le> DUTY_CYCLE_WINDOW_MS * duty_cycle st
     \<and> tb_tx_budget_last_update st \<le> now
     \<and> used / 2 + tb_tx_budget_ms st
       \<le> duty_cycle st * (DUTY_CYCLE_WINDOW_MS + (tb_tx_budget_last_update st - t0) * 1000)"

lemma refill_ok:
  assumes "budget_ok t0 used now st" and "now \<le> now'"
  shows "budget_ok t0 used now' (refill_tx_budget now' st)"
    and "tb_tx_budget_ms st \<le> tb_tx_budget_ms (refill_tx_budget now' st)"
proof -
  let ?r = "(now' - tb_tx_budget_last_update st) * 1000 * duty_cycle st"
  have r: "0 \<le> ?r" using assms duty_pos [of st] by (simp add: budget_ok_def)
  have ms: "tb_tx_budget_ms (refill_tx_budget now' st)
      = (if 0 < ?r then min (tb_tx_budget_ms st + ?r) (DUTY_CYCLE_WINDOW_MS * duty_cycle st) else tb_tx_budget_ms st)"
    and last: "tb_tx_budget_last_update (refill_tx_budget now' st)
      = (if 0 < ?r then now' else tb_tx_budget_last_update st)"
    by (simp_all add: refill_tx_budget_def Let_def)
  show up: "tb_tx_budget_ms st \<le> tb_tx_budget_ms (refill_tx_budget now' st)"
    using assms(1) by (simp add: ms budget_ok_def)
  have split: "duty_cycle st * (DUTY_CYCLE_WINDOW_MS + (now' - t0) * 1000)
      = duty_cycle st * (DUTY_CYCLE_WINDOW_MS + (tb_tx_budget_last_update st - t0) * 1000) + ?r"
    by (simp add: algebra_simps)
  show "budget_ok t0 used now' (refill_tx_budget now' st)"
  proof (cases "0 < ?r")
    case True
    then have "tb_tx_budget_ms (refill_tx_budget now' st) \<le> tb_tx_budget_ms st + ?r" by (simp add: ms)
    moreover have "used / 2 + tb_tx_budget_ms st
        \<le> duty_cycle st * (DUTY_CYCLE_WINDOW_MS + (tb_tx_budget_last_update st - t0) * 1000)"
      using assms(1) by (simp only: budget_ok_def)
    ultimately have "used / 2 + tb_tx_budget_ms (refill_tx_budget now' st)
        \<le> duty_cycle st * (DUTY_CYCLE_WINDOW_MS + (now' - t0) * 1000)"
      unfolding split by linarith
    moreover have "0 \<le> tb_tx_budget_ms (refill_tx_budget now' st)"
      using up assms(1) by (simp add: budget_ok_def)
    moreover have "tb_tx_budget_ms (refill_tx_budget now' st) \<le> DUTY_CYCLE_WINDOW_MS * duty_cycle st"
      using True by (simp add: ms)
    ultimately show ?thesis using True by (simp only: budget_ok_def last refill_fields if_True order_refl)
  next
    case False
    with assms show ?thesis by (simp add: budget_ok_def ms last)
  qed
qed

section \<open>Every interleaving of checks and transmits\<close>

lemma raw_length_le:
  assumes "sendable p"
  shows "get_raw_length p \<le> 255"
proof -
  have w: "writable p" and v: "is_valid_path_len (pk_path_len p)" and l: "lengths_ok p"
    using assms by (simp_all add: sendable_def writable_def)
  have "int (length (pk_path p)) \<le> 64"
    using v l by (simp add: lengths_ok_def packet_path_defs is_valid_path_len_arith path_len_arith)
  moreover have "length (wire_codes p) \<le> 4" by (simp add: wire_codes_def)
  ultimately show ?thesis
    using get_raw_length_wire [OF w] l by (simp add: wire_bytes_def lengths_ok_def)
qed

lemma debit_ok:
  assumes "budget_ok t0 used now st" and "now \<le> now'" and "reserve_ms radio \<le> tb_tx_budget_ms st"
    and "radio_ok radio" and "sendable p"
  shows "budget_ok t0 (used + tx_est_airtime_ms radio (get_raw_length p)) now' (debit_tx_budget radio now' p st)"
proof -
  let ?a = "tx_est_airtime_ms radio (get_raw_length p)" and ?r = "refill_tx_budget now' st"
  define ms where "ms = (if tb_tx_budget_ms ?r < ?a then 0 else tb_tx_budget_ms ?r - ?a)"
  have a: "0 \<le> ?a" "?a \<le> 2 * reserve_ms radio"
    using est_airtime(2,3) [OF assms(4)] raw_length_le [OF assms(5)] by blast+
  have r: "budget_ok t0 used now' ?r" "tb_tx_budget_ms st \<le> tb_tx_budget_ms ?r"
    using refill_ok [OF assms(1,2)] .
  have f: "tb_tx_budget_ms (debit_tx_budget radio now' p st) = ms"
    "tb_tx_budget_last_update (debit_tx_budget radio now' p st) = tb_tx_budget_last_update ?r"
    "duty_cycle (debit_tx_budget radio now' p st) = duty_cycle st"
    by (simp_all add: debit_tx_budget_def Let_def ms_def duty_cycle_def)
  have "?a / 2 + ms \<le> tb_tx_budget_ms ?r" using a r(2) assms(3) by (simp add: ms_def)
  moreover have "0 \<le> ms" "ms \<le> tb_tx_budget_ms ?r" using a(1) r(1) by (auto simp: ms_def budget_ok_def)
  ultimately show ?thesis using r(1) by (simp add: budget_ok_def f add_divide_distrib)
qed

text \<open>
  The tasks that share the bucket: any of them may check the budget at any time; one that holds
  the transmit lock is admitted by a check that asks it not to wait, and then transmits or fails.
\<close>

record budget_sys =
  bs_budget :: tx_budget
  bs_now :: real
  bs_admitted :: bool
  bs_used :: real

inductive budget_reach :: "lora_radio \<Rightarrow> real \<Rightarrow> tx_budget \<Rightarrow> budget_sys \<Rightarrow> bool"
  for radio :: lora_radio and t0 :: real and st0 :: tx_budget where
  start: "budget_reach radio t0 st0
    \<lparr>bs_budget = reset_tx_budget t0 st0, bs_now = t0, bs_admitted = False, bs_used = 0\<rparr>"
| check: "budget_reach radio t0 st0 s \<Longrightarrow> bs_now s \<le> now \<Longrightarrow>
    budget_reach radio t0 st0 (s\<lparr>bs_budget := fst (tx_budget_wait_s radio now (bs_budget s)), bs_now := now\<rparr>)"
| admit: "budget_reach radio t0 st0 s \<Longrightarrow> bs_now s \<le> now \<Longrightarrow> \<not> bs_admitted s \<Longrightarrow>
    tx_budget_wait_s radio now (bs_budget s) = (st, w) \<Longrightarrow> w \<le> 0 \<Longrightarrow>
    budget_reach radio t0 st0 (s\<lparr>bs_budget := st, bs_now := now, bs_admitted := True\<rparr>)"
| transmit: "budget_reach radio t0 st0 s \<Longrightarrow> bs_now s \<le> now \<Longrightarrow> bs_admitted s \<Longrightarrow> sendable p \<Longrightarrow>
    budget_reach radio t0 st0 (s\<lparr>bs_budget := debit_tx_budget radio now p (bs_budget s), bs_now := now,
      bs_admitted := False, bs_used := bs_used s + tx_est_airtime_ms radio (get_raw_length p)\<rparr>)"
| fail: "budget_reach radio t0 st0 s \<Longrightarrow> budget_reach radio t0 st0 (s\<lparr>bs_admitted := False\<rparr>)"

lemma wait_admits:
  assumes "tx_budget_wait_s radio now st = (st', w)"
  shows "st' = refill_tx_budget now st"
    and "w \<le> 0 \<longleftrightarrow> reserve_ms radio \<le> tb_tx_budget_ms st' \<and> tb_tx_next_time st \<le> now"
proof -
  show st': "st' = refill_tx_budget now st" using assms by (simp add: tx_budget_wait_s_def Let_def)
  have "0 < (reserve_ms radio - tb_tx_budget_ms st') / duty_cycle st'" if "tb_tx_budget_ms st' < reserve_ms radio"
    using that duty_pos [of st'] by simp
  then show "w \<le> 0 \<longleftrightarrow> reserve_ms radio \<le> tb_tx_budget_ms st' \<and> tb_tx_next_time st \<le> now"
    using assms by (auto simp: tx_budget_wait_s_def Let_def st' not_less [symmetric])
qed

lemma budget_reach_ok:
  assumes "budget_reach radio t0 st0 s" and "radio_ok radio"
  shows "budget_ok t0 (bs_used s) (bs_now s) (bs_budget s)
    \<and> (bs_admitted s \<longrightarrow> reserve_ms radio \<le> tb_tx_budget_ms (bs_budget s))
    \<and> tb_airtime_budget_factor (bs_budget s) = tb_airtime_budget_factor st0"
  using assms(1)
proof induction
  case start
  have "0 \<le> DUTY_CYCLE_WINDOW_MS * duty_cycle st0" using duty_pos [of st0] by (simp add: budget_const_defs)
  then show ?case by (simp add: budget_ok_def reset_tx_budget_def duty_cycle_def)
next
  case (check s now)
  then show ?case
    using refill_ok [of t0 "bs_used s" "bs_now s" "bs_budget s" now] by (auto simp: tx_budget_wait_s_def Let_def)
next
  case (admit s now st w)
  note w = wait_admits [OF admit.hyps(4)]
  from admit w refill_ok(1) [of t0 "bs_used s" "bs_now s" "bs_budget s" now] show ?case by simp
next
  case (transmit s now p)
  have "tb_airtime_budget_factor (debit_tx_budget radio now p (bs_budget s)) = tb_airtime_budget_factor (bs_budget s)"
    by (simp add: debit_tx_budget_def Let_def)
  with transmit debit_ok [of t0 "bs_used s" "bs_now s" "bs_budget s" now radio p, OF _ _ _ assms(2)] show ?case
    by simp
qed auto

text \<open>
  C21: The airtime budget holds. Whatever the tasks do and in whatever order, the bucket stays
  between empty and one full window, and the estimated airtime of all transmits since the bucket
  was armed is at most twice the duty cycle applied to the window plus the time elapsed. The
  factor two is what admission with half the airtime of a largest packet in reserve costs.
\<close>

theorem airtime_bounded:
  assumes "budget_reach radio t0 st0 s" and "radio_ok radio"
  shows "0 \<le> tb_tx_budget_ms (bs_budget s)
     \<and> tb_tx_budget_ms (bs_budget s) \<le> DUTY_CYCLE_WINDOW_MS * duty_cycle st0
     \<and> bs_used s \<le> 2 * duty_cycle st0 * (DUTY_CYCLE_WINDOW_MS + (bs_now s - t0) * 1000)"
proof -
  from budget_reach_ok [OF assms] have ok: "budget_ok t0 (bs_used s) (bs_now s) (bs_budget s)"
    and d: "duty_cycle (bs_budget s) = duty_cycle st0" by (simp_all add: duty_cycle_def)
  let ?u = "tb_tx_budget_last_update (bs_budget s)"
  have "?u \<le> bs_now s" using ok by (simp add: budget_ok_def)
  then have "duty_cycle st0 * (DUTY_CYCLE_WINDOW_MS + (?u - t0) * 1000)
      \<le> duty_cycle st0 * (DUTY_CYCLE_WINDOW_MS + (bs_now s - t0) * 1000)"
    using duty_pos [of st0] by (intro mult_left_mono) simp_all
  moreover have "bs_used s / 2 + tb_tx_budget_ms (bs_budget s)
      \<le> duty_cycle st0 * (DUTY_CYCLE_WINDOW_MS + (?u - t0) * 1000)"
    "0 \<le> tb_tx_budget_ms (bs_budget s)" "tb_tx_budget_ms (bs_budget s) \<le> DUTY_CYCLE_WINDOW_MS * duty_cycle st0"
    using ok unfolding budget_ok_def d by blast+
  moreover from calculation have "bs_used s \<le> 2 * (duty_cycle st0 * (DUTY_CYCLE_WINDOW_MS + (bs_now s - t0) * 1000))"
    by linarith
  ultimately show ?thesis by (simp only: mult.assoc simp_thms)
qed

definition sample_radio :: lora_radio where
  "sample_radio = \<lparr>lr_spreading_factor = None, lr_bandwidth = None, lr_coding_rate = None, lr_preamble_length = None\<rparr>"

definition sample_budget :: tx_budget where
  "sample_budget = \<lparr>tb_airtime_budget_factor = DEFAULT_AIRTIME_BUDGET_FACTOR, tb_tx_budget_ms = 0,
     tb_tx_budget_last_update = 0, tb_tx_next_time = 0\<rparr>"

lemma sample_radio_ok: "radio_ok sample_radio"
  by (simp add: radio_ok_def sample_radio_def opt_default_def)

lemma sample_reserve: "reserve_ms sample_radio \<le> DUTY_CYCLE_WINDOW_MS * duty_cycle sample_budget"
  by code_simp

theorem airtime_bounded_witness:
  "\<exists>s. budget_reach sample_radio 0 sample_budget s \<and> 0 < bs_used s \<and> bs_used s \<le> 3600000"
proof -
  let ?s0 = "\<lparr>bs_budget = reset_tx_budget 0 sample_budget, bs_now = 0, bs_admitted = False, bs_used = 0\<rparr>"
  let ?r = "refill_tx_budget 0 (reset_tx_budget 0 sample_budget)"
  have s0: "budget_reach sample_radio 0 sample_budget ?s0" by (rule budget_reach.start)
  obtain w where w: "tx_budget_wait_s sample_radio 0 (bs_budget ?s0) = (?r, w)"
    by (simp add: tx_budget_wait_s_def Let_def)
  have "w \<le> 0"
    using wait_admits(2) [OF w] sample_reserve
    by (simp add: refill_tx_budget_def reset_tx_budget_def duty_cycle_def sample_budget_def)
  then have s1: "budget_reach sample_radio 0 sample_budget (?s0\<lparr>bs_budget := ?r, bs_now := 0, bs_admitted := True\<rparr>)"
    by (intro budget_reach.admit [OF s0 _ _ w]) simp_all
  have s2: "\<exists>s. budget_reach sample_radio 0 sample_budget s \<and> bs_now s = 0
      \<and> bs_used s = tx_est_airtime_ms sample_radio (get_raw_length sample_packet)"
    using budget_reach.transmit [OF s1 _ _ sample_packet_sendable, of 0] by fastforce
  then obtain s where s: "budget_reach sample_radio 0 sample_budget s" "bs_now s = 0"
    "bs_used s = tx_est_airtime_ms sample_radio (get_raw_length sample_packet)" by blast
  have "0 < tx_est_airtime_ms sample_radio (get_raw_length sample_packet)" by code_simp
  then have "0 < bs_used s" by (simp only: s(3))
  moreover have d: "duty_cycle sample_budget = 1 / 2" "DUTY_CYCLE_WINDOW_MS = 3600000" by code_simp+
  have "2 * duty_cycle sample_budget * (DUTY_CYCLE_WINDOW_MS + (bs_now s - 0) * 1000) = 3600000"
    unfolding d s(2) by simp
  with airtime_bounded [OF s(1) sample_radio_ok] have "bs_used s \<le> 3600000" by (simp only:)
  moreover note s(1)
  ultimately show ?thesis by blast
qed

text \<open>
  C30: Throttling ends. If the reserve for a largest packet fits in a full bucket, then a sender
  that was told to wait and slept at least that long, while nobody transmitted, is admitted at
  its next look at the clock: the waiting loop returns after at most one sleep.
\<close>

theorem throttled_sender_admitted:
  assumes "tb_tx_budget_last_update st \<le> now" and "now \<le> now'"
    and "now + snd (tx_budget_wait_s radio now st) \<le> now'"
    and "reserve_ms radio \<le> DUTY_CYCLE_WINDOW_MS * duty_cycle st"
  shows "\<exists>st' n. await_tx_budget radio [(True, now), (True, now')] st = Some (st', n) \<and> n \<le> 1
           \<and> reserve_ms radio \<le> tb_tx_budget_ms st' \<and> tb_tx_next_time st' \<le> now'"
proof -
  obtain st1 w where w: "tx_budget_wait_s radio now st = (st1, w)" by fastforce
  obtain st2 v where v: "tx_budget_wait_s radio now' st1 = (st2, v)" by fastforce
  note a = wait_admits [OF w] and b = wait_admits [OF v]
  let ?d = "duty_cycle st"
  have d: "0 < ?d" by (rule duty_pos)
  have duty: "duty_cycle st1 = ?d" "tb_tx_next_time st1 = tb_tx_next_time st"
    "tb_tx_next_time st2 = tb_tx_next_time st" by (simp_all add: a b)
  have last: "tb_tx_budget_last_update st1 = now"
    using assms(1) d by (auto simp: a(1) refill_tx_budget_def Let_def zero_less_mult_iff)
  define x where "x = (reserve_ms radio - tb_tx_budget_ms st1) / ?d"
  have eq: "w = max ((if tb_tx_budget_ms st1 < reserve_ms radio then x else 0) / 1000) (tb_tx_next_time st - now)"
    using w a(1) by (auto simp: tx_budget_wait_s_def Let_def x_def)
  have "x \<le> 0" if "\<not> tb_tx_budget_ms st1 < reserve_ms radio"
    using that d by (simp add: x_def divide_le_0_iff)
  then have wait: "x / 1000 \<le> w" "tb_tx_next_time st - now \<le> w"
    unfolding eq by (auto simp: max_def)
  have w': "now + w \<le> now'" using assms(3) w by simp
  have "x \<le> (now' - now) * 1000" using wait(1) w' by simp
  then have "reserve_ms radio - tb_tx_budget_ms st1 \<le> (now' - now) * 1000 * ?d"
    using d by (simp add: x_def pos_divide_le_eq)
  then have "reserve_ms radio \<le> tb_tx_budget_ms st2"
    using assms(4) by (auto simp: b(1) refill_tx_budget_def Let_def last duty not_less)
  moreover have "tb_tx_next_time st \<le> now'" using wait(2) w' by simp
  ultimately have "v \<le> 0" using b(2) duty by simp
  show ?thesis
  proof (cases "w \<le> 0")
    case True
    then show ?thesis using w a(2) assms(2) duty by auto
  next
    case False
    with w v \<open>v \<le> 0\<close> \<open>reserve_ms radio \<le> tb_tx_budget_ms st2\<close> \<open>tb_tx_next_time st \<le> now'\<close> duty
    show ?thesis by simp
  qed
qed

theorem throttled_sender_admitted_witness:
  "\<exists>st' n. await_tx_budget sample_radio [(True, 0), (True, 3600)] sample_budget = Some (st', n) \<and> n \<le> 1"
proof -
  have "tb_tx_budget_last_update sample_budget \<le> 0" "0 + snd (tx_budget_wait_s sample_radio 0 sample_budget) \<le> 3600"
    by code_simp+
  with throttled_sender_admitted [of sample_budget 0 3600 sample_radio] sample_reserve show ?thesis by auto
qed

end
