(* ===== verification/Ack_Tracking.thy ===== *)
theory Ack_Tracking
  imports Packet_Builder
begin

text \<open>
  Acknowledgements: the table of senders waiting for an ACK in \<open>node/dispatcher.py\<close>, and the
  handlers that extract an ACK from the packets that can carry one (\<open>node/handlers/ack.py\<close>,
  \<open>multipart.py\<close>, with \<open>crypto_helpers.py\<close>). An \<open>asyncio.Event\<close> is a number, unique per
  waiter; \<open>ak_set\<close> holds the events that have been set.
\<close>

section \<open>The table of waiters\<close>

record ack_state =
  ak_recent_acks :: "(int, real) dict"
  ak_waiting_acks :: "(int, nat list) dict"
  ak_set :: "nat list"
  ak_next_event :: nat

definition new_ack_state :: ack_state where
  "new_ack_state = \<lparr>ak_recent_acks = [], ak_waiting_acks = [], ak_set = [], ak_next_event = 0\<rparr>"

definition waiters :: "ack_state \<Rightarrow> int \<Rightarrow> nat list" where
  "waiters st crc = (case map_of (ak_waiting_acks st) crc of Some ws \<Rightarrow> ws | None \<Rightarrow> [])"

definition expect_ack :: "int \<Rightarrow> ack_state \<Rightarrow> ack_state \<times> nat" where
  "expect_ack crc st =
     (let evt = ak_next_event st;
          st = st\<lparr>ak_next_event := Suc evt,
                  ak_waiting_acks := AList.update crc (waiters st crc @ [evt]) (ak_waiting_acks st)\<rparr>;
          st = (if map_of (ak_recent_acks st) crc \<noteq> None then st\<lparr>ak_set := evt # ak_set st\<rparr> else st)
      in (st, evt))"

definition discard_ack_waiter :: "int \<Rightarrow> nat \<Rightarrow> ack_state \<Rightarrow> ack_state" where
  "discard_ack_waiter crc event st =
     (case map_of (ak_waiting_acks st) crc of
        None \<Rightarrow> st
      | Some ws \<Rightarrow>
          let ws = remove1 event ws
          in st\<lparr>ak_waiting_acks := (if ws = [] then AList.delete crc (ak_waiting_acks st)
                                   else AList.update crc ws (ak_waiting_acks st))\<rparr>)"

text \<open>\<open>listener\<close>: the application's ACK listener, if any, as the value it returns for a CRC.\<close>

definition register_ack_received ::
  "(int \<Rightarrow> bool) option \<Rightarrow> real \<Rightarrow> int \<Rightarrow> ack_state \<Rightarrow> ack_state \<times> bool" where
  "register_ack_received listener ts crc st =
     (let st = st\<lparr>ak_recent_acks := AList.update crc ts (ak_recent_acks st)\<rparr>;
          st = st\<lparr>ak_set := waiters st crc @ ak_set st,
                  ak_waiting_acks := AList.delete crc (ak_waiting_acks st)\<rparr>
      in (st, case listener of Some f \<Rightarrow> f crc | None \<Rightarrow> False))"

text \<open>The part of the maintenance loop that forgets ACKs older than five seconds.\<close>

definition expire_recent_acks :: "real \<Rightarrow> ack_state \<Rightarrow> ack_state" where
  "expire_recent_acks now st =
     st\<lparr>ak_recent_acks := filter (\<lambda>(crc, ts). now - ts < 5) (ak_recent_acks st)\<rparr>"

text \<open>The end of a wait, by event, timeout or cancellation: whether the event was set.\<close>

definition await_ack_event :: "nat \<Rightarrow> int \<Rightarrow> ack_state \<Rightarrow> ack_state \<times> bool" where
  "await_ack_event event crc st = (discard_ack_waiter crc event st, event \<in> set (ak_set st))"

section \<open>The ACK handlers\<close>

definition process_discrete_ack :: "packet \<Rightarrow> int option" where
  "process_discrete_ack packet =
     (if length (pk_payload packet) < 4 then None else Some (le_int (take 4 (pk_payload packet))))"

definition AckHandler_call ::
  "(int \<Rightarrow> bool) option \<Rightarrow> real \<Rightarrow> packet \<Rightarrow> ack_state \<Rightarrow> ack_state \<times> packet" where
  "AckHandler_call listener ts packet st =
     (case process_discrete_ack packet of
        None \<Rightarrow> (st, packet)
      | Some ack_crc \<Rightarrow>
          let packet = (if map_of (ak_waiting_acks st) ack_crc \<noteq> None then mark_do_not_retransmit packet else packet);
              (st, consumed) = register_ack_received listener ts ack_crc st
          in (st, if consumed then mark_do_not_retransmit packet else packet))"

definition extract_ack_crc :: "packet \<Rightarrow> int option" where
  "extract_ack_crc packet =
     (let payload = pk_payload packet
      in if length payload < 5 then None
         else
           let inner_type = uint (payload ! 0) AND 0x0F
           in if inner_type \<noteq> PAYLOAD_TYPE_ACK then None
              else Some (le_int (take 4 (drop 1 payload))))"

definition MultipartAckHandler_call :: "(int \<Rightarrow> bool) option \<Rightarrow> real \<Rightarrow> packet \<Rightarrow> ack_state \<Rightarrow> ack_state" where
  "MultipartAckHandler_call listener ts packet st =
     (case extract_ack_crc packet of
        None \<Rightarrow> st | Some crc \<Rightarrow> fst (register_ack_received listener ts crc st))"

text \<open>The contacts under whose key an encrypted payload authenticates, in order.\<close>

definition decrypt_with ::
  "crypto \<Rightarrow> byte \<Rightarrow> local_identity \<Rightarrow> bytes \<Rightarrow> contact_proxy \<Rightarrow> (contact_proxy \<times> bytes \<times> bytes \<times> bytes) option" where
  "decrypt_with c src_hash local_identity encrypted contact =
     (case bind_res (fromhex (cx_public_key contact)) (\<lambda>pub.
        if length pub \<noteq> PUB_KEY_SIZE \<or> hd pub \<noteq> src_hash then Inr None
        else bind_res (new_identity c pub) (\<lambda>peer_id.
             bind_res (calc_shared_secret c peer_id (get_private_key local_identity)) (\<lambda>shared_secret.
             let aes_key = take 16 shared_secret
             in bind_res (mac_then_decrypt c aes_key shared_secret encrypted) (\<lambda>decrypted.
                Inr (Some (contact, pub, shared_secret, decrypted)))))) of
        Inl _ \<Rightarrow> None | Inr r \<Rightarrow> r)"

definition iter_decrypt_by_src_hash ::
  "crypto \<Rightarrow> contact_proxy list \<Rightarrow> byte \<Rightarrow> local_identity \<Rightarrow> bytes \<Rightarrow> (contact_proxy \<times> bytes \<times> bytes \<times> bytes) list" where
  "iter_decrypt_by_src_hash c book src_hash local_identity encrypted =
     List.map_filter (decrypt_with c src_hash local_identity encrypted) book"

definition path_ack_crc :: "bytes \<Rightarrow> int option" where
  "path_ack_crc decrypted =
     (if decrypted = [] \<or> \<not> is_valid_path_len (uint (hd decrypted)) then None
      else
        let path_byte_len = nat (get_path_byte_len (uint (hd decrypted)));
            extra_start = 1 + path_byte_len
        in if length decrypted < extra_start + 1 then None
           else
             let extra_type = uint (decrypted ! extra_start) AND 0x0F
             in if extra_type \<noteq> PAYLOAD_TYPE_ACK then None
                else if length decrypted < extra_start + 5 then None
                else Some (le_int (take 4 (drop (extra_start + 1) decrypted))))"

definition try_decrypt_encrypted_ack ::
  "crypto \<Rightarrow> local_identity \<Rightarrow> contact_proxy list \<Rightarrow> bytes \<Rightarrow> int option" where
  "try_decrypt_encrypted_ack c local_identity book payload =
     (if length payload < 2 then None
      else
        let src_hash = payload ! 1;
            encrypted = drop 2 payload
        in case iter_decrypt_by_src_hash c book src_hash local_identity encrypted of
             [] \<Rightarrow> None | (_, _, _, decrypted) # _ \<Rightarrow> path_ack_crc decrypted)"

definition process_path_ack_variants ::
  "crypto \<Rightarrow> local_identity option \<Rightarrow> contact_proxy list option \<Rightarrow> packet \<Rightarrow> int option" where
  "process_path_ack_variants c local_identity contact_book packet =
     (let payload = pk_payload packet
      in if length payload < 1 then None
         else case (local_identity, contact_book) of
           (Some li, Some book) \<Rightarrow>
             if 2 \<le> length payload \<and> payload ! 0 = get_public_key li ! 0
             then try_decrypt_encrypted_ack c li book payload else None
         | _ \<Rightarrow> None)"

section \<open>Invariant of the table\<close>

definition acks_ok :: "ack_state \<Rightarrow> bool" where
  "acks_ok st \<longleftrightarrow>
     dict_ok (ak_waiting_acks st) \<and> (\<forall>crc ws. map_of (ak_waiting_acks st) crc = Some ws \<longrightarrow> ws \<noteq> [])
     \<and> (\<forall>crc. distinct (waiters st crc)) \<and> (\<forall>crc. \<forall>e \<in> set (waiters st crc). e < ak_next_event st)
     \<and> (\<forall>crc crc'. crc \<noteq> crc' \<longrightarrow> set (waiters st crc) \<inter> set (waiters st crc') = {})
     \<and> (\<forall>e \<in> set (ak_set st). e < ak_next_event st)"

datatype ack_op = Expect int | Discard int nat | Register real int | Expire real

fun ack_step :: "ack_op \<Rightarrow> ack_state \<Rightarrow> ack_state" where
  "ack_step (Expect crc) st = fst (expect_ack crc st)"
| "ack_step (Discard crc e) st = discard_ack_waiter crc e st"
| "ack_step (Register ts crc) st = fst (register_ack_received None ts crc st)"
| "ack_step (Expire now) st = expire_recent_acks now st"

lemma waiters_step:
  assumes "dict_ok (ak_waiting_acks st)"
  shows "waiters (fst (expect_ack crc st)) crc' = (if crc' = crc then waiters st crc @ [ak_next_event st] else waiters st crc')"
    and "waiters (discard_ack_waiter crc e st) crc' = (if crc' = crc then remove1 e (waiters st crc) else waiters st crc')"
    and "waiters (fst (register_ack_received l ts crc st)) crc' = (if crc' = crc then [] else waiters st crc')"
    and "waiters (expire_recent_acks now st) crc' = waiters st crc'"
  using assms
  by (auto simp: waiters_def expect_ack_def discard_ack_waiter_def register_ack_received_def expire_recent_acks_def
      update_conv' delete_conv' Let_def simp del: map_of_eq_Some_iff split: option.split)

lemma next_event_step:
  "ak_next_event (fst (expect_ack crc st)) = Suc (ak_next_event st)"
  "ak_next_event (discard_ack_waiter crc e st) = ak_next_event st"
  "ak_next_event (fst (register_ack_received l ts crc st)) = ak_next_event st"
  "ak_next_event (expire_recent_acks now st) = ak_next_event st"
  by (simp_all add: expect_ack_def discard_ack_waiter_def register_ack_received_def expire_recent_acks_def
      Let_def split: option.split)

lemma set_step:
  "set (ak_set (fst (expect_ack crc st)))
     = (if map_of (ak_recent_acks st) crc \<noteq> None then insert (ak_next_event st) (set (ak_set st)) else set (ak_set st))"
  "ak_set (discard_ack_waiter crc e st) = ak_set st"
  "set (ak_set (fst (register_ack_received l ts crc st))) = set (waiters st crc) \<union> set (ak_set st)"
  "ak_set (expire_recent_acks now st) = ak_set st"
  by (simp_all add: expect_ack_def discard_ack_waiter_def register_ack_received_def expire_recent_acks_def
      waiters_def Let_def split: option.split)

lemma table_step:
  assumes "dict_ok (ak_waiting_acks st)" and "\<forall>crc ws. map_of (ak_waiting_acks st) crc = Some ws \<longrightarrow> ws \<noteq> []"
  shows "dict_ok (ak_waiting_acks (ack_step op st))
    \<and> (\<forall>crc ws. map_of (ak_waiting_acks (ack_step op st)) crc = Some ws \<longrightarrow> ws \<noteq> [])"
  using assms
  by (cases op)
    (auto simp: expect_ack_def discard_ack_waiter_def register_ack_received_def expire_recent_acks_def
      update_conv' delete_conv' Let_def distinct_update distinct_delete simp del: map_of_eq_Some_iff
      split: option.splits if_splits)

lemma acks_ok_step: "acks_ok st \<Longrightarrow> acks_ok (ack_step op st)"
proof -
  assume ok: "acks_ok st"
  then have d: "dict_ok (ak_waiting_acks st)" by (simp add: acks_ok_def)
  note t = table_step [of st op]
  note w = waiters_step [OF d] next_event_step set_step
  show ?thesis
  proof (cases op)
    case (Expect crc)
    have "\<forall>crc'. ak_next_event st \<notin> set (waiters st crc')" using ok by (auto simp: acks_ok_def)
    with ok t show ?thesis unfolding acks_ok_def by (auto simp: Expect w less_Suc_eq)
  next
    case (Discard crc e)
    have "set (remove1 e (waiters st crc)) \<subseteq> set (waiters st crc)" by (rule set_remove1_subset)
    with ok t show ?thesis unfolding acks_ok_def by (simp add: Discard w) blast
  next
    case (Register ts crc)
    with ok t show ?thesis unfolding acks_ok_def by (auto simp: w)
  next
    case (Expire now)
    with ok t show ?thesis unfolding acks_ok_def by (auto simp: w)
  qed
qed

interpretation ack_table: step_system ack_step acks_ok
  by unfold_locales (rule acks_ok_step)

text \<open>One waiter, followed through any sequence of operations of the others.\<close>

lemma waiter_followed:
  assumes "acks_ok st" and "e < ak_next_event st" and "e \<in> set (waiters st crc) \<or> e \<in> set (ak_set st)"
    and "\<forall>crc'. crc' \<noteq> crc \<longrightarrow> e \<notin> set (waiters st crc')" and "Discard crc e \<notin> set ops"
  shows "(e \<in> set (ak_set (fold ack_step ops st)) \<longleftrightarrow> e \<in> set (ak_set st) \<or> (\<exists>ts. Register ts crc \<in> set ops))
    \<and> (e \<in> set (ak_set (fold ack_step ops st)) \<or> e \<in> set (waiters (fold ack_step ops st) crc))"
  using assms
proof (induction ops arbitrary: st)
  case Nil
  then show ?case by auto
next
  case (Cons op ops)
  from Cons.prems(1) have d: "dict_ok (ak_waiting_acks st)" by (simp add: acks_ok_def)
  note w = waiters_step [OF d] next_event_step set_step
  let ?st = "ack_step op st"
  have ok: "acks_ok ?st" by (rule acks_ok_step [OF Cons.prems(1)])
  have "e < ak_next_event ?st" "e \<in> set (waiters ?st crc) \<or> e \<in> set (ak_set ?st)"
    "\<forall>crc'. crc' \<noteq> crc \<longrightarrow> e \<notin> set (waiters ?st crc')"
    "e \<in> set (ak_set ?st) \<longleftrightarrow> e \<in> set (ak_set st) \<or> (\<exists>ts. op = Register ts crc)"
    using Cons.prems by (cases op; auto simp: w dest: notin_set_remove1)+
  with Cons.IH [of ?st, OF ok] Cons.prems(5) show ?case by auto
qed

text \<open>
  C22: Every waiter sees its own ACK and nobody else's. From any reachable table, a sender that
  registers for a CRC gets a fresh event, and whatever other senders, ACK arrivals, expiries and
  ends of other waits follow, its event is set exactly if that CRC was in the recent cache when
  it registered or an ACK for that CRC arrived afterwards; until then it stays registered, also
  when another sender waiting for the same CRC gives up.
\<close>

theorem ack_reaches_every_waiter:
  assumes "acks_ok st" and "expect_ack crc st = (st1, e)" and "Discard crc e \<notin> set ops"
  shows "(e \<in> set (ak_set (fold ack_step ops st1)) \<longleftrightarrow>
            map_of (ak_recent_acks st) crc \<noteq> None \<or> (\<exists>ts. Register ts crc \<in> set ops))
     \<and> (e \<in> set (ak_set (fold ack_step ops st1)) \<or> e \<in> set (waiters (fold ack_step ops st1) crc))
     \<and> acks_ok (fold ack_step ops st1)"
proof -
  from assms(1) have d: "dict_ok (ak_waiting_acks st)" by (simp add: acks_ok_def)
  note w = waiters_step [OF d] next_event_step set_step
  have e: "e = ak_next_event st" and st1: "st1 = fst (expect_ack crc st)"
    using assms(2) by (auto simp: expect_ack_def Let_def)
  have ok: "acks_ok st1" using acks_ok_step [OF assms(1), of "Expect crc"] st1 by simp
  have new: "\<forall>crc'. e \<notin> set (waiters st crc')" "e \<notin> set (ak_set st)"
    using assms(1) e by (auto simp: acks_ok_def)
  have "e < ak_next_event st1" "e \<in> set (waiters st1 crc)" "\<forall>crc'. crc' \<noteq> crc \<longrightarrow> e \<notin> set (waiters st1 crc')"
    using new by (auto simp: st1 w e)
  with waiter_followed [OF ok _ _ _ assms(3)]
  have "(e \<in> set (ak_set (fold ack_step ops st1)) \<longleftrightarrow> e \<in> set (ak_set st1) \<or> (\<exists>ts. Register ts crc \<in> set ops))
    \<and> (e \<in> set (ak_set (fold ack_step ops st1)) \<or> e \<in> set (waiters (fold ack_step ops st1) crc))" by blast
  moreover have "e \<in> set (ak_set st1) \<longleftrightarrow> map_of (ak_recent_acks st) crc \<noteq> None"
    using new(2) by (simp add: st1 w e)
  ultimately show ?thesis using ack_table.invar_run [OF ok] by blast
qed

theorem ack_reaches_every_waiter_witness:
  "let (st1, e1) = expect_ack 7 new_ack_state; (st2, e2) = expect_ack 7 st1
   in e1 \<noteq> e2 \<and> e2 \<in> set (ak_set (fold ack_step [Discard 7 e1, Register 1 7] st2))"
proof -
  have ok: "acks_ok new_ack_state" by (simp add: acks_ok_def new_ack_state_def waiters_def)
  obtain st1 e1 where x: "expect_ack 7 new_ack_state = (st1, e1)" by fastforce
  obtain st2 e2 where y: "expect_ack 7 st1 = (st2, e2)" by fastforce
  have ok1: "acks_ok st1" using acks_ok_step [OF ok, of "Expect 7"] x by simp
  have ne: "e1 \<noteq> e2" using x y by (auto simp: expect_ack_def Let_def new_ack_state_def)
  then have "Discard 7 e2 \<notin> set [Discard 7 e1, Register 1 7]" by simp
  from ack_reaches_every_waiter [OF ok1 y this] have "e2 \<in> set (ak_set (fold ack_step [Discard 7 e1, Register 1 7] st2))"
    by auto
  with ne x y show ?thesis by simp
qed

end
