(* ===== verification/Dispatcher.thy ===== *)
theory Dispatcher
  imports Region_Map Packet_Filter Forwarding Tx_Budget Ack_Tracking
begin

text \<open>
  \<open>node/dispatcher.py\<close>: the receive path (blacklist, parse, region capture, hold, duplicate
  check, forwarding decision, handler) and the send path (scope, path-hash mode, airtime
  admission, transmit, ACK registration), over the filter, forwarding, budget and ACK components.

  Handlers are values of a type \<open>'h\<close>; \<open>run\<close> says what a handler does with a packet and
  the dispatcher. A coroutine is cut where it awaits something that lets other tasks run: the
  hold of a flood packet separates \<open>rx_parse\<close> from \<open>rx_deliver\<close>, and the two may
  interleave with those of other packets. Observer callbacks and log lines are left out.
\<close>

section \<open>State\<close>

datatype dispatcher_state = IDLE | TRANSMIT | WAIT

record 'h dispatcher =
  ds_state :: dispatcher_state
  ds_handlers :: "(int, 'h) dict"
  ds_handler_instances :: "(int, 'h) dict"
  ds_local_delivery_types :: "int list"
  ds_fallback_handler :: "'h option"
  ds_local_identity :: "local_identity option"
  ds_flood_transport_key :: "bytes option"
  ds_default_flood_transport_key :: "bytes option"
  ds_flood_unscoped :: bool
  ds_region_map :: "region_map option"
  ds_path_hash_mode :: "int option"
  ds_rx_delay_base :: real
  ds_client_repeat_enabled :: bool
  ds_budget :: tx_budget
  ds_current_expected_crc :: "int option"
  ds_acks :: ack_state
  ds_dedupe_enabled :: bool
  ds_packet_filter :: packet_filter
  ds_rx_enabled :: bool

definition new_dispatcher :: "packet_filter \<Rightarrow> bool \<Rightarrow> 'h dispatcher" where
  "new_dispatcher packet_filter dedupe_enabled =
     \<lparr>ds_state = IDLE, ds_handlers = [], ds_handler_instances = [], ds_local_delivery_types = [],
      ds_fallback_handler = None, ds_local_identity = None, ds_flood_transport_key = None,
      ds_default_flood_transport_key = None, ds_flood_unscoped = False, ds_region_map = None,
      ds_path_hash_mode = None, ds_rx_delay_base = 0, ds_client_repeat_enabled = False,
      ds_budget = \<lparr>tb_airtime_budget_factor = DEFAULT_AIRTIME_BUDGET_FACTOR, tb_tx_budget_ms = 0,
                   tb_tx_budget_last_update = 0, tb_tx_next_time = 0\<rparr>,
      ds_current_expected_crc = None, ds_acks = new_ack_state, ds_dedupe_enabled = dedupe_enabled,
      ds_packet_filter = packet_filter, ds_rx_enabled = True\<rparr>"

definition self_key :: "'h dispatcher \<Rightarrow> bytes option" where
  "self_key d = map_option get_public_key (ds_local_identity d)"

section \<open>Handlers\<close>

text \<open>How \<open>register_handler\<close> finds the function to call, and what a call may come to.\<close>

datatype handler_shape = HasHandlePacket | IsCallable | NeitherOfBoth

datatype outcome = Returned bool | Raised

definition register_handler ::
  "int \<Rightarrow> 'h \<Rightarrow> handler_shape \<Rightarrow> bool \<Rightarrow> 'h dispatcher \<Rightarrow> 'h dispatcher \<times> unit res" where
  "register_handler payload_type handler_instance shape local_delivery d =
     (let d = d\<lparr>ds_handler_instances := AList.update payload_type handler_instance (ds_handler_instances d)\<rparr>;
          d = d\<lparr>ds_local_delivery_types :=
                (if local_delivery then List.insert payload_type (ds_local_delivery_types d)
                 else removeAll payload_type (ds_local_delivery_types d))\<rparr>
      in if shape = HasHandlePacket \<or> shape = IsCallable
         then (d\<lparr>ds_handlers := AList.update payload_type handler_instance (ds_handlers d)\<rparr>, Inr ())
         else (d, Inl (ValueError ''Handler must be callable or have handle_packet method'')))"

definition get_handler_instance :: "'h dispatcher \<Rightarrow> int \<Rightarrow> 'h option" where
  "get_handler_instance d payload_type = map_of (ds_handler_instances d) payload_type"

definition register_fallback_handler :: "'h \<Rightarrow> 'h dispatcher \<Rightarrow> 'h dispatcher" where
  "register_fallback_handler handler d = d\<lparr>ds_fallback_handler := Some handler\<rparr>"

definition get_handler :: "'h dispatcher \<Rightarrow> int \<Rightarrow> 'h option" where
  "get_handler d ptype =
     (case map_of (ds_handlers d) ptype of Some h \<Rightarrow> Some h | None \<Rightarrow> ds_fallback_handler d)"

definition is_transit_direct_delivery :: "'h dispatcher \<Rightarrow> packet \<Rightarrow> int \<Rightarrow> bool" where
  "is_transit_direct_delivery d pkt payload_type =
     (if payload_type \<notin> set (ds_local_delivery_types d) then False
      else is_route_direct pkt \<and> 0 < Packet_get_path_hash_count pkt)"

type_synonym 'h run = "'h \<Rightarrow> real \<Rightarrow> packet \<Rightarrow> 'h dispatcher \<Rightarrow> 'h dispatcher \<times> packet \<times> outcome"

text \<open>What the rest of the system sees of a reception.\<close>

datatype 'h rx_event = Handled 'h packet | Notified packet | Forward packet

definition dispatch :: "'h run \<Rightarrow> real \<Rightarrow> packet \<Rightarrow> 'h dispatcher \<Rightarrow> 'h dispatcher \<times> packet \<times> 'h rx_event list" where
  "dispatch run now pkt d =
     (let payload_type = get_payload_type pkt
      in case get_handler d payload_type of
           None \<Rightarrow> (d, pkt, [])
         | Some h \<Rightarrow>
             if is_transit_direct_delivery d pkt payload_type then (d, pkt, [Notified pkt])
             else
               case run h now pkt d of
                 (d, q, Raised) \<Rightarrow> (d, q, [Handled h pkt])
               | (d, q, Returned authenticated) \<Rightarrow>
                   let q = (if authenticated then mark_do_not_retransmit q else q)
                   in (d, q, [Handled h pkt, Notified q]))"

section \<open>Receiving\<close>

text \<open>What the dispatcher reads of the radio; \<open>None\<close> for a method that the radio lacks.\<close>

record radio = lora_radio +
  ra_last_rssi :: "int option"
  ra_last_snr :: "real option"

definition MIN_RX_DELAY_MS :: real where "MIN_RX_DELAY_MS = 50"
definition MAX_RX_DELAY_MS :: real where "MAX_RX_DELAY_MS = 32000"

definition calc_rx_delay :: "'h dispatcher \<Rightarrow> real \<Rightarrow> real \<Rightarrow> real" where
  "calc_rx_delay d score air_time_ms =
     (if ds_rx_delay_base d \<le> 0 then 0
      else (ds_rx_delay_base d powr (0.85 - score) - 1) * air_time_ms)"

definition flood_rx_delay_ms :: "'r lora_radio_scheme \<Rightarrow> 'h dispatcher \<Rightarrow> int \<Rightarrow> real \<Rightarrow> real" where
  "flood_rx_delay_ms radio d frame_len snr =
     fm_delay_ms (flood_rx_metrics_of frame_len snr (opt_default 10 (lr_spreading_factor radio))
       (opt_default 250000 (lr_bandwidth radio)) (opt_default 5 (lr_coding_rate radio))
       (opt_default 8 (lr_preamble_length radio)) (ds_rx_delay_base d) MIN_RX_DELAY_MS MAX_RX_DELAY_MS)"

definition last_or :: "'a option \<Rightarrow> 'a option \<Rightarrow> 'a res" where
  "last_or given radio_value = (case given of Some x \<Rightarrow> Inr x
     | None \<Rightarrow> (case radio_value of Some x \<Rightarrow> Inr x | None \<Rightarrow> Inl AttributeError))"

text \<open>
  Up to the hold. \<open>Inr None\<close>: the frame is dropped; \<open>Inr (Some (pkt, delay))\<close>: the parsed
  packet and how long it is held.
\<close>

definition rx_parse ::
  "crypto \<Rightarrow> radio \<Rightarrow> real \<Rightarrow> bytes \<Rightarrow> int option \<Rightarrow> real option \<Rightarrow> pystr option \<Rightarrow> 'h dispatcher \<Rightarrow>
   'h dispatcher \<times> (packet \<times> real) option res" where
  "rx_parse c radio now data rssi snr rx_radio_id d =
     (let snr_val = (case snr of Some s \<Rightarrow> s | None \<Rightarrow> opt_default 0 (ra_last_snr radio));
          raw_hash = generate_hash c data
      in if is_blacklisted (ds_packet_filter d) now raw_hash then (d, Inr None)
         else case read_from data new_packet of
           (pkt, Inl err) \<Rightarrow>
             (d\<lparr>ds_packet_filter := blacklist (ds_packet_filter d) now raw_hash\<rparr>, Inr None)
         | (pkt, Inr _) \<Rightarrow>
             (d, bind_res (last_or rssi (ra_last_rssi radio)) (\<lambda>r.
                 bind_res (last_or snr (ra_last_snr radio)) (\<lambda>s.
                 let pkt = pkt\<lparr>pk_rssi := r, pk_snr := Some s\<rparr>;
                     pkt = (if rx_radio_id \<noteq> None then pkt\<lparr>pk_rx_radio_id := rx_radio_id\<rparr> else pkt)
                 in case capture_recv_region c (ds_region_map d) pkt of
                      (pkt, Inl e) \<Rightarrow> Inl e
                    | (pkt, Inr _) \<Rightarrow>
                        let delay_ms = (if is_route_flood pkt
                                        then flood_rx_delay_ms radio d (int (length data)) snr_val else 0)
                        in Inr (Some (pkt, if 0 < delay_ms then delay_ms else 0))))))"

definition hash_key :: "crypto \<Rightarrow> packet \<Rightarrow> pystr res" where
  "hash_key c pkt = bind_res (calculate_packet_hash (cr_sha256 c) pkt) (\<lambda>h. Inr (take 16 (hex_str h)))"

text \<open>From the end of the hold: duplicate check, forwarding decision, dispatch.\<close>

definition rx_deliver ::
  "crypto \<Rightarrow> 'h run \<Rightarrow> real \<Rightarrow> packet \<Rightarrow> 'h dispatcher \<Rightarrow> 'h dispatcher \<times> 'h rx_event list res" where
  "rx_deliver c run now pkt d =
     (case hash_key c pkt of
        Inl e \<Rightarrow> (d, Inl e)
      | Inr packet_hash \<Rightarrow>
          let transit = is_transit_direct_not_next_hop (self_key d) pkt
          in if \<not> transit \<and> ds_dedupe_enabled d \<and> is_duplicate (ds_packet_filter d) now packet_hash
             then (d, Inr [])
             else
               let d = (if transit then d
                        else d\<lparr>ds_packet_filter := track_packet (ds_packet_filter d) now packet_hash\<rparr>)
               in case (if ds_client_repeat_enabled d then build_client_repeat_forward (self_key d) pkt
                        else Inr None) of
                    Inl e \<Rightarrow> (d, Inl e)
                  | Inr forward_pkt \<Rightarrow>
                      let (d, pkt, events) = dispatch run now pkt d
                      in (d, Inr (events @
                           (case forward_pkt of
                              None \<Rightarrow> []
                            | Some fwd \<Rightarrow>
                                if \<not> (is_route_flood fwd \<and> is_marked_do_not_retransmit pkt)
                                then [Forward fwd] else []))))"

definition process_received_packet ::
  "crypto \<Rightarrow> 'h run \<Rightarrow> radio \<Rightarrow> real \<Rightarrow> bytes \<Rightarrow> int option \<Rightarrow> real option \<Rightarrow> pystr option \<Rightarrow>
   'h dispatcher \<Rightarrow> 'h dispatcher \<times> 'h rx_event list res" where
  "process_received_packet c run radio now data rssi snr rx_radio_id d =
     (case rx_parse c radio now data rssi snr rx_radio_id d of
        (d, Inl e) \<Rightarrow> (d, Inl e)
      | (d, Inr None) \<Rightarrow> (d, Inr [])
      | (d, Inr (Some (pkt, delay_ms))) \<Rightarrow> rx_deliver c run (now + delay_ms / 1000) pkt d)"

definition client_repeat_delay_ms :: "'r lora_radio_scheme \<Rightarrow> (int \<Rightarrow> int) \<Rightarrow> packet \<Rightarrow> real" where
  "client_repeat_delay_ms radio randint0 pkt =
     (let frame_len = Packet_get_path_byte_len pkt + pk_payload_len pkt + 2;
          airtime_ms = calculate_lora_airtime_ms frame_len (opt_default 10 (lr_spreading_factor radio))
            (opt_default 250000 (lr_bandwidth radio)) (opt_default 5 (lr_coding_rate radio))
            (opt_default 8 (lr_preamble_length radio)) True True None;
          factor = (if is_route_flood pkt then 0.5 else 0.2);
          t = airtime_ms * factor
      in if t \<le> 0 then 0 else of_int (randint0 (py_int (5 * t))))"

section \<open>Sending\<close>

definition apply_flood_scope :: "crypto \<Rightarrow> 'h dispatcher \<Rightarrow> packet \<Rightarrow> packet res" where
  "apply_flood_scope c d pkt =
     (if pk_flood_scope_applied pkt then Inr pkt
      else if get_route_type pkt \<noteq> ROUTE_TYPE_FLOOD then Inr pkt
      else if ds_flood_unscoped d then Inr pkt
      else
        let key = (if ds_flood_transport_key d \<noteq> None then ds_flood_transport_key d
                   else ds_default_flood_transport_key d)
        in case key of None \<Rightarrow> Inr pkt | Some k \<Rightarrow> scope_packet c k pkt)"

definition set_default_path_hash_mode :: "int option \<Rightarrow> 'h dispatcher \<Rightarrow> 'h dispatcher \<times> unit res" where
  "set_default_path_hash_mode mode d =
     (if mode \<noteq> None \<and> the mode \<notin> {0, 1, 2}
      then (d, Inl (ValueError ''path_hash_mode must be None, 0, 1, or 2''))
      else (d\<lparr>ds_path_hash_mode := mode\<rparr>, Inr ()))"

definition apply_default_path_hash_mode :: "'h dispatcher \<Rightarrow> packet \<Rightarrow> packet res" where
  "apply_default_path_hash_mode d pkt =
     (case ds_path_hash_mode d of
        None \<Rightarrow> Inr pkt
      | Some mode \<Rightarrow>
          if get_route_type pkt \<notin> {ROUTE_TYPE_FLOOD, ROUTE_TYPE_TRANSPORT_FLOOD} then Inr pkt
          else if Packet_get_path_hash_count pkt \<noteq> 0 then Inr pkt
          else if pk_path_hash_mode_applied pkt then Inr pkt
          else apply_path_hash_mode mode False pkt)"

definition set_client_repeat_enabled :: "real \<Rightarrow> bool \<Rightarrow> 'h dispatcher \<Rightarrow> 'h dispatcher" where
  "set_client_repeat_enabled now enabled d =
     (let d = (if enabled \<and> \<not> ds_client_repeat_enabled d
               then d\<lparr>ds_budget := reset_tx_budget now (ds_budget d)\<rparr> else d)
      in d\<lparr>ds_client_repeat_enabled := enabled\<rparr>)"

text \<open>What the radio makes of a frame: confirmation metadata, none, or an exception.\<close>

datatype radio_result = Confirmed | NoMetadata | SendRaised

text \<open>
  \<open>_transmit_locked\<close>. \<open>Inr (ok, wait)\<close> is the returned triple; an exception that
  \<open>write_to\<close> raises leaves the state as it is at that point.
\<close>

definition transmit_locked ::
  "crypto \<Rightarrow> lora_radio \<Rightarrow> (bytes \<Rightarrow> radio_result) \<Rightarrow> real \<Rightarrow> real \<Rightarrow> packet \<Rightarrow> bool \<Rightarrow> int option \<Rightarrow>
   'h dispatcher \<Rightarrow> 'h dispatcher \<times> (bool \<times> (nat \<times> int) option) res" where
  "transmit_locked c radio send now mono_now packet wait_for_ack expected_crc d =
     (let payload_type = get_payload_type packet
      in case hash_key c packet of
           Inl e \<Rightarrow> (d, Inl e)
         | Inr packet_hash \<Rightarrow>
             let d = d\<lparr>ds_packet_filter := track_packet (ds_packet_filter d) now packet_hash, ds_state := TRANSMIT\<rparr>
             in case write_to packet of
                  Inl e \<Rightarrow> (d, Inl e)
                | Inr raw \<Rightarrow>
                    (case send raw of
                       SendRaised \<Rightarrow> (d\<lparr>ds_state := IDLE\<rparr>, Inr (False, None))
                     | NoMetadata \<Rightarrow> (d\<lparr>ds_state := IDLE\<rparr>, Inr (False, None))
                     | Confirmed \<Rightarrow>
                         let d = (if ds_client_repeat_enabled d
                                  then d\<lparr>ds_budget := debit_tx_budget radio mono_now packet (ds_budget d)\<rparr> else d)
                         in if payload_type \<in> {PAYLOAD_TYPE_ADVERT, PAYLOAD_TYPE_ACK} \<or> \<not> wait_for_ack
                            then (d\<lparr>ds_state := IDLE\<rparr>, Inr (True, None))
                            else
                              case (case expected_crc of Some crc \<Rightarrow> Inr crc
                                    | None \<Rightarrow> get_crc (cr_sha256 c) packet) of
                                Inl e \<Rightarrow> (d, Inl e)
                              | Inr crc \<Rightarrow>
                                  let (acks, ack_event) = expect_ack crc (ds_acks d)
                                  in (d\<lparr>ds_current_expected_crc := Some crc, ds_acks := acks, ds_state := WAIT\<rparr>,
                                      Inr (True, Some (ack_event, crc)))))"

text \<open>
  The admission loop of \<open>send_packet\<close> with client repeat on: throttle off the lock, look
  again under the lock. \<open>rounds\<close> lists what each look at the flag and the clock sees;
  \<open>None\<close> means that the sender is still waiting when the list ends.
\<close>

function send_admission :: "lora_radio \<Rightarrow> (bool \<times> real) list \<Rightarrow> tx_budget \<Rightarrow> tx_budget option" where
  "send_admission radio rounds st =
     (case await_tx_budget radio rounds st of
        None \<Rightarrow> None
      | Some (st, sleeps) \<Rightarrow>
          (case drop (Suc sleeps) rounds of
             [] \<Rightarrow> None
           | (client_repeat_enabled, now) # rest \<Rightarrow>
               if \<not> client_repeat_enabled then Some st
               else
                 let (st, wait_s) = tx_budget_wait_s radio now st
                 in if wait_s \<le> 0 then Some st else send_admission radio rest st))"
  by pat_completeness auto
termination
proof (relation "measure (\<lambda>(_, rounds, _). length rounds)")
  fix radio :: lora_radio and rounds :: "(bool \<times> real) list" and st st' sleeps a client now rest and x :: "bool \<times> real"
  assume "drop (Suc sleeps) rounds = x # rest"
  then have "length (drop (Suc sleeps) rounds) = Suc (length rest)" by simp
  then have "length rest < length rounds" by simp
  then show "((radio, rest, st'), (radio, rounds, st)) \<in> measure (\<lambda>(_, rounds, _). length rounds)" by simp
qed simp

declare send_admission.simps [simp del]

text \<open>
  \<open>send_packet\<close> up to the wait for the ACK: \<open>Inr None\<close> means that it returns \<open>False\<close>,
  \<open>Inr (Some None)\<close> that it returns \<open>True\<close>, \<open>Inr (Some (Some (event, crc)))\<close> that it waits.
\<close>

definition send_packet ::
  "crypto \<Rightarrow> lora_radio \<Rightarrow> (bytes \<Rightarrow> radio_result) \<Rightarrow> real \<Rightarrow> real \<Rightarrow> (bool \<times> real) list \<Rightarrow> packet \<Rightarrow> bool \<Rightarrow>
   int option \<Rightarrow> 'h dispatcher \<Rightarrow> ('h dispatcher \<times> (nat \<times> int) option option res) option" where
  "send_packet c radio send now mono_now rounds packet wait_for_ack expected_crc d =
     (if get_route_type packet \<in> {ROUTE_TYPE_FLOOD, ROUTE_TYPE_TRANSPORT_FLOOD}
         \<and> get_payload_type packet = PAYLOAD_TYPE_TRACE
      then Some (d, Inr None)
      else
        case bind_res (apply_flood_scope c d packet) (apply_default_path_hash_mode d) of
          Inl e \<Rightarrow> Some (d, Inl e)
        | Inr packet \<Rightarrow>
            map_option (\<lambda>budget.
                case transmit_locked c radio send now mono_now packet wait_for_ack expected_crc (d\<lparr>ds_budget := budget\<rparr>) of
                  (d, Inl e) \<Rightarrow> (d, Inl e)
                | (d, Inr (tx_ok, ack)) \<Rightarrow> (d, Inr (if tx_ok then Some ack else None)))
              (if ds_client_repeat_enabled d then send_admission radio rounds (ds_budget d)
               else Some (ds_budget d)))"

text \<open>The end of the wait for an ACK, however it comes.\<close>

definition finish_ack_wait :: "nat \<Rightarrow> int \<Rightarrow> 'h dispatcher \<Rightarrow> 'h dispatcher \<times> bool" where
  "finish_ack_wait ack_event ack_crc d =
     (let (acks, received) = await_ack_event ack_event ack_crc (ds_acks d)
      in (d\<lparr>ds_state := IDLE, ds_current_expected_crc := None,
            ds_acks := discard_ack_waiter ack_crc ack_event acks\<rparr>, received))"

text \<open>One round of the maintenance loop.\<close>

definition maintenance :: "real \<Rightarrow> real \<Rightarrow> 'h dispatcher \<Rightarrow> 'h dispatcher" where
  "maintenance loop_time now d =
     d\<lparr>ds_acks := expire_recent_acks loop_time (ds_acks d),
       ds_packet_filter := cleanup_old_hashes (ds_packet_filter d) now\<rparr>"

definition clear_packet_filter :: "'h dispatcher \<Rightarrow> 'h dispatcher" where
  "clear_packet_filter d = d\<lparr>ds_packet_filter := PacketFilter_clear (ds_packet_filter d)\<rparr>"

fun find_contact_by_hash :: "byte \<Rightarrow> contact_proxy list \<Rightarrow> contact_proxy option" where
  "find_contact_by_hash src_hash [] = None"
| "find_contact_by_hash src_hash (contact # book) =
     (if cx_public_key contact \<noteq> [] \<and>
         (case fromhex (cx_public_key contact) of Inr (b # _) \<Rightarrow> b = src_hash | _ \<Rightarrow> False)
      then Some contact else find_contact_by_hash src_hash book)"

section \<open>What the dispatcher asks of handlers\<close>

text \<open>
  A handler may transmit, and so mark packets as seen, may change the ACK table and may mark the
  packet; it leaves the received bytes and the dispatcher's configuration alone.
\<close>

definition marks :: "real \<Rightarrow> pystr list \<Rightarrow> packet_filter \<Rightarrow> packet_filter" where
  "marks now hs f = fold (\<lambda>k f. track_packet f now k) hs f"

locale handlers =
  fixes run :: "'h run"
  assumes run_filter: "run h now p d = (d', q, r) \<Longrightarrow> \<exists>hs. ds_packet_filter d' = marks now hs (ds_packet_filter d)"
    and run_config: "run h now p d = (d', q, r) \<Longrightarrow>
      ds_dedupe_enabled d' = ds_dedupe_enabled d \<and> ds_local_identity d' = ds_local_identity d"
begin

lemma dispatch_effect:
  assumes "dispatch run now p d = (d', q, evs)"
  shows "\<exists>hs. ds_packet_filter d' = marks now hs (ds_packet_filter d)"
    and "ds_dedupe_enabled d' = ds_dedupe_enabled d" and "ds_local_identity d' = ds_local_identity d"
proof -
  have "(\<exists>hs. ds_packet_filter d' = marks now hs (ds_packet_filter d))
    \<and> ds_dedupe_enabled d' = ds_dedupe_enabled d \<and> ds_local_identity d' = ds_local_identity d"
  proof (cases "d' = d")
    case True
    have "ds_packet_filter d = marks now [] (ds_packet_filter d)" by (simp add: marks_def)
    with True show ?thesis by blast
  next
    case False
    with assms obtain h r where "run h now p d = (d', r)"
      by (auto simp: dispatch_def Let_def split: option.splits if_splits prod.splits outcome.splits)
    then show ?thesis using run_filter run_config by (cases r) blast
  qed
  then show "\<exists>hs. ds_packet_filter d' = marks now hs (ds_packet_filter d)"
    "ds_dedupe_enabled d' = ds_dedupe_enabled d" "ds_local_identity d' = ds_local_identity d" by blast+
qed

lemma deliver_effect:
  assumes "rx_deliver c run now p d = (d', r)"
  shows "(\<exists>hs. ds_packet_filter d' = marks now hs (ds_packet_filter d))
    \<and> ds_dedupe_enabled d' = ds_dedupe_enabled d \<and> ds_local_identity d' = ds_local_identity d"
proof -
  have refl: "\<exists>hs. ds_packet_filter d = marks now hs (ds_packet_filter d)"
    by (rule exI [of _ "[]"]) (simp add: marks_def)
  show ?thesis
  proof (cases "hash_key c p")
    case (Inl e)
    with assms refl show ?thesis by (auto simp: rx_deliver_def)
  next
    case (Inr k)
    define d1 where "d1 = (if is_transit_direct_not_next_hop (self_key d) p then d
      else d\<lparr>ds_packet_filter := track_packet (ds_packet_filter d) now k\<rparr>)"
    have d1: "\<exists>hs. ds_packet_filter d1 = marks now hs (ds_packet_filter d)"
      using refl by (auto simp: d1_def marks_def intro: exI [of _ "[k]"])
    have c1: "ds_dedupe_enabled d1 = ds_dedupe_enabled d" "ds_local_identity d1 = ds_local_identity d"
      by (simp_all add: d1_def)
    from assms Inr consider "d' = d" | "d' = d1" | q evs where "dispatch run now p d1 = (d', q, evs)"
      by (auto simp: rx_deliver_def Let_def d1_def [symmetric] split: if_splits sum.splits prod.splits)
    then show ?thesis
    proof cases
      case 3
      from dispatch_effect [OF 3] obtain hs where hs: "ds_packet_filter d' = marks now hs (ds_packet_filter d1)"
        and c': "ds_dedupe_enabled d' = ds_dedupe_enabled d1" "ds_local_identity d' = ds_local_identity d1" by blast
      from d1 obtain hs1 where "ds_packet_filter d1 = marks now hs1 (ds_packet_filter d)" by blast
      with hs have "ds_packet_filter d' = marks now (hs1 @ hs) (ds_packet_filter d)" by (simp add: marks_def)
      with c1 c' show ?thesis by auto
    qed (use refl d1 c1 in auto)
  qed
qed

end

section \<open>A node in operation\<close>

text \<open>The things that happen to a dispatcher, each with the time at which it happens.\<close>

datatype node_op =
    Receive real bytes "int option" "real option" "pystr option"
  | Deliver real packet
  | Transmit real real packet bool "int option"
  | Maintain real real

definition node_step ::
  "crypto \<Rightarrow> 'h run \<Rightarrow> radio \<Rightarrow> (bytes \<Rightarrow> radio_result) \<Rightarrow> node_op \<Rightarrow> 'h dispatcher \<Rightarrow> 'h dispatcher" where
  "node_step c run radio send op d =
     (case op of
        Receive now data rssi snr rid \<Rightarrow> fst (rx_parse c radio now data rssi snr rid d)
      | Deliver now p \<Rightarrow> fst (rx_deliver c run now p d)
      | Transmit now mono_now p wait crc \<Rightarrow>
          fst (transmit_locked c (lora_radio.truncate radio) send now mono_now p wait crc d)
      | Maintain loop_time now \<Rightarrow> maintenance loop_time now d)"

fun op_time :: "node_op \<Rightarrow> real" where
  "op_time (Receive now _ _ _ _) = now"
| "op_time (Deliver now _) = now"
| "op_time (Transmit now _ _ _ _) = now"
| "op_time (Maintain _ now) = now"

lemma marks_fold: "marks now hs f = fold filter_step (map (Track now) hs) f"
  by (induction hs arbitrary: f) (simp_all add: marks_def)

context handlers
begin

lemma node_step_effect:
  "\<exists>fops. list_all (op_between (op_time op) (op_time op)) fops
      \<and> ds_packet_filter (node_step c run radio send op d) = fold filter_step fops (ds_packet_filter d)
      \<and> ds_dedupe_enabled (node_step c run radio send op d) = ds_dedupe_enabled d
      \<and> ds_local_identity (node_step c run radio send op d) = ds_local_identity d"
proof (cases op)
  case (Receive now data rssi snr rid)
  obtain d' r where r: "rx_parse c radio now data rssi snr rid d = (d', r)" by fastforce
  then have "d' = d \<or> d' = d\<lparr>ds_packet_filter := blacklist (ds_packet_filter d) now (generate_hash c data)\<rparr>"
    by (auto simp: rx_parse_def Let_def split: if_splits prod.splits sum.splits)
  then show ?thesis
  proof
    assume "d' = d"
    with r Receive show ?thesis by (intro exI [of _ "[]"]) (simp add: node_step_def)
  next
    assume "d' = d\<lparr>ds_packet_filter := blacklist (ds_packet_filter d) now (generate_hash c data)\<rparr>"
    with r Receive show ?thesis
      by (intro exI [of _ "[Blacklist now (generate_hash c data)]"]) (simp add: node_step_def)
  qed
next
  case (Deliver now p)
  obtain d' r where r: "rx_deliver c run now p d = (d', r)" by fastforce
  from deliver_effect [OF r] obtain hs where "ds_packet_filter d' = marks now hs (ds_packet_filter d)"
    "ds_dedupe_enabled d' = ds_dedupe_enabled d" "ds_local_identity d' = ds_local_identity d" by blast
  with r Deliver show ?thesis
    by (intro exI [of _ "map (Track now) hs"]) (simp add: node_step_def marks_fold list_all_iff)
next
  case (Transmit now mono_now p wait crc)
  have "(ds_packet_filter (node_step c run radio send op d) = ds_packet_filter d \<or>
      (\<exists>k. ds_packet_filter (node_step c run radio send op d) = track_packet (ds_packet_filter d) now k))
    \<and> ds_dedupe_enabled (node_step c run radio send op d) = ds_dedupe_enabled d
    \<and> ds_local_identity (node_step c run radio send op d) = ds_local_identity d"
    by (simp add: Transmit node_step_def transmit_locked_def Let_def split: sum.split radio_result.split prod.split)
      blast
  then show ?thesis
    using Transmit by (elim conjE disjE exE) (auto intro: exI [of _ "[]"] exI [of _ "[Track now _]"])
next
  case (Maintain loop_time now)
  then show ?thesis
    by (intro exI [of _ "[Cleanup now]"]) (simp add: node_step_def maintenance_def)
qed

lemma node_run_effect:
  assumes "list_all (\<lambda>op. t0 \<le> op_time op \<and> op_time op \<le> t1) ops"
  shows "\<exists>fops. list_all (op_between t0 t1) fops
      \<and> ds_packet_filter (fold (node_step c run radio send) ops d) = fold filter_step fops (ds_packet_filter d)
      \<and> ds_dedupe_enabled (fold (node_step c run radio send) ops d) = ds_dedupe_enabled d
      \<and> ds_local_identity (fold (node_step c run radio send) ops d) = ds_local_identity d"
  using assms
proof (induction ops arbitrary: d)
  case Nil
  then show ?case by (auto intro: exI [of _ "[]"])
next
  case (Cons op ops)
  have widen: "op_between t0 t1 fop" if "op_between (op_time op) (op_time op) fop" for fop
    using that Cons.prems by (cases fop) auto
  let ?d = "node_step c run radio send op d"
  obtain fops where f: "list_all (op_between (op_time op) (op_time op)) fops"
    "ds_packet_filter ?d = fold filter_step fops (ds_packet_filter d)"
    "ds_dedupe_enabled ?d = ds_dedupe_enabled d" "ds_local_identity ?d = ds_local_identity d"
    using node_step_effect by blast
  from Cons.IH [of ?d] Cons.prems obtain fops' where f': "list_all (op_between t0 t1) fops'"
    "ds_packet_filter (fold (node_step c run radio send) ops ?d) = fold filter_step fops' (ds_packet_filter ?d)"
    "ds_dedupe_enabled (fold (node_step c run radio send) ops ?d) = ds_dedupe_enabled ?d"
    "ds_local_identity (fold (node_step c run radio send) ops ?d) = ds_local_identity ?d" by auto
  have "list_all (op_between t0 t1) fops" using f(1) widen by (auto simp: list_all_iff)
  with f f' show ?case by (intro exI [of _ "fops @ fops'"]) simp
qed

text \<open>A hash that was marked stays a duplicate through whatever the node does meanwhile.\<close>

lemma marked_stays_duplicate:
  assumes "filter_ok (ds_packet_filter d)" and "map_of (pf_packet_hashes (ds_packet_filter d)) k = Some t"
    and "t0 \<le> t" and "list_all (\<lambda>op. t0 \<le> op_time op \<and> op_time op \<le> now) ops"
    and "now - t0 < pf_window_seconds (ds_packet_filter d)"
  shows "is_duplicate (ds_packet_filter (fold (node_step c run radio send) ops d)) now k"
proof -
  from node_run_effect [OF assms(4)] obtain fops where f: "list_all (op_between t0 now) fops"
    "ds_packet_filter (fold (node_step c run radio send) ops d) = fold filter_step fops (ds_packet_filter d)" by blast
  from tracked_run [OF assms(1) f(1) assms(5,2,3)] obtain t' where
    "map_of (pf_packet_hashes (fold filter_step fops (ds_packet_filter d))) k = Some t'" "t0 \<le> t'" by blast
  with assms(5) show ?thesis by (simp add: f(2) is_duplicate_def window_run)
qed

end

section \<open>The node's own handlers\<close>

text \<open>
  The handlers of \<open>register_default_handlers\<close> that correlate ACKs, the advert handler, the raw
  data handler and the fallback: what they do to the dispatcher and to the packet.
\<close>

datatype core_handler = CoreAck | CoreMultipart | CoreAdvert | CoreRawCustom | CoreFallback

definition core_run :: "(int \<Rightarrow> bool) option \<Rightarrow> core_handler run" where
  "core_run listener h now p d =
     (case h of
        CoreAck \<Rightarrow>
          let (acks, q) = AckHandler_call listener now p (ds_acks d) in (d\<lparr>ds_acks := acks\<rparr>, q, Returned False)
      | CoreMultipart \<Rightarrow>
          (d\<lparr>ds_acks := MultipartAckHandler_call listener now p (ds_acks d)\<rparr>, p, Returned False)
      | CoreAdvert \<Rightarrow> (d, p, Returned False)
      | CoreRawCustom \<Rightarrow> (d, p, Returned False)
      | CoreFallback \<Rightarrow> (d, p, Returned False))"

interpretation core: handlers "core_run listener" for listener
proof
  fix h now p and d d' :: "core_handler dispatcher" and q r
  assume r: "core_run listener h now p d = (d', q, r)"
  then have "ds_packet_filter d' = ds_packet_filter d \<and> ds_dedupe_enabled d' = ds_dedupe_enabled d
      \<and> ds_local_identity d' = ds_local_identity d"
    by (auto simp: core_run_def split: core_handler.splits prod.splits)
  moreover have "ds_packet_filter d = marks now [] (ds_packet_filter d)" by (simp add: marks_def)
  ultimately show "\<exists>hs. ds_packet_filter d' = marks now hs (ds_packet_filter d)"
    "ds_dedupe_enabled d' = ds_dedupe_enabled d \<and> ds_local_identity d' = ds_local_identity d" by metis+
qed

section \<open>Duplicates and echoes\<close>

lemma hash_key_cong:
  assumes "get_payload_type q = get_payload_type p" and "get_payload_type p \<noteq> PAYLOAD_TYPE_TRACE"
    and "get_payload q = get_payload p"
  shows "hash_key c q = hash_key c p" and "\<exists>k. hash_key c p = Inr k"
proof -
  have g: "slice_to (pk_payload_len q) (pk_payload q) = slice_to (pk_payload_len p) (pk_payload p)"
    using assms(3) by (simp add: get_payload_def)
  show "hash_key c q = hash_key c p"
    using assms(1,2) g by (simp add: hash_key_def calculate_packet_hash_def
        PacketHashingUtils_calculate_packet_hash_def hash_input_def)
  show "\<exists>k. hash_key c p = Inr k" using packet_hash_total [OF assms(2), of "cr_sha256 c"] by (auto simp: hash_key_def)
qed

lemma marks_tracked:
  "map_of (pf_packet_hashes f) k = Some t \<Longrightarrow> t \<le> now \<Longrightarrow>
   \<exists>t'. map_of (pf_packet_hashes (marks now hs f)) k = Some t' \<and> t \<le> t'"
proof (induction hs arbitrary: f t)
  case Nil
  then show ?case by (simp add: marks_def)
next
  case (Cons h hs)
  have "\<exists>t1. map_of (pf_packet_hashes (track_packet f now h)) k = Some t1 \<and> t \<le> t1 \<and> t1 \<le> now"
    using Cons.prems by (auto simp: track_packet_def update_conv')
  with Cons.IH [of "track_packet f now h"] show ?case by (force simp: marks_def)
qed

lemma filter_ok_ops: "filter_ok f \<Longrightarrow> filter_ok (fold filter_step fops f)"
  by (rule blacklist_store.invar_run)

context handlers
begin

lemma delivered_marked:
  assumes "hash_key c p = Inr k" and "\<not> is_transit_direct_not_next_hop (self_key d) p"
    and "\<not> is_duplicate (ds_packet_filter d) now k"
  shows "\<exists>t. map_of (pf_packet_hashes (ds_packet_filter (fst (rx_deliver c run now p d)))) k = Some t \<and> now \<le> t"
proof -
  let ?d = "d\<lparr>ds_packet_filter := track_packet (ds_packet_filter d) now k\<rparr>"
  have tracked: "map_of (pf_packet_hashes (ds_packet_filter ?d)) k = Some now"
    by (simp add: track_packet_def update_conv')
  obtain d' q evs where disp: "dispatch run now p ?d = (d', q, evs)" by (rule prod_cases3)
  have "fst (rx_deliver c run now p d) = ?d \<or> fst (rx_deliver c run now p d) = d'"
    using assms disp
    by (cases "ds_client_repeat_enabled d"; cases "build_client_repeat_forward (self_key ?d) p")
      (simp_all add: rx_deliver_def Let_def)
  moreover from dispatch_effect(1) [OF disp] obtain hs where "ds_packet_filter d' = marks now hs (ds_packet_filter ?d)"
    by blast
  ultimately show ?thesis using tracked marks_tracked [OF tracked order_refl, of hs] by auto
qed

lemma duplicate_ignored:
  assumes "is_duplicate (ds_packet_filter d) now k" and "hash_key c q = Inr k" and "ds_dedupe_enabled d"
    and "\<not> is_transit_direct_not_next_hop (self_key d) q"
  shows "rx_deliver c run now q d = (d, Inr [])"
  using assms by (simp add: rx_deliver_def)

lemma ignored_after_mark:
  assumes "filter_ok (ds_packet_filter d)" and "map_of (pf_packet_hashes (ds_packet_filter d)) k = Some t"
    and "t0 \<le> t" and "list_all (\<lambda>op. t0 \<le> op_time op \<and> op_time op \<le> now) ops"
    and "now - t0 < pf_window_seconds (ds_packet_filter d)"
    and "hash_key c q = Inr k" and "ds_dedupe_enabled d" and "\<not> is_transit_direct_not_next_hop (self_key d) q"
  shows "rx_deliver c run now q (fold (node_step c run radio send) ops d)
    = (fold (node_step c run radio send) ops d, Inr [])"
proof (rule duplicate_ignored)
  let ?e = "fold (node_step c run radio send) ops d"
  from node_run_effect [OF assms(4)]
  have "ds_dedupe_enabled ?e = ds_dedupe_enabled d" "ds_local_identity ?e = ds_local_identity d" by blast+
  with assms(7,8) show "ds_dedupe_enabled ?e" "\<not> is_transit_direct_not_next_hop (self_key ?e) q"
    by (simp_all add: self_key_def)
  show "is_duplicate (ds_packet_filter ?e) now k" by (rule marked_stays_duplicate [OF assms(1-5)])
  show "hash_key c q = Inr k" by (rule assms(6))
qed

lemma delivered_once:
  assumes "filter_ok (ds_packet_filter d)" and "ds_dedupe_enabled d"
    and "hash_key c p = Inr k" and "hash_key c q = Inr k"
    and "\<not> is_transit_direct_not_next_hop (self_key d) p" and "\<not> is_transit_direct_not_next_hop (self_key d) q"
    and "\<not> is_duplicate (ds_packet_filter d) t0 k"
    and "list_all (\<lambda>op. t0 \<le> op_time op \<and> op_time op \<le> now) ops"
    and "now - t0 < pf_window_seconds (ds_packet_filter d)"
    and "e = fold (node_step c run radio send) ops (fst (rx_deliver c run t0 p d))"
  shows "rx_deliver c run now q e = (e, Inr [])"
proof -
  let ?d = "fst (rx_deliver c run t0 p d)"
  obtain t where t: "map_of (pf_packet_hashes (ds_packet_filter ?d)) k = Some t" "t0 \<le> t"
    using delivered_marked [OF assms(3,5,7)] by blast
  obtain d' r where "rx_deliver c run t0 p d = (d', r)" by fastforce
  with deliver_effect [OF this] obtain hs where hs: "ds_packet_filter ?d = marks t0 hs (ds_packet_filter d)"
    and cfg: "ds_dedupe_enabled ?d = ds_dedupe_enabled d" "ds_local_identity ?d = ds_local_identity d" by auto
  have ok: "filter_ok (ds_packet_filter ?d)" unfolding hs marks_fold by (rule filter_ok_ops [OF assms(1)])
  have w: "pf_window_seconds (ds_packet_filter ?d) = pf_window_seconds (ds_packet_filter d)"
    unfolding hs marks_fold by (rule window_run)
  show ?thesis
    unfolding assms(10) using assms(2,6,9) cfg w
    by (intro ignored_after_mark [OF ok t assms(8) _ assms(4)]) (simp_all add: self_key_def)
qed

end

text \<open>
  C3: No packet is delivered or forwarded twice. Once a node has processed a packet that is not in
  transit past it, then whatever it receives, delivers, transmits or cleans up afterwards, every
  further copy (any packet with the same packet hash, so with any path) that comes up for
  delivery less than the filter's window later is ignored: no handler runs, nothing is forwarded,
  and the dispatcher is left unchanged.
\<close>

theorem packet_delivered_once:
  assumes "handlers run" and "filter_ok (ds_packet_filter d)" and "ds_dedupe_enabled d"
    and "hash_key c p = Inr k" and "hash_key c q = Inr k"
    and "\<not> is_transit_direct_not_next_hop (self_key d) p" and "\<not> is_transit_direct_not_next_hop (self_key d) q"
    and "\<not> is_duplicate (ds_packet_filter d) t0 k"
    and "list_all (\<lambda>op. t0 \<le> op_time op \<and> op_time op \<le> now) ops"
    and "now - t0 < pf_window_seconds (ds_packet_filter d)"
    and "e = fold (node_step c run radio send) ops (fst (rx_deliver c run t0 p d))"
  shows "rx_deliver c run now q e = (e, Inr [])"
  by (rule handlers.delivered_once [OF assms])


definition sample_node :: "core_handler dispatcher" where
  "sample_node = (new_dispatcher (new_packet_filter 30) True)\<lparr>ds_client_repeat_enabled := True,
     ds_local_identity := Some (toy_node 1), ds_handlers := [(PAYLOAD_TYPE_ACK, CoreAck)],
     ds_fallback_handler := Some CoreFallback\<rparr>"

lemma sample_node_simps:
  "ds_packet_filter sample_node = new_packet_filter 30" "ds_dedupe_enabled sample_node"
  "filter_ok (ds_packet_filter sample_node)" "\<not> is_duplicate (new_packet_filter 30) t k"
  "pf_window_seconds (new_packet_filter 30) = 30"
  by (simp_all add: sample_node_def new_dispatcher_def new_packet_filter_ok)
    (simp_all add: new_packet_filter_def is_duplicate_def)

definition sample_echo :: packet where
  "sample_echo = sample_packet\<lparr>pk_path_len := 66, pk_path := [7, 9, 1, 1]\<rparr>"

lemma sample_flood:
  "\<not> is_route_direct sample_packet" "\<not> is_route_direct sample_echo"
  "get_payload_type sample_packet \<noteq> PAYLOAD_TYPE_TRACE"
  "get_payload_type sample_echo = get_payload_type sample_packet" "get_payload sample_echo = get_payload sample_packet"
  by code_simp+

theorem packet_delivered_once_witness:
  "snd (rx_deliver toy_crypto (core_run None) 29 sample_packet
     (maintenance 20 20 (fst (rx_deliver toy_crypto (core_run None) 0 sample_packet sample_node)))) = Inr []"
proof -
  obtain k where k: "hash_key toy_crypto sample_packet = Inr k"
    using hash_key_cong(2) [of sample_packet sample_packet toy_crypto] by (auto simp: sample_flood)
  from packet_delivered_once [OF core.handlers_axioms [of None] sample_node_simps(3,2) k k
      _ _ _ _ _ refl, of 0 29 "[Maintain 20 20]"]
  show ?thesis by (simp add: sample_node_simps sample_flood is_transit_direct_not_next_hop_def node_step_def)
qed

text \<open>
  A node never takes the echo of its own transmission for traffic. Once a node has begun to
  transmit a packet (however the transmission ends), every packet of the same payload type and
  payload that neighbours send back with whatever path, and that is not in transit past the node,
  is ignored when it comes up for delivery less than the filter's window later, whatever the node
  did in between.
\<close>

lemma own_echo_ignored:
  assumes "handlers run" and "filter_ok (ds_packet_filter d)" and "ds_dedupe_enabled d"
    and "get_payload_type p \<noteq> PAYLOAD_TYPE_TRACE"
    and "get_payload_type q = get_payload_type p" and "get_payload q = get_payload p"
    and "\<not> is_transit_direct_not_next_hop (self_key d) q"
    and "list_all (\<lambda>op. t0 \<le> op_time op \<and> op_time op \<le> now) ops"
    and "now - t0 < pf_window_seconds (ds_packet_filter d)"
    and "e = fold (node_step c run radio send) ops
               (fst (transmit_locked c lradio send' t0 mono_now p wait_for_ack expected_crc d))"
  shows "rx_deliver c run now q e = (e, Inr [])"
proof -
  let ?d = "fst (transmit_locked c lradio send' t0 mono_now p wait_for_ack expected_crc d)"
  obtain k where k: "hash_key c p = Inr k" "hash_key c q = Inr k"
    using hash_key_cong [OF assms(5,4,6)] by metis
  have eff: "ds_packet_filter ?d = track_packet (ds_packet_filter d) t0 k"
    "ds_dedupe_enabled ?d = ds_dedupe_enabled d" "ds_local_identity ?d = ds_local_identity d"
    by (simp_all add: transmit_locked_def Let_def k(1) split: sum.split radio_result.split prod.split)
  have "filter_ok (ds_packet_filter ?d)" using filter_ok_ops [OF assms(2), of "[Track t0 k]"] by (simp add: eff)
  moreover have "map_of (pf_packet_hashes (ds_packet_filter ?d)) k = Some t0"
    by (simp add: eff track_packet_def update_conv')
  ultimately show ?thesis
    unfolding assms(10) using assms(3,7,9) eff
    by (intro handlers.ignored_after_mark [OF assms(1) _ _ order_refl assms(8) _ k(2)])
      (simp_all add: self_key_def track_packet_def)
qed

section \<open>What a reception leads to\<close>

definition handled_here :: "'h dispatcher \<Rightarrow> packet \<Rightarrow> 'h \<Rightarrow> bool" where
  "handled_here d p h \<longleftrightarrow> get_handler d (get_payload_type p) = Some h \<and> \<not> is_transit_direct_delivery d p (get_payload_type p)"

lemma dispatch_cases:
  assumes "dispatch run now p d = (d', q, evs)"
  obtains (unhandled) "\<And>h. \<not> handled_here d p h" "d' = d" "q = p" "set evs \<subseteq> {Notified p}"
    | (raised) h where "handled_here d p h" "run h now p d = (d', q, Raised)" "evs = [Handled h p]"
    | (returned) h q' a where "handled_here d p h" "run h now p d = (d', q', Returned a)"
        "q = (if a then mark_do_not_retransmit q' else q')" "evs = [Handled h p, Notified q]"
proof (cases "\<exists>h. handled_here d p h")
  case False
  with assms show thesis
    by (intro unhandled) (auto simp: dispatch_def Let_def handled_here_def split: option.splits if_splits)
next
  case True
  then obtain h where h: "handled_here d p h" ..
  show thesis
  proof (cases "run h now p d")
    case (fields e r oc)
    with assms h show thesis
      by (cases oc) (auto simp: dispatch_def Let_def handled_here_def intro: raised returned)
  qed
qed

lemma deliver_fresh:
  assumes "rx_deliver c run now p d = (d', Inr evs)" and "hash_key c p = Inr k"
    and "\<not> is_duplicate (ds_packet_filter d) now k"
    and "d1 = (if is_transit_direct_not_next_hop (self_key d) p then d
               else d\<lparr>ds_packet_filter := track_packet (ds_packet_filter d) now k\<rparr>)"
  obtains q evs' fwd where "dispatch run now p d1 = (d', q, evs')"
    "(if ds_client_repeat_enabled d then build_client_repeat_forward (self_key d) p else Inr None) = Inr fwd"
    "evs = evs' @ (case fwd of None \<Rightarrow> [] | Some f \<Rightarrow>
       if \<not> (is_route_flood f \<and> is_marked_do_not_retransmit q) then [Forward f] else [])"
proof -
  have cfg: "self_key d1 = self_key d" "ds_client_repeat_enabled d1 = ds_client_repeat_enabled d"
    by (simp_all add: assms(4) self_key_def)
  obtain d2 q evs' where disp: "dispatch run now p d1 = (d2, q, evs')" by (rule prod_cases3)
  have "rx_deliver c run now p d =
      (case (if ds_client_repeat_enabled d then build_client_repeat_forward (self_key d) p else Inr None) of
         Inl e \<Rightarrow> (d1, Inl e)
       | Inr fwd \<Rightarrow> (d2, Inr (evs' @ (case fwd of None \<Rightarrow> [] | Some f \<Rightarrow>
           if \<not> (is_route_flood f \<and> is_marked_do_not_retransmit q) then [Forward f] else []))))"
    using disp by (simp only: rx_deliver_def assms(2,3) sum.case Let_def simp_thms if_False assms(4) [symmetric] cfg
        prod.case)
  with assms(1) disp that show thesis by (auto split: sum.splits)
qed

text \<open>
  C28: What a reception leads to. For a packet that is not a duplicate, the handler that runs is
  the registered one (or the fallback), on the packet as received, and none runs for a packet of a
  local-delivery type that still has hops to go. A packet is forwarded exactly when client repeat
  is on and the forwarding rule builds it, except that a flood is not repeated when the packet was
  consumed here, that is when the handler authenticated it or marked it.
\<close>

theorem reception_effects:
  assumes "rx_deliver c run now p d = (d', Inr evs)" and "hash_key c p = Inr k"
    and "\<not> is_duplicate (ds_packet_filter d) now k"
    and "d1 = (if is_transit_direct_not_next_hop (self_key d) p then d
               else d\<lparr>ds_packet_filter := track_packet (ds_packet_filter d) now k\<rparr>)"
  shows "(\<forall>h q. Handled h q \<in> set evs \<longleftrightarrow> q = p \<and> handled_here d p h) \<and>
    (\<forall>f. Forward f \<in> set evs \<longleftrightarrow> ds_client_repeat_enabled d
       \<and> build_client_repeat_forward (self_key d) p = Inr (Some f)
       \<and> \<not> (is_route_flood f \<and> (\<exists>h d2 q oc. handled_here d p h \<and> run h now p d1 = (d2, q, oc)
                \<and> (oc = Returned True \<or> is_marked_do_not_retransmit q)
              \<or> (\<forall>h. \<not> handled_here d p h) \<and> is_marked_do_not_retransmit p)))"
proof -
  obtain q evs' fwd where disp: "dispatch run now p d1 = (d', q, evs')"
    and fwd: "(if ds_client_repeat_enabled d then build_client_repeat_forward (self_key d) p else Inr None) = Inr fwd"
    and evs: "evs = evs' @ (case fwd of None \<Rightarrow> [] | Some f \<Rightarrow>
       if \<not> (is_route_flood f \<and> is_marked_do_not_retransmit q) then [Forward f] else [])"
    by (rule deliver_fresh [OF assms])
  have here: "handled_here d1 p h = handled_here d p h" for h
    by (simp add: assms(4) handled_here_def get_handler_def is_transit_direct_delivery_def split: option.split)
  have same: "handled_here d p h' \<longleftrightarrow> h' = h" if "handled_here d1 p h" for h h'
    using that unfolding here by (auto simp: handled_here_def)
  have f: "Forward f \<in> set evs' \<or> fwd = Some f \<and> \<not> (is_route_flood f \<and> is_marked_do_not_retransmit q)
      \<longleftrightarrow> Forward f \<in> set evs" for f by (auto simp: evs split: option.splits)
  have hd: "Handled h r \<in> set evs' \<longleftrightarrow> Handled h r \<in> set evs" for h r by (auto simp: evs split: option.splits)
  have b: "fwd = Some f \<longleftrightarrow> ds_client_repeat_enabled d \<and> build_client_repeat_forward (self_key d) p = Inr (Some f)" for f
    using fwd by (auto split: if_splits)
  from disp show ?thesis
  proof (cases rule: dispatch_cases)
    case unhandled
    then show ?thesis unfolding f [symmetric] hd [symmetric] b here by auto
  next
    case (raised h)
    then show ?thesis unfolding f [symmetric] hd [symmetric] b here using same [OF raised(1)] by auto
  next
    case (returned h q' a)
    then show ?thesis unfolding f [symmetric] hd [symmetric] b here using same [OF returned(1)]
      by (auto simp: mark_do_not_retransmit_def is_marked_do_not_retransmit_def)
  qed
qed

lemma sample_reception:
  "case rx_deliver toy_crypto (core_run None) 0 sample_packet sample_node of (d', Inr evs) \<Rightarrow> True | _ \<Rightarrow> False"
  "handled_here sample_node sample_packet CoreFallback" "ds_client_repeat_enabled sample_node"
  "case build_client_repeat_forward (self_key sample_node) sample_packet of Inr (Some f) \<Rightarrow> is_route_flood f | _ \<Rightarrow> False"
  "\<not> is_marked_do_not_retransmit sample_packet"
  by code_simp+

theorem reception_effects_witness:
  "\<exists>d' evs f. rx_deliver toy_crypto (core_run None) 0 sample_packet sample_node = (d', Inr evs)
     \<and> Handled CoreFallback sample_packet \<in> set evs \<and> Forward f \<in> set evs"
proof -
  obtain k where k: "hash_key toy_crypto sample_packet = Inr k"
    using hash_key_cong(2) [of sample_packet sample_packet toy_crypto] by (auto simp: sample_flood)
  obtain d' evs where r: "rx_deliver toy_crypto (core_run None) 0 sample_packet sample_node = (d', Inr evs)"
    using sample_reception(1) by (auto split: prod.splits sum.splits)
  obtain f where f: "build_client_repeat_forward (self_key sample_node) sample_packet = Inr (Some f)"
    using sample_reception(4) by (auto split: sum.splits option.splits)
  have here: "handled_here sample_node sample_packet h \<longleftrightarrow> h = CoreFallback" for h
    using sample_reception(2) by (auto simp: handled_here_def)
  from reception_effects [OF r k _ refl] f r show ?thesis
    by (intro exI [of _ d'] exI [of _ evs] exI [of _ f])
      (simp add: sample_node_simps here sample_reception(3,5) core_run_def)
qed

end
