(* ===== verification/Text_Handler.thy ===== *)
theory Text_Handler
  imports Region_Map Packet_Builder Protocol_Utils Ack_Tracking
begin

text \<open>
  The handler of direct messages, \<open>node/handlers/text.py\<close>: matching the sender, the ACK it
  owes, the message it publishes, and replies to pending commands. What a call does beyond
  changing the handler is a list of effects in the order in which the code causes them. Random
  bytes, Python's string hash and the behaviour of callbacks are arguments.
\<close>

section \<open>State\<close>

definition TXT_ACK_DELAY_MS :: int where "TXT_ACK_DELAY_MS = 200"
definition MULTI_ACK_STAGGER_MS :: int where "MULTI_ACK_STAGGER_MS = 300"
definition SUPPORTED_TXT_TYPES :: "int list" where
  "SUPPORTED_TXT_TYPES = [TXT_TYPE_PLAIN, TXT_TYPE_CLI_DATA, TXT_TYPE_SIGNED_PLAIN, TXT_TYPE_CLI_COMMAND]"

record 'cb text_handler =
  th_local_identity :: local_identity
  th_contacts :: contact_store
  th_event_service :: bool
  th_should_ack :: "(bytes \<Rightarrow> int \<Rightarrow> int \<Rightarrow> bool res) option"
  th_pending_command_responses :: "(bytes, 'cb) dict"
  th_multi_acks :: int

definition register_command_response :: "bytes \<Rightarrow> 'cb \<Rightarrow> 'cb text_handler \<Rightarrow> 'cb text_handler" where
  "register_command_response pubkey callback th =
     th\<lparr>th_pending_command_responses := AList.update pubkey callback (th_pending_command_responses th)\<rparr>"

definition unregister_command_response :: "bytes \<Rightarrow> 'cb \<Rightarrow> 'cb text_handler \<Rightarrow> 'cb text_handler" where
  "unregister_command_response pubkey callback th =
     (if map_of (th_pending_command_responses th) pubkey = Some callback
      then th\<lparr>th_pending_command_responses := AList.delete pubkey (th_pending_command_responses th)\<rparr>
      else th)"

definition set_multi_acks :: "int \<Rightarrow> 'cb text_handler \<Rightarrow> 'cb text_handler" where
  "set_multi_acks value th = th\<lparr>th_multi_acks := value\<rparr>"

section \<open>Helpers\<close>

definition contact_pubkey_bytes :: "contact_proxy \<Rightarrow> bytes res" where
  "contact_pubkey_bytes contact = fromhex (cx_public_key contact)"

definition text_len :: "bytes \<Rightarrow> nat" where
  "text_len message_body = length (takeWhile (\<lambda>b. b \<noteq> 0) message_body)"

definition calc_ack_hash ::
  "crypto \<Rightarrow> bytes \<Rightarrow> local_identity \<Rightarrow> int \<Rightarrow> bytes \<Rightarrow> bytes \<Rightarrow> bytes \<Rightarrow> int \<Rightarrow> int \<Rightarrow> bytes option res" where
  "calc_ack_hash c urandom1 local_identity txt_type decrypted message_body pubkey timestamp_int flags =
     (let n = text_len message_body
      in if txt_type = TXT_TYPE_PLAIN then
           let ext_attempt = (if n + 1 < length message_body then uint (message_body ! (n + 1)) else 0)
           in bind_res (calc_text_ack_hash c urandom1 pubkey timestamp_int flags (TextBytes (take n message_body))
                ext_attempt True) (\<lambda>h. Inr (Some h))
         else if txt_type = TXT_TYPE_SIGNED_PLAIN then
           let signed_span = take (9 + n) decrypted
           in Inr (Some (take 4 (cr_sha256 c (signed_span @ get_public_key local_identity))))
         else Inr None)"

definition build_ack_responses ::
  "crypto \<Rightarrow> bytes \<Rightarrow> local_identity \<Rightarrow> int \<Rightarrow> packet \<Rightarrow> contact_proxy \<Rightarrow> bytes \<Rightarrow> bytes \<Rightarrow> bytes \<Rightarrow> bool \<Rightarrow>
   (packet \<times> int) list res" where
  "build_ack_responses c urandom4 local_identity multi_acks packet matched_contact shared_secret pubkey ack_hash is_flood =
     (if is_flood then
        let in_path_len = pk_path_len packet;
            (path_len_encoded, incoming_path) =
              (if is_valid_path_len in_path_len
               then (Some in_path_len, map uint (slice_to (get_path_byte_len in_path_len) (pk_path packet)))
               else (None, []))
        in bind_res (hash_byte pubkey) (\<lambda>dest_hash.
           bind_res (hash_byte (get_public_key local_identity)) (\<lambda>src_hash.
           bind_res (create_path_return c urandom4 (uint dest_hash) (uint src_hash) shared_secret incoming_path
                       PAYLOAD_TYPE_ACK ack_hash path_len_encoded) (\<lambda>ack_packet.
           bind_res (apply_reply_scope c ack_packet (Some packet)) (\<lambda>ack_packet.
           Inr [(ack_packet, TXT_ACK_DELAY_MS)]))))
      else
        let out_path_len = cx_out_path_len matched_contact;
            has_known_path = (0 \<le> out_path_len \<and> is_valid_path_len out_path_len)
        in if \<not> has_known_path then
             bind_res (create_ack_from_bytes ack_hash None None (str ''flood'')) (\<lambda>ack_packet.
             bind_res (apply_reply_scope c ack_packet (Some packet)) (\<lambda>ack_packet.
             Inr [(ack_packet, TXT_ACK_DELAY_MS)]))
           else
             let out_path = map uint (cx_out_path matched_contact)
             in bind_res (create_ack_from_bytes ack_hash (Some out_path) (Some out_path_len) (str ''direct'')) (\<lambda>ack_packet.
                if multi_acks \<le> 0 then Inr [(ack_packet, TXT_ACK_DELAY_MS)]
                else
                  bind_res (create_multi_ack ack_hash 1 (Some out_path) (Some out_path_len)) (\<lambda>multi_packet.
                  Inr [(multi_packet, TXT_ACK_DELAY_MS), (ack_packet, TXT_ACK_DELAY_MS + MULTI_ACK_STAGGER_MS)])))"

definition ack_allowed :: "(bytes \<Rightarrow> int \<Rightarrow> int \<Rightarrow> bool res) option \<Rightarrow> bytes \<Rightarrow> int \<Rightarrow> int \<Rightarrow> bool" where
  "ack_allowed should_ack sender_pubkey txt_type sender_timestamp =
     (case should_ack of
        None \<Rightarrow> True
      | Some f \<Rightarrow> (case f sender_pubkey txt_type sender_timestamp of Inr b \<Rightarrow> b | Inl _ \<Rightarrow> False))"

section \<open>Matching the sender\<close>

definition text_candidates :: "contact_store \<Rightarrow> byte \<Rightarrow> contact_proxy list" where
  "text_candidates store src_hash =
     filter (\<lambda>contact. case contact_pubkey_bytes contact of
                Inr (b # _) \<Rightarrow> b = src_hash | _ \<Rightarrow> False) (Contact_Store.contacts store)"

definition text_try :: "crypto \<Rightarrow> local_identity \<Rightarrow> bytes \<Rightarrow> contact_proxy \<Rightarrow> (bytes \<times> bytes) option" where
  "text_try c local_identity payload contact =
     (case bind_res (contact_pubkey_bytes contact) (\<lambda>pubkey_bytes.
             if length pubkey_bytes \<noteq> 32 then Inr None
             else bind_res (new_identity c pubkey_bytes) (\<lambda>peer_id.
                  bind_res (calc_shared_secret c peer_id (get_private_key local_identity)) (\<lambda>ss.
                  bind_res (mac_then_decrypt c (take 16 ss) ss payload) (\<lambda>decrypted.
                  Inr (Some (ss, decrypted)))))) of
        Inr r \<Rightarrow> r | Inl _ \<Rightarrow> None)"

fun text_match ::
  "crypto \<Rightarrow> local_identity \<Rightarrow> bytes \<Rightarrow> contact_proxy list \<Rightarrow> (contact_proxy \<times> bytes \<times> bytes) option" where
  "text_match c local_identity payload [] = None"
| "text_match c local_identity payload (contact # candidates) =
     (case text_try c local_identity payload contact of
        Some (ss, decrypted) \<Rightarrow> Some (contact, ss, decrypted)
      | None \<Rightarrow> text_match c local_identity payload candidates)"

section \<open>Handling a message\<close>

record message_data =
  md_message_id :: pystr
  md_contact_name :: pystr
  md_contact_pubkey :: pystr
  md_message_text :: pystr
  md_sender_prefix :: pystr
  md_txt_type :: int
  md_timestamp :: int
  md_path_len :: int
  md_rssi :: int
  md_snr :: real
  md_packet_hash :: pystr

datatype 'cb text_effect =
    ScheduleAck packet int
  | Decrypted pystr int int
  | CommandReply 'cb pystr contact_proxy
  | NewMessage message_data

definition text_sync_since :: "contact_proxy \<Rightarrow> int \<Rightarrow> contact_store \<Rightarrow> contact_store" where
  "text_sync_since matched_contact timestamp_int store =
     (if cx_sync_since matched_contact < timestamp_int
      then fst (ContactStore_update ((cx_contact matched_contact)\<lparr>ct_sync_since := timestamp_int\<rparr>) store)
      else store)"

definition text_acks ::
  "crypto \<Rightarrow> bytes \<Rightarrow> bytes \<Rightarrow> 'cb text_handler \<Rightarrow> packet \<Rightarrow> contact_proxy \<Rightarrow> bytes \<Rightarrow> bytes \<Rightarrow> bytes \<Rightarrow> bytes \<Rightarrow>
   int \<Rightarrow> int \<Rightarrow> int \<Rightarrow> (packet \<times> int) list res" where
  "text_acks c urandom1 urandom4 th packet matched_contact shared_secret sender_pubkey decrypted message_body
      timestamp_int flags txt_type =
     bind_res (calc_ack_hash c urandom1 (th_local_identity th) txt_type decrypted message_body sender_pubkey
                 timestamp_int flags) (\<lambda>ack_hash.
     case ack_hash of
       None \<Rightarrow> Inr []
     | Some h \<Rightarrow>
         if \<not> ack_allowed (th_should_ack th) sender_pubkey txt_type timestamp_int then Inr []
         else build_ack_responses c urandom4 (th_local_identity th) (th_multi_acks th) packet matched_contact
                shared_secret sender_pubkey h (is_route_flood packet))"

definition message_id :: "(pystr \<Rightarrow> int) \<Rightarrow> pystr \<Rightarrow> pystr \<Rightarrow> int \<Rightarrow> pystr" where
  "message_id py_hash name decoded_msg message_timestamp =
     (let normalized_timestamp = (message_timestamp div 1000) * 1000;
          content_hash = py_hash (name @ str ''_'' @ decoded_msg @ str ''_'' @ int_str normalized_timestamp) AND 0xFFFFFFFF
      in str ''rx_'' @ int_str normalized_timestamp @ str ''_'' @ hex_str (rev (le_bytes 4 content_hash)))"

definition message_event ::
  "crypto \<Rightarrow> (pystr \<Rightarrow> int) \<Rightarrow> packet \<Rightarrow> contact_proxy \<Rightarrow> pystr \<Rightarrow> bytes \<Rightarrow> int \<Rightarrow> int \<Rightarrow> message_data res" where
  "message_event c py_hash packet matched_contact decoded_msg sender_prefix txt_type timestamp_int =
     bind_res (calculate_packet_hash (cr_sha256 c) packet) (\<lambda>h.
     Inr \<lparr>md_message_id = message_id py_hash (cx_name matched_contact) decoded_msg timestamp_int,
          md_contact_name = cx_name matched_contact, md_contact_pubkey = cx_public_key matched_contact,
          md_message_text = decoded_msg, md_sender_prefix = hex_str sender_prefix, md_txt_type = txt_type,
          md_timestamp = timestamp_int,
          md_path_len = (if is_route_flood packet then pk_path_len packet else 0xFF),
          md_rssi = pk_rssi packet, md_snr = get_snr packet, md_packet_hash = hex_upper_str h\<rparr>)"

text \<open>The part of a call that follows a successful decryption of a supported, well-formed message.\<close>

definition text_deliver ::
  "crypto \<Rightarrow> bytes \<Rightarrow> bytes \<Rightarrow> (pystr \<Rightarrow> int) \<Rightarrow> ('cb \<Rightarrow> pystr \<Rightarrow> bool) \<Rightarrow> packet \<Rightarrow> contact_proxy \<Rightarrow> bytes \<Rightarrow> bytes \<Rightarrow>
   int \<Rightarrow> int \<Rightarrow> bytes \<Rightarrow> bytes \<Rightarrow> 'cb text_handler \<Rightarrow> 'cb text_handler \<times> 'cb text_effect list \<times> bool res" where
  "text_deliver c urandom1 urandom4 py_hash callback_ok packet matched_contact shared_secret decrypted flags txt_type
      sender_prefix message_body th =
     (case contact_pubkey_bytes matched_contact of
        Inl e \<Rightarrow> (th, [], Inl e)
      | Inr sender_pubkey \<Rightarrow>
     (let timestamp_int = le_int (take 4 decrypted);
          th = (if txt_type = TXT_TYPE_SIGNED_PLAIN
                then th\<lparr>th_contacts := text_sync_since matched_contact timestamp_int (th_contacts th)\<rparr> else th)
      in case text_acks c urandom1 urandom4 th packet matched_contact shared_secret sender_pubkey decrypted
                message_body timestamp_int flags txt_type of
           Inl e \<Rightarrow> (th, [], Inl e)
         | Inr scheduled \<Rightarrow>
             (let acks = map (\<lambda>(pkt, delay_ms). ScheduleAck pkt delay_ms) scheduled
              in case utf8_decode Replace (take (text_len message_body) message_body) of
                   Inl e \<Rightarrow> (th, acks, Inl e)
                 | Inr decoded_msg \<Rightarrow>
                     (let effs = acks @ [Decrypted decoded_msg txt_type timestamp_int];
                          publish = (if th_event_service th
                            then (case message_event c py_hash packet matched_contact decoded_msg sender_prefix
                                         txt_type timestamp_int of
                                    Inr m \<Rightarrow> [NewMessage m] | Inl _ \<Rightarrow> [])
                            else [])
                      in case (if txt_type = TXT_TYPE_CLI_DATA
                               then map_of (th_pending_command_responses th) sender_pubkey else None) of
                           Some callback \<Rightarrow>
                             (let th = th\<lparr>th_pending_command_responses :=
                                        AList.delete sender_pubkey (th_pending_command_responses th)\<rparr>;
                                  effs = effs @ [CommandReply callback decoded_msg matched_contact]
                              in if callback_ok callback decoded_msg then (th, effs, Inr True)
                                 else (th, effs @ publish, Inr True))
                         | None \<Rightarrow> (th, effs @ publish, Inr True)))))"

definition TextMessageHandler_call ::
  "crypto \<Rightarrow> bytes \<Rightarrow> bytes \<Rightarrow> (pystr \<Rightarrow> int) \<Rightarrow> ('cb \<Rightarrow> pystr \<Rightarrow> bool) \<Rightarrow> packet \<Rightarrow> 'cb text_handler \<Rightarrow>
   'cb text_handler \<times> 'cb text_effect list \<times> bool res" where
  "TextMessageHandler_call c urandom1 urandom4 py_hash callback_ok packet th =
     (if length (pk_payload packet) < 4 then (th, [], Inr False)
      else
        let src_hash = pk_payload packet ! 1;
            candidates = text_candidates (th_contacts th) src_hash;
            payload = drop 2 (pk_payload packet)
        in case text_match c (th_local_identity th) payload candidates of
             None \<Rightarrow> (th, [], Inr False)
           | Some (matched_contact, shared_secret, decrypted) \<Rightarrow>
               if length decrypted < 5 then (th, [], Inr True)
               else
                 let flags = uint (decrypted ! 4);
                     txt_type = drop_bit 2 flags AND 0x3F
                 in if txt_type \<notin> set SUPPORTED_TXT_TYPES then (th, [], Inr True)
                    else if txt_type = TXT_TYPE_SIGNED_PLAIN then
                      if length decrypted < 9 then (th, [], Inr True)
                      else text_deliver c urandom1 urandom4 py_hash callback_ok packet matched_contact shared_secret
                             decrypted flags txt_type (take 4 (drop 5 decrypted)) (drop 9 decrypted) th
                    else text_deliver c urandom1 urandom4 py_hash callback_ok packet matched_contact shared_secret
                           decrypted flags txt_type [] (drop 5 decrypted) th)"

section \<open>The message body\<close>

lemma text_len_body:
  assumes "0 \<notin> set enc" and "rest = [] \<or> hd rest = 0"
  shows "text_len (enc @ rest) = length enc"
proof -
  have "takeWhile (\<lambda>b. b \<noteq> 0) enc = enc" using assms(1) by (auto simp: takeWhile_eq_all_conv)
  moreover have "takeWhile (\<lambda>b. b \<noteq> 0) rest = []" using assms(2) by (cases rest) auto
  ultimately show ?thesis using assms(1) by (auto simp: text_len_def takeWhile_append)
qed

lemma text_flags_type: "drop_bit 2 (text_flags_byte (tt AND 0x3F) a) AND 0x3F = tt AND (0x3F :: int)"
proof -
  have "0 \<le> a mod 4" "a mod 4 < 2 ^ 2" by simp_all
  note or_push_bit [OF this, of "tt mod 64"]
  then show ?thesis by (simp add: text_flags_byte_def mask_simps)
qed

section \<open>Who sent it\<close>

text \<open>No contact in the list shares the first byte of the key.\<close>

definition hash_clear :: "contact_proxy list \<Rightarrow> bytes \<Rightarrow> bool" where
  "hash_clear xs key \<longleftrightarrow>
     list_all (\<lambda>x. case fromhex (cx_public_key x) of Inr (b # _) \<Rightarrow> b \<noteq> hd key | _ \<Rightarrow> True) xs"

lemma text_match_first:
  assumes "Contact_Store.contacts store = us @ ca # vs" and "hash_clear us key"
    and "cx_public_key ca = hex_str key" and "key \<noteq> []" and "text_try c li payload ca = Some (ss, dec)"
  shows "text_match c li payload (text_candidates store (hd key)) = Some (ca, ss, dec)"
proof -
  obtain k ks where key: "key = k # ks" using assms(4) by (cases key) auto
  let ?P = "\<lambda>contact. case contact_pubkey_bytes contact of Inr (b # _) \<Rightarrow> b = k | _ \<Rightarrow> False"
  have "filter ?P us = []"
    using assms(2) by (auto simp: key hash_clear_def list_all_iff contact_pubkey_bytes_def filter_empty_conv
        split: sum.splits list.splits)
  moreover have "?P ca" using assms(3) by (simp add: contact_pubkey_bytes_def key)
  ultimately have "text_candidates store k = ca # filter ?P vs" by (simp add: text_candidates_def assms(1))
  with assms(5) show ?thesis by (simp add: key)
qed

text \<open>The handler's own loop agrees with the shared helper on a key of the right length.\<close>

lemma decrypt_with_text_try:
  assumes "fromhex (cx_public_key x) = Inr key" and "hd key = src_hash"
  shows "decrypt_with c src_hash li enc x = map_option (\<lambda>(ss, dec). (x, key, ss, dec)) (text_try c li enc x)"
  using assms
  by (simp add: decrypt_with_def text_try_def contact_pubkey_bytes_def size_defs Let_def bind_res_def split: sum.split)

lemma decrypt_with_other:
  "hash_clear xs key \<Longrightarrow> x \<in> set xs \<Longrightarrow> decrypt_with c (hd key) li enc x = None"
proof (cases "fromhex (cx_public_key x)")
  case (Inr pub)
  assume "hash_clear xs key" "x \<in> set xs"
  with Inr show ?thesis by (cases pub) (auto simp: decrypt_with_def hash_clear_def list_all_iff size_defs)
qed (simp add: decrypt_with_def)

lemma iter_decrypt_first:
  assumes "hash_clear xs key" and "cx_public_key x = hex_str key" and "text_try c li enc x = Some (ss, dec)"
  shows "\<exists>more. iter_decrypt_by_src_hash c (xs @ x # ys) (hd key) li enc = (x, key, ss, dec) # more"
proof -
  have "List.map_filter (decrypt_with c (hd key) li enc) xs = []"
    using decrypt_with_other [OF assms(1)] by (auto simp: map_filter_def filter_empty_conv)
  moreover have "decrypt_with c (hd key) li enc x = Some (x, key, ss, dec)"
    using decrypt_with_text_try [of x key "hd key" c li enc] assms(2,3) by simp
  ultimately show ?thesis by (simp add: iter_decrypt_by_src_hash_def map_filter_def)
qed

section \<open>The ACK that is owed\<close>

lemma ack_hash_correlates:
  assumes "crypto_laws c" and "length urandom1 = 1" and "tt \<in> {TXT_TYPE_PLAIN, TXT_TYPE_SIGNED_PLAIN}"
    and "prefix = (if tt = TXT_TYPE_SIGNED_PLAIN then take 4 key else [])" and "length key = 32"
    and "0 \<notin> set enc" and "rest = [] \<or> hd rest = 0" and "0 \<le> ts" and "ts < 2 ^ 32"
  obtains h where "calc_ack_hash c urandom1 li tt (le_bytes 4 ts @ f # prefix @ enc @ rest) (enc @ rest) key ts (uint f)
      = Inr (Some h)"
    and "take 4 h = take 4 (cr_sha256 c (le_bytes 4 ts @ f # prefix @ enc
           @ (if tt = TXT_TYPE_SIGNED_PLAIN then get_public_key li else key)))"
    and "4 \<le> length h" and "length h \<le> 6"
proof (cases "tt = TXT_TYPE_PLAIN")
  case True
  let ?ext = "if length enc + 1 < length (enc @ rest) then uint ((enc @ rest) ! (length enc + 1)) else 0"
  have pack: "pack_timestamp_data ts [PartInt (uint f AND 0xFF), PartBytes enc] = Inr (le_bytes 4 ts @ f # enc)"
    using assms(8,9) by (simp add: pack_timestamp_data_def part_bytes_def pack_u_def mask_simps to_byte_def res_simps)
  have "to_byte (?ext AND 0xFF) = Inr (word_of_int (?ext AND 0xFF))"
    by (rule to_byte_Inr) (simp_all add: mask_simps)
  then obtain e where e: "calc_text_ack_hash c urandom1 key ts (uint f) (TextBytes enc) ?ext True
      = Inr (take 4 (cr_sha256 c ((le_bytes 4 ts @ f # enc) @ key)) @ [e] @ urandom1)"
    by (simp add: calc_text_ack_hash_def text_arg_bytes_def pack del: le_bytes.simps)
  have "length (cr_sha256 c m) = 32" for m using assms(1) by (simp add: crypto_laws_def)
  with True e assms(2,4) text_len_body [OF assms(6,7)] show thesis
    by (intro that [of "take 4 (cr_sha256 c ((le_bytes 4 ts @ f # enc) @ key)) @ [e] @ urandom1"])
      (simp_all add: calc_ack_hash_def txt_type_defs del: le_bytes.simps)
next
  case False
  with assms(3) have tt: "tt = TXT_TYPE_SIGNED_PLAIN" by simp
  have "length (cr_sha256 c m) = 32" for m using assms(1) by (simp add: crypto_laws_def)
  moreover have "take (9 + length enc) (le_bytes 4 ts @ f # prefix @ enc @ rest) = le_bytes 4 ts @ f # prefix @ enc"
  proof -
    have n: "9 + length enc = length (le_bytes 4 ts @ f # prefix @ enc)" using assms(4,5) tt by simp
    show ?thesis unfolding n by (simp del: le_bytes.simps)
  qed
  ultimately show thesis
    using False tt text_len_body [OF assms(6,7)]
    by (intro that [of "take 4 (cr_sha256 c (le_bytes 4 ts @ f # prefix @ enc @ get_public_key li))"])
      (simp_all add: calc_ack_hash_def del: le_bytes.simps)
qed

text \<open>What the ACK handlers of a node read from a packet: by payload type.\<close>

definition received_ack :: "crypto \<Rightarrow> local_identity \<Rightarrow> contact_proxy list \<Rightarrow> packet \<Rightarrow> int option" where
  "received_ack c li book p =
     (if get_payload_type p = PAYLOAD_TYPE_ACK then process_discrete_ack p
      else if get_payload_type p = PAYLOAD_TYPE_MULTIPART then extract_ack_crc p
      else if get_payload_type p = PAYLOAD_TYPE_PATH then process_path_ack_variants c (Some li) (Some book) p
      else None)"

lemma received_ack_cong:
  "get_payload_type q = get_payload_type p \<Longrightarrow> pk_payload q = pk_payload p \<Longrightarrow> received_ack c li book q = received_ack c li book p"
  by (simp add: received_ack_def process_discrete_ack_def extract_ack_crc_def process_path_ack_variants_def)

lemma apply_reply_scope_keeps:
  assumes "apply_reply_scope c p req = Inr q"
  shows "get_payload_type q = get_payload_type p" and "pk_payload q = pk_payload p"
proof -
  have sc: "get_payload_type r = get_payload_type p \<and> pk_payload r = pk_payload p" if "scope_packet c k p = Inr r" for k r
  proof
    show "get_payload_type r = get_payload_type p" by (rule scope_packet_route(3) [OF that])
    show "pk_payload r = pk_payload p" by (rule scope_packet_fields [OF that]) simp
  qed
  have fl: "get_payload_type (r\<lparr>pk_flood_scope_applied := b\<rparr>) = get_payload_type r" for r b
    by (simp add: get_payload_type_def)
  show "get_payload_type q = get_payload_type p" "pk_payload q = pk_payload p"
    using assms sc fl by (auto simp: apply_reply_scope_def res_simps split: option.splits if_splits)
qed

lemma apply_reply_scope_total:
  assumes "crypto_laws c" and "\<And>k. pk_recv_region_key req = Some k \<Longrightarrow> length k = 16"
  shows "\<exists>q. apply_reply_scope c p (Some req) = Inr q"
proof -
  have "\<exists>q. scope_packet c k p = Inr q" if "pk_recv_region_key req = Some k" for k
    using transport_code_total [OF assms(1) assms(2) [OF that], of p] by (auto simp: scope_packet_def)
  then show ?thesis by (auto simp: apply_reply_scope_def split: option.splits)
qed

lemma direct_ack_carries:
  assumes "create_ack_from_bytes h path enc r = Inr q" and "4 \<le> length h"
  shows "received_ack c li book q = Some (le_int (take 4 h))"
proof -
  let ?hp = "path \<noteq> None \<and> the path \<noteq> []"
  from assms(1) obtain p where p: "create_packet (PacketBuilder_create_header PAYLOAD_TYPE_ACK r ?hp) h = Inr p"
    and "q = p \<or> (\<exists>bs. with_path bs enc p = Inr q)"
    by (auto simp: create_ack_from_bytes_def Let_def res_simps split: if_splits)
  then have "pk_payload q = pk_payload p" "pk_header q = pk_header p" using with_path_fields(1) by fastforce+
  with create_packet_sendable(2,3) [OF _ _ p] assms(2) show ?thesis
    by (simp add: received_ack_def process_discrete_ack_def get_payload_type_def payload_type_defs)
qed

lemma multi_ack_carries:
  assumes "create_multi_ack h 1 path enc = Inr q" and "4 \<le> length h"
  shows "received_ack c li book q = Some (le_int (take 4 h))"
proof -
  let ?hp = "path \<noteq> None \<and> the path \<noteq> []"
  have w: "to_byte (push_bit 4 (1 AND 0x0F) OR PAYLOAD_TYPE_ACK) = Inr 19" by code_simp
  from assms(1) obtain p where
    p: "create_packet (PacketBuilder_create_header PAYLOAD_TYPE_MULTIPART (str ''direct'') ?hp) (19 # h) = Inr p"
    and "q = p \<or> (\<exists>bs. with_path bs enc p = Inr q)"
    unfolding create_multi_ack_def Let_def w bind_res_simps by (auto simp: res_simps split: if_splits)
  then have "pk_payload q = pk_payload p" "pk_header q = pk_header p" using with_path_fields(1) by fastforce+
  with create_packet_sendable(2,3) [OF _ _ p] assms(2) show ?thesis
    by (simp add: received_ack_def extract_ack_crc_def get_payload_type_def payload_type_defs)
qed

text \<open>A returned path opens at the node whose key the secret was agreed with.\<close>

lemma path_return_opens:
  assumes "crypto_laws c" and "length ss = 32" and "extra \<noteq> []"
    and "create_path_return c urandom4 (uint d) (uint s) ss (map uint path) et extra (Some plen) = Inr q"
  obtains ct n where "pk_payload q = [d, s] @ ct" and "get_payload_type q = PAYLOAD_TYPE_PATH" and "sendable q"
    and "mac_then_decrypt c (take 16 ss) ss ct
      = Inr (word_of_int plen # path @ word_of_int et # extra @ replicate n 0)"
    and "is_valid_path_len plen" and "int (length path) = get_path_byte_len plen" and "0 \<le> plen" and "plen < 256"
    and "0 \<le> et" and "et < 256"
proof -
  from assms(3,4) obtain fb e ct where
    v: "is_valid_path_len plen" "int (length path) = get_path_byte_len plen"
    and fb: "plen = uint fb" and e: "et = uint e" and ct: "encrypt_then_mac c (take 16 ss) ss (fb # path @ e # extra) = Inr ct"
    and q: "create_packet (PacketBuilder_create_header PAYLOAD_TYPE_PATH (str ''flood'') False) (d # s # ct) = Inr q"
    by (auto simp: create_path_return_def path_return_first_byte_def Let_def res_simps map_res_uint split: if_splits)
  have k: "length (take 16 ss) \<in> {16, 24, 32}" using assms(2) by simp
  from encrypt_then_mac_ok [OF assms(1) k, of ss "fb # path @ e # extra"] ct obtain cp where
    cp: "ct = take 2 (cr_hmac_sha256 c ss cp) @ cp"
    "length cp = length (fb # path @ e # extra) + block_pad (length (fb # path @ e # extra))"
    "aes_decrypt c (take 16 ss) cp
       = Inr ((fb # path @ e # extra) @ replicate (block_pad (length (fb # path @ e # extra))) 0)" by fastforce
  have "length (take 2 (cr_hmac_sha256 c ss cp)) = 2" using assms(1) by (simp add: crypto_laws_def)
  with cp have "mac_then_decrypt c (take 16 ss) ss ct
      = Inr (fb # path @ e # extra @ replicate (block_pad (length (fb # path @ e # extra))) 0)"
    by (simp add: mac_then_decrypt_iff)
  moreover have "plen < 256" "et < 256" using uint_lt2p [of fb] uint_lt2p [of e] fb e by simp_all
  ultimately show thesis
    using v fb e create_packet_sendable [OF _ _ q]
    by (intro that [of ct]) (auto simp: payload_type_defs)
qed

text \<open>The secret that node \<open>a\<close> computes for a contact with the key of node \<open>b\<close>.\<close>

definition agreed :: "crypto \<Rightarrow> local_identity \<Rightarrow> local_identity \<Rightarrow> bytes \<Rightarrow> bool" where
  "agreed c a b ss \<longleftrightarrow> length (get_public_key b) = 32 \<and>
     (\<exists>ib. new_identity c (get_public_key b) = Inr ib \<and> calc_shared_secret c ib (get_private_key a) = Inr ss)"

lemma agreed_sym:
  assumes "identity_laws c" and "local_identity_of_seed c sa = Inr a" and "local_identity_of_seed c sb = Inr b"
  shows "agreed c a b ss \<longleftrightarrow> agreed c b a ss"
  by (rule shared_secret_agrees [OF assms])
    (auto simp: agreed_def local_identity_of_seed_fields(2) [OF assms(1,2)]
      local_identity_of_seed_fields(2) [OF assms(1,3)])

lemma text_try_agreed:
  assumes "agreed c a b ss" and "cx_public_key x = hex_str (get_public_key b)"
    and "mac_then_decrypt c (take 16 ss) ss ct = Inr dec"
  shows "text_try c a ct x = Some (ss, dec)"
  using assms by (auto simp: text_try_def agreed_def contact_pubkey_bytes_def)

lemma path_ack_crc_of:
  assumes "is_valid_path_len plen" "0 \<le> plen" "plen < 256" "int (length path) = get_path_byte_len plen" "4 \<le> length h"
  shows "path_ack_crc (word_of_int plen # path @ word_of_int PAYLOAD_TYPE_ACK # h @ z) = Some (le_int (take 4 h))"
proof -
  have u: "uint (word_of_int plen :: byte) = plen" using assms(2,3) by (rule uint_byte_of_int)
  have n: "nat (get_path_byte_len plen) = length path" using assms(4) by simp
  have t: "uint (word_of_int PAYLOAD_TYPE_ACK :: byte) AND 0x0F = PAYLOAD_TYPE_ACK" by code_simp
  show ?thesis using assms(1,5) by (simp add: path_ack_crc_def u n t nth_append Let_def)
qed

lemma path_ack_carries:
  assumes "crypto_laws c" and "agreed c a b ss" and "length ss = 32" and "length (get_public_key a) = 32"
    and "hash_clear xs (get_public_key b)" and "cx_public_key cb = hex_str (get_public_key b)" and "4 \<le> length h"
    and "create_path_return c urandom4 (uint (hd (get_public_key a))) (uint (hd (get_public_key b))) ss (map uint (path :: bytes))
           PAYLOAD_TYPE_ACK h (Some plen) = Inr q"
  shows "received_ack c a (xs @ cb # ys) q = Some (le_int (take 4 h))"
proof -
  have "h \<noteq> []" using assms(7) by auto
  from path_return_opens [OF assms(1,3) this assms(8)] obtain ct n where
    q: "pk_payload q = [hd (get_public_key a), hd (get_public_key b)] @ ct" "get_payload_type q = PAYLOAD_TYPE_PATH"
    and dec: "mac_then_decrypt c (take 16 ss) ss ct
       = Inr (word_of_int plen # path @ word_of_int PAYLOAD_TYPE_ACK # h @ replicate n 0)"
    and pl: "is_valid_path_len plen" "0 \<le> plen" "plen < 256" "int (length path) = get_path_byte_len plen" by blast
  have "text_try c a ct cb = Some (ss, word_of_int plen # path @ word_of_int PAYLOAD_TYPE_ACK # h @ replicate n 0)"
    by (rule text_try_agreed [OF assms(2,6) dec])
  from iter_decrypt_first [OF assms(5,6) this] obtain more where
    it: "iter_decrypt_by_src_hash c (xs @ cb # ys) (hd (get_public_key b)) a ct
      = (cb, get_public_key b, ss, word_of_int plen # path @ word_of_int PAYLOAD_TYPE_ACK # h @ replicate n 0) # more" by blast
  have "hd (get_public_key a) = get_public_key a ! 0" using assms(4) by (cases "get_public_key a") auto
  moreover have "PAYLOAD_TYPE_PATH \<noteq> PAYLOAD_TYPE_ACK" "PAYLOAD_TYPE_PATH \<noteq> PAYLOAD_TYPE_MULTIPART"
    by (simp_all add: payload_type_defs)
  ultimately show ?thesis
    using path_ack_crc_of [OF pl assms(7)]
    by (simp add: received_ack_def q process_path_ack_variants_def try_decrypt_encrypted_ack_def it)
qed

lemma path_return_total:
  assumes "crypto_laws c" and "length ss = 32" and "is_valid_path_len plen" and "0 \<le> plen"
    and "int (length (path :: bytes)) = get_path_byte_len plen" and "extra \<noteq> []" and "length extra \<le> 97" and "0 \<le> et" and "et < 256"
  shows "\<exists>q. create_path_return c urandom4 (uint (d :: byte)) (uint (s :: byte)) ss (map uint (path :: bytes)) et extra (Some plen) = Inr q"
proof -
  have k: "length (take 16 ss) \<in> {16, 24, 32}" using assms(2) by simp
  have pl: "length path \<le> 64" using assms(3,5) by (simp add: is_valid_path_len_arith path_len_arith)
  have b: "to_byte plen = Inr (word_of_int plen)" "to_byte et = Inr (word_of_int et)"
    using valid_path_len_byte [OF assms(4,3)] assms(4,8,9) by (simp_all add: to_byte_Inr)
  let ?in = "word_of_int plen # path @ word_of_int et # extra"
  from encrypt_then_mac_ok [OF assms(1) k, of ss ?in] obtain ct where
    ct: "encrypt_then_mac c (take 16 ss) ss ?in = Inr ct" by blast
  have len: "length ct = 2 + length ?in + block_pad (length ?in)" by (rule length_encrypt_then_mac [OF assms(1) k ct])
  have "length ?in \<le> 176" using pl assms(7) by simp
  from padded_le [OF this] len have "length ct \<le> 178" by simp
  then have "\<exists>q. create_packet hdr (d # s # ct) = Inr q" for hdr
    by (simp add: create_packet_def validate_payload_size_def size_defs)
  with ct b pl assms(3,5,6,7) show ?thesis
    by (simp add: create_path_return_def path_return_first_byte_def Let_def size_defs)
qed

lemma create_ack_total:
  assumes "length h \<le> 184"
  shows "\<exists>r. create_ack_from_bytes h None None rt = Inr r"
    and "\<exists>r. create_ack_from_bytes h (Some (map uint (bs :: bytes))) (Some e) rt = Inr r"
    and "length h \<le> 183 \<Longrightarrow> \<exists>r. create_multi_ack h 1 (Some (map uint bs)) (Some e) = Inr r"
proof -
  have w: "to_byte (push_bit 4 (1 AND 0x0F) OR PAYLOAD_TYPE_ACK) = Inr 19" by code_simp
  have cp: "create_packet hdr m = Inr (new_packet\<lparr>pk_header := hdr, pk_payload := m, pk_payload_len := int (length m)\<rparr>)"
    if "length m \<le> 184" for hdr m
    using that by (simp add: create_packet_def validate_payload_size_def size_defs)
  have wp: "with_path bs (Some e) p = Inr (p\<lparr>pk_path := bs, pk_path_len := e\<rparr>)" for p
    by (simp add: with_path_def set_path_def)
  show "\<exists>r. create_ack_from_bytes h None None rt = Inr r"
    "\<exists>r. create_ack_from_bytes h (Some (map uint (bs :: bytes))) (Some e) rt = Inr r"
    using assms by (simp_all add: create_ack_from_bytes_def cp wp Let_def)
  show "\<exists>r. create_multi_ack h 1 (Some (map uint bs)) (Some e) = Inr r" if "length h \<le> 183"
    unfolding create_multi_ack_def Let_def w bind_res_simps using that by (simp add: cp wp)
qed

text \<open>
  Whatever route the ACK takes, what the receiving node schedules is understood by the sender as
  the ACK whose hash it was given.
\<close>

lemma ack_responses_carry:
  assumes "crypto_laws c" and "agreed c a b ss" and "length ss = 32"
    and "length (get_public_key a) = 32" and "length (get_public_key b) = 32"
    and "hash_clear xs (get_public_key b)" and "cx_public_key cb = hex_str (get_public_key b)"
    and "4 \<le> length h" and "length h \<le> 6" and "sendable p"
    and "\<And>k. pk_recv_region_key p = Some k \<Longrightarrow> length k = 16"
  shows "\<exists>sch. build_ack_responses c urandom4 b multi p ca ss (get_public_key a) h flood = Inr sch \<and> sch \<noteq> []
    \<and> (\<forall>(r, d) \<in> set sch. received_ack c a (xs @ cb # ys) r = Some (le_int (take 4 h)))"
proof -
  let ?ok = "\<lambda>r. received_ack c a (xs @ cb # ys) r = Some (le_int (take 4 h))"
  have scoped: "\<exists>s. apply_reply_scope c r (Some p) = Inr s \<and> ?ok s" if "?ok r" for r
  proof -
    obtain s where s: "apply_reply_scope c r (Some p) = Inr s" using apply_reply_scope_total [OF assms(1,11)] by blast
    from received_ack_cong [OF apply_reply_scope_keeps [OF s]] that s show ?thesis by simp
  qed
  show ?thesis
  proof (cases flood)
    case True
    have keys: "hash_byte (get_public_key a) = Inr (hd (get_public_key a))"
      "hash_byte (get_public_key b) = Inr (hd (get_public_key b))"
      using assms(4,5) by (auto simp: hash_byte_def split: list.split)
    have h: "h \<noteq> []" "length h \<le> 97" "0 \<le> PAYLOAD_TYPE_ACK" "PAYLOAD_TYPE_ACK < 256"
      using assms(8,9) by (auto simp: payload_type_defs)
    have pl: "is_valid_path_len (pk_path_len p)" "0 \<le> pk_path_len p"
      "int (length (pk_path p)) = get_path_byte_len (pk_path_len p)"
      using assms(10) by (simp_all add: sendable_def writable_def lengths_ok_def packet_path_defs)
    have sl: "slice_to (get_path_byte_len (pk_path_len p)) (pk_path p) = pk_path p"
      unfolding pl(3) [symmetric] by simp
    obtain q where q: "create_path_return c urandom4 (uint (hd (get_public_key a))) (uint (hd (get_public_key b))) ss
        (map uint (pk_path p)) PAYLOAD_TYPE_ACK h (Some (pk_path_len p)) = Inr q"
      using path_return_total [OF assms(1,3) pl h] by blast
    obtain s where "apply_reply_scope c q (Some p) = Inr s" "?ok s"
      using scoped [OF path_ack_carries [OF assms(1-4,6-8) q]] by blast
    with True pl(1) q keys show ?thesis by (simp add: build_ack_responses_def sl)
  next
    case False
    let ?bs = "cx_out_path ca" and ?e = "cx_out_path_len ca"
    have l: "length h \<le> 184" "length h \<le> 183" using assms(9) by simp_all
    note t = create_ack_total [OF l(1)]
    obtain r where r: "create_ack_from_bytes h None None (str ''flood'') = Inr r" using t(1) by blast
    obtain s where s: "apply_reply_scope c r (Some p) = Inr s" "?ok s"
      using scoped [OF direct_ack_carries [OF r assms(8)]] by blast
    obtain r1 where r1: "create_ack_from_bytes h (Some (map uint ?bs)) (Some ?e) (str ''direct'') = Inr r1" using t(2) by blast
    obtain r2 where r2: "create_multi_ack h 1 (Some (map uint ?bs)) (Some ?e) = Inr r2" using t(3) [OF l(2)] by blast
    show ?thesis
      using False r s r1 r2 direct_ack_carries [OF r1 assms(8)] multi_ack_carries [OF r2 assms(8)]
      by (simp add: build_ack_responses_def Let_def)
  qed
qed

section \<open>From one node to the other and back\<close>

lemma text_deliver_ok:
  assumes "cx_public_key ca = hex_str key" and "th_should_ack th = None" and "tt \<noteq> TXT_TYPE_CLI_DATA"
    and "le_int (take 4 dec) = ts"
    and "calc_ack_hash c urandom1 (th_local_identity th) tt dec body key ts flags = Inr (Some h)"
    and "build_ack_responses c urandom4 (th_local_identity th) (th_multi_acks th) p ca ss key h (is_route_flood p) = Inr sch"
    and "utf8_decode Replace (take (text_len body) body) = Inr m"
  shows "\<exists>th'. text_deliver c urandom1 urandom4 py_hash callback_ok p ca ss dec flags tt prefix body th
    = (th', map (\<lambda>(pkt, delay_ms). ScheduleAck pkt delay_ms) sch @ [Decrypted m tt ts] @
         (if th_event_service th
          then (case message_event c py_hash p ca m prefix tt ts of Inr m \<Rightarrow> [NewMessage m] | Inl _ \<Rightarrow> []) else []),
       Inr True)"
proof (cases "tt = TXT_TYPE_SIGNED_PLAIN")
  case True
  with assms show ?thesis
    by (simp add: text_deliver_def contact_pubkey_bytes_def text_acks_def ack_allowed_def Let_def txt_type_defs)
next
  case False
  with assms show ?thesis
    by (simp add: text_deliver_def contact_pubkey_bytes_def text_acks_def ack_allowed_def Let_def)
qed

lemma text_call_dispatch:
  assumes "pk_payload q = d # s # ct" and "2 \<le> length ct"
    and "text_match c (th_local_identity th) ct (text_candidates (th_contacts th) s) = Some (ca, ss, dec)"
    and "dec = le_bytes 4 ts @ f # prefix @ body" and "drop_bit 2 (uint f) AND 0x3F = tt"
    and "tt \<in> {TXT_TYPE_PLAIN, TXT_TYPE_SIGNED_PLAIN}" and "length prefix = (if tt = TXT_TYPE_SIGNED_PLAIN then 4 else 0)"
  shows "TextMessageHandler_call c urandom1 urandom4 py_hash callback_ok q th
    = text_deliver c urandom1 urandom4 py_hash callback_ok q ca ss dec (uint f) tt prefix body th"
proof -
  have d4: "dec ! 4 = f" "5 \<le> length dec" by (simp_all add: assms(4) nth_append del: le_bytes.simps)
  have dr: "drop 5 dec = prefix @ body" by (simp add: assms(4) del: le_bytes.simps)
  have "drop 9 dec = drop 4 (drop 5 dec)" by simp
  with dr have d9: "drop 9 dec = drop 4 (prefix @ body)" by simp
  have t: "uint (dec ! 4) = uint f" by (simp add: d4)
  show ?thesis
  proof (cases "tt = TXT_TYPE_SIGNED_PLAIN")
    case True
    with assms(7) have l: "length prefix = 4" by simp
    then have "9 \<le> length dec" by (simp add: assms(4))
    with True l d4 d9 dr assms(1,2,3,5) show ?thesis
      by (simp add: TextMessageHandler_call_def SUPPORTED_TXT_TYPES_def Let_def)
  next
    case False
    with assms(6,7) have l: "prefix = []" "tt = TXT_TYPE_PLAIN" by simp_all
    with False d4 dr assms(1,2,3,5) show ?thesis
      by (simp add: TextMessageHandler_call_def SUPPORTED_TXT_TYPES_def Let_def)
  qed
qed

text \<open>What a message holds for its recipient: body, type and time, and the ACK that it owes.\<close>

lemma direct_message_contents:
  assumes "crypto_laws c" and "identity_laws c" and "length urandom1 = 1"
    and "local_identity_of_seed c sa = Inr a" and "local_identity_of_seed c sb = Inr b"
    and "cx_public_key cb = hex_str (get_public_key b)"
    and "text_message_packet c cb a message attempt mtype out_path tt ts = Inr (p, crc)"
    and "tt AND 0x3F \<in> {TXT_TYPE_PLAIN, TXT_TYPE_SIGNED_PLAIN}"
  obtains ss f prefix body ct h where "agreed c b a ss" "agreed c a b ss" "length ss = 32"
    "pk_payload p = hd (get_public_key b) # hd (get_public_key a) # ct" "2 \<le> length ct"
    "mac_then_decrypt c (take 16 ss) ss ct = Inr (le_bytes 4 ts @ f # prefix @ body)"
    "drop_bit 2 (uint f) AND 0x3F = tt AND 0x3F"
    "length prefix = (if tt AND 0x3F = TXT_TYPE_SIGNED_PLAIN then 4 else 0)"
    "calc_ack_hash c urandom1 b (tt AND 0x3F) (le_bytes 4 ts @ f # prefix @ body) body (get_public_key a) ts (uint f)
       = Inr (Some h)" "le_int (take 4 h) = crc" "4 \<le> length h" "length h \<le> 6"
    "utf8_decode Replace (take (text_len body) body) = Inr (takeWhile (\<lambda>ch. ch \<noteq> 0) message)"
    "0 \<le> ts" "ts < 2 ^ 32"
proof -
  let ?t = "tt AND 0x3F" and ?m = "takeWhile (\<lambda>ch. ch \<noteq> 0) message"
  obtain ia ss f prefix enc tail n ct where o: "new_identity c (get_public_key a) = Inr ia"
    "calc_shared_secret c ia (get_private_key b) = Inr ss"
    "pk_payload p = [hd (get_public_key b), hd (get_public_key a)] @ ct" "2 \<le> length ct"
    "mac_then_decrypt c (take 16 ss) ss ct = Inr (le_bytes 4 ts @ f # prefix @ enc @ tail @ replicate n 0)"
    "uint f = text_flags_byte ?t (attempt AND 0xFF)"
    "prefix = (if ?t = TXT_TYPE_SIGNED_PLAIN then take 4 (get_public_key a) else [])"
    "utf8_encode ?m = Inr enc" "0 \<le> ts" "ts < 2 ^ 32"
    "tail = (if 3 < attempt AND 0xFF \<and> \<not> is_cli_type ?t then [0, word_of_int (attempt AND 0xFF)] else [])"
    "crc = le_int (take 4 (cr_sha256 c (le_bytes 4 ts @ f # prefix @ enc
       @ (if ?t = TXT_TYPE_SIGNED_PLAIN then get_public_key b else get_public_key a))))" "length ss = 32"
    by (rule text_message_opens [OF assms(1,2,4,5,6,7)])
  have la: "length (get_public_key a) = 32" by (rule local_identity_of_seed_fields(2) [OF assms(2,4)])
  let ?rest = "tail @ replicate n 0"
  have rest: "?rest = [] \<or> hd ?rest = 0" by (cases n) (auto simp: o(11))
  have nz: "0 \<notin> set enc" using utf8_encode_nonzero [OF o(8)] set_takeWhileD by fastforce
  have ag: "agreed c b a ss" using o(1,2) la by (auto simp: agreed_def)
  obtain h where h: "calc_ack_hash c urandom1 b ?t (le_bytes 4 ts @ f # prefix @ enc @ ?rest) (enc @ ?rest)
      (get_public_key a) ts (uint f) = Inr (Some h)"
    "take 4 h = take 4 (cr_sha256 c (le_bytes 4 ts @ f # prefix @ enc
       @ (if ?t = TXT_TYPE_SIGNED_PLAIN then get_public_key b else get_public_key a)))" "4 \<le> length h" "length h \<le> 6"
    by (rule ack_hash_correlates [OF assms(1,3,8) o(7) la nz rest o(9,10)])
  show thesis
  proof (rule that [OF ag])
    show "agreed c a b ss" using ag agreed_sym [OF assms(2,4,5)] by simp
    show "drop_bit 2 (uint f) AND 0x3F = ?t" unfolding o(6) by (rule text_flags_type)
    show "length prefix = (if ?t = TXT_TYPE_SIGNED_PLAIN then 4 else 0)" using la by (simp add: o(7))
    show "le_int (take 4 h) = crc" by (simp only: h(2) o(12))
    show "utf8_decode Replace (take (text_len (enc @ ?rest)) (enc @ ?rest)) = Inr ?m"
      using utf8_decode_encode [OF o(8)] by (simp add: text_len_body [OF nz rest])
  qed (use o h in simp_all)
qed

text \<open>
  C2: A direct message is delivered and its ACK is recognised. Node A builds a plain or signed
  message for node B. Whatever route the packet takes, when it comes up at B with its payload (B
  having A in its contacts, with no earlier contact whose key starts with the same byte), B's
  handler claims the packet, delivers exactly the text up to the first NUL with its type and
  timestamp, publishes it under A's key, and schedules at least one ACK; and every packet that it
  schedules, by whatever route it returns to A, is read by A's ACK handlers as the very CRC that A
  was told to wait for when it built the message.
\<close>

theorem direct_message_acknowledged:
  assumes "crypto_laws c" and "identity_laws c" and "length urandom1 = 1"
    and "local_identity_of_seed c sa = Inr a" and "local_identity_of_seed c sb = Inr b"
    and "cx_public_key cb = hex_str (get_public_key b)" and "hash_clear xs (get_public_key b)"
    and "text_message_packet c cb a message attempt mtype out_path tt ts = Inr (p, crc)"
    and "tt AND 0x3F \<in> {TXT_TYPE_PLAIN, TXT_TYPE_SIGNED_PLAIN}"
    and "th_local_identity th = b" and "th_should_ack th = None" and "th_event_service th"
    and "Contact_Store.contacts (th_contacts th) = us @ ca # vs"
    and "cx_public_key ca = hex_str (get_public_key a)" and "hash_clear us (get_public_key a)"
    and "sendable q" and "pk_payload q = pk_payload p" and "get_payload_type q = PAYLOAD_TYPE_TXT_MSG"
    and "\<And>k. pk_recv_region_key q = Some k \<Longrightarrow> length k = 16"
  shows "\<exists>th' effs m.
    TextMessageHandler_call c urandom1 urandom4 py_hash callback_ok q th = (th', effs, Inr True)
    \<and> Decrypted (takeWhile (\<lambda>ch. ch \<noteq> 0) message) (tt AND 0x3F) ts \<in> set effs
    \<and> NewMessage m \<in> set effs \<and> md_message_text m = takeWhile (\<lambda>ch. ch \<noteq> 0) message
    \<and> md_contact_pubkey m = hex_str (get_public_key a) \<and> md_timestamp m = ts
    \<and> (\<exists>r d. ScheduleAck r d \<in> set effs)
    \<and> (\<forall>r d r'. ScheduleAck r d \<in> set effs \<and> get_payload_type r' = get_payload_type r \<and> pk_payload r' = pk_payload r
         \<longrightarrow> received_ack c a (xs @ cb # ys) r' = Some crc)"
proof -
  let ?t = "tt AND 0x3F"
  define m where "m = takeWhile (\<lambda>ch. ch \<noteq> 0) message"
  obtain ss f prefix body ct h where o: "agreed c b a ss" "agreed c a b ss" "length ss = 32"
    "pk_payload p = hd (get_public_key b) # hd (get_public_key a) # ct" "2 \<le> length ct"
    "mac_then_decrypt c (take 16 ss) ss ct = Inr (le_bytes 4 ts @ f # prefix @ body)"
    "drop_bit 2 (uint f) AND 0x3F = ?t" "length prefix = (if ?t = TXT_TYPE_SIGNED_PLAIN then 4 else 0)"
    "calc_ack_hash c urandom1 b ?t (le_bytes 4 ts @ f # prefix @ body) body (get_public_key a) ts (uint f) = Inr (Some h)"
    "le_int (take 4 h) = crc" "4 \<le> length h" "length h \<le> 6"
    "utf8_decode Replace (take (text_len body) body) = Inr m" "0 \<le> ts" "ts < 2 ^ 32"
    unfolding m_def by (rule direct_message_contents [OF assms(1-6,8,9)])
  note la = local_identity_of_seed_fields(2) [OF assms(2,4)] and lb = local_identity_of_seed_fields(2) [OF assms(2,5)]
  obtain sch where sch: "build_ack_responses c urandom4 b (th_multi_acks th) q ca ss (get_public_key a) h (is_route_flood q) = Inr sch"
    "sch \<noteq> []" "\<forall>(r, d) \<in> set sch. received_ack c a (xs @ cb # ys) r = Some (le_int (take 4 h))"
    using ack_responses_carry [OF assms(1) o(2,3) la lb assms(7,6) o(11,12) assms(16,19)] by blast
  have "get_public_key a \<noteq> []" using la by auto
  from text_match_first [OF assms(13,15,14) this text_try_agreed [OF o(1) assms(14) o(6)]] o(4)
  have call: "TextMessageHandler_call c urandom1 urandom4 py_hash callback_ok q th
      = text_deliver c urandom1 urandom4 py_hash callback_ok q ca ss (le_bytes 4 ts @ f # prefix @ body) (uint f) ?t
          prefix body th"
    by (intro text_call_dispatch [OF _ o(5) _ refl o(7) assms(9) o(8)]) (simp_all add: assms(10,17))
  have ts: "le_int (take 4 (le_bytes 4 ts @ f # prefix @ body)) = ts"
    using o(14,15) by (simp add: le_int_le_bytes del: le_bytes.simps)
  obtain ph where "calculate_packet_hash (cr_sha256 c) q = Inr ph"
    using packet_hash_total [of q] by (auto simp: assms(18) payload_type_defs)
  then obtain md where md: "message_event c py_hash q ca m prefix ?t ts = Inr md" "md_message_text md = m"
    "md_contact_pubkey md = hex_str (get_public_key a)" "md_timestamp md = ts"
    by (simp add: message_event_def assms(14))
  have "?t \<noteq> TXT_TYPE_CLI_DATA" using assms(9) by (auto simp: txt_type_defs)
  from text_deliver_ok [OF assms(14,11) this ts, of c urandom1 body "uint f" h urandom4 q ss sch m py_hash callback_ok
      prefix] o(9,13) sch(1) call
  obtain th' where "TextMessageHandler_call c urandom1 urandom4 py_hash callback_ok q th
      = (th', map (\<lambda>(pkt, delay_ms). ScheduleAck pkt delay_ms) sch @ [Decrypted m ?t ts, NewMessage md], Inr True)"
    by (auto simp: assms(10,12) md(1))
  note eq = this
  let ?effs = "map (\<lambda>(pkt, delay_ms). ScheduleAck pkt delay_ms) sch @ [Decrypted m ?t ts, NewMessage md]"
  have acks: "received_ack c a (xs @ cb # ys) r' = Some crc"
    if "ScheduleAck r d \<in> set ?effs \<and> get_payload_type r' = get_payload_type r \<and> pk_payload r' = pk_payload r" for r d r'
  proof -
    from that have "(r, d) \<in> set sch" by auto
    with sch(3) o(10) have "received_ack c a (xs @ cb # ys) r = Some crc" by auto
    with received_ack_cong [of r' r] that show ?thesis by simp
  qed
  moreover have "\<exists>r d. ScheduleAck r d \<in> set ?effs" using sch(2) by (cases sch) auto
  moreover have "Decrypted m ?t ts \<in> set ?effs" "NewMessage md \<in> set ?effs" by simp_all
  ultimately show ?thesis
    unfolding m_def [symmetric] using eq md(2-4)
    by (intro exI [of _ th'] exI [of _ ?effs] exI [of _ md]) (intro conjI allI impI; assumption?)
qed

definition toy_peer :: contact where
  "toy_peer =
     \<lparr>ct_public_key = replicate 32 1, ct_name = str ''alice'', ct_adv_type = 1, ct_flags = 0, ct_out_path_len = -1,
      ct_out_path = [], ct_last_advert_timestamp = 0, ct_lastmod = 0, ct_gps_lat = 0, ct_gps_lon = 0,
      ct_sync_since = 0, ct_last_advert_packet = None\<rparr>"

definition toy_text_handler :: "unit text_handler" where
  "toy_text_handler =
     \<lparr>th_local_identity = toy_node 2, th_contacts = put_contact toy_peer (new_contact_store 8), th_event_service = True,
      th_should_ack = None, th_pending_command_responses = [], th_multi_acks = 1\<rparr>"

theorem direct_message_acknowledged_witness:
  "\<exists>p crc th' effs m r d.
     text_message_packet toy_crypto (toy_contact 2 [5, 6]) (toy_node 1) (str ''hi'') 4 (str ''direct'') None 0 7 = Inr (p, crc)
     \<and> TextMessageHandler_call toy_crypto [9] [1, 2, 3, 4] (\<lambda>_. 0) (\<lambda>_ _. True) p toy_text_handler = (th', effs, Inr True)
     \<and> NewMessage m \<in> set effs \<and> md_message_text m = str ''hi'' \<and> ScheduleAck r d \<in> set effs
     \<and> received_ack toy_crypto (toy_node 1) [toy_contact 2 [5, 6]] r = Some crc"
proof -
  have ev: "case text_message_packet toy_crypto (toy_contact 2 [5, 6]) (toy_node 1) (str ''hi'') 4 (str ''direct'') None 0 7
    of Inr (p, crc) \<Rightarrow> sendable p \<and> get_payload_type p = PAYLOAD_TYPE_TXT_MSG \<and> pk_recv_region_key p = None | _ \<Rightarrow> False"
    by code_simp
  then obtain p crc where
    r: "text_message_packet toy_crypto (toy_contact 2 [5, 6]) (toy_node 1) (str ''hi'') 4 (str ''direct'') None 0 7 = Inr (p, crc)"
    and p: "sendable p" "get_payload_type p = PAYLOAD_TYPE_TXT_MSG" "pk_recv_region_key p = None"
    by (auto split: sum.splits)
  have k: "cx_public_key (toy_contact 2 [5, 6]) = hex_str (get_public_key (toy_node 2))"
    by (simp add: toy_contact_def contact_proxy_of_def toy_node_def get_public_key_def)
  have book: "Contact_Store.contacts (th_contacts toy_text_handler) = [] @ contact_proxy_of toy_peer # []"
    "cx_public_key (contact_proxy_of toy_peer) = hex_str (get_public_key (toy_node 1))"
    by (simp_all add: toy_text_handler_def put_contact_def new_contact_store_def contacts_def contact_proxy_of_def
        toy_peer_def toy_node_def get_public_key_def)
  have m: "takeWhile (\<lambda>ch. ch \<noteq> 0) (str ''hi'') = str ''hi''" by code_simp
  from direct_message_acknowledged [OF toy_crypto_laws toy_identity_laws _ toy_node_seed toy_node_seed k _ r _ _ _ _
      book _ p(1) refl p(2), of "[9]" "[]" "[1, 2, 3, 4]" "\<lambda>_. 0" "\<lambda>_ _. True" "[]"] p(3)
  obtain th' effs md rr d where
    "TextMessageHandler_call toy_crypto [9] [1, 2, 3, 4] (\<lambda>_. 0) (\<lambda>_ _. True) p toy_text_handler = (th', effs, Inr True)"
    "NewMessage md \<in> set effs" "md_message_text md = str ''hi''" "ScheduleAck rr d \<in> set effs"
    "received_ack toy_crypto (toy_node 1) [toy_contact 2 [5, 6]] rr = Some crc"
    unfolding m by (auto simp: hash_clear_def txt_type_defs toy_text_handler_def)
  with r show ?thesis by blast
qed

end
