(* ===== verification/Group_Text_Handler.thy ===== *)
theory Group_Text_Handler
  imports Packet_Builder Protocol_Utils Channel_Store Packet_Filter
begin

text \<open>
  The handler of group messages, \<open>node/handlers/group_text.py\<close>, with the channel table of
  \<open>companion/channel_store.py\<close> as its database and its own cache of seen packets. A call
  returns the handler, what it stores on the packet and the event it publishes.
\<close>

section \<open>Channels\<close>

record group_text_handler =
  gh_channel_db :: "channel_store option"
  gh_event_service :: bool
  gh_seen_group_packets :: packet_hash_cache

definition group_packet_hash :: "crypto \<Rightarrow> packet \<Rightarrow> pystr res" where
  "group_packet_hash c packet = bind_res (calculate_packet_hash (cr_sha256 c) packet) (\<lambda>h. Inr (hex_str h))"

text \<open>
  The handler with the cache of its own. A companion that shares its cache installs a callback,
  which is asked instead; what that callback does is \<open>check_and_track_group_packet\<close> of
  \<open>Companion_Messages\<close>.
\<close>

definition is_duplicate_packet ::
  "crypto \<Rightarrow> real \<Rightarrow> packet \<Rightarrow> group_text_handler \<Rightarrow> group_text_handler \<times> bool res" where
  "is_duplicate_packet c now packet gh =
     (case group_packet_hash c packet of
        Inl e \<Rightarrow> (gh, Inl e)
      | Inr h \<Rightarrow>
          let (cache, seen) = check_and_add (gh_seen_group_packets gh) now h
          in (gh\<lparr>gh_seen_group_packets := cache\<rparr>, Inr seen))"

definition mark_outgoing_packet ::
  "crypto \<Rightarrow> real \<Rightarrow> packet \<Rightarrow> group_text_handler \<Rightarrow> group_text_handler \<times> unit res" where
  "mark_outgoing_packet c now packet gh =
     (if get_payload_type packet \<noteq> PAYLOAD_TYPE_GRP_TXT then (gh, Inr ())
      else case is_duplicate_packet c now packet gh of (gh, r) \<Rightarrow> (gh, bind_res r (\<lambda>_. Inr ())))"

definition secret_bytes_of :: "pystr \<Rightarrow> bytes res" where
  "secret_bytes_of channel_secret =
     (case fromhex channel_secret of
        Inr bs \<Rightarrow> Inr bs
      | Inl e \<Rightarrow> if is_value_error e then utf8_encode channel_secret else Inl e)"

definition GroupTextHandler_derive_channel_hash :: "crypto \<Rightarrow> pystr \<Rightarrow> byte res" where
  "GroupTextHandler_derive_channel_hash c channel_secret =
     bind_res (secret_bytes_of channel_secret) (derive_channel_hash c)"

definition secret_bytes_for_hash :: "pystr \<Rightarrow> bytes res" where
  "secret_bytes_for_hash channel_secret =
     bind_res (secret_bytes_of channel_secret) (\<lambda>secret_bytes. Inr (group_hash_input secret_bytes))"

definition derive_channel_keys :: "crypto \<Rightarrow> pystr \<Rightarrow> (byte \<times> bytes \<times> bytes) res" where
  "derive_channel_keys c channel_secret =
     bind_res (secret_bytes_for_hash channel_secret) (\<lambda>secret_bytes.
     let master_key = cr_sha256 c secret_bytes
     in bind_res (index_res master_key 0) (\<lambda>channel_hash.
        Inr (channel_hash, take 16 master_key, take 16 (drop 16 master_key))))"

text \<open>An error on any channel empties the answer.\<close>

definition get_channels_by_hash :: "crypto \<Rightarrow> group_text_handler \<Rightarrow> byte \<Rightarrow> (pystr \<times> pystr) list" where
  "get_channels_by_hash c gh channel_hash =
     (case gh_channel_db gh of
        None \<Rightarrow> []
      | Some db \<Rightarrow>
          (case map_res (\<lambda>(name, secret). bind_res (GroupTextHandler_derive_channel_hash c secret) (\<lambda>h.
                  Inr (h, name, secret))) (get_channels db) of
             Inl _ \<Rightarrow> []
           | Inr hs \<Rightarrow> map snd (filter (\<lambda>(h, _). h = channel_hash) hs)))"

definition get_channel_by_hash :: "crypto \<Rightarrow> group_text_handler \<Rightarrow> byte \<Rightarrow> (pystr \<times> pystr) option" where
  "get_channel_by_hash c gh channel_hash =
     (case get_channels_by_hash c gh channel_hash of [] \<Rightarrow> None | ch # _ \<Rightarrow> Some ch)"

definition decrypt_channel_message :: "crypto \<Rightarrow> pystr \<Rightarrow> bytes \<Rightarrow> bytes \<Rightarrow> bytes option" where
  "decrypt_channel_message c channel_secret mac ciphertext =
     (case bind_res (secret_bytes_of channel_secret) (\<lambda>secret_bytes.
             let secret_bytes = (if length secret_bytes < 32
                                 then secret_bytes @ replicate (32 - length secret_bytes) 0
                                 else if 32 < length secret_bytes then take 32 secret_bytes else secret_bytes);
                 expected_mac = take 2 (cr_hmac_sha256 c secret_bytes ciphertext)
             in if mac \<noteq> expected_mac then Inr None
                else bind_res (aes_decrypt c (take 16 secret_bytes) ciphertext) (\<lambda>p. Inr (Some p))) of
        Inl _ \<Rightarrow> None | Inr r \<Rightarrow> r)"

section \<open>Messages\<close>

record parsed_group_message =
  gm_timestamp :: int
  gm_flags :: int
  gm_content :: pystr

definition parse_plaintext_message :: "bytes \<Rightarrow> parsed_group_message option" where
  "parse_plaintext_message plaintext =
     (if length plaintext < 5 then None
      else
        let timestamp = le_int (take 4 plaintext);
            flags = uint (plaintext ! 4)
        in if drop_bit 2 flags \<noteq> 0 then None
           else
             let body = takeWhile (\<lambda>b. b \<noteq> 0) (drop 5 plaintext)
             in case utf8_decode Replace body of
                  Inl _ \<Rightarrow> None
                | Inr message_content \<Rightarrow>
                    Some \<lparr>gm_timestamp = timestamp, gm_flags = flags, gm_content = message_content\<rparr>)"

text \<open>\<open>split(": ", 1)\<close>: the text before and after the first occurrence of the separator.\<close>

fun split_sender :: "pystr \<Rightarrow> (pystr \<times> pystr) option" where
  "split_sender [] = None"
| "split_sender (ch # s) =
     (if take 2 (ch # s) = str '': '' then Some ([], drop 2 (ch # s))
      else map_option (\<lambda>(a, b). (ch # a, b)) (split_sender s))"

definition extract_sender_from_message :: "pystr \<Rightarrow> pystr \<times> pystr" where
  "extract_sender_from_message message_content =
     (case split_sender message_content of
        Some (sender, body) \<Rightarrow> (sender, body)
      | None \<Rightarrow> (str ''Unknown'', message_content))"

record group_text_data =
  gd_text :: pystr
  gd_sender_name :: pystr
  gd_channel_name :: pystr
  gd_channel_hash :: byte
  gd_timestamp :: int
  gd_flags :: int
  gd_full_content :: pystr

record channel_message =
  cm_message_id :: pystr
  cm_channel_name :: pystr
  cm_channel_hash :: pystr
  cm_sender_name :: pystr
  cm_message_text :: pystr
  cm_timestamp :: int
  cm_path_len :: int
  cm_packet_hash :: pystr
  cm_full_content :: pystr
  cm_path :: "bytes option"

definition channel_message_event ::
  "crypto \<Rightarrow> packet \<Rightarrow> group_text_data \<Rightarrow> channel_message res" where
  "channel_message_event c packet d =
     bind_res (get_packet_hash_hex (cr_sha256 c) (Some 16) packet) (\<lambda>message_id.
     bind_res (index_res (get_payload packet) 0) (\<lambda>hash_byte.
     bind_res (calculate_packet_hash (cr_sha256 c) packet) (\<lambda>h.
     Inr \<lparr>cm_message_id = message_id, cm_channel_name = gd_channel_name d,
          cm_channel_hash = hex_upper_str [hash_byte], cm_sender_name = gd_sender_name d,
          cm_message_text = gd_text d, cm_timestamp = gd_timestamp d,
          cm_path_len =
            (if get_route_type packet \<in> {ROUTE_TYPE_FLOOD, ROUTE_TYPE_TRANSPORT_FLOOD}
             then (if pk_path_len packet \<noteq> 0 then pk_path_len packet else int (length (pk_path packet)))
             else 0xFF),
          cm_packet_hash = hex_upper_str h, cm_full_content = gd_full_content d,
          cm_path = (if pk_path packet \<noteq> [] then Some (pk_path packet) else None)\<rparr>)))"

fun first_decrypting ::
  "crypto \<Rightarrow> bytes \<Rightarrow> bytes \<Rightarrow> (pystr \<times> pystr) list \<Rightarrow> (pystr \<times> bytes) option" where
  "first_decrypting c mac ciphertext [] = None"
| "first_decrypting c mac ciphertext ((name, secret) # candidates) =
     (case decrypt_channel_message c secret mac ciphertext of
        Some plaintext \<Rightarrow> Some (name, plaintext)
      | None \<Rightarrow> first_decrypting c mac ciphertext candidates)"

definition GroupTextHandler_call ::
  "crypto \<Rightarrow> real \<Rightarrow> packet \<Rightarrow> group_text_handler \<Rightarrow>
   group_text_handler \<times> group_text_data option \<times> channel_message option" where
  "GroupTextHandler_call c now packet gh =
     (let payload = get_payload packet
      in if length payload < 4 then (gh, None, None)
         else
           let channel_hash = payload ! 0;
               cipher_mac = take 2 (drop 1 payload);
               ciphertext = drop 3 payload;
               candidates = get_channels_by_hash c gh channel_hash
           in case first_decrypting c cipher_mac ciphertext candidates of
                None \<Rightarrow> (gh, None, None)
              | Some (channel_name, plaintext) \<Rightarrow>
                  (case parse_plaintext_message plaintext of
                     None \<Rightarrow> (gh, None, None)
                   | Some parsed_message \<Rightarrow>
                       (case is_duplicate_packet c now packet gh of
                          (gh, Inl e) \<Rightarrow> (gh, None, None)
                        | (gh, Inr True) \<Rightarrow> (gh, None, None)
                        | (gh, Inr False) \<Rightarrow>
                            let (sender_name, message_body) = extract_sender_from_message (gm_content parsed_message);
                                d = \<lparr>gd_text = message_body, gd_sender_name = sender_name,
                                     gd_channel_name = channel_name, gd_channel_hash = channel_hash,
                                     gd_timestamp = gm_timestamp parsed_message, gd_flags = gm_flags parsed_message,
                                     gd_full_content = gm_content parsed_message\<rparr>
                            in (gh, Some d,
                                if gh_event_service gh
                                then (case channel_message_event c packet d of Inr m \<Rightarrow> Some m | Inl _ \<Rightarrow> None)
                                else None))))"

section \<open>From sender to receiver\<close>

lemma split_sender_first:
  "split_sender s = None \<Longrightarrow> split_sender (s @ str '': '' @ body) = Some (s, body)"
proof (induction s)
  case Nil
  then show ?case by (simp add: str_def)
next
  case (Cons ch s)
  have "take 2 (ch # s @ str '': '' @ body) \<noteq> str '': ''"
    using Cons.prems by (cases s) (auto simp: str_def)
  with Cons show ?case by (auto split: if_splits)
qed

lemma parse_group_plaintext:
  assumes "0 \<le> ts" and "ts < 2 ^ 32" and "utf8_encode m = Inr content" and "0 \<notin> set m"
  shows "parse_plaintext_message (le_bytes 4 ts @ 0 # content @ replicate n 0)
    = Some \<lparr>gm_timestamp = ts, gm_flags = 0, gm_content = m\<rparr>"
proof -
  let ?p = "le_bytes 4 ts @ 0 # content @ replicate n 0"
  have nz: "0 \<notin> set content" by (rule utf8_encode_nonzero [OF assms(3,4)])
  have "takeWhile (\<lambda>b. b \<noteq> 0) content = content" using nz by (auto simp: takeWhile_eq_all_conv)
  then have body: "takeWhile (\<lambda>b. b \<noteq> 0) (content @ replicate n 0) = content"
    using nz by (cases n) (auto simp: takeWhile_append)
  have p: "take 4 ?p = le_bytes 4 ts" "?p ! 4 = 0" "drop 5 ?p = content @ replicate n 0" "5 \<le> length ?p"
    by (simp_all add: nth_append del: le_bytes.simps)
  have "le_int (le_bytes 4 ts) = ts" using assms(1,2) by (simp add: le_int_le_bytes del: le_bytes.simps)
  with p body utf8_decode_encode [OF assms(3)] show ?thesis
    by (simp add: parse_plaintext_message_def Let_def del: le_bytes.simps)
qed

lemma secret_hex [simp]: "secret_bytes_of (hex_str bs) = Inr bs"
  by (simp add: secret_bytes_of_def)

text \<open>The padded secret is the key in both places.\<close>

lemma padded_secret:
  "(if length s < 32 then s @ replicate (32 - length s) 0 else if 32 < length s then take 32 s else s)
    = take 32 (s @ replicate 32 (0 :: byte))"
  by auto

text \<open>The text that a group message carries: all of it when it fits.\<close>

lemma group_content_text:
  assumes "group_content sender message = Inr content"
  obtains k where "k \<le> length message" "utf8_encode (sender @ str '': '' @ take k message) = Inr content"
    "\<And>bs. utf8_encode (sender @ str '': '' @ message) = Inr bs \<Longrightarrow> length bs \<le> 160 \<Longrightarrow> k = length message"
proof -
  from group_content_parts [OF assms] obtain prefix k body where
    prefix: "utf8_encode (sender @ str '': '') = Inr prefix" and body: "utf8_encode (take k message) = Inr body"
    and content: "content = prefix @ body" and k: "k \<le> length message"
    and cut: "k < length message \<longrightarrow> (\<exists>ch. utf8_cp (message ! k) = Inr ch \<and> 160 - length prefix < length body + length ch)"
    by blast
  have "utf8_encode ((sender @ str '': '') @ take k message) = Inr content"
    unfolding utf8_encode_append [of "sender @ str '': ''"] prefix body content by simp
  moreover have "k = length message"
    if "utf8_encode (sender @ str '': '' @ message) = Inr bs" "length bs \<le> 160" for bs
  proof (rule ccontr)
    assume "k \<noteq> length message"
    with k have lt: "k < length message" by simp
    with cut obtain ch where ch: "utf8_cp (message ! k) = Inr ch" "160 - length prefix < length body + length ch" by blast
    have m: "sender @ str '': '' @ message = (sender @ str '': '') @ take k message @ message ! k # drop (Suc k) message"
      using lt by (simp add: Cons_nth_drop_Suc)
    from that(1) obtain rest where "bs = prefix @ body @ ch @ rest"
      unfolding m utf8_encode_append [of "sender @ str '': ''"] utf8_encode_append [of "take k message"] prefix body
      by (auto simp: utf8_encode_Cons ch(1) res_simps)
    with that(2) ch(2) show False by auto
  qed
  ultimately show thesis by (intro that [OF k]) simp_all
qed

text \<open>
  What a built group message holds for whoever has the channel: its hash byte, and a body that
  decrypts and parses to the time and the text behind the sender prefix.
\<close>

lemma group_packet_opens:
  assumes "crypto_laws c" and "length secret = 16 \<or> 32 \<le> length secret"
    and "group_datagram_packet c message secret sender ts = Inr p" and "0 \<notin> set sender" and "0 \<notin> set message"
  obtains k hb mac ct plain where "k \<le> length message"
    "\<And>bs. utf8_encode (sender @ str '': '' @ message) = Inr bs \<Longrightarrow> length bs \<le> 160 \<Longrightarrow> k = length message"
    "GroupTextHandler_derive_channel_hash c (hex_str secret) = Inr hb" "pk_payload p = hb # mac @ ct"
    "length mac = 2" "1 \<le> length ct" "decrypt_channel_message c (hex_str secret) mac ct = Some plain"
    "parse_plaintext_message plain
       = Some \<lparr>gm_timestamp = ts, gm_flags = 0, gm_content = sender @ str '': '' @ take k message\<rparr>"
    "get_payload_type p = PAYLOAD_TYPE_GRP_TXT" "sendable p"
proof -
  define key where "key = take 32 (secret @ replicate 32 0)"
  let ?hdr = "PacketBuilder_create_header PAYLOAD_TYPE_GRP_TXT (str ''flood'') False"
  from assms(3) obtain hb content pt ct where hb: "index_res (cr_sha256 c (group_hash_input secret)) 0 = Inr hb"
    and content: "group_content sender message = Inr content"
    and pt: "pack_timestamp_data ts [PartInt 0, PartBytes content] = Inr pt"
    and ct: "aes_encrypt c (take 16 key) pt = Inr ct"
    and p: "create_packet ?hdr (hb # take 2 (cr_hmac_sha256 c key ct) @ ct) = Inr p"
    by (auto simp: group_datagram_packet_def res_simps Let_def key_def)
  have pt': "pt = le_bytes 4 ts @ 0 # content" "0 \<le> ts" "ts < 2 ^ 32"
    using pt by (auto simp: pack_timestamp_data_def part_bytes_def res_simps uint_0_iff simp del: le_bytes.simps)
  obtain k where k: "k \<le> length message" "utf8_encode (sender @ str '': '' @ take k message) = Inr content"
    "\<And>bs. utf8_encode (sender @ str '': '' @ message) = Inr bs \<Longrightarrow> length bs \<le> 160 \<Longrightarrow> k = length message"
    by (rule group_content_text [OF content]) blast
  have nz: "0 \<notin> set (sender @ str '': '' @ take k message)"
    using assms(4,5) by (auto simp: str_def dest: in_set_takeD)
  have kl: "length (take 16 key) \<in> {16, 24, 32}" by (auto simp: key_def min_def)
  note ae = aes_roundtrip [OF assms(1) kl ct]
  have dec: "decrypt_channel_message c (hex_str secret) (take 2 (cr_hmac_sha256 c key ct)) ct
      = Some (le_bytes 4 ts @ 0 # content @ replicate (block_pad (length pt)) 0)"
    unfolding decrypt_channel_message_def padded_secret secret_hex bind_res_simps Let_def key_def [symmetric]
    by (simp add: ae(1)) (simp add: pt'(1) del: le_bytes.simps)
  show thesis
    using hb create_packet_sendable [OF _ _ p] ae(2) assms(1) channel_hash_input_agrees [OF assms(2)]
    by (intro that [OF k(1,3) _ _ _ _ dec parse_group_plaintext [OF pt'(2,3) k(2) nz]])
      (auto simp: GroupTextHandler_derive_channel_hash_def derive_channel_hash_def payload_type_defs crypto_laws_def pt'(1)
        simp del: le_bytes.simps)
qed

lemma channels_by_hash:
  assumes "crypto_laws c" and "gh_channel_db gh = Some db" and "get_channels db = us @ (name, hex_str secret) # vs"
    and "list_all (\<lambda>(_, s). GroupTextHandler_derive_channel_hash c s \<noteq> Inr hb) us"
    and "GroupTextHandler_derive_channel_hash c (hex_str secret) = Inr hb"
  shows "\<exists>more. get_channels_by_hash c gh hb = (name, hex_str secret) # more"
proof -
  let ?f = "\<lambda>(name, secret). bind_res (GroupTextHandler_derive_channel_hash c secret) (\<lambda>h. Inr (h, name, secret))"
  have "\<exists>r. ?f (n, hex_str s) = Inr r" for n s
    using assms(1) by (cases "cr_sha256 c (channel_hash_input s)")
      (auto simp: GroupTextHandler_derive_channel_hash_def derive_channel_hash_def crypto_laws_def dest: spec [of _ "channel_hash_input s"])
  then have "\<forall>x \<in> set (get_channels db). \<exists>r. ?f x = Inr r"
    by (auto simp: get_channels_def split: option.splits)
  then obtain rs where rs: "map_res ?f (us @ (name, hex_str secret) # vs) = Inr rs"
    using map_res_total [of "us @ (name, hex_str secret) # vs" ?f] unfolding assms(3) by blast
  then obtain rus rvs where r: "map_res ?f us = Inr rus" "rs = rus @ (hb, name, hex_str secret) # rvs"
    using assms(5) by (auto simp: map_res_append res_simps)
  have "filter (\<lambda>(h, _). h = hb) rus = []"
    using assms(4) r(1)
  proof (induction us arbitrary: rus)
    case (Cons x us)
    then show ?case by (cases x) (auto simp: res_simps)
  qed simp
  with r(2) show ?thesis by (simp add: get_channels_by_hash_def assms(2,3) rs)
qed

text \<open>What a delivery publishes.\<close>

definition announced_event :: "crypto \<Rightarrow> packet \<Rightarrow> group_text_data \<Rightarrow> group_text_handler \<Rightarrow> channel_message option" where
  "announced_event c packet d gh =
     (if gh_event_service gh then case channel_message_event c packet d of Inr m \<Rightarrow> Some m | Inl _ \<Rightarrow> None else None)"

lemma group_call:
  assumes "get_payload r = hb # mac @ ct" and "length mac = 2" and "1 \<le> length ct"
    and "first_decrypting c mac ct (get_channels_by_hash c g hb) = Some (name, plain)"
    and "parse_plaintext_message plain = Some pm" and "group_packet_hash c r = Inr h"
    and "extract_sender_from_message (gm_content pm) = (sender, body)"
    and "check_and_add (gh_seen_group_packets g) t h = (cache, seen)"
  shows "GroupTextHandler_call c t r g = (g\<lparr>gh_seen_group_packets := cache\<rparr>,
    if seen then (None, None)
    else let d = \<lparr>gd_text = body, gd_sender_name = sender, gd_channel_name = name, gd_channel_hash = hb,
                  gd_timestamp = gm_timestamp pm, gd_flags = gm_flags pm, gd_full_content = gm_content pm\<rparr>
         in (Some d, announced_event c r d g))"
  using assms by (cases seen; cases ct)
    (simp_all add: GroupTextHandler_call_def is_duplicate_packet_def announced_event_def Let_def)

text \<open>
  C6: A group message reaches every holder of the channel once. If a node builds a group message
  under a secret of 16 bytes or at least 32, then a handler whose channel table holds that secret,
  with no earlier channel of the same hash byte, delivers it under the channel's name with the
  sender's name, the time and the text (all of it when sender and text fit 160 bytes, else cut at a
  character), however the packet was routed, and publishes the event of exactly this message if an
  event service is attached; and the next copy that arrives within the cache's time-to-live is
  dropped without an event.
\<close>

theorem group_message_delivered_once:
  assumes "crypto_laws c" and "length secret = 16 \<or> 32 \<le> length secret"
    and "group_datagram_packet c message secret sender ts = Inr p"
    and "0 \<notin> set sender" and "0 \<notin> set message" and "split_sender sender = None"
    and "gh_channel_db gh = Some db" and "get_channels db = us @ (name, hex_str secret) # vs"
    and "list_all (\<lambda>(_, s). GroupTextHandler_derive_channel_hash c s \<noteq> Inr (hd (pk_payload p))) us"
    and "cache_ok clock (gh_seen_group_packets gh)" and "clock \<le> now"
    and "group_packet_hash c p = Inr h" and "map_of (hc_entries (gh_seen_group_packets gh)) h = None"
    and "get_payload q = pk_payload p" and "get_payload_type q = PAYLOAD_TYPE_GRP_TXT"
    and "get_payload q' = pk_payload p" and "get_payload_type q' = PAYLOAD_TYPE_GRP_TXT"
    and "now \<le> later" and "later - now \<le> hc_ttl_seconds (gh_seen_group_packets gh)"
  shows "\<exists>gh' d ev k. GroupTextHandler_call c now q gh = (gh', Some d, ev)
    \<and> gd_channel_name d = name \<and> gd_sender_name d = sender \<and> gd_timestamp d = ts \<and> gd_text d = take k message
    \<and> (\<forall>bs. utf8_encode (sender @ str '': '' @ message) = Inr bs \<and> length bs \<le> 160 \<longrightarrow> k = length message)
    \<and> ev = announced_event c q d gh
    \<and> (\<exists>gh''. GroupTextHandler_call c later q' gh' = (gh'', None, None))"
proof -
  obtain k hb mac ct plain where k: "k \<le> length message"
    "\<And>bs. utf8_encode (sender @ str '': '' @ message) = Inr bs \<Longrightarrow> length bs \<le> 160 \<Longrightarrow> k = length message"
    and o: "GroupTextHandler_derive_channel_hash c (hex_str secret) = Inr hb" "pk_payload p = hb # mac @ ct"
    "length mac = 2" "1 \<le> length ct" "decrypt_channel_message c (hex_str secret) mac ct = Some plain"
    "parse_plaintext_message plain
       = Some \<lparr>gm_timestamp = ts, gm_flags = 0, gm_content = sender @ str '': '' @ take k message\<rparr>"
    "get_payload_type p = PAYLOAD_TYPE_GRP_TXT" "sendable p"
    by (rule group_packet_opens [OF assms(1-5)]) blast
  have gp: "get_payload p = pk_payload p"
    using o(8) by (simp add: sendable_def writable_def lengths_ok_def get_payload_def)
  have hq: "group_packet_hash c r = Inr h" if "get_payload r = pk_payload p" "get_payload_type r = PAYLOAD_TYPE_GRP_TXT" for r
    using assms(12) that gp o(7)
    by (simp add: group_packet_hash_def calculate_packet_hash_def get_payload_def
        PacketHashingUtils_calculate_packet_hash_def hash_input_def payload_type_defs)
  have fd: "first_decrypting c mac ct (get_channels_by_hash c g hb) = Some (name, plain)" if "gh_channel_db g = Some db" for g
  proof -
    from channels_by_hash [OF assms(1) that assms(8) _ o(1)] assms(9) o(2) obtain more where
      "get_channels_by_hash c g hb = (name, hex_str secret) # more" by auto
    with o(5) show ?thesis by simp
  qed
  let ?cc = "check_and_add (gh_seen_group_packets gh) now h"
  let ?gh = "gh\<lparr>gh_seen_group_packets := fst ?cc\<rparr>"
  note hit = cache_hit_iff [OF assms(10,11), of h]
  have c1: "snd ?cc = False" using hit assms(13) by simp
  have c2: "snd (check_and_add (fst ?cc) later h)"
    using cache_hit_iff [of now "fst ?cc" later h] hit assms(18,19) by (auto simp: check_and_add_def Let_def)
  have ex: "extract_sender_from_message (sender @ str '': '' @ take k message) = (sender, take k message)"
    by (simp add: extract_sender_from_message_def split_sender_first [OF assms(6)])
  note call = group_call [OF _ o(3,4) fd o(6) hq, unfolded parsed_group_message.simps, OF _ _ _ _ ex]
  let ?d = "\<lparr>gd_text = take k message, gd_sender_name = sender, gd_channel_name = name, gd_channel_hash = hb,
    gd_timestamp = ts, gd_flags = 0, gd_full_content = sender @ str '': '' @ take k message\<rparr>"
  have one: "GroupTextHandler_call c now q gh = (?gh, Some ?d, announced_event c q ?d gh)"
    using call [OF _ assms(7,14,15), of now "fst ?cc" False] assms(14) o(2) c1 by (cases ?cc) (auto simp: Let_def)
  obtain gh'' where "GroupTextHandler_call c later q' ?gh = (gh'', None, None)"
    using call [of q' ?gh later _ True] assms(7,16,17) o(2) c2 by (cases "check_and_add (fst ?cc) later h") auto
  with one k(2) show ?thesis
    by (intro exI [of _ ?gh] exI [of _ ?d] exI [of _ "announced_event c q ?d gh"] exI [of _ k]) auto
qed

definition toy_channels :: channel_store where
  "toy_channels = \<lparr>chs_channels = [None, Some \<lparr>ch_name = str ''ops'', ch_secret = replicate 16 7\<rparr>], chs_max_channels = 2\<rparr>"

definition toy_group_handler :: group_text_handler where
  "toy_group_handler =
     \<lparr>gh_channel_db = Some toy_channels, gh_event_service = True,
      gh_seen_group_packets = \<lparr>hc_ttl_seconds = 600, hc_max_entries = 4096, hc_entries = []\<rparr>\<rparr>"

theorem group_message_delivered_once_witness:
  "\<exists>p gh' d ev gh''. group_datagram_packet toy_crypto (str ''hello'') (replicate 16 7) (str ''Al'') 7 = Inr p
     \<and> GroupTextHandler_call toy_crypto 5 p toy_group_handler = (gh', Some d, ev)
     \<and> gd_sender_name d = str ''Al'' \<and> gd_text d = str ''hello''
     \<and> GroupTextHandler_call toy_crypto 600 p gh' = (gh'', None, None)"
proof -
  have "case group_datagram_packet toy_crypto (str ''hello'') (replicate 16 7) (str ''Al'') 7 of
      Inr p \<Rightarrow> get_payload p = pk_payload p \<and> get_payload_type p = PAYLOAD_TYPE_GRP_TXT
        \<and> (case group_packet_hash toy_crypto p of Inr _ \<Rightarrow> True | _ \<Rightarrow> False) | _ \<Rightarrow> False" by code_simp
  then obtain p h where p: "group_datagram_packet toy_crypto (str ''hello'') (replicate 16 7) (str ''Al'') 7 = Inr p"
    and q: "get_payload p = pk_payload p" "get_payload_type p = PAYLOAD_TYPE_GRP_TXT" and h: "group_packet_hash toy_crypto p = Inr h"
    by (auto split: sum.splits)
  have db: "gh_channel_db toy_group_handler = Some toy_channels"
    "get_channels toy_channels = [] @ (str ''ops'', hex_str (replicate 16 7)) # []"
    by (simp_all add: toy_group_handler_def toy_channels_def get_channels_def)
  have names: "0 \<notin> set (str ''Al'')" "0 \<notin> set (str ''hello'')" "split_sender (str ''Al'') = None"
    "utf8_encode (str ''Al'' @ str '': '' @ str ''hello'') = Inr (map of_char ''Al: hello'')" by code_simp+
  have cache: "cache_ok 0 (gh_seen_group_packets toy_group_handler)"
    "map_of (hc_entries (gh_seen_group_packets toy_group_handler)) h = None"
    "600 - 5 \<le> hc_ttl_seconds (gh_seen_group_packets toy_group_handler)"
    by (simp_all add: cache_ok_def toy_group_handler_def)
  from group_message_delivered_once [OF toy_crypto_laws _ p names(1-3) db _ cache(1) _ h cache(2) q q _ cache(3)]
  obtain gh' d ev k where "GroupTextHandler_call toy_crypto 5 p toy_group_handler = (gh', Some d, ev)"
    "gd_sender_name d = str ''Al''" "gd_text d = take k (str ''hello'')" "k = length (str ''hello'')"
    "\<exists>gh''. GroupTextHandler_call toy_crypto 600 p gh' = (gh'', None, None)"
    using names(4) by auto
  with p show ?thesis by auto
qed

end
