(* ===== verification/Trace_Handler.thy ===== *)
theory Trace_Handler
  imports Packet_Builder Forwarding
begin

text \<open>
  The handler of TRACE packets, \<open>node/handlers/trace.py\<close>. A call returns the callbacks that
  it runs in order and the parsed data; whether a callback raises is an argument. The text that
  accompanies a callback is not modelled, except that building it raises when the packet has no
  SNR.
\<close>

section \<open>Parsing\<close>

record trace_data =
  td_tag :: int
  td_auth_code :: int
  td_flags :: int
  td_trace_path_bytes :: bytes
  td_path_hash_width :: nat
  td_trace_hops :: "bytes list"
  td_trace_path_remainder :: nat

fun chunks :: "nat \<Rightarrow> nat \<Rightarrow> 'a list \<Rightarrow> 'a list list" where
  "chunks w 0 xs = []"
| "chunks w (Suc n) xs = take w xs # chunks w n (drop w xs)"

text \<open>\<open>None\<close> stands for the dictionary that reports a payload shorter than the fixed fields.\<close>

definition parse_trace_payload :: "bytes \<Rightarrow> trace_data option" where
  "parse_trace_payload payload =
     (if length payload < 9 then None
      else
        let tag = le_int (take 4 payload);
            auth_code = le_int (take 4 (drop 4 payload));
            flags = uint (payload ! 8);
            trace_path_bytes = drop 9 payload;
            path_hash_width = nat (trace_payload_hash_width flags);
            remainder = length trace_path_bytes mod path_hash_width;
            trace_hops = chunks path_hash_width (length trace_path_bytes div path_hash_width) trace_path_bytes
        in Some \<lparr>td_tag = tag, td_auth_code = auth_code, td_flags = flags, td_trace_path_bytes = trace_path_bytes,
                 td_path_hash_width = path_hash_width, td_trace_hops = trace_hops,
                 td_trace_path_remainder = remainder\<rparr>)"

definition trace_path :: "trace_data \<Rightarrow> byte list" where
  "trace_path d = map hd (td_trace_hops d)"

definition is_trace_complete :: "packet \<Rightarrow> bytes \<Rightarrow> nat \<Rightarrow> bool" where
  "is_trace_complete pkt trace_bytes hash_width =
     (if trace_bytes = [] \<or> hash_width \<le> 0 then False
      else length trace_bytes \<le> length (pk_path pkt) * hash_width)"

section \<open>The handler\<close>

record 'cb trace_handler =
  tr_response_callbacks :: "(int, 'cb) dict"
  tr_protocol_response_callbacks :: "(int, 'cb) dict"
  tr_on_trace_complete :: bool

definition TraceHandler_set_response_callback :: "int \<Rightarrow> 'cb \<Rightarrow> 'cb trace_handler \<Rightarrow> 'cb trace_handler" where
  "TraceHandler_set_response_callback contact_hash callback th =
     th\<lparr>tr_response_callbacks := AList.update contact_hash callback (tr_response_callbacks th)\<rparr>"

definition TraceHandler_clear_response_callback :: "int \<Rightarrow> 'cb trace_handler \<Rightarrow> 'cb trace_handler" where
  "TraceHandler_clear_response_callback contact_hash th =
     th\<lparr>tr_response_callbacks := AList.delete contact_hash (tr_response_callbacks th)\<rparr>"

definition trace_src_hash :: "trace_data option \<Rightarrow> int option" where
  "trace_src_hash parsed_data =
     (case parsed_data of
        None \<Rightarrow> None
      | Some d \<Rightarrow> if td_trace_hops d = [] then None
                  else let hop = List.last (td_trace_hops d) in if hop = [] then None else Some (uint (List.last hop)))"

text \<open>Run callbacks until one raises.\<close>

fun run_callbacks :: "('cb \<Rightarrow> bool) \<Rightarrow> 'cb list \<Rightarrow> 'cb list \<times> bool" where
  "run_callbacks callback_ok [] = ([], True)"
| "run_callbacks callback_ok (cb # cbs) =
     (if callback_ok cb then let (ran, ok) = run_callbacks callback_ok cbs in (cb # ran, ok) else ([cb], False))"

datatype 'cb trace_effect = TraceCallback 'cb | TraceComplete

definition trace_waiting :: "'cb trace_handler \<Rightarrow> trace_data option \<Rightarrow> 'cb list" where
  "trace_waiting th parsed_data =
     (case trace_src_hash parsed_data of
        None \<Rightarrow> []
      | Some src_hash \<Rightarrow>
          if src_hash = 0 then []
          else (case map_of (tr_response_callbacks th) src_hash of None \<Rightarrow> [] | Some cb \<Rightarrow> [cb]))"

text \<open>The result is \<open>None\<close> when an exception is caught, else the parsed data.\<close>

definition TraceHandler_call ::
  "('cb \<Rightarrow> bool) \<Rightarrow> packet \<Rightarrow> 'cb trace_handler \<Rightarrow> 'cb trace_effect list \<times> trace_data option option" where
  "TraceHandler_call callback_ok pkt th =
     (let parsed_data = parse_trace_payload (pk_payload pkt);
          callbacks = trace_waiting th parsed_data @ map snd (tr_protocol_response_callbacks th);
          formats = (parsed_data = None \<or> pk_snr pkt \<noteq> None)
      in if callbacks \<noteq> [] \<and> \<not> formats then ([], None)
         else
           let (ran, ok) = run_callbacks callback_ok callbacks;
               effs = map TraceCallback ran
           in if \<not> ok then (effs, None)
              else
                (effs @ (if tr_on_trace_complete th \<and>
                            (case parsed_data of None \<Rightarrow> False
                             | Some d \<Rightarrow> is_trace_complete pkt (td_trace_path_bytes d) (td_path_hash_width d))
                         then [TraceComplete] else []),
                 Some parsed_data))"

section \<open>Parsing what was built\<close>

lemma chunks_concat:
  assumes "\<forall>h \<in> set hops. length h = w"
  shows "chunks w (length hops) (concat hops @ rest) = hops"
  using assms by (induction hops) simp_all

lemma trace_width_cases: "nat (trace_payload_hash_width f) \<in> {1, 2, 4, 8}"
proof -
  have "f mod 4 = 0 \<or> f mod 4 = 1 \<or> f mod 4 = 2 \<or> f mod 4 = 3" by presburger
  then show ?thesis by (auto simp: trace_payload_hash_width_def mask_simps)
qed

lemma push_trace_width: "push_bit (nat (f AND 3)) (int i) = int i * int (nat (trace_payload_hash_width f))"
  by (simp add: trace_payload_hash_width_def push_bit_eq_mult)

lemma equal_hop_at:
  assumes "\<forall>h \<in> set hops. length h = w" and "i < length hops"
  shows "take w (drop (i * w) (concat hops)) = hops ! i"
  using assms
proof (induction hops arbitrary: i)
  case (Cons h hops)
  then show ?case by (cases i) (simp_all add: drop_append)
qed simp

lemma equal_hops_length: "\<forall>h \<in> set hops. length h = w \<Longrightarrow> length (concat hops) = length hops * w"
  by (induction hops) simp_all

section \<open>A trace on its way\<close>

text \<open>What a node gets of a packet that another one transmits.\<close>

definition heard :: "packet \<Rightarrow> packet option" where
  "heard p =
     (case write_to p of
        Inl _ \<Rightarrow> None
      | Inr w \<Rightarrow> (case parse_packet w of Inl _ \<Rightarrow> None | Inr r \<Rightarrow> Some r))"

text \<open>
  Each node in turn, with the SNR at which it hears the packet: it parses the bytes that the node
  before it transmitted and transmits what the forwarder builds. The result is what is heard
  behind the last node.
\<close>

fun trace_chain :: "(bytes \<times> real) list \<Rightarrow> packet \<Rightarrow> packet option" where
  "trace_chain [] p = heard p"
| "trace_chain ((key, snr) # nodes) p =
     (case heard p of
        None \<Rightarrow> None
      | Some r \<Rightarrow>
          (case build_client_repeat_forward (Some key) (r\<lparr>pk_snr := Some snr\<rparr>) of
             Inr (Some q) \<Rightarrow> trace_chain nodes q | _ \<Rightarrow> None))"

text \<open>A trace that has passed \<open>i\<close> of its hops.\<close>

definition trace_at :: "bytes \<Rightarrow> bytes list \<Rightarrow> nat \<Rightarrow> packet \<Rightarrow> bool" where
  "trace_at hdr hops i p \<longleftrightarrow>
     sendable p \<and> is_route_direct p \<and> get_payload_type p = PAYLOAD_TYPE_TRACE
     \<and> length hdr = 9 \<and> (\<forall>h \<in> set hops. length h = nat (trace_payload_hash_width (uint (hdr ! 8))))
     \<and> pk_payload p = hdr @ concat hops \<and> pk_payload_len p = int (length (pk_payload p))
     \<and> pk_path_len p = int i \<and> length (pk_path p) = i"

abbreviation snr_byte :: "real \<Rightarrow> byte" where
  "snr_byte snr \<equiv> word_of_int (py_int (snr * 4))"

lemma sendable_snr: "sendable (p\<lparr>pk_snr := s\<rparr>) \<longleftrightarrow> sendable p"
  by (simp add: sendable_def writable_def codes_ok_def lengths_ok_def route_arith accessor_arith packet_path_defs)

lemma trace_heard:
  assumes "trace_at hdr hops i p"
  obtains r where "heard p = Some r" and "trace_at hdr hops i r" and "pk_path r = pk_path p"
proof -
  have "sendable p" using assms by (simp add: trace_at_def)
  then obtain w r where r: "write_to p = Inr w" "parse_packet w = Inr r" "sendable r" "pk_header r = pk_header p"
    "pk_path r = pk_path p" "pk_path_len r = pk_path_len p" "pk_payload r = pk_payload p" "pk_payload_len r = pk_payload_len p"
    by (rule over_the_wire)
  have "trace_at hdr hops i r" using assms r by (simp add: trace_at_def route_arith accessor_arith)
  moreover have "heard p = Some r" using r(1,2) by (simp add: heard_def)
  ultimately show thesis using r(5) by (intro that)
qed

lemma trace_step:
  assumes "trace_at hdr hops i p" and "i < length hops" and "i < 63"
    and "take (nat (trace_payload_hash_width (uint (hdr ! 8)))) key = hops ! i"
  obtains q where "build_client_repeat_forward (Some key) (p\<lparr>pk_snr := Some snr\<rparr>) = Inr (Some q)"
    and "trace_at hdr hops (Suc i) q" and "pk_path q = pk_path p @ [snr_byte snr]"
proof -
  define w where "w = nat (trace_payload_hash_width (uint (hdr ! 8)))"
  let ?p = "p\<lparr>pk_snr := Some snr\<rparr>"
  from assms(1) have hdr: "length hdr = 9" and hops: "\<forall>h \<in> set hops. length h = w"
    and pl: "pk_payload p = hdr @ concat hops" "pk_payload_len p = int (length (pk_payload p))"
    and path: "pk_path_len p = int i" "length (pk_path p) = i" by (auto simp: trace_at_def w_def)
  have w: "0 < w" using trace_width_cases [of "uint (hdr ! 8)"] by (auto simp: w_def)
  have flags: "index_res (pk_payload p) 8 = Inr (hdr ! 8)" using hdr by (simp add: pl(1) index_res_def nth_append)
  have width: "2 ^ nat (uint (hdr ! 8) AND 3) = int w"
    using push_trace_width [of "uint (hdr ! 8)" 1] by (simp add: w_def)
  have pos: "\<not> int (length hops) * int w < 0" by (simp add: not_less)
  have off: "push_bit (nat (uint (hdr ! 8) AND 3)) (int i) = int i * int w"
    by (simp add: push_trace_width w_def)
  have len: "pk_payload_len p = 9 + int (length hops * w)"
    by (simp add: pl hdr equal_hops_length [OF hops])
  have more: "int i * int w < int (length hops * w)" using assms(2) w by (simp only: of_nat_mult [symmetric] of_nat_less_iff mult_less_cancel2)
  have sl: "slice (9 + int i * int w) (9 + int i * int w + int w) (pk_payload p) = take w key"
    using equal_hop_at [OF hops assms(2)] assms(4) [folded w_def]
    by (simp add: pl(1) hdr nat_add_distrib nat_mult_distrib)
  have sk: "slice_to (int w) key = take w key" by simp
  have set: "set_index (pk_path p @ replicate (nat (pk_path_len p + 1 - int (length (pk_path p)))) 0) (pk_path_len p) v
      = Inr (pk_path p @ [v])" for v
    using path by (simp add: set_index_def list_update_append)
  let ?q = "(copy_packet_for_forward ?p)\<lparr>pk_path := pk_path p @ [snr_byte snr], pk_path_len := int i + 1\<rparr>"
  have build: "build_trace_forward ?p key = Inr (Some ?q)"
    using assms(3) len more sl sk set path flags pos
    by (simp add: build_trace_forward_def width off Let_def size_defs copy_packet_for_forward_def
        get_snr_def calculate_snr_db_def)
  have sp: "sendable ?p" and direct: "is_route_direct ?p" "get_payload_type ?p = PAYLOAD_TYPE_TRACE"
    using assms(1) by (simp_all add: trace_at_def sendable_snr route_arith accessor_arith)
  have "sendable ?q" using trace_forward_correct [OF sp build] assms(3) path(1) by (auto split: if_splits)
  then have at: "trace_at hdr hops (Suc i) ?q"
    using assms(1) direct by (simp add: trace_at_def copy_packet_for_forward_def route_arith accessor_arith)
  have "build_client_repeat_forward (Some key) ?p = Inr (Some ?q)"
    using build direct by (simp add: build_client_repeat_forward_def)
  from that [OF this at] show thesis by simp
qed

lemma trace_chain_passes:
  assumes "trace_at hdr hops i p"
    and "map (take (nat (trace_payload_hash_width (uint (hdr ! 8)))) \<circ> fst) nodes = take (length nodes) (drop i hops)"
    and "i + length nodes \<le> 63" and "i + length nodes \<le> length hops"
  shows "\<exists>q. trace_chain nodes p = Some q \<and> trace_at hdr hops (i + length nodes) q
    \<and> pk_path q = pk_path p @ map (snr_byte \<circ> snd) nodes"
  using assms
proof (induction nodes arbitrary: i p)
  case Nil
  from Nil.prems(1) obtain r where "heard p = Some r" "trace_at hdr hops i r" "pk_path r = pk_path p" by (rule trace_heard)
  then show ?case by simp
next
  case (Cons node nodes)
  let ?f = "take (nat (trace_payload_hash_width (uint (hdr ! 8)))) \<circ> fst"
  obtain key snr where node: "node = (key, snr)" by (cases node)
  have i: "i < length hops" "i < 63" using Cons.prems(3,4) by auto
  have d: "drop i hops = hops ! i # drop (Suc i) hops" using i(1) by (simp add: Cons_nth_drop_Suc)
  have k: "take (nat (trace_payload_hash_width (uint (hdr ! 8)))) key = hops ! i"
    and r: "map ?f nodes = take (length nodes) (drop (Suc i) hops)"
    using Cons.prems(2) unfolding d node by (simp_all add: comp_def)
  from Cons.prems(1) obtain h where h: "heard p = Some h" "trace_at hdr hops i h" "pk_path h = pk_path p" by (rule trace_heard)
  obtain q where q: "build_client_repeat_forward (Some key) (h\<lparr>pk_snr := Some snr\<rparr>) = Inr (Some q)"
    "trace_at hdr hops (Suc i) q" "pk_path q = pk_path h @ [snr_byte snr]"
    by (rule trace_step [OF h(2) i k])
  from Cons.IH [OF q(2) r] Cons.prems(3,4) q(1,3) h(1,3) show ?case by (auto simp: node)
qed

lemma trace_at_parse:
  assumes "trace_at hdr hops i p"
  obtains d where "parse_trace_payload (pk_payload p) = Some d" and "td_tag d = le_int (take 4 hdr)"
    and "td_auth_code d = le_int (take 4 (drop 4 hdr))" and "td_flags d = uint (hdr ! 8)" and "td_trace_hops d = hops"
    and "is_trace_complete p (td_trace_path_bytes d) (td_path_hash_width d) \<longleftrightarrow> hops \<noteq> [] \<and> length hops \<le> i"
proof -
  define w where "w = nat (trace_payload_hash_width (uint (hdr ! 8)))"
  from assms have hdr: "length hdr = 9" and hops: "\<forall>h \<in> set hops. length h = w"
    and pl: "pk_payload p = hdr @ concat hops" and path: "length (pk_path p) = i" by (auto simp: trace_at_def w_def)
  have w: "0 < w" using trace_width_cases [of "uint (hdr ! 8)"] by (auto simp: w_def)
  note l = equal_hops_length [OF hops]
  have c: "chunks w (length hops) (concat hops) = hops" using chunks_concat [OF hops, of "[]"] by simp
  have e: "concat hops = [] \<longleftrightarrow> hops = []" using l w by (auto simp flip: length_0_conv)
  show thesis
  proof (rule that)
    show "parse_trace_payload (pk_payload p) = Some \<lparr>td_tag = le_int (take 4 hdr), td_auth_code = le_int (take 4 (drop 4 hdr)),
        td_flags = uint (hdr ! 8), td_trace_path_bytes = concat hops, td_path_hash_width = w, td_trace_hops = hops,
        td_trace_path_remainder = 0\<rparr>"
      using hdr w l c by (simp add: parse_trace_payload_def pl nth_append Let_def flip: w_def)
  qed (use w l e path in \<open>auto simp: is_trace_complete_def\<close>)
qed

lemma unchecked_trace_sendable:
  assumes "length (pk_payload (unchecked_packet PAYLOAD_TYPE_TRACE payload)) \<le> 184"
  shows "sendable (unchecked_packet PAYLOAD_TYPE_TRACE payload) \<and> is_route_direct (unchecked_packet PAYLOAD_TYPE_TRACE payload)
    \<and> get_payload_type (unchecked_packet PAYLOAD_TYPE_TRACE payload) = PAYLOAD_TYPE_TRACE"
proof -
  have "PacketBuilder_create_header PAYLOAD_TYPE_TRACE (str ''direct'') False = 38" by code_simp
  then show ?thesis
    using assms by (simp add: unchecked_packet_def new_packet_def sendable_def writable_def codes_ok_def lengths_ok_def
        route_arith accessor_arith is_valid_path_len_arith packet_path_defs path_len_arith payload_type_defs)
qed

text \<open>
  C7: A trace collects one signal report per hop and ends where it should. A TRACE that is built
  along a list of at most 63 nodes and fits into a packet is heard, forwarded and transmitted
  again by each of them in turn, every transmission being serialised and parsed. The packet that
  is heard behind the last one carries the scaled SNR of every hop in order, still parses to the
  tag, the authentication code and the hops it was built with, can itself be serialised, and is
  the first in the chain that the handler takes for complete. (A 64th report is appended as well,
  but that packet cannot be serialised: \<open>trace_forward_correct\<close>.)
\<close>

theorem trace_route_traversed:
  assumes "create_trace tag auth_code flags (Some (map uint (concat (map (take w \<circ> fst) nodes)))) = Inr p"
    and "w = nat (trace_payload_hash_width flags)" and "\<forall>(key, snr) \<in> set nodes. w \<le> length key"
    and "nodes \<noteq> []" and "length nodes \<le> 63" and "9 + length nodes * w \<le> 184"
  shows "\<exists>q d. trace_chain nodes p = Some q \<and> sendable q \<and> pk_path q = map (snr_byte \<circ> snd) nodes
    \<and> parse_trace_payload (pk_payload q) = Some d \<and> td_tag d = tag \<and> td_auth_code d = auth_code \<and> td_flags d = flags
    \<and> td_trace_hops d = map (take w \<circ> fst) nodes
    \<and> is_trace_complete q (td_trace_path_bytes d) (td_path_hash_width d)
    \<and> (\<forall>i < length nodes. \<exists>r. trace_chain (take i nodes) p = Some r
         \<and> \<not> is_trace_complete r (td_trace_path_bytes d) (td_path_hash_width d))"
proof -
  let ?hops = "map (take w \<circ> fst) nodes"
  define f :: byte where "f = word_of_int flags"
  from assms(1) have tag: "0 \<le> tag" "tag < 2 ^ 32" "0 \<le> auth_code" "auth_code < 2 ^ 32" and fl: "0 \<le> flags" "flags < 256"
    and p': "p = unchecked_packet PAYLOAD_TYPE_TRACE (le_bytes 4 tag @ le_bytes 4 auth_code @ le_bytes (Suc 0) flags @ concat ?hops)"
    by (auto simp: create_trace_def pack_u_def res_simps split: if_splits simp del: le_bytes.simps)
  have f: "flags = uint f" using fl by (simp add: f_def uint_byte_of_int)
  have "le_bytes (Suc 0) flags = [f]" using fl by (simp add: f_def)
  with p' have p: "p = unchecked_packet PAYLOAD_TYPE_TRACE (le_bytes 4 tag @ le_bytes 4 auth_code @ f # concat ?hops)" by simp
  define hdr where "hdr = le_bytes 4 tag @ le_bytes 4 auth_code @ [f]"
  have hdr: "length hdr = 9" "hdr ! 8 = f" "take 4 hdr = le_bytes 4 tag" "take 4 (drop 4 hdr) = le_bytes 4 auth_code"
    by (simp_all add: hdr_def nth_append del: le_bytes.simps)
  have w: "nat (trace_payload_hash_width (uint (hdr ! 8))) = w" by (simp add: hdr(2) assms(2) f)
  have ws: "\<forall>h \<in> set ?hops. length h = w" using assms(3) by auto
  have pl: "pk_payload p = hdr @ concat ?hops" by (simp add: p unchecked_packet_def hdr_def del: le_bytes.simps)
  have "length (pk_payload p) \<le> 184" using equal_hops_length [OF ws] assms(6) hdr(1) by (simp add: pl)
  then have "sendable p \<and> is_route_direct p \<and> get_payload_type p = PAYLOAD_TYPE_TRACE"
    unfolding p by (rule unchecked_trace_sendable)
  then have at: "trace_at hdr ?hops 0 p"
    using ws unfolding trace_at_def w pl by (simp add: p hdr(1) unchecked_packet_def pl [unfolded p unchecked_packet_def])
  have chain: "\<exists>q. trace_chain (take i nodes) p = Some q \<and> trace_at hdr ?hops i q \<and> pk_path q = map (snr_byte \<circ> snd) (take i nodes)"
    if "i \<le> length nodes" for i
  proof -
    have "pk_path p = []" by (simp add: p unchecked_packet_def)
    moreover have "length (take i nodes) = i" using that by simp
    ultimately show ?thesis
      using trace_chain_passes [OF at, unfolded w, of "take i nodes"] that assms(5) by (simp add: take_map)
  qed
  from chain [of "length nodes"] obtain q where q: "trace_chain nodes p = Some q" "trace_at hdr ?hops (length nodes) q"
    "pk_path q = map (snr_byte \<circ> snd) nodes" by auto
  from trace_at_parse [OF q(2)] obtain d where d: "parse_trace_payload (pk_payload q) = Some d" "td_tag d = tag"
    "td_auth_code d = auth_code" "td_flags d = flags" "td_trace_hops d = ?hops"
    "is_trace_complete q (td_trace_path_bytes d) (td_path_hash_width d)"
    using tag assms(4) unfolding hdr f by (auto simp: le_int_le_bytes simp del: le_bytes.simps)
  have "\<exists>r. trace_chain (take i nodes) p = Some r \<and> \<not> is_trace_complete r (td_trace_path_bytes d) (td_path_hash_width d)"
    if i: "i < length nodes" for i
  proof -
    from chain [of i] i obtain r where r: "trace_chain (take i nodes) p = Some r" "trace_at hdr ?hops i r" by auto
    have "pk_payload r = pk_payload q" using r(2) q(2) by (simp add: trace_at_def)
    with trace_at_parse [OF r(2)] d(1) i have "\<not> is_trace_complete r (td_trace_path_bytes d) (td_path_hash_width d)" by auto
    with r(1) show ?thesis by blast
  qed
  moreover have "sendable q" using q(2) by (simp add: trace_at_def)
  ultimately show ?thesis using q d by blast
qed

theorem trace_route_traversed_witness:
  "\<exists>p q. create_trace 7 9 1 (Some [1, 2, 3, 4]) = Inr p \<and> trace_chain [([1, 2, 8], 5), ([3, 4, 8], -2)] p = Some q
     \<and> pk_path q = [20, 248]"
proof -
  let ?nodes = "[([1, 2, 8], 5), ([3, 4, 8], -2)] :: (bytes \<times> real) list"
  have m: "map uint (concat (map (take 2 \<circ> fst) ?nodes)) = [1, 2, 3, 4]" by simp
  have "case create_trace 7 9 1 (Some [1, 2, 3, 4]) of Inr _ \<Rightarrow> True | _ \<Rightarrow> False" by code_simp
  then obtain p where p: "create_trace 7 9 1 (Some [1, 2, 3, 4]) = Inr p" by (auto split: sum.splits)
  have w: "2 = nat (trace_payload_hash_width 1)" by code_simp
  have s: "py_int (5 * 4 :: real) = 20" "py_int (-2 * 4 :: real) = -8" by code_simp+
  from trace_route_traversed [OF p [folded m] w] obtain q where "trace_chain ?nodes p = Some q"
    "pk_path q = map (snr_byte \<circ> snd) ?nodes" by auto
  with p s show ?thesis by auto
qed

text \<open>A callback registered for the hash byte zero is never run, whatever trace comes in.\<close>

lemma trace_callback_zero:
  assumes "tr_response_callbacks th = [(0, cb)]" and "tr_protocol_response_callbacks th = []"
  shows "TraceCallback cb' \<notin> set (fst (TraceHandler_call callback_ok pkt th))"
  using assms by (auto simp: TraceHandler_call_def trace_waiting_def Let_def split: option.splits)

end
