(* ===== verification/Control_Handler.thy ===== *)
theory Control_Handler
  imports Packet_Builder
begin

text \<open>
  The handler of CONTROL packets, \<open>node/handlers/control.py\<close>: node discovery requests and
  responses, which are exchanged directly between neighbours. A call returns the data it hands to
  a callback, the callback if one is registered, and what it returns. \<open>snr_register_to_db\<close> is
  the one of \<open>hardware/signal_utils.py\<close>.
\<close>

section \<open>Signal reports\<close>

definition snr_register_to_db :: "int option \<Rightarrow> int \<Rightarrow> real res" where
  "snr_register_to_db raw_value bits =
     (case raw_value of
        None \<Rightarrow> Inr 0
      | Some raw \<Rightarrow>
          if bits \<le> 0 \<or> 32 < bits then Inl (ValueError ''bits must be between 1 and 32'')
          else
            let max_value = push_bit (nat bits) 1;
                m = max_value - 1;
                value = raw AND m;
                sign_bit = push_bit (nat (bits - 1)) 1;
                value = (if sign_bit \<le> value then value - max_value else value)
            in Inr (of_int value / 4))"

section \<open>The handler\<close>

definition CTL_TYPE_NODE_DISCOVER_REQ :: int where "CTL_TYPE_NODE_DISCOVER_REQ = 0x80"
definition CTL_TYPE_NODE_DISCOVER_RESP :: int where "CTL_TYPE_NODE_DISCOVER_RESP = 0x90"

record 'cb control_handler =
  ctl_response_callbacks :: "(int, 'cb) dict"
  ctl_request_callback :: "'cb option"

definition ControlHandler_set_response_callback :: "int \<Rightarrow> 'cb \<Rightarrow> 'cb control_handler \<Rightarrow> 'cb control_handler" where
  "ControlHandler_set_response_callback tag callback th =
     th\<lparr>ctl_response_callbacks := AList.update tag callback (ctl_response_callbacks th)\<rparr>"

definition ControlHandler_clear_response_callback :: "int \<Rightarrow> 'cb control_handler \<Rightarrow> 'cb control_handler" where
  "ControlHandler_clear_response_callback tag th =
     th\<lparr>ctl_response_callbacks := AList.delete tag (ctl_response_callbacks th)\<rparr>"

definition set_request_callback :: "'cb \<Rightarrow> 'cb control_handler \<Rightarrow> 'cb control_handler" where
  "set_request_callback callback th = th\<lparr>ctl_request_callback := Some callback\<rparr>"

definition clear_request_callback :: "'cb control_handler \<Rightarrow> 'cb control_handler" where
  "clear_request_callback th = th\<lparr>ctl_request_callback := None\<rparr>"

datatype discovery =
    DiscoveryRequest int int int bool
  | DiscoveryResponse int int real bytes

definition handle_discovery_request :: "packet \<Rightarrow> discovery option" where
  "handle_discovery_request pkt =
     (if length (pk_payload pkt) < 6 then None
      else
        let flags_byte = uint (pk_payload pkt ! 0);
            prefix_only = (flags_byte AND 0x01 \<noteq> 0);
            filter_byte = uint (pk_payload pkt ! 1);
            tag = le_int (take 4 (drop 2 (pk_payload pkt)));
            since = (if 10 \<le> length (pk_payload pkt) then le_int (take 4 (drop 6 (pk_payload pkt))) else 0)
        in Some (DiscoveryRequest tag filter_byte since prefix_only))"

text \<open>Logging a response formats the SNR of the packet, which raises when there is none.\<close>

definition handle_discovery_response :: "packet \<Rightarrow> discovery option" where
  "handle_discovery_response pkt =
     (if length (pk_payload pkt) < 6 then None
      else
        let type_byte = uint (pk_payload pkt ! 0);
            node_type = type_byte AND 0x0F;
            tag = le_int (take 4 (drop 2 (pk_payload pkt)));
            pub_key = drop 6 (pk_payload pkt)
        in case snr_register_to_db (Some (uint (pk_payload pkt ! 1))) 8 of
             Inl _ \<Rightarrow> None
           | Inr inbound_snr \<Rightarrow>
               if pk_snr pkt = None then None
               else Some (DiscoveryResponse tag node_type inbound_snr pub_key))"

definition ControlHandler_parse :: "packet \<Rightarrow> discovery option" where
  "ControlHandler_parse pkt =
     (if pk_payload pkt = [] then None
      else if \<not> is_route_direct pkt then None
      else if uint (pk_payload pkt ! 0) AND 0x80 = 0 then None
      else if Packet_get_path_hash_count pkt \<noteq> 0 then None
      else
        let control_type = uint (pk_payload pkt ! 0) AND 0xF0
        in if control_type = CTL_TYPE_NODE_DISCOVER_REQ then handle_discovery_request pkt
           else if control_type = CTL_TYPE_NODE_DISCOVER_RESP then handle_discovery_response pkt
           else None)"

text \<open>
  The callback that runs and the returned data; an exception of the callback is caught and the
  handler returns nothing.
\<close>

definition ControlHandler_call ::
  "('cb \<Rightarrow> bool) \<Rightarrow> packet \<Rightarrow> 'cb control_handler \<Rightarrow> 'cb option \<times> discovery option" where
  "ControlHandler_call callback_ok pkt th =
     (case ControlHandler_parse pkt of
        None \<Rightarrow> (None, None)
      | Some data \<Rightarrow>
          let callback = (case data of
                            DiscoveryRequest _ _ _ _ \<Rightarrow> ctl_request_callback th
                          | DiscoveryResponse tag _ _ _ \<Rightarrow> map_of (ctl_response_callbacks th) tag)
          in (callback, if (case callback of None \<Rightarrow> True | Some cb \<Rightarrow> callback_ok cb) then Some data else None))"

section \<open>What neighbours understand\<close>

lemma unchecked_control:
  "is_route_direct (unchecked_packet PAYLOAD_TYPE_CONTROL bs)"
  "Packet_get_path_hash_count (unchecked_packet PAYLOAD_TYPE_CONTROL bs) = 0"
  "pk_payload (unchecked_packet PAYLOAD_TYPE_CONTROL bs) = bs"
proof -
  have "is_route_direct (new_packet\<lparr>pk_header := PacketBuilder_create_header PAYLOAD_TYPE_CONTROL (str ''direct'') False\<rparr>)"
    by code_simp
  then show "is_route_direct (unchecked_packet PAYLOAD_TYPE_CONTROL bs)"
    by (simp add: unchecked_packet_def is_route_direct_def get_route_type_def)
qed (simp_all add: unchecked_packet_def packet_path_defs path_len_arith)

lemma snr_register_byte:
  assumes "-128 \<le> v" and "v \<le> 127"
  shows "snr_register_to_db (Some (v AND 0xFF)) 8 = Inr (of_int v / 4)"
proof -
  have "v mod 256 = (if v < 0 then v + 256 else v)"
  proof (cases "v < 0")
    case True
    then have "v mod 256 = (v + 256) mod 256" by simp
    also have "\<dots> = v + 256" using True assms(1) by (intro mod_pos_pos_trivial) simp_all
    finally show ?thesis using True by simp
  qed (use assms in simp)
  with assms show ?thesis by (simp add: snr_register_to_db_def mask_simps Let_def)
qed

lemma response_type_byte:
  assumes "to_byte (0x90 OR (n AND 0x0F)) = Inr b"
  shows "uint b AND 0x80 \<noteq> 0" and "uint b AND 0xF0 = 0x90" and "uint b AND 0x0F = n AND 0x0F"
proof -
  define x where "x = n AND 0x0F"
  have "0 \<le> x" "x < 16" by (simp_all add: x_def mask_simps)
  then have "x \<in> set [0..15]" by simp
  moreover have "[0..15] = [0, 1, 2, 3, 4, 5, 6, 7, 8, 9, 10, 11, 12, 13, 14, 15 :: int]" by code_simp
  moreover have "uint b = 0x90 OR x" using assms by (simp add: x_def res_simps)
  ultimately show "uint b AND 0x80 \<noteq> 0" "uint b AND 0xF0 = 0x90" "uint b AND 0x0F = n AND 0x0F"
    unfolding x_def [symmetric] by (auto simp del: set_upto)
qed

lemma parse_request:
  assumes "0 \<le> tag" and "tag < 2 ^ 32" and "b0 \<in> {0x80, 0x81}" and "sn = (if 0 < since then le_bytes 4 since else [])"
    and "0 < since \<Longrightarrow> since < 2 ^ 32"
  shows "ControlHandler_parse (unchecked_packet PAYLOAD_TYPE_CONTROL (b0 # b1 # le_bytes 4 tag @ sn))
    = Some (DiscoveryRequest tag (uint b1) (if 0 < since then since else 0) (b0 = 0x81))"
proof -
  have t: "le_int (le_bytes 4 tag) = tag" using assms(1,2) by (simp add: le_int_le_bytes del: le_bytes.simps)
  have s: "le_int (le_bytes 4 since) = since" if "0 < since"
    using that assms(5) by (simp add: le_int_le_bytes del: le_bytes.simps)
  have "uint b0 AND 0x80 \<noteq> 0" "uint b0 AND 0xF0 = CTL_TYPE_NODE_DISCOVER_REQ" "uint b0 AND 1 \<noteq> 0 \<longleftrightarrow> b0 = 0x81"
    using assms(3) by (auto simp: CTL_TYPE_NODE_DISCOVER_REQ_def)
  with t s assms(4) show ?thesis
    by (simp add: ControlHandler_parse_def unchecked_control handle_discovery_request_def Let_def del: le_bytes.simps)
qed

lemma parse_response:
  assumes "0 \<le> tag" and "tag < 2 ^ 32" and "to_byte (0x90 OR (n AND 0x0F)) = Inr b0"
    and "to_byte (v AND 0xFF) = Inr b1" and "-128 \<le> v" and "v \<le> 127"
  shows "ControlHandler_parse ((unchecked_packet PAYLOAD_TYPE_CONTROL (b0 # b1 # le_bytes 4 tag @ key))\<lparr>pk_snr := Some snr\<rparr>)
    = Some (DiscoveryResponse tag (n AND 0x0F) (of_int v / 4) key)"
proof -
  let ?p = "(unchecked_packet PAYLOAD_TYPE_CONTROL (b0 # b1 # le_bytes 4 tag @ key))\<lparr>pk_snr := Some snr\<rparr>"
  have t: "le_int (le_bytes 4 tag) = tag" using assms(1,2) by (simp add: le_int_le_bytes del: le_bytes.simps)
  have p: "is_route_direct ?p" "Packet_get_path_hash_count ?p = 0" "pk_payload ?p = b0 # b1 # le_bytes 4 tag @ key"
    using unchecked_control by (simp_all add: is_route_direct_def get_route_type_def packet_path_defs)
  have "uint b1 = v AND 0xFF" using assms(4) by (simp add: to_byte_eq_Inr)
  with snr_register_byte [OF assms(5,6)] have "snr_register_to_db (Some (uint b1)) 8 = Inr (of_int v / 4)" by simp
  with t p response_type_byte [OF assms(3)] show ?thesis
    by (simp add: ControlHandler_parse_def handle_discovery_response_def CTL_TYPE_NODE_DISCOVER_REQ_def
        CTL_TYPE_NODE_DISCOVER_RESP_def Let_def del: le_bytes.simps)
qed

text \<open>
  Discovery packets mean to the receiving handler what the builder was given: a request parses
  to its tag, filter byte, time and prefix flag, and a response, received with any SNR, to its
  tag, node type, key (or key prefix) and the reported SNR, rounded towards zero to quarters of a
  decibel and clamped to the signed byte.
\<close>

lemma discovery_roundtrip:
  "(create_discovery_request tag filter_mask since prefix_only = Inr p \<longrightarrow>
      ControlHandler_parse p
        = Some (DiscoveryRequest tag (filter_mask AND 0xFF) (if 0 < since then since else 0) prefix_only))
   \<and> (create_discovery_response tag node_type inbound_snr pub_key prefix_only = Inr q \<longrightarrow>
      ControlHandler_parse (q\<lparr>pk_snr := Some snr\<rparr>)
        = Some (DiscoveryResponse tag (node_type AND 0x0F) (of_int (max (-128) (min 127 (py_int (inbound_snr * 4)))) / 4)
                 (take (if prefix_only then 8 else 32) pub_key)))"
proof (intro conjI impI)
  define b1 :: byte where "b1 = word_of_int (filter_mask AND 0xFF)"
  have b1: "uint b1 = filter_mask AND 0xFF" unfolding b1_def by (rule uint_byte_of_int) (simp_all add: mask_simps)
  assume "create_discovery_request tag filter_mask since prefix_only = Inr p"
  then obtain sn where sn: "sn = (if 0 < since then le_bytes 4 since else [])" "0 < since \<longrightarrow> since < 2 ^ 32"
    and tag: "0 \<le> tag" "tag < 2 ^ 32"
    and p: "p = unchecked_packet PAYLOAD_TYPE_CONTROL ((if prefix_only then 0x81 else 0x80) # b1 # le_bytes 4 tag @ sn)"
    unfolding b1_def
    by (auto simp: create_discovery_request_def pack_u_def to_byte_def res_simps Let_def split: if_splits simp del: le_bytes.simps)
  have b0: "(if prefix_only then 0x81 else 0x80) \<in> {0x80, 0x81 :: byte}" by simp
  show "ControlHandler_parse p
      = Some (DiscoveryRequest tag (filter_mask AND 0xFF) (if 0 < since then since else 0) prefix_only)"
    using parse_request [OF tag b0 sn(1)] sn(2) by (auto simp: p b1)
next
  let ?v = "max (-128) (min 127 (py_int (inbound_snr * 4)))"
  assume "create_discovery_response tag node_type inbound_snr pub_key prefix_only = Inr q"
  then obtain b0 b1 where b: "to_byte (0x90 OR (node_type AND 0x0F)) = Inr b0" "to_byte (?v AND 0xFF) = Inr b1"
    and tag: "0 \<le> tag" "tag < 2 ^ 32"
    and q: "q = unchecked_packet PAYLOAD_TYPE_CONTROL (b0 # b1 # le_bytes 4 tag @ take (if prefix_only then 8 else 32) pub_key)"
    by (auto simp: create_discovery_response_def pack_u_def bind_res_eq_Inr Let_def split: if_splits simp del: le_bytes.simps)
  show "ControlHandler_parse (q\<lparr>pk_snr := Some snr\<rparr>)
        = Some (DiscoveryResponse tag (node_type AND 0x0F) (of_int ?v / 4) (take (if prefix_only then 8 else 32) pub_key))"
    unfolding q by (rule parse_response [OF tag b]) simp_all
qed

end
