(* ===== verification/Kiss_Framing.thy ===== *)
theory Kiss_Framing
  imports Interfaces
begin

text \<open>
  KISS framing as \<open>hardware/kiss_serial_wrapper.py\<close> and \<open>hardware/kiss_modem_wrapper.py\<close> have
  it. The two files carry the same encoder loop, the same decoder of single bytes and the same
  bulk decoder, up to three points that are arguments here: how long a frame has to be to be
  processed, whether an escaped byte respects the frame size limit, and what processing a frame
  does. The locale at the end states what the decoders rely on when they process a frame.
\<close>

section \<open>Delimiters and the encoder\<close>

definition KISS_FEND :: byte where "KISS_FEND = 0xC0"
definition KISS_FESC :: byte where "KISS_FESC = 0xDB"
definition KISS_TFEND :: byte where "KISS_TFEND = 0xDC"
definition KISS_TFESC :: byte where "KISS_TFESC = 0xDD"
definition MAX_FRAME_SIZE :: nat where "MAX_FRAME_SIZE = 512"
definition TX_BUFFER_SIZE :: nat where "TX_BUFFER_SIZE = 1024"

lemmas kiss_defs = KISS_FEND_def KISS_FESC_def KISS_TFEND_def KISS_TFESC_def

fun kiss_escape :: "bytes \<Rightarrow> bytes" where
  "kiss_escape [] = []"
| "kiss_escape (b # data) =
     (if b = KISS_FEND then [KISS_FESC, KISS_TFEND]
      else if b = KISS_FESC then [KISS_FESC, KISS_TFESC]
      else [b]) @ kiss_escape data"

definition kiss_frame :: "byte \<Rightarrow> bytes \<Rightarrow> bytes" where
  "kiss_frame cmd_byte data = [KISS_FEND, cmd_byte] @ kiss_escape data @ [KISS_FEND]"

section \<open>The receiving side of a line\<close>

record kiss_line =
  kl_buffer :: bytes
  kl_in_frame :: bool
  kl_escaped :: bool
  kl_frame_errors :: int

definition kiss_resync :: "'a kiss_line_scheme \<Rightarrow> 'a kiss_line_scheme" where
  "kiss_resync st = st\<lparr>kl_frame_errors := kl_frame_errors st + 1, kl_buffer := [], kl_in_frame := False\<rparr>"

definition kiss_unescape :: "byte \<Rightarrow> byte" where
  "kiss_unescape b = (if b = KISS_TFEND then KISS_FEND else KISS_FESC)"

definition kiss_byte ::
  "nat \<Rightarrow> bool \<Rightarrow> ('a kiss_line_scheme \<Rightarrow> 'a kiss_line_scheme) \<Rightarrow> byte \<Rightarrow> 'a kiss_line_scheme
     \<Rightarrow> 'a kiss_line_scheme" where
  "kiss_byte least capped process b st =
     (if b = KISS_FEND then
        (if kl_in_frame st \<and> least < length (kl_buffer st) then process st else st)
          \<lparr>kl_buffer := [], kl_in_frame := True, kl_escaped := False\<rparr>
      else if b = KISS_FESC then
        (if kl_in_frame st then st\<lparr>kl_escaped := True\<rparr> else st)
      else if kl_escaped st then
        (if b = KISS_TFEND \<or> b = KISS_TFESC then
           if capped \<and> MAX_FRAME_SIZE \<le> length (kl_buffer st) then kiss_resync st
           else st\<lparr>kl_buffer := kl_buffer st @ [kiss_unescape b]\<rparr>
         else kiss_resync st)\<lparr>kl_escaped := False\<rparr>
      else if kl_in_frame st then
        if MAX_FRAME_SIZE \<le> length (kl_buffer st) then kiss_resync st
        else st\<lparr>kl_buffer := kl_buffer st @ [b]\<rparr>
      else st)"

text \<open>The bulk decoder scans for delimiters with \<open>bytes.find\<close>, which returns -1 for none.\<close>

definition bytes_find :: "byte \<Rightarrow> bytes \<Rightarrow> nat \<Rightarrow> int" where
  "bytes_find b data i =
     (let k = i + length (takeWhile (\<lambda>x. x \<noteq> b) (drop i data))
      in if k < length data then int k else -1)"

definition next_delimiter :: "bytes \<Rightarrow> nat \<Rightarrow> int" where
  "next_delimiter data i =
     (let fend = bytes_find KISS_FEND data i; fesc = bytes_find KISS_FESC data i
      in if fend = -1 then fesc else if fesc = -1 then fend else if fend < fesc then fend else fesc)"

definition kiss_run :: "bytes \<Rightarrow> bool \<Rightarrow> 'a kiss_line_scheme \<Rightarrow> bool \<times> 'a kiss_line_scheme" where
  "kiss_run run in_frame st =
     (if run \<noteq> [] \<and> in_frame then
        if int (length run) \<le> int MAX_FRAME_SIZE - int (length (kl_buffer st))
        then (in_frame, st\<lparr>kl_buffer := kl_buffer st @ run\<rparr>)
        else (False, st\<lparr>kl_frame_errors := kl_frame_errors st + 1, kl_buffer := []\<rparr>)
      else (in_frame, st))"

lemma bytes_find_ge: "bytes_find b data i \<noteq> -1 \<Longrightarrow> int i \<le> bytes_find b data i"
  by (simp add: bytes_find_def Let_def split: if_splits)

lemma next_delimiter_ge: "next_delimiter data i \<noteq> -1 \<Longrightarrow> int i \<le> next_delimiter data i"
  using bytes_find_ge [of KISS_FEND data i] bytes_find_ge [of KISS_FESC data i]
  by (auto simp: next_delimiter_def Let_def split: if_splits)

text \<open>
  The loop keeps \<open>in_frame\<close> and \<open>escaped\<close> in local variables and works on the buffer of the
  object; it returns the two variables with the object.
\<close>

function kiss_bulk ::
  "nat \<Rightarrow> bool \<Rightarrow> ('a kiss_line_scheme \<Rightarrow> 'a kiss_line_scheme) \<Rightarrow> bytes \<Rightarrow> nat \<Rightarrow> bool \<Rightarrow> bool
     \<Rightarrow> 'a kiss_line_scheme \<Rightarrow> bool \<times> bool \<times> 'a kiss_line_scheme" where
  "kiss_bulk least capped process data i in_frame escaped st =
     (if \<not> i < length data then (in_frame, escaped, st)
      else if escaped then
        let b = data ! i
        in if b = KISS_TFEND \<or> b = KISS_TFESC then
             if capped \<and> MAX_FRAME_SIZE \<le> length (kl_buffer st)
             then kiss_bulk least capped process data (i + 1) False False
                    (st\<lparr>kl_frame_errors := kl_frame_errors st + 1, kl_buffer := []\<rparr>)
             else kiss_bulk least capped process data (i + 1) in_frame False
                    (st\<lparr>kl_buffer := kl_buffer st @ [kiss_unescape b]\<rparr>)
           else kiss_bulk least capped process data (i + 1) False False
                  (st\<lparr>kl_frame_errors := kl_frame_errors st + 1, kl_buffer := []\<rparr>)
      else
        let nxt = next_delimiter data i;
            run_end = (if nxt = -1 then length data else nat nxt);
            ran = kiss_run (take (run_end - i) (drop i data)) in_frame st;
            in_frame = fst ran;
            st = snd ran
        in if nxt = -1 then (in_frame, escaped, st)
           else if data ! run_end = KISS_FEND then
             kiss_bulk least capped process data (run_end + 1) True False
               ((if in_frame \<and> least < length (kl_buffer st) then process st else st)\<lparr>kl_buffer := []\<rparr>)
           else kiss_bulk least capped process data (run_end + 1) in_frame in_frame st)"
  by pat_completeness auto
termination
  by (relation "measure (\<lambda>(least, capped, process, data, i, _). length data - i)")
    (use next_delimiter_ge in \<open>force split: if_splits\<close>)+

declare kiss_bulk.simps [simp del]

definition kiss_decode ::
  "nat \<Rightarrow> bool \<Rightarrow> ('a kiss_line_scheme \<Rightarrow> 'a kiss_line_scheme) \<Rightarrow> bytes \<Rightarrow> 'a kiss_line_scheme
     \<Rightarrow> 'a kiss_line_scheme" where
  "kiss_decode least capped process data st =
     (if data = [] then st
      else case kiss_bulk least capped process data 0 (kl_in_frame st) (kl_escaped st) st of
             (in_frame, escaped, st) \<Rightarrow> st\<lparr>kl_in_frame := in_frame, kl_escaped := escaped\<rparr>)"

section \<open>What the bulk decoder computes\<close>

text \<open>
  The bulk decoder as a fold over single bytes. It is \<open>kiss_byte\<close> except that a pending escape is
  looked at before the delimiters.
\<close>

definition bulk_byte ::
  "nat \<Rightarrow> bool \<Rightarrow> ('a kiss_line_scheme \<Rightarrow> 'a kiss_line_scheme) \<Rightarrow> byte \<Rightarrow> 'a kiss_line_scheme
     \<Rightarrow> 'a kiss_line_scheme" where
  "bulk_byte least capped process b st =
     (if kl_escaped st \<and> (b = KISS_FEND \<or> b = KISS_FESC) then (kiss_resync st)\<lparr>kl_escaped := False\<rparr>
      else kiss_byte least capped process b st)"

lemma kiss_distinct [simp]:
  "KISS_FEND \<noteq> KISS_FESC" "KISS_TFEND \<noteq> KISS_FEND" "KISS_TFEND \<noteq> KISS_FESC"
  "KISS_TFESC \<noteq> KISS_FEND" "KISS_TFESC \<noteq> KISS_FESC" "KISS_TFEND \<noteq> KISS_TFESC"
  by (simp_all add: kiss_defs)

lemmas kiss_distinct_sym [simp] = kiss_distinct [symmetric]

lemma takeWhile_or:
  "takeWhile (\<lambda>x. x \<noteq> a \<and> x \<noteq> b) xs =
     take (min (length (takeWhile (\<lambda>x. x \<noteq> a) xs)) (length (takeWhile (\<lambda>x. x \<noteq> b) xs))) xs"
  by (induction xs) auto

text \<open>The next delimiter splits the rest of the data into a plain run, the delimiter and a rest.\<close>

lemma next_delimiter_eq:
  "next_delimiter data i =
     (let k = i + length (takeWhile (\<lambda>x. x \<noteq> KISS_FEND \<and> x \<noteq> KISS_FESC) (drop i data))
      in if k < length data then int k else -1)"
  by (auto simp: next_delimiter_def bytes_find_def Let_def takeWhile_or min_def)

lemma next_delimiter_none:
  assumes "next_delimiter data i = -1" and "x \<in> set (drop i data)"
  shows "x \<noteq> KISS_FEND \<and> x \<noteq> KISS_FESC"
proof -
  let ?w = "takeWhile (\<lambda>x. x \<noteq> KISS_FEND \<and> x \<noteq> KISS_FESC) (drop i data)"
  have le: "length ?w \<le> length (drop i data)" by (rule length_takeWhile_le)
  have "drop i data \<noteq> []" using assms(2) by auto
  with assms(1) le have "length ?w = length (drop i data)"
    by (auto simp: next_delimiter_eq Let_def split: if_splits)
  then have "take (length ?w) (drop i data) = drop i data" by simp
  with takeWhile_eq_take [of "\<lambda>x. x \<noteq> KISS_FEND \<and> x \<noteq> KISS_FESC" "drop i data"]
  have "?w = drop i data" by (rule trans)
  then have "\<forall>x\<in>set (drop i data). x \<noteq> KISS_FEND \<and> x \<noteq> KISS_FESC"
    unfolding takeWhile_eq_all_conv .
  with assms(2) show ?thesis by blast
qed

lemma next_delimiter_some:
  assumes "next_delimiter data i = int k"
  shows "drop i data = take (k - i) (drop i data) @ data ! k # drop (k + 1) data"
    and "\<forall>x\<in>set (take (k - i) (drop i data)). x \<noteq> KISS_FEND \<and> x \<noteq> KISS_FESC"
    and "data ! k = KISS_FEND \<or> data ! k = KISS_FESC"
    and "i \<le> k" and "k < length data"
proof -
  let ?P = "\<lambda>x. x \<noteq> KISS_FEND \<and> x \<noteq> KISS_FESC"
  have k: "k = i + length (takeWhile ?P (drop i data))" "k < length data"
    using assms by (auto simp: next_delimiter_eq Let_def split: if_splits)
  have ki: "length (takeWhile ?P (drop i data)) = k - i" using k(1) by simp
  have t: "take (k - i) (drop i data) = takeWhile ?P (drop i data)"
    using takeWhile_eq_take [of ?P "drop i data"] ki by simp
  show "i \<le> k" "k < length data" using k by auto
  have "drop (k - i) (drop i data) = drop k data" using \<open>i \<le> k\<close> by simp
  also have "\<dots> = data ! k # drop (k + 1) data" using k(2) by (simp add: Cons_nth_drop_Suc)
  finally show "drop i data = take (k - i) (drop i data) @ data ! k # drop (k + 1) data"
    by (metis append_take_drop_id)
  show "\<forall>x\<in>set (take (k - i) (drop i data)). ?P x"
    unfolding t using set_takeWhileD by fastforce
  have "length (takeWhile ?P (drop i data)) < length (drop i data)" using k by simp
  from nth_length_takeWhile [OF this] show "data ! k = KISS_FEND \<or> data ! k = KISS_FESC"
    using ki \<open>i \<le> k\<close> k(2) by (auto simp: nth_drop)
qed

lemma bulk_plain_outside:
  assumes "\<not> kl_in_frame st" and "\<not> kl_escaped st"
    and "\<forall>x\<in>set run. x \<noteq> KISS_FEND \<and> x \<noteq> KISS_FESC"
  shows "fold (bulk_byte least capped process) run st = st"
  using assms by (induction run) (auto simp: bulk_byte_def kiss_byte_def)

text \<open>A run of plain bytes, taken as a whole or byte by byte.\<close>

lemma bulk_plain_run:
  assumes "\<not> kl_escaped st" and "\<forall>x\<in>set run. x \<noteq> KISS_FEND \<and> x \<noteq> KISS_FESC"
  shows "fold (bulk_byte least capped process) run st =
     (case kiss_run run (kl_in_frame st) st of (in_frame, st) \<Rightarrow> st\<lparr>kl_in_frame := in_frame\<rparr>)"
  using assms
proof (induction run arbitrary: st)
  case Nil
  then show ?case by (simp add: kiss_run_def)
next
  case (Cons x run)
  have x: "x \<noteq> KISS_FEND" "x \<noteq> KISS_FESC" using Cons.prems(2) by auto
  show ?case
  proof (cases "kl_in_frame st \<and> length (kl_buffer st) < MAX_FRAME_SIZE")
    case True
    let ?st = "st\<lparr>kl_buffer := kl_buffer st @ [x]\<rparr>"
    have "bulk_byte least capped process x st = ?st"
      using True x Cons.prems(1) by (simp add: bulk_byte_def kiss_byte_def)
    moreover have "fold (bulk_byte least capped process) run ?st =
        (case kiss_run run (kl_in_frame ?st) ?st of (in_frame, st) \<Rightarrow> st\<lparr>kl_in_frame := in_frame\<rparr>)"
      using Cons.prems by (intro Cons.IH) auto
    ultimately show ?thesis using True by (auto simp: kiss_run_def)
  next
    case False
    show ?thesis
    proof (cases "kl_in_frame st")
      case True
      have "bulk_byte least capped process x st = kiss_resync st"
        using True False x Cons.prems(1) by (simp add: bulk_byte_def kiss_byte_def)
      then show ?thesis using True False Cons.prems
        by (simp add: bulk_plain_outside kiss_run_def kiss_resync_def)
    next
      case out: False
      then show ?thesis using Cons.prems bulk_plain_outside [of st "x # run"]
        by (simp add: kiss_run_def)
    qed
  qed
qed

section \<open>Invariant and clean escapes\<close>

text \<open>
  The invariant of a line: an escape is pending only inside a frame, and outside a frame nothing
  is buffered.
\<close>

definition kiss_line_ok :: "'a kiss_line_scheme \<Rightarrow> bool" where
  "kiss_line_ok st \<longleftrightarrow> (kl_escaped st \<longrightarrow> kl_in_frame st) \<and> (\<not> kl_in_frame st \<longrightarrow> kl_buffer st = [])"

lemma bulk_byte_ok: "kiss_line_ok st \<Longrightarrow> kiss_line_ok (bulk_byte least capped process b st)"
  by (auto simp: kiss_line_ok_def bulk_byte_def kiss_byte_def kiss_resync_def)

lemma kiss_byte_ok: "kiss_line_ok st \<Longrightarrow> kiss_line_ok (kiss_byte least capped process b st)"
  by (auto simp: kiss_line_ok_def kiss_byte_def kiss_resync_def)

lemma bulk_byte_capped:
  "length (kl_buffer st) \<le> MAX_FRAME_SIZE \<Longrightarrow>
   length (kl_buffer (bulk_byte least True process b st)) \<le> MAX_FRAME_SIZE"
  by (auto simp: bulk_byte_def kiss_byte_def kiss_resync_def)

text \<open>No byte of the data is a delimiter that follows a pending escape.\<close>

fun clean_escapes ::
  "nat \<Rightarrow> bool \<Rightarrow> ('a kiss_line_scheme \<Rightarrow> 'a kiss_line_scheme) \<Rightarrow> bytes \<Rightarrow> 'a kiss_line_scheme
     \<Rightarrow> bool" where
  "clean_escapes least capped process [] st = True"
| "clean_escapes least capped process (b # data) st =
     (\<not> (kl_escaped st \<and> (b = KISS_FEND \<or> b = KISS_FESC)) \<and>
      clean_escapes least capped process data (kiss_byte least capped process b st))"

lemma clean_escapes_fold:
  "clean_escapes least capped process data st \<Longrightarrow>
   fold (bulk_byte least capped process) data st = fold (kiss_byte least capped process) data st"
  by (induction data arbitrary: st) (auto simp: bulk_byte_def)

text \<open>A line between two frames.\<close>

definition kiss_idle :: "nat \<Rightarrow> 'a kiss_line_scheme \<Rightarrow> bool" where
  "kiss_idle least st \<longleftrightarrow> \<not> kl_escaped st \<and> (kl_in_frame st \<longrightarrow> length (kl_buffer st) \<le> least)"

text \<open>What one whole frame does to an idle line.\<close>

definition kiss_deliver ::
  "('a kiss_line_scheme \<Rightarrow> 'a kiss_line_scheme) \<Rightarrow> byte \<times> bytes \<Rightarrow> 'a kiss_line_scheme \<Rightarrow> 'a kiss_line_scheme" where
  "kiss_deliver process frame st =
     (process (st\<lparr>kl_buffer := fst frame # snd frame\<rparr>))\<lparr>kl_buffer := [], kl_in_frame := True, kl_escaped := False\<rparr>"

section \<open>Decoding on top of a frame processor\<close>

text \<open>
  Processing a frame does not depend on the two flags of the line and leaves them alone. This is
  all the bulk decoder needs to work on copies of the flags.
\<close>

locale kiss_process =
  fixes process :: "'a kiss_line_scheme \<Rightarrow> 'a kiss_line_scheme"
  assumes process_flags: "process (st\<lparr>kl_in_frame := f, kl_escaped := e\<rparr>) =
    (process st)\<lparr>kl_in_frame := f, kl_escaped := e\<rparr>"
begin

lemma bulk_escaped:
  "bulk_byte least capped process b (st\<lparr>kl_in_frame := f, kl_escaped := True\<rparr>) =
     (if b = KISS_TFEND \<or> b = KISS_TFESC then
        if capped \<and> MAX_FRAME_SIZE \<le> length (kl_buffer st)
        then (st\<lparr>kl_frame_errors := kl_frame_errors st + 1, kl_buffer := []\<rparr>)
               \<lparr>kl_in_frame := False, kl_escaped := False\<rparr>
        else (st\<lparr>kl_buffer := kl_buffer st @ [kiss_unescape b]\<rparr>)\<lparr>kl_in_frame := f, kl_escaped := False\<rparr>
      else (st\<lparr>kl_frame_errors := kl_frame_errors st + 1, kl_buffer := []\<rparr>)
             \<lparr>kl_in_frame := False, kl_escaped := False\<rparr>)"
  by (auto simp: bulk_byte_def kiss_byte_def kiss_resync_def)

lemma bulk_fend:
  "bulk_byte least capped process KISS_FEND (st\<lparr>kl_in_frame := f, kl_escaped := False\<rparr>) =
     ((if f \<and> least < length (kl_buffer st) then process st else st)\<lparr>kl_buffer := []\<rparr>)
       \<lparr>kl_in_frame := True, kl_escaped := False\<rparr>"
  by (simp add: bulk_byte_def kiss_byte_def process_flags)

lemma bulk_fesc:
  "bulk_byte least capped process KISS_FESC (st\<lparr>kl_in_frame := f, kl_escaped := False\<rparr>) =
     st\<lparr>kl_in_frame := f, kl_escaped := f\<rparr>"
  by (simp add: bulk_byte_def kiss_byte_def)

lemma bulk_run:
  assumes "\<forall>x\<in>set run. x \<noteq> KISS_FEND \<and> x \<noteq> KISS_FESC"
  shows "fold (bulk_byte least capped process) run (st\<lparr>kl_in_frame := f, kl_escaped := False\<rparr>) =
    (snd (kiss_run run f st))\<lparr>kl_in_frame := fst (kiss_run run f st), kl_escaped := False\<rparr>"
  using bulk_plain_run [of "st\<lparr>kl_in_frame := f, kl_escaped := False\<rparr>" run least capped process] assms
  by (simp add: kiss_run_def)

lemma kiss_bulk_fold:
  "(case kiss_bulk least capped process data i f e st of
      (in_frame, escaped, st) \<Rightarrow> st\<lparr>kl_in_frame := in_frame, kl_escaped := escaped\<rparr>) =
   fold (bulk_byte least capped process) (drop i data) (st\<lparr>kl_in_frame := f, kl_escaped := e\<rparr>)"
proof (induction "length data - i" arbitrary: i f e st rule: less_induct)
  case less
  note simps = kiss_bulk.simps [where data = data and i = i]
  show ?case
  proof (cases "i < length data")
    case False
    then show ?thesis by (simp add: simps)
  next
    case i: True
    then have d: "drop i data = data ! i # drop (i + 1) data" by (simp add: Cons_nth_drop_Suc)
    have IH: "(case kiss_bulk least capped process data j f e st of
        (in_frame, escaped, st) \<Rightarrow> st\<lparr>kl_in_frame := in_frame, kl_escaped := escaped\<rparr>) =
      fold (bulk_byte least capped process) (drop j data) (st\<lparr>kl_in_frame := f, kl_escaped := e\<rparr>)"
      if "i < j" for j f e st
      using less [of j f e st] that i by linarith
    show ?thesis
    proof (cases e)
      case True
      then show ?thesis using i IH [of "i + 1"]
        by (cases capped) (auto simp: simps d Let_def bulk_escaped)
    next
      case e: False
      show ?thesis
      proof (cases "next_delimiter data i = -1")
        case True
        then show ?thesis using i e bulk_run [of "drop i data"] next_delimiter_none [OF True]
          by (simp add: simps Let_def)
      next
        case False
        then obtain k where k: "next_delimiter data i = int k"
          using next_delimiter_ge [OF False] by (metis nat_int_comparison(3) nonneg_int_cases of_nat_0_le_iff order_trans)
        note nd = next_delimiter_some [OF k]
        show ?thesis using i e nd(3,4) k IH [of "k + 1"]
          by (subst nd(1)) (auto simp: simps Let_def bulk_run [OF nd(2)] bulk_fend bulk_fesc)
      qed
    qed
  qed
qed

theorem kiss_decode_fold:
  "kiss_decode least capped process data st = fold (bulk_byte least capped process) data st"
  using kiss_bulk_fold [of least capped data 0 "kl_in_frame st" "kl_escaped st" st]
  by (simp add: kiss_decode_def)

text \<open>Frames may be cut anywhere by the reads of the serial port.\<close>

lemma decode_chunks:
  "fold (kiss_decode least capped process) chunks st = kiss_decode least capped process (concat chunks) st"
  by (induction chunks arbitrary: st) (simp_all add: kiss_decode_fold)

lemma decode_escaped_data:
  "length (kl_buffer st) + length data \<le> MAX_FRAME_SIZE \<Longrightarrow>
   fold (bulk_byte least capped process) (kiss_escape data) (st\<lparr>kl_in_frame := True, kl_escaped := False\<rparr>) =
   st\<lparr>kl_buffer := kl_buffer st @ data, kl_in_frame := True, kl_escaped := False\<rparr>"
proof (induction data arbitrary: st)
  case Nil
  then show ?case by simp
next
  case (Cons b data)
  let ?st = "st\<lparr>kl_buffer := kl_buffer st @ [b]\<rparr>"
  have "fold (bulk_byte least capped process) (kiss_escape [b]) (st\<lparr>kl_in_frame := True, kl_escaped := False\<rparr>) =
      ?st\<lparr>kl_in_frame := True, kl_escaped := False\<rparr>"
    using Cons.prems
    by (auto simp: bulk_fesc bulk_escaped kiss_unescape_def) (simp add: bulk_byte_def kiss_byte_def)
  moreover have "kiss_escape (b # data) = kiss_escape [b] @ kiss_escape data" by simp
  moreover have "fold (bulk_byte least capped process) (kiss_escape data) (?st\<lparr>kl_in_frame := True, kl_escaped := False\<rparr>) =
      ?st\<lparr>kl_buffer := kl_buffer ?st @ data, kl_in_frame := True, kl_escaped := False\<rparr>"
    using Cons.prems by (intro Cons.IH) simp
  ultimately show ?case by simp
qed

text \<open>The open part of a frame, without its closing delimiter.\<close>

lemma decode_open_frame:
  assumes "kiss_idle least st" and "c \<noteq> KISS_FEND" and "c \<noteq> KISS_FESC" and "length data < MAX_FRAME_SIZE"
  shows "fold (bulk_byte least capped process) ([KISS_FEND, c] @ kiss_escape data) st =
    st\<lparr>kl_buffer := c # data, kl_in_frame := True, kl_escaped := False\<rparr>"
proof -
  let ?s = "st\<lparr>kl_buffer := [c]\<rparr>"
  have "bulk_byte least capped process KISS_FEND st =
      (st\<lparr>kl_buffer := []\<rparr>)\<lparr>kl_in_frame := True, kl_escaped := False\<rparr>"
    using assms(1) by (auto simp: kiss_idle_def bulk_byte_def kiss_byte_def)
  moreover have "bulk_byte least capped process c ((st\<lparr>kl_buffer := []\<rparr>)\<lparr>kl_in_frame := True, kl_escaped := False\<rparr>) =
      ?s\<lparr>kl_in_frame := True, kl_escaped := False\<rparr>"
    using assms(2,3) by (simp add: bulk_byte_def kiss_byte_def MAX_FRAME_SIZE_def)
  moreover have "fold (bulk_byte least capped process) (kiss_escape data) (?s\<lparr>kl_in_frame := True, kl_escaped := False\<rparr>) =
      ?s\<lparr>kl_buffer := kl_buffer ?s @ data, kl_in_frame := True, kl_escaped := False\<rparr>"
    using assms(4) by (intro decode_escaped_data) simp
  ultimately show ?thesis by simp
qed

lemma decode_frame:
  assumes "kiss_idle least st" and "c \<noteq> KISS_FEND" and "c \<noteq> KISS_FESC"
    and "least \<le> length data" and "length data < MAX_FRAME_SIZE"
  shows "kiss_decode least capped process (kiss_frame c data) st = kiss_deliver process (c, data) st"
proof -
  define opn where "opn = [KISS_FEND, c] @ kiss_escape data"
  have "fold (bulk_byte least capped process) opn st =
      (st\<lparr>kl_buffer := c # data\<rparr>)\<lparr>kl_in_frame := True, kl_escaped := False\<rparr>"
    using decode_open_frame [OF assms(1-3,5)] unfolding opn_def by simp
  moreover have "kiss_frame c data = opn @ [KISS_FEND]" by (simp add: kiss_frame_def opn_def)
  ultimately show ?thesis using assms(4)
    by (simp add: kiss_decode_fold bulk_fend kiss_deliver_def)
qed

text \<open>A line of whole frames is processed frame by frame, in order.\<close>

lemma decode_frames:
  assumes "kiss_idle least st"
    and "\<And>c data. (c, data) \<in> set frames \<Longrightarrow> c \<noteq> KISS_FEND \<and> c \<noteq> KISS_FESC \<and>
           least \<le> length data \<and> length data < MAX_FRAME_SIZE"
  shows "kiss_decode least capped process (concat (map (\<lambda>(c, data). kiss_frame c data) frames)) st =
    fold (kiss_deliver process) frames st"
  using assms
proof (induction frames arbitrary: st)
  case Nil
  then show ?case by (simp add: kiss_decode_def)
next
  case (Cons frame frames)
  obtain c data where f: "frame = (c, data)" by (cases frame)
  have "kiss_decode least capped process (kiss_frame c data) st = kiss_deliver process frame st"
    using decode_frame [OF Cons.prems(1), of c data] Cons.prems(2) [of c data] by (simp add: f)
  moreover have "kiss_idle least (kiss_deliver process frame st)" by (simp add: kiss_idle_def kiss_deliver_def)
  ultimately show ?case using Cons.IH [of "kiss_deliver process frame st"] Cons.prems(2)
    by (auto simp: f kiss_decode_fold)
qed

text \<open>A data frame of the full size limit does not fit behind its command byte.\<close>

lemma full_frame_lost:
  assumes "kiss_idle least st" and "c \<noteq> KISS_FEND" and "c \<noteq> KISS_FESC" and "length data = MAX_FRAME_SIZE"
  shows "kiss_decode least True process (kiss_frame c data) st =
    st\<lparr>kl_buffer := [], kl_in_frame := True, kl_escaped := False, kl_frame_errors := kl_frame_errors st + 1\<rparr>"
proof -
  obtain ds d where data: "data = ds @ [d]" and ds: "length ds < MAX_FRAME_SIZE" "length ds = MAX_FRAME_SIZE - 1"
    using assms(4) by (cases data rule: rev_cases) (auto simp: MAX_FRAME_SIZE_def)
  have esc: "kiss_escape (ds @ [d]) = kiss_escape ds @ kiss_escape [d]" by (induction ds) simp_all
  let ?s = "st\<lparr>kl_buffer := c # ds\<rparr>"
  have opened: "fold (bulk_byte least True process) ([KISS_FEND, c] @ kiss_escape ds) st =
      ?s\<lparr>kl_in_frame := True, kl_escaped := False\<rparr>"
    using decode_open_frame [OF assms(1-3) ds(1)] by simp
  have "fold (bulk_byte least True process) (kiss_escape [d]) (?s\<lparr>kl_in_frame := True, kl_escaped := False\<rparr>) =
      st\<lparr>kl_buffer := [], kl_in_frame := False, kl_escaped := False, kl_frame_errors := kl_frame_errors st + 1\<rparr>"
    using ds(2) by (auto simp: bulk_fesc bulk_escaped MAX_FRAME_SIZE_def)
      (simp add: bulk_byte_def kiss_byte_def kiss_resync_def MAX_FRAME_SIZE_def)
  with opened show ?thesis
    unfolding kiss_decode_fold kiss_frame_def data esc
    by (simp add: bulk_byte_def kiss_byte_def)
qed

text \<open>
  An escape right before the delimiter that ends a frame: the decoder of single bytes processes
  the frame, the bulk decoder drops it.
\<close>

lemma dangling_escape:
  assumes "kiss_idle least st" and "c \<noteq> KISS_FEND" and "c \<noteq> KISS_FESC"
    and "least \<le> length data" and "length data < MAX_FRAME_SIZE"
  defines "wire \<equiv> [KISS_FEND, c] @ kiss_escape data @ [KISS_FESC, KISS_FEND]"
  shows "fold (kiss_byte least capped process) wire st = kiss_deliver process (c, data) st"
    and "kiss_decode least capped process wire st =
      st\<lparr>kl_buffer := [], kl_in_frame := False, kl_escaped := False, kl_frame_errors := kl_frame_errors st + 1\<rparr>"
proof -
  define opn where "opn = [KISS_FEND, c] @ kiss_escape data"
  have opened: "fold (bulk_byte least capped process) opn st =
      (st\<lparr>kl_buffer := c # data\<rparr>)\<lparr>kl_in_frame := True, kl_escaped := False\<rparr>"
    using decode_open_frame [OF assms(1-3,5)] unfolding opn_def by simp
  have clean: "clean_escapes least capped process (kiss_escape ds) s"
    if "\<not> kl_escaped s" "kl_in_frame s" "length (kl_buffer s) + length ds \<le> MAX_FRAME_SIZE" for ds s
    using that by (induction ds arbitrary: s) (auto simp: kiss_byte_def)
  have "clean_escapes least capped process opn st"
    using assms(1-3,5) unfolding opn_def
    by (auto simp: kiss_idle_def kiss_byte_def MAX_FRAME_SIZE_def intro!: clean)
  from clean_escapes_fold [OF this] opened
  have bytes: "fold (kiss_byte least capped process) opn st =
      (st\<lparr>kl_buffer := c # data\<rparr>)\<lparr>kl_in_frame := True, kl_escaped := False\<rparr>" by simp
  have w: "wire = opn @ [KISS_FESC, KISS_FEND]" by (simp add: wire_def opn_def)
  show "fold (kiss_byte least capped process) wire st = kiss_deliver process (c, data) st"
    unfolding w fold_append comp_apply bytes using assms(4) process_flags
    by (simp add: kiss_byte_def kiss_deliver_def)
  show "kiss_decode least capped process wire st =
      st\<lparr>kl_buffer := [], kl_in_frame := False, kl_escaped := False, kl_frame_errors := kl_frame_errors st + 1\<rparr>"
    unfolding kiss_decode_fold w fold_append comp_apply opened
    by (simp add: bulk_fesc) (simp add: bulk_byte_def kiss_resync_def)
qed

end

section \<open>Views of a line\<close>

text \<open>
  One byte does one of three things, which the line alone determines: it leaves the rest of the
  state alone, counts an error, or processes a frame.
\<close>

definition kiss_set :: "bytes \<Rightarrow> bool \<Rightarrow> bool \<Rightarrow> 'a kiss_line_scheme \<Rightarrow> 'a kiss_line_scheme" where
  "kiss_set b f e st = st\<lparr>kl_buffer := b, kl_in_frame := f, kl_escaped := e\<rparr>"

definition kiss_error :: "'a kiss_line_scheme \<Rightarrow> 'a kiss_line_scheme" where
  "kiss_error st = st\<lparr>kl_frame_errors := kl_frame_errors st + 1\<rparr>"

lemma kiss_set_same: "kiss_set (kl_buffer st) (kl_in_frame st) (kl_escaped st) st = st"
  by (simp add: kiss_set_def)

lemma bulk_byte_shape:
  obtains (keep) b' f' e' where "\<And>p st :: 'a kiss_line_scheme. kl_buffer st = buf \<Longrightarrow> kl_in_frame st = f \<Longrightarrow>
      kl_escaped st = e \<Longrightarrow> bulk_byte least capped p b st = kiss_set b' f' e' st"
  | (fails) b' f' e' where "\<And>p st :: 'a kiss_line_scheme. kl_buffer st = buf \<Longrightarrow> kl_in_frame st = f \<Longrightarrow>
      kl_escaped st = e \<Longrightarrow> bulk_byte least capped p b st = kiss_set b' f' e' (kiss_error st)"
  | (processes) b' f' e' where "\<And>p st :: 'a kiss_line_scheme. kl_buffer st = buf \<Longrightarrow> kl_in_frame st = f \<Longrightarrow>
      kl_escaped st = e \<Longrightarrow> bulk_byte least capped p b st = kiss_set b' f' e' (p st)"
proof (cases "e \<and> (b = KISS_FEND \<or> b = KISS_FESC)")
  case True
  then show ?thesis by (intro fails [of "[]" False False]) (simp add: bulk_byte_def kiss_resync_def kiss_set_def kiss_error_def)
next
  case outer: False
  consider "b = KISS_FEND" "f \<and> least < length buf" | "b = KISS_FEND" "\<not> (f \<and> least < length buf)"
    | "b = KISS_FESC" | "b \<noteq> KISS_FEND" "b \<noteq> KISS_FESC" "e" | "b \<noteq> KISS_FEND" "b \<noteq> KISS_FESC" "\<not> e"
    by blast
  then show ?thesis
  proof cases
    case 1
    with outer show ?thesis
      by (intro processes [of "[]" True False]) (simp add: bulk_byte_def kiss_byte_def kiss_set_def)
  next
    case 2
    with outer show ?thesis
      by (intro keep [of "[]" True False]) (auto simp: bulk_byte_def kiss_byte_def kiss_set_def)
  next
    case 3
    with outer show ?thesis
      by (intro keep [of buf f f]) (auto simp: bulk_byte_def kiss_byte_def kiss_set_def)
  next
    case 4
    show ?thesis
    proof (cases "(b = KISS_TFEND \<or> b = KISS_TFESC) \<and> \<not> (capped \<and> MAX_FRAME_SIZE \<le> length buf)")
      case True
      with 4 show ?thesis
        by (intro keep [of "buf @ [kiss_unescape b]" f False]) (auto simp: bulk_byte_def kiss_byte_def kiss_set_def)
    next
      case False
      with 4 show ?thesis
        by (intro fails [of "[]" False False])
          (auto simp: bulk_byte_def kiss_byte_def kiss_set_def kiss_error_def kiss_resync_def)
    qed
  next
    case 5
    show ?thesis
    proof (cases "f \<and> MAX_FRAME_SIZE \<le> length buf")
      case True
      with 5 show ?thesis
        by (intro fails [of "[]" False False])
          (auto simp: bulk_byte_def kiss_byte_def kiss_set_def kiss_error_def kiss_resync_def)
    next
      case False
      with 5 show ?thesis
        by (intro keep [of "if f then buf @ [b] else buf" f False])
          (auto simp: bulk_byte_def kiss_byte_def kiss_set_def)
    qed
  qed
qed

lemma bulk_fold_keeps:
  fixes process :: "'a kiss_line_scheme \<Rightarrow> 'a kiss_line_scheme"
  assumes "\<And>st. P (process st) = P st" and "\<And>b f e st. P (kiss_set b f e st) = P st"
    and "\<And>st. P (kiss_error st) = P st"
  shows "P (fold (bulk_byte least capped process) data st) = P st"
proof (induction data arbitrary: st)
  case (Cons b data)
  have "P (bulk_byte least capped process b st) = P st"
    by (rule bulk_byte_shape [where 'a = 'a, of "kl_buffer st" "kl_in_frame st" "kl_escaped st" least capped b])
      (simp_all add: assms)
  then show ?case by (simp add: Cons.IH)
qed simp

lemma bulk_fold_invar:
  fixes process :: "'a kiss_line_scheme \<Rightarrow> 'a kiss_line_scheme"
  assumes "\<And>st. I st \<Longrightarrow> I (process st)" and "\<And>b f e st. I st \<Longrightarrow> I (kiss_set b f e st)"
    and "\<And>st. I st \<Longrightarrow> I (kiss_error st)"
  shows "I st \<Longrightarrow> I (fold (bulk_byte least capped process) data st)"
proof (induction data arbitrary: st)
  case (Cons b data)
  have "I (bulk_byte least capped process b st)"
    by (rule bulk_byte_shape [where 'a = 'a, of "kl_buffer st" "kl_in_frame st" "kl_escaped st" least capped b])
      (use Cons.prems in \<open>simp_all add: assms\<close>)
  then show ?case by (simp add: Cons.IH)
qed simp

text \<open>
  Two frame processors that agree on a part of the state: \<open>view\<close> hides the rest, and keeps what
  the decoder reads. What the view shows after decoding then depends on the view before only.
\<close>

locale kiss_view =
  fixes p q view :: "'a kiss_line_scheme \<Rightarrow> 'a kiss_line_scheme"
  assumes view_process: "view (p st) = view (q (view st))"
    and view_reference: "view (q st) = view (q (view st))"
    and view_line: "kl_buffer (view st) = kl_buffer st" "kl_in_frame (view st) = kl_in_frame st"
      "kl_escaped (view st) = kl_escaped st"
    and view_set: "view (kiss_set b f e st) = view (kiss_set b f e (view st))"
    and view_error: "view (kiss_error st) = view (kiss_error (view st))"
begin

lemma view_set_cong: "view s = view t \<Longrightarrow> view (kiss_set b f e s) = view (kiss_set b f e t)"
  by (subst (1 2) view_set) simp

lemma view_byte:
  assumes "\<And>st. view (r st) = view (q (view st))"
  shows "view (bulk_byte least capped r b st) = view (bulk_byte least capped q b (view st))"
proof (rule bulk_byte_shape [of "kl_buffer st" "kl_in_frame st" "kl_escaped st" least capped b])
  fix b' f' e'
  assume "\<And>p (s :: 'a kiss_line_scheme). kl_buffer s = kl_buffer st \<Longrightarrow> kl_in_frame s = kl_in_frame st \<Longrightarrow>
    kl_escaped s = kl_escaped st \<Longrightarrow> bulk_byte least capped p b s = kiss_set b' f' e' s"
  then show ?thesis using view_set [of b' f' e' st] by (simp add: view_line)
next
  fix b' f' e'
  assume "\<And>p (s :: 'a kiss_line_scheme). kl_buffer s = kl_buffer st \<Longrightarrow> kl_in_frame s = kl_in_frame st \<Longrightarrow>
    kl_escaped s = kl_escaped st \<Longrightarrow> bulk_byte least capped p b s = kiss_set b' f' e' (kiss_error s)"
  then show ?thesis using view_set_cong [OF view_error, of b' f' e' st] by (simp add: view_line)
next
  fix b' f' e'
  assume "\<And>p (s :: 'a kiss_line_scheme). kl_buffer s = kl_buffer st \<Longrightarrow> kl_in_frame s = kl_in_frame st \<Longrightarrow>
    kl_escaped s = kl_escaped st \<Longrightarrow> bulk_byte least capped p b s = kiss_set b' f' e' (p s)"
  then show ?thesis using view_set_cong [OF assms, of b' f' e' st] by (simp add: view_line)
qed

lemma view_byte_cong:
  assumes "\<And>st. view (r st) = view (q (view st))" and "view s = view t"
  shows "view (bulk_byte least capped r b s) = view (bulk_byte least capped q b t)"
  by (rule trans [OF view_byte [OF assms(1)]], subst assms(2),
      rule view_byte [OF view_reference, symmetric])

lemma view_fold:
  assumes "view s = view t"
  shows "view (fold (bulk_byte least capped p) data s) = view (fold (bulk_byte least capped q) data t)"
  using assms
proof (induction data arbitrary: s t)
  case (Cons b data)
  from view_byte_cong [OF view_process Cons.prems] show ?case by (simp add: Cons.IH)
qed simp

end

end
