(* ===== verification/Kiss_Serial.thy ===== *)
theory Kiss_Serial
  imports Kiss_Framing
begin

text \<open>
  The radio behind a KISS TNC, \<open>hardware/kiss_serial_wrapper.py\<close>: transmit buffer, worker steps,
  configuration commands and reception. The record keeps the bytes written to the serial port and
  the calls of the receive callback; an exception of the callback is caught and changes nothing.
  One step of a worker thread is one turn of its loop.
\<close>

section \<open>State and operations\<close>

definition KISS_MASK_PORT :: int where "KISS_MASK_PORT = 0xF0"
definition KISS_MASK_CMD :: int where "KISS_MASK_CMD = 0x0F"
definition KISS_CMD_DATA :: int where "KISS_CMD_DATA = 0x00"
definition KISS_CMD_TXDELAY :: int where "KISS_CMD_TXDELAY = 0x01"
definition KISS_CMD_PERSIST :: int where "KISS_CMD_PERSIST = 0x02"
definition KISS_CMD_SLOTTIME :: int where "KISS_CMD_SLOTTIME = 0x03"
definition KISS_CMD_TXTAIL :: int where "KISS_CMD_TXTAIL = 0x04"
definition KISS_CMD_FULLDUP :: int where "KISS_CMD_FULLDUP = 0x05"
definition KISS_CMD_RETURN :: int where "KISS_CMD_RETURN = 0xFF"

record kiss_serial = kiss_line +
  ks_kiss_port :: int
  ks_is_connected :: bool
  ks_is_open :: bool
  ks_kiss_mode_active :: bool
  ks_tx_buffer :: "bytes list"
  ks_callback :: bool
  ks_received :: "bytes list"
  ks_written :: bytes
  ks_txdelay :: int
  ks_persist :: int
  ks_slottime :: int
  ks_txtail :: int
  ks_fulldup :: bool
  ks_frames_sent :: int
  ks_frames_received :: int
  ks_bytes_sent :: int
  ks_bytes_received :: int
  ks_buffer_overruns :: int

definition new_kiss_serial :: "int \<Rightarrow> bool \<Rightarrow> kiss_serial" where
  "new_kiss_serial kiss_port callback =
     \<lparr>kl_buffer = [], kl_in_frame = False, kl_escaped = False, kl_frame_errors = 0,
      ks_kiss_port = kiss_port AND 0x0F, ks_is_connected = False, ks_is_open = False,
      ks_kiss_mode_active = False, ks_tx_buffer = [], ks_callback = callback, ks_received = [],
      ks_written = [], ks_txdelay = 30, ks_persist = 64, ks_slottime = 10, ks_txtail = 1,
      ks_fulldup = False, ks_frames_sent = 0, ks_frames_received = 0, ks_bytes_sent = 0,
      ks_bytes_received = 0, ks_buffer_overruns = 0\<rparr>"

definition kiss_cmd_byte :: "int \<Rightarrow> int \<Rightarrow> int" where
  "kiss_cmd_byte kiss_port cmd = (push_bit 4 kiss_port AND KISS_MASK_PORT) OR (cmd AND KISS_MASK_CMD)"

definition KissSerial_encode_kiss_frame :: "int \<Rightarrow> bytes \<Rightarrow> kiss_serial \<Rightarrow> bytes" where
  "KissSerial_encode_kiss_frame cmd data st =
     kiss_frame (word_of_int (kiss_cmd_byte (ks_kiss_port st) cmd)) data"

definition KissSerial_send_frame :: "bytes \<Rightarrow> kiss_serial \<Rightarrow> bool \<times> kiss_serial" where
  "KissSerial_send_frame data st =
     (if \<not> ks_is_connected st \<or> MAX_FRAME_SIZE < length data then (False, st)
      else if length (ks_tx_buffer st) < TX_BUFFER_SIZE then
        (True, st\<lparr>ks_tx_buffer := ks_tx_buffer st @ [KissSerial_encode_kiss_frame KISS_CMD_DATA data st]\<rparr>)
      else (False, st\<lparr>ks_buffer_overruns := ks_buffer_overruns st + 1\<rparr>))"

definition KissSerial_set_config :: "int \<Rightarrow> int \<Rightarrow> kiss_serial \<Rightarrow> kiss_serial" where
  "KissSerial_set_config cmd value st =
     (if cmd = KISS_CMD_TXDELAY then st\<lparr>ks_txdelay := value\<rparr>
      else if cmd = KISS_CMD_PERSIST then st\<lparr>ks_persist := value\<rparr>
      else if cmd = KISS_CMD_SLOTTIME then st\<lparr>ks_slottime := value\<rparr>
      else if cmd = KISS_CMD_TXTAIL then st\<lparr>ks_txtail := value\<rparr>
      else if cmd = KISS_CMD_FULLDUP then st\<lparr>ks_fulldup := (value \<noteq> 0)\<rparr>
      else st)"

text \<open>\<open>bytes([value])\<close> raises for a value that is no byte, which is caught.\<close>

definition KissSerial_send_config_command :: "int \<Rightarrow> int \<Rightarrow> kiss_serial \<Rightarrow> bool \<times> kiss_serial" where
  "KissSerial_send_config_command cmd value st =
     (if \<not> ks_is_connected st then (False, st)
      else case to_byte value of
             Inl _ \<Rightarrow> (False, st)
           | Inr b \<Rightarrow>
               if TX_BUFFER_SIZE \<le> length (ks_tx_buffer st)
               then (False, st\<lparr>ks_buffer_overruns := ks_buffer_overruns st + 1\<rparr>)
               else (True, KissSerial_set_config cmd value
                       (st\<lparr>ks_tx_buffer := ks_tx_buffer st @ [KissSerial_encode_kiss_frame cmd [b] st]\<rparr>)))"

definition KissSerial_fail_transport :: "kiss_serial \<Rightarrow> kiss_serial" where
  "KissSerial_fail_transport st = st\<lparr>ks_is_connected := False, ks_is_open := False\<rparr>"

definition KissSerial_exit_kiss_mode :: "bool \<Rightarrow> kiss_serial \<Rightarrow> bool \<times> kiss_serial" where
  "KissSerial_exit_kiss_mode write_ok st =
     (if \<not> ks_is_connected st \<or> \<not> ks_kiss_mode_active st then (False, st)
      else if ks_is_open st \<and> write_ok then
        (True, st\<lparr>ks_written := ks_written st @ KissSerial_encode_kiss_frame KISS_CMD_RETURN [] st,
                  ks_kiss_mode_active := False\<rparr>)
      else (False, st))"

definition KissSerial_process_received_frame :: "kiss_serial \<Rightarrow> kiss_serial" where
  "KissSerial_process_received_frame st =
     (if length (kl_buffer st) < 1 then st
      else
        let cmd_byte = uint (kl_buffer st ! 0);
            port = drop_bit 4 (cmd_byte AND KISS_MASK_PORT);
            cmd = cmd_byte AND KISS_MASK_CMD;
            data = drop 1 (kl_buffer st)
        in if port \<noteq> ks_kiss_port st then st
           else if cmd = KISS_CMD_DATA \<and> ks_callback st \<and> 0 < length data then
             st\<lparr>ks_frames_received := ks_frames_received st + 1,
                ks_bytes_received := ks_bytes_received st + int (length data),
                ks_received := ks_received st @ [data]\<rparr>
           else st)"

definition KissSerial_decode_kiss_byte :: "byte \<Rightarrow> kiss_serial \<Rightarrow> kiss_serial" where
  "KissSerial_decode_kiss_byte = kiss_byte 1 True KissSerial_process_received_frame"

definition KissSerial_decode_kiss :: "bytes \<Rightarrow> kiss_serial \<Rightarrow> kiss_serial" where
  "KissSerial_decode_kiss = kiss_decode 1 True KissSerial_process_received_frame"

text \<open>The worker threads; \<open>None\<close> is a read that raises.\<close>

definition KissSerial_rx_worker :: "bytes option \<Rightarrow> kiss_serial \<Rightarrow> kiss_serial" where
  "KissSerial_rx_worker chunk st =
     (if \<not> ks_is_connected st then st
      else case chunk of
             None \<Rightarrow> KissSerial_fail_transport st
           | Some [] \<Rightarrow> st
           | Some data \<Rightarrow> KissSerial_decode_kiss data st)"

definition KissSerial_tx_worker :: "bool \<Rightarrow> kiss_serial \<Rightarrow> kiss_serial" where
  "KissSerial_tx_worker write_ok st =
     (if \<not> ks_is_connected st then st
      else case ks_tx_buffer st of
             [] \<Rightarrow> st
           | frame # frames \<Rightarrow>
               let st = st\<lparr>ks_tx_buffer := frames\<rparr>
               in if \<not> ks_is_open st then st
                  else if write_ok then
                    st\<lparr>ks_written := ks_written st @ frame, ks_frames_sent := ks_frames_sent st + 1,
                       ks_bytes_sent := ks_bytes_sent st + int (length frame)\<rparr>
                  else KissSerial_fail_transport st)"

section \<open>The line between two wrappers\<close>

interpretation serial: kiss_process KissSerial_process_received_frame
  by unfold_locales (simp add: KissSerial_process_received_frame_def Let_def)

interpretation serial_line: step_system KissSerial_decode_kiss
  "\<lambda>st. kiss_line_ok st \<and> length (kl_buffer st) \<le> MAX_FRAME_SIZE"
proof
  fix st :: kiss_serial and data :: bytes
  assume "kiss_line_ok st \<and> length (kl_buffer st) \<le> MAX_FRAME_SIZE"
  then show "kiss_line_ok (KissSerial_decode_kiss data st) \<and>
      length (kl_buffer (KissSerial_decode_kiss data st)) \<le> MAX_FRAME_SIZE"
    unfolding KissSerial_decode_kiss_def serial.kiss_decode_fold
    by (induction data arbitrary: st) (simp_all add: bulk_byte_ok bulk_byte_capped)
qed

lemma kiss_ports:
  "\<forall>p\<in>set [0..15].
     drop_bit 4 (uint (word_of_int (kiss_cmd_byte p KISS_CMD_DATA) :: byte) AND KISS_MASK_PORT) = p \<and>
     uint (word_of_int (kiss_cmd_byte p KISS_CMD_DATA) :: byte) AND KISS_MASK_CMD = KISS_CMD_DATA \<and>
     (word_of_int (kiss_cmd_byte p KISS_CMD_DATA) :: byte) \<noteq> KISS_FESC \<and>
     ((word_of_int (kiss_cmd_byte p KISS_CMD_DATA) :: byte) = KISS_FEND \<longleftrightarrow> p = 12)"
  by code_simp

lemma kiss_port_cases:
  assumes "0 \<le> p" and "p < 16"
  defines "c \<equiv> word_of_int (kiss_cmd_byte p KISS_CMD_DATA) :: byte"
  shows "drop_bit 4 (uint c AND KISS_MASK_PORT) = p" and "uint c AND KISS_MASK_CMD = KISS_CMD_DATA"
    and "c \<noteq> KISS_FESC" and "c = KISS_FEND \<longleftrightarrow> p = 12"
  using kiss_ports [THEN bspec, of p] assms by (simp_all del: set_upto add: set_upto)

definition data_frame_ok :: "bytes \<Rightarrow> bool" where
  "data_frame_ok data \<longleftrightarrow> 0 < length data \<and> length data < MAX_FRAME_SIZE"

text \<open>Frames that the sender queues are written to the port in order, each as a whole.\<close>

lemma send_frames:
  assumes "ks_is_connected st" and "length (ks_tx_buffer st) + length datas \<le> TX_BUFFER_SIZE"
    and "\<forall>data\<in>set datas. length data \<le> MAX_FRAME_SIZE"
  shows "fold (\<lambda>data st. snd (KissSerial_send_frame data st)) datas st =
    st\<lparr>ks_tx_buffer := ks_tx_buffer st @ map (\<lambda>data. KissSerial_encode_kiss_frame KISS_CMD_DATA data st) datas\<rparr>"
  using assms
  by (induction datas arbitrary: st) (simp_all add: KissSerial_send_frame_def KissSerial_encode_kiss_frame_def)

lemma drain_tx:
  assumes "ks_is_connected st" and "ks_is_open st" and "ks_tx_buffer st = frames"
  shows "(KissSerial_tx_worker True ^^ length frames) st =
    st\<lparr>ks_tx_buffer := [], ks_written := ks_written st @ concat frames,
       ks_frames_sent := ks_frames_sent st + int (length frames),
       ks_bytes_sent := ks_bytes_sent st + int (length (concat frames))\<rparr>"
  using assms
  by (induction frames arbitrary: st) (simp_all add: funpow_Suc_right KissSerial_tx_worker_def del: funpow.simps)

lemma process_data_frame:
  assumes "ks_kiss_port st = p" and "0 \<le> p" and "p < 16" and "ks_callback st" and "data \<noteq> []"
  shows "kiss_deliver KissSerial_process_received_frame
      (word_of_int (kiss_cmd_byte p KISS_CMD_DATA), data) st =
    st\<lparr>kl_buffer := [], kl_in_frame := True, kl_escaped := False,
       ks_frames_received := ks_frames_received st + 1,
       ks_bytes_received := ks_bytes_received st + int (length data),
       ks_received := ks_received st @ [data]\<rparr>"
  using kiss_port_cases [OF assms(2,3)] assms(1,4,5)
  by (simp add: kiss_deliver_def KissSerial_process_received_frame_def Let_def)

lemma process_data_frames:
  assumes "ks_kiss_port st = p" and "0 \<le> p" and "p < 16" and "ks_callback st" and "\<forall>data\<in>set datas. data \<noteq> []"
  defines "c \<equiv> word_of_int (kiss_cmd_byte p KISS_CMD_DATA)"
  shows "ks_received (fold (kiss_deliver KissSerial_process_received_frame) (map (\<lambda>data. (c, data)) datas) st) =
      ks_received st @ datas \<and>
    kl_frame_errors (fold (kiss_deliver KissSerial_process_received_frame) (map (\<lambda>data. (c, data)) datas) st) =
      kl_frame_errors st"
  using assms
  by (induction datas arbitrary: st) (simp_all add: process_data_frame)

text \<open>
  C31: Two wrappers on the same port number, which is not 12, joined by a serial line: data frames
  of 1 to 511 bytes, at most as many as the transmit buffer holds, that the sender accepts and its
  worker writes arrive at the callback of the receiver, each once, in order and unchanged, whatever
  bytes they contain and however the reads of the serial port cut the stream, and no frame error is
  counted.
\<close>

theorem kiss_link_delivers:
  assumes "ks_is_connected tx" and "ks_is_open tx" and "ks_tx_buffer tx = []" and "ks_written tx = []"
    and "length datas \<le> TX_BUFFER_SIZE" and "\<forall>data\<in>set datas. data_frame_ok data"
    and "0 \<le> ks_kiss_port tx" and "ks_kiss_port tx < 16" and "ks_kiss_port tx \<noteq> 12"
    and "ks_kiss_port rx = ks_kiss_port tx" and "ks_callback rx" and "kiss_idle 1 rx"
    and "concat chunks = ks_written ((KissSerial_tx_worker True ^^ length datas)
           (fold (\<lambda>data st. snd (KissSerial_send_frame data st)) datas tx))"
  shows "ks_received (fold KissSerial_decode_kiss chunks rx) = ks_received rx @ datas \<and>
    kl_frame_errors (fold KissSerial_decode_kiss chunks rx) = kl_frame_errors rx"
proof -
  define c :: byte where "c = word_of_int (kiss_cmd_byte (ks_kiss_port tx) KISS_CMD_DATA)"
  define frames where "frames = map (\<lambda>data. kiss_frame c data) datas"
  have "\<forall>data\<in>set datas. length data \<le> MAX_FRAME_SIZE" using assms(6) by (auto simp: data_frame_ok_def)
  then have sent: "fold (\<lambda>data st. snd (KissSerial_send_frame data st)) datas tx = tx\<lparr>ks_tx_buffer := frames\<rparr>"
    using send_frames [OF assms(1), of datas] assms(3,5)
    by (simp add: frames_def c_def KissSerial_encode_kiss_frame_def)
  have "ks_written ((KissSerial_tx_worker True ^^ length frames) (tx\<lparr>ks_tx_buffer := frames\<rparr>)) = concat frames"
    using drain_tx [of "tx\<lparr>ks_tx_buffer := frames\<rparr>" frames] assms(1,2,4) by simp
  then have wire: "concat chunks = concat (map (\<lambda>(c, data). kiss_frame c data) (map (\<lambda>data. (c, data)) datas))"
    unfolding assms(13) sent by (simp add: frames_def comp_def)
  have "c \<noteq> KISS_FEND" "c \<noteq> KISS_FESC"
    using kiss_port_cases(3,4) [OF assms(7,8)] assms(9) unfolding c_def by auto
  then have "fold KissSerial_decode_kiss chunks rx =
      fold (kiss_deliver KissSerial_process_received_frame) (map (\<lambda>data. (c, data)) datas) rx"
    unfolding KissSerial_decode_kiss_def serial.decode_chunks wire
    by (intro serial.decode_frames) (use assms(6,12) in \<open>auto simp: data_frame_ok_def Suc_le_eq\<close>)
  moreover have "\<forall>data\<in>set datas. data \<noteq> []" using assms(6) by (auto simp: data_frame_ok_def)
  ultimately show ?thesis
    using process_data_frames [OF assms(10,7,8,11), of datas] by (simp add: c_def)
qed

theorem kiss_link_delivers_witness:
  "ks_received (fold KissSerial_decode_kiss
      [[0xC0, 0x30, 1, 0xDB], [0xDC, 0xDB, 0xDD], [0xC0, 0xC0, 0x30], [7, 0xC0]] (new_kiss_serial 3 True)) =
    [[1, 0xC0, 0xDB], [7]]"
proof -
  let ?tx = "(new_kiss_serial 3 True)\<lparr>ks_is_connected := True, ks_is_open := True\<rparr>"
  have "ks_written ((KissSerial_tx_worker True ^^ 2)
      (fold (\<lambda>data st. snd (KissSerial_send_frame data st)) [[1, 0xC0, 0xDB], [7]] ?tx)) =
      [0xC0, 0x30, 1, 0xDB, 0xDC, 0xDB, 0xDD, 0xC0, 0xC0, 0x30, 7, 0xC0]"
    by code_simp
  moreover have "ks_kiss_port (new_kiss_serial 3 True) = 3" by code_simp
  ultimately show ?thesis
    using kiss_link_delivers [of ?tx "[[1, 0xC0, 0xDB], [7]]" "new_kiss_serial 3 True"
      "[[0xC0, 0x30, 1, 0xDB], [0xDC, 0xDB, 0xDD], [0xC0, 0xC0, 0x30], [7, 0xC0]]"]
    by (simp add: data_frame_ok_def MAX_FRAME_SIZE_def TX_BUFFER_SIZE_def new_kiss_serial_def kiss_idle_def
        numeral_2_eq_2)
qed

section \<open>The two decoders\<close>

text \<open>
  C35: The bulk decoder of the receive worker computes what feeding every byte to
  \<open>_decode_kiss_byte\<close> computes, on all data in which no delimiter follows a pending escape, from
  any state of the line.
\<close>

theorem bulk_decoder_agrees:
  assumes "clean_escapes 1 True KissSerial_process_received_frame data st"
  shows "KissSerial_decode_kiss data st = fold KissSerial_decode_kiss_byte data st"
  using clean_escapes_fold [OF assms]
  by (simp add: KissSerial_decode_kiss_def KissSerial_decode_kiss_byte_def serial.kiss_decode_fold)

theorem bulk_decoder_agrees_witness:
  "KissSerial_decode_kiss [5, 0xC0, 0, 1, 0xDB, 0xDC, 0xC0, 0, 0xDB, 9, 0xC0] (new_kiss_serial 0 True) =
   fold KissSerial_decode_kiss_byte [5, 0xC0, 0, 1, 0xDB, 0xDC, 0xC0, 0, 0xDB, 9, 0xC0] (new_kiss_serial 0 True)"
  by (rule bulk_decoder_agrees) code_simp

text \<open>
  C37: The two decoders differ on an escape right before the end of a frame: the decoder of single
  bytes hands the frame to the callback, the bulk decoder drops it, counts an error and waits for
  the next delimiter.
\<close>

theorem dangling_escape_dropped:
  assumes "kiss_idle 1 rx" and "0 \<le> ks_kiss_port rx" and "ks_kiss_port rx < 16" and "ks_kiss_port rx \<noteq> 12"
    and "ks_callback rx" and "data_frame_ok data"
    and "c = word_of_int (kiss_cmd_byte (ks_kiss_port rx) KISS_CMD_DATA)"
    and "wire = [KISS_FEND, c] @ kiss_escape data @ [KISS_FESC, KISS_FEND]"
  shows "ks_received (fold KissSerial_decode_kiss_byte wire rx) = ks_received rx @ [data] \<and>
    ks_received (KissSerial_decode_kiss wire rx) = ks_received rx \<and>
    kl_frame_errors (KissSerial_decode_kiss wire rx) = kl_frame_errors rx + 1 \<and>
    \<not> kl_in_frame (KissSerial_decode_kiss wire rx)"
proof -
  have c: "c \<noteq> KISS_FEND" "c \<noteq> KISS_FESC"
    using kiss_port_cases(3,4) [OF assms(2,3)] assms(4) unfolding assms(7) by auto
  have "1 \<le> length data" "length data < MAX_FRAME_SIZE" "data \<noteq> []"
    using assms(6) by (auto simp: data_frame_ok_def Suc_le_eq)
  then show ?thesis
    using serial.dangling_escape [OF assms(1) c] process_data_frame [OF refl assms(2,3,5)]
    unfolding assms(8) KissSerial_decode_kiss_def KissSerial_decode_kiss_byte_def
    by (simp add: assms(7))
qed

theorem dangling_escape_dropped_witness:
  "ks_received (fold KissSerial_decode_kiss_byte [0xC0, 0, 7, 0xDB, 0xC0] (new_kiss_serial 0 True)) = [[7]] \<and>
   ks_received (KissSerial_decode_kiss [0xC0, 0, 7, 0xDB, 0xC0] (new_kiss_serial 0 True)) = []"
proof -
  have "(0 :: byte) = word_of_int (kiss_cmd_byte (ks_kiss_port (new_kiss_serial 0 True)) KISS_CMD_DATA)"
    by code_simp
  moreover have "([0xC0, 0, 7, 0xDB, 0xC0] :: bytes) = [KISS_FEND, 0] @ kiss_escape [7] @ [KISS_FESC, KISS_FEND]"
    by code_simp
  moreover have "ks_kiss_port (new_kiss_serial 0 True) = 0" by code_simp
  ultimately show ?thesis
    using dangling_escape_dropped [of "new_kiss_serial 0 True" "[7]" 0 "[0xC0, 0, 7, 0xDB, 0xC0]"]
    by (simp add: kiss_idle_def new_kiss_serial_def data_frame_ok_def MAX_FRAME_SIZE_def)
qed

section \<open>Limits\<close>

text \<open>
  A data frame of exactly the maximal size is accepted for transmission, but the decoder counts
  the command byte against the same limit: every receiver drops the frame and counts an error.
\<close>

lemma full_size_frame_lost:
  assumes "ks_is_connected tx" and "length (ks_tx_buffer tx) < TX_BUFFER_SIZE" and "length data = MAX_FRAME_SIZE"
    and "0 \<le> ks_kiss_port tx" and "ks_kiss_port tx < 16" and "ks_kiss_port tx \<noteq> 12" and "kiss_idle 1 rx"
  shows "fst (KissSerial_send_frame data tx) \<and>
    (let rx' = KissSerial_decode_kiss (List.last (ks_tx_buffer (snd (KissSerial_send_frame data tx)))) rx
     in ks_received rx' = ks_received rx \<and> kl_frame_errors rx' = kl_frame_errors rx + 1)"
proof -
  have "(word_of_int (kiss_cmd_byte (ks_kiss_port tx) KISS_CMD_DATA) :: byte) \<noteq> KISS_FEND"
    "(word_of_int (kiss_cmd_byte (ks_kiss_port tx) KISS_CMD_DATA) :: byte) \<noteq> KISS_FESC"
    using kiss_port_cases(3,4) [OF assms(4,5)] assms(6) by auto
  from serial.full_frame_lost [OF assms(7) this assms(3)] show ?thesis
    using assms(1-3)
    by (simp add: KissSerial_send_frame_def KissSerial_decode_kiss_def KissSerial_encode_kiss_frame_def)
qed

text \<open>
  Leaving KISS mode needs the command byte 0xFF; the command is masked to four bits, so a wrapper
  sends it on port 15 only.
\<close>

lemma return_command_masked:
  assumes "0 \<le> ks_kiss_port st" and "ks_kiss_port st < 16"
  shows "KissSerial_encode_kiss_frame KISS_CMD_RETURN [] st = [0xC0, 0xFF, 0xC0] \<longleftrightarrow> ks_kiss_port st = 15"
proof -
  have "\<forall>p\<in>set [0..15]. (word_of_int (kiss_cmd_byte p KISS_CMD_RETURN) :: byte) = 0xFF \<longleftrightarrow> p = 15" by code_simp
  from this [THEN bspec, of "ks_kiss_port st"] assms show ?thesis
    by (simp add: KissSerial_encode_kiss_frame_def kiss_frame_def KISS_FEND_def)
qed

end
