(* ===== verification/Kiss_Modem.thy ===== *)
theory Kiss_Modem
  imports Kiss_Framing Packet_Utils Utf8
begin

text \<open>
  The radio behind a MeshCore KISS modem, \<open>hardware/kiss_modem_wrapper.py\<close>: reception with the
  pairing of data frames and signal reports, SetHardware commands with their responses, confirmed
  transmission, and the typed queries. The threads of the wrapper are steps: one turn of the
  receive worker hands on what is overdue, reads one chunk and decodes it. What the serial port and the modem do during a call
  is an argument of the call. Opening, closing and reopening the port is not modelled.
\<close>

section \<open>Constants\<close>

definition CMD_DATA :: int where "CMD_DATA = 0x00"
definition MODEM_CMD_TXDELAY :: byte where "MODEM_CMD_TXDELAY = 0x01"
definition MODEM_CMD_PERSISTENCE :: byte where "MODEM_CMD_PERSISTENCE = 0x02"
definition MODEM_CMD_SLOTTIME :: byte where "MODEM_CMD_SLOTTIME = 0x03"
definition MODEM_CMD_TXTAIL :: byte where "MODEM_CMD_TXTAIL = 0x04"
definition MODEM_CMD_FULLDUPLEX :: byte where "MODEM_CMD_FULLDUPLEX = 0x05"
definition KISS_CMD_SETHARDWARE :: int where "KISS_CMD_SETHARDWARE = 0x06"

definition HW_CMD_GET_IDENTITY :: byte where "HW_CMD_GET_IDENTITY = 0x01"
definition HW_CMD_GET_RANDOM :: byte where "HW_CMD_GET_RANDOM = 0x02"
definition HW_CMD_VERIFY_SIGNATURE :: byte where "HW_CMD_VERIFY_SIGNATURE = 0x03"
definition HW_CMD_SIGN_DATA :: byte where "HW_CMD_SIGN_DATA = 0x04"
definition HW_CMD_ENCRYPT_DATA :: byte where "HW_CMD_ENCRYPT_DATA = 0x05"
definition HW_CMD_DECRYPT_DATA :: byte where "HW_CMD_DECRYPT_DATA = 0x06"
definition HW_CMD_KEY_EXCHANGE :: byte where "HW_CMD_KEY_EXCHANGE = 0x07"
definition HW_CMD_HASH :: byte where "HW_CMD_HASH = 0x08"
definition HW_CMD_SET_RADIO :: byte where "HW_CMD_SET_RADIO = 0x09"
definition HW_CMD_SET_TX_POWER :: byte where "HW_CMD_SET_TX_POWER = 0x0A"
definition HW_CMD_GET_RADIO :: byte where "HW_CMD_GET_RADIO = 0x0B"
definition HW_CMD_GET_TX_POWER :: byte where "HW_CMD_GET_TX_POWER = 0x0C"
definition HW_CMD_GET_CURRENT_RSSI :: byte where "HW_CMD_GET_CURRENT_RSSI = 0x0D"
definition HW_CMD_IS_CHANNEL_BUSY :: byte where "HW_CMD_IS_CHANNEL_BUSY = 0x0E"
definition HW_CMD_GET_AIRTIME :: byte where "HW_CMD_GET_AIRTIME = 0x0F"
definition HW_CMD_GET_NOISE_FLOOR :: byte where "HW_CMD_GET_NOISE_FLOOR = 0x10"
definition HW_CMD_GET_VERSION :: byte where "HW_CMD_GET_VERSION = 0x11"
definition HW_CMD_GET_STATS :: byte where "HW_CMD_GET_STATS = 0x12"
definition HW_CMD_GET_BATTERY :: byte where "HW_CMD_GET_BATTERY = 0x13"
definition HW_CMD_GET_MCU_TEMP :: byte where "HW_CMD_GET_MCU_TEMP = 0x14"
definition HW_CMD_GET_SENSORS :: byte where "HW_CMD_GET_SENSORS = 0x15"
definition HW_CMD_GET_DEVICE_NAME :: byte where "HW_CMD_GET_DEVICE_NAME = 0x16"
definition HW_CMD_PING :: byte where "HW_CMD_PING = 0x17"
definition HW_CMD_REBOOT :: byte where "HW_CMD_REBOOT = 0x18"
definition HW_CMD_SET_SIGNAL_REPORT :: byte where "HW_CMD_SET_SIGNAL_REPORT = 0x19"
definition HW_CMD_GET_SIGNAL_REPORT :: byte where "HW_CMD_GET_SIGNAL_REPORT = 0x1A"

definition HW_RESP_OK :: byte where "HW_RESP_OK = 0xF0"
definition HW_RESP_ERROR :: byte where "HW_RESP_ERROR = 0xF1"
definition HW_RESP_TX_DONE :: byte where "HW_RESP_TX_DONE = 0xF8"
definition HW_RESP_RX_META :: byte where "HW_RESP_RX_META = 0xF9"
definition HW_RESP_SIGNAL_REPORT :: byte where "HW_RESP_SIGNAL_REPORT = 0x9A"
definition HW_ERR_TX_BUSY :: byte where "HW_ERR_TX_BUSY = 0x07"
definition KISS_MAX_PACKET_SIZE :: nat where "KISS_MAX_PACKET_SIZE = 255"
definition MAX_PENDING_RX_FRAMES :: nat where "MAX_PENDING_RX_FRAMES = 64"
definition RX_META_WAIT_SECONDS :: real where "RX_META_WAIT_SECONDS = 0.25"

text \<open>The response codes of the queries are the command with the high bit set.\<close>

definition HW_RESP :: "byte \<Rightarrow> byte" where
  "HW_RESP cmd = cmd OR 0x80"

section \<open>State\<close>

text \<open>The entries of the configuration dictionary that the radio setup reads.\<close>

record modem_config =
  mc_frequency :: "int option"
  mc_bandwidth :: "int option"
  mc_spreading_factor :: "int option"
  mc_coding_rate :: "int option"
  mc_power :: "int option"
  mc_tx_power :: "int option"

definition mc_the_power :: "modem_config \<Rightarrow> int" where
  "mc_the_power c = opt_default (opt_default 22 (mc_tx_power c)) (mc_power c)"

record kiss_modem = kiss_line +
  km_is_connected :: bool
  km_is_open :: bool
  km_shutting_down :: bool
  km_stopped :: bool
  km_degraded :: bool
  km_reconnecting :: bool
  km_lock_busy :: bool
  km_tx_buffer :: "bytes list"
  km_written :: bytes
  km_callback :: bool
  km_received :: "(bytes \<times> int \<times> real) list"
  km_pending_rx :: "(bytes \<times> real) list"
  km_response_event :: bool
  km_pending_response :: "(byte \<times> bytes) option"
  km_expected :: "byte list option"
  km_response_queue :: "(byte \<times> bytes) list"
  km_tx_done_event :: bool
  km_tx_done_result :: "bool option"
  km_tx_busy_seen :: bool
  km_frames_sent :: int
  km_bytes_sent :: int
  km_frames_received :: int
  km_bytes_received :: int
  km_buffer_overruns :: int
  km_rx_packets :: int
  km_tx_packets :: int
  km_errors :: int
  km_tx_busy :: int
  km_last_rssi :: int
  km_last_snr :: real
  km_noise_floor :: "int option"
  km_config :: modem_config
  km_frequency :: int
  km_bandwidth :: int
  km_spreading_factor :: int
  km_coding_rate :: int
  km_tx_power :: int
  km_is_configured :: bool
  km_modem_identity :: "bytes option"
  km_modem_version :: "int option"

definition new_kiss_modem :: "bool \<Rightarrow> modem_config \<Rightarrow> kiss_modem" where
  "new_kiss_modem callback config =
     \<lparr>kl_buffer = [], kl_in_frame = False, kl_escaped = False, kl_frame_errors = 0,
      km_is_connected = False, km_is_open = False, km_shutting_down = False, km_stopped = False,
      km_degraded = False, km_reconnecting = False, km_lock_busy = False, km_tx_buffer = [],
      km_written = [], km_callback = callback, km_received = [], km_pending_rx = [],
      km_response_event = False, km_pending_response = None, km_expected = None,
      km_response_queue = [], km_tx_done_event = False, km_tx_done_result = None,
      km_tx_busy_seen = False, km_frames_sent = 0, km_bytes_sent = 0, km_frames_received = 0, km_bytes_received = 0,
      km_buffer_overruns = 0, km_rx_packets = 0, km_tx_packets = 0, km_errors = 0, km_tx_busy = 0,
      km_last_rssi = -999, km_last_snr = -999, km_noise_floor = None, km_config = config,
      km_frequency = opt_default 869618000 (mc_frequency config),
      km_bandwidth = opt_default 62500 (mc_bandwidth config),
      km_spreading_factor = opt_default 8 (mc_spreading_factor config),
      km_coding_rate = opt_default 8 (mc_coding_rate config), km_tx_power = mc_the_power config,
      km_is_configured = False, km_modem_identity = None, km_modem_version = None\<rparr>"

section \<open>Reception\<close>

text \<open>
  A callback that is set is called with the data and its metrics, directly, in an event loop or in
  an executor; the calls keep their order.
\<close>

definition KissModem_dispatch_rx_callback :: "bytes \<Rightarrow> int \<Rightarrow> real \<Rightarrow> kiss_modem \<Rightarrow> kiss_modem" where
  "KissModem_dispatch_rx_callback data rssi snr st =
     (if km_callback st then st\<lparr>km_received := km_received st @ [(data, rssi, snr)]\<rparr> else st)"

definition signed_byte :: "byte \<Rightarrow> int" where
  "signed_byte b = (if 127 < uint b then uint b - 256 else uint b)"

definition KissModem_data_frame :: "real \<Rightarrow> bytes \<Rightarrow> kiss_modem \<Rightarrow> kiss_modem" where
  "KissModem_data_frame now payload st =
     (if MAX_PENDING_RX_FRAMES \<le> length (km_pending_rx st)
      then st\<lparr>kl_frame_errors := kl_frame_errors st + 1\<rparr>
      else st\<lparr>km_pending_rx := km_pending_rx st @ [(payload, now + RX_META_WAIT_SECONDS)]\<rparr>)"

definition KissModem_rx_meta :: "bytes \<Rightarrow> kiss_modem \<Rightarrow> kiss_modem" where
  "KissModem_rx_meta payload st =
     (let metrics = 2 \<le> length payload;
          snr_db = (if metrics then of_int (signed_byte (payload ! 0)) / 4 else -999);
          rssi_raw = (if metrics then signed_byte (payload ! 1) else -999);
          st = (if metrics
                then st\<lparr>km_last_snr := snr_db, km_last_rssi := rssi_raw, km_rx_packets := km_rx_packets st + 1\<rparr>
                else st)
      in case km_pending_rx st of
           [] \<Rightarrow> st
         | head # pending \<Rightarrow>
             KissModem_dispatch_rx_callback (fst head) rssi_raw snr_db (st\<lparr>km_pending_rx := pending\<rparr>))"

text \<open>The queue of unclaimed responses is a deque of 32 entries that drops its oldest entry.\<close>

definition RESPONSE_QUEUE_MAXLEN :: nat where "RESPONSE_QUEUE_MAXLEN = 32"

definition KissModem_response :: "byte \<Rightarrow> bytes \<Rightarrow> kiss_modem \<Rightarrow> kiss_modem" where
  "KissModem_response sub_cmd payload st =
     (if (case km_expected st of None \<Rightarrow> False | Some expected \<Rightarrow> sub_cmd \<in> set expected)
      then st\<lparr>km_pending_response := Some (sub_cmd, payload), km_response_event := True\<rparr>
      else
        let q = (if length (km_response_queue st) = RESPONSE_QUEUE_MAXLEN
                 then drop 1 (km_response_queue st) else km_response_queue st)
        in st\<lparr>km_response_queue := q @ [(sub_cmd, payload)]\<rparr>)"

definition KissModem_tx_done :: "bytes \<Rightarrow> kiss_modem \<Rightarrow> kiss_modem" where
  "KissModem_tx_done payload st =
     (if 1 \<le> length payload
      then st\<lparr>km_tx_done_result := Some (payload ! 0 = 0x01), km_tx_packets := km_tx_packets st + 1\<rparr>
      else st)\<lparr>km_tx_done_event := True\<rparr>"

definition KissModem_error :: "bytes \<Rightarrow> kiss_modem \<Rightarrow> kiss_modem" where
  "KissModem_error payload st =
     (let err_code = (if 1 \<le> length payload then Some (payload ! 0) else None);
          st = (if err_code \<noteq> None then st\<lparr>km_errors := km_errors st + 1\<rparr> else st)
      in if err_code = Some HW_ERR_TX_BUSY
         then st\<lparr>km_tx_busy := km_tx_busy st + 1, km_tx_busy_seen := True\<rparr>
         else KissModem_response HW_RESP_ERROR payload st)"

definition KissModem_handle_frame :: "real \<Rightarrow> bytes \<Rightarrow> kiss_modem \<Rightarrow> kiss_modem" where
  "KissModem_handle_frame now frame st =
     (let cmd = uint (frame ! 0) AND 0x0F
      in if cmd = CMD_DATA then KissModem_data_frame now (drop 1 frame) st
         else if cmd = KISS_CMD_SETHARDWARE then
           if length frame < 2 then st
           else
             let sub_cmd = frame ! 1; payload = drop 2 frame
             in if sub_cmd = HW_RESP_RX_META then KissModem_rx_meta payload st
                else if sub_cmd = HW_RESP_TX_DONE then KissModem_tx_done payload st
                else if sub_cmd = HW_RESP_ERROR then KissModem_error payload st
                else KissModem_response sub_cmd payload st
         else st)"

definition KissModem_process_received_frame :: "real \<Rightarrow> kiss_modem \<Rightarrow> kiss_modem" where
  "KissModem_process_received_frame now st =
     (if length (kl_buffer st) < 1 then st
      else
        let type_byte = uint (kl_buffer st ! 0);
            port = drop_bit 4 type_byte AND 0x0F
        in if port \<noteq> 0 then st
           else KissModem_handle_frame now (kl_buffer st)
                  (st\<lparr>km_frames_received := km_frames_received st + 1,
                      km_bytes_received := km_bytes_received st + int (length (kl_buffer st)) - 1\<rparr>))"

definition KissModem_decode_kiss_byte :: "real \<Rightarrow> byte \<Rightarrow> kiss_modem \<Rightarrow> kiss_modem" where
  "KissModem_decode_kiss_byte now = kiss_byte 0 False (KissModem_process_received_frame now)"

definition KissModem_decode_kiss :: "real \<Rightarrow> bytes \<Rightarrow> kiss_modem \<Rightarrow> kiss_modem" where
  "KissModem_decode_kiss now = kiss_decode 0 False (KissModem_process_received_frame now)"

text \<open>Frames whose report is overdue are handed on with sentinel metrics, head first.\<close>

fun flush_pending :: "real \<Rightarrow> (bytes \<times> real) list \<Rightarrow> bytes list \<times> (bytes \<times> real) list" where
  "flush_pending now [] = ([], [])"
| "flush_pending now ((payload, deadline) # pending) =
     (if now < deadline then ([], (payload, deadline) # pending)
      else let rest = flush_pending now pending in (payload # fst rest, snd rest))"

definition KissModem_flush_expired_rx_frames :: "real \<Rightarrow> kiss_modem \<Rightarrow> kiss_modem" where
  "KissModem_flush_expired_rx_frames now st =
     (let flushed = flush_pending now (km_pending_rx st)
      in fold (\<lambda>payload. KissModem_dispatch_rx_callback payload (-999) (-999)) (fst flushed)
           (st\<lparr>km_pending_rx := snd flushed, km_rx_packets := km_rx_packets st + int (length (fst flushed))\<rparr>))"

definition KissModem_clear_pending_rx :: "kiss_modem \<Rightarrow> kiss_modem" where
  "KissModem_clear_pending_rx st = st\<lparr>km_pending_rx := []\<rparr>"

section \<open>Link failures and writing\<close>

text \<open>
  A failure degrades the link and starts a reconnect once. The port is closed at once unless
  another thread holds the connection lock, which then closes it.
\<close>

definition KissModem_mark_serial_failure :: "kiss_modem \<Rightarrow> kiss_modem" where
  "KissModem_mark_serial_failure st =
     (if km_stopped st then st
      else st\<lparr>km_degraded := True, km_is_connected := False,
              km_is_open := (if km_lock_busy st then km_is_open st else False),
              km_tx_done_event := True, km_reconnecting := True\<rparr>)"

text \<open>
  One turn of the receive loop: the clock when it looks for overdue frames, the clock when it
  decodes, and what the blocking read in between returned, an empty chunk when it timed out and
  \<open>None\<close> when it raised. All frames of one chunk are taken at one clock.
\<close>

type_synonym rx_turn = "(real \<times> real) \<times> bytes option"

definition KissModem_rx_worker :: "rx_turn \<Rightarrow> kiss_modem \<Rightarrow> kiss_modem" where
  "KissModem_rx_worker turn st =
     (if km_stopped st \<or> \<not> km_is_open st then st
      else
        let st = KissModem_flush_expired_rx_frames (fst (fst turn)) st
        in case snd turn of
             None \<Rightarrow> if km_shutting_down st \<or> km_stopped st then st else KissModem_mark_serial_failure st
           | Some chunk \<Rightarrow> if chunk = [] then st else KissModem_decode_kiss (snd (fst turn)) chunk st)"

text \<open>
  \<open>outs\<close> are the results of the successive calls of \<open>write\<close>; no further result means that the
  call raises. The loop writes the rest of the frame until nothing is left.
\<close>

fun write_bytes :: "int list \<Rightarrow> bytes \<Rightarrow> bytes \<times> bool" where
  "write_bytes outs [] = ([], True)"
| "write_bytes [] (b # frame) = ([], False)"
| "write_bytes (n # outs) (b # frame) =
     (if n \<le> 0 then ([], False)
      else let rest = write_bytes outs (drop (nat n) (b # frame))
           in (take (nat n) (b # frame) @ fst rest, snd rest))"

definition KissModem_write_frame :: "int list \<Rightarrow> bool \<Rightarrow> bytes \<Rightarrow> kiss_modem \<Rightarrow> bool \<times> kiss_modem" where
  "KissModem_write_frame outs flush_ok frame st =
     (if \<not> km_is_open st then (False, KissModem_mark_serial_failure st)
      else
        let res = write_bytes outs frame; st = st\<lparr>km_written := km_written st @ fst res\<rparr>
        in if snd res \<and> flush_ok then (True, st) else (False, KissModem_mark_serial_failure st))"

section \<open>SetHardware commands\<close>

text \<open>
  What happens outside while a command waits: whether the caller is the reconnect thread, the
  results of the writes, and the turns of the receive worker up to the moment when the waiting
  thread runs again, after the response or the timeout.
\<close>

record exchange =
  ex_in_reconnect_thread :: bool
  ex_outs :: "int list"
  ex_flush_ok :: bool
  ex_turns :: "rx_turn list"

definition SETHW_ALLOW_OK_FOR :: "byte list" where
  "SETHW_ALLOW_OK_FOR = [HW_CMD_SET_RADIO, HW_CMD_SET_TX_POWER, HW_CMD_SET_SIGNAL_REPORT, HW_CMD_REBOOT]"

definition acceptable_responses :: "byte \<Rightarrow> byte list" where
  "acceptable_responses sub_cmd =
     [HW_RESP sub_cmd, HW_RESP_ERROR] @
     (if sub_cmd \<in> set SETHW_ALLOW_OK_FOR then [HW_RESP_OK] else []) @
     (if sub_cmd = HW_CMD_SET_SIGNAL_REPORT then [HW_RESP_SIGNAL_REPORT] else [])"

text \<open>One pass over the queue of unclaimed responses takes the first acceptable one out.\<close>

fun scan_responses ::
  "byte list \<Rightarrow> nat \<Rightarrow> (byte \<times> bytes) option \<Rightarrow> (byte \<times> bytes) list
     \<Rightarrow> (byte \<times> bytes) option \<times> (byte \<times> bytes) list" where
  "scan_responses acceptable 0 matched q = (matched, q)"
| "scan_responses acceptable (Suc n) matched [] = (matched, [])"
| "scan_responses acceptable (Suc n) matched (resp # q) =
     (if matched = None \<and> fst resp \<in> set acceptable
      then scan_responses acceptable n (Some resp) q
      else scan_responses acceptable n matched (q @ [resp]))"

definition KissModem_encode_kiss_frame :: "byte \<Rightarrow> bytes \<Rightarrow> bytes" where
  "KissModem_encode_kiss_frame cmd data = kiss_frame cmd data"

definition KissModem_send_command ::
  "byte \<Rightarrow> bytes \<Rightarrow> exchange \<Rightarrow> kiss_modem \<Rightarrow> (byte \<times> bytes) option \<times> kiss_modem" where
  "KissModem_send_command sub_cmd data ex st =
     (if km_shutting_down st then (None, st)
      else if (km_reconnecting st \<or> km_degraded st) \<and> \<not> ex_in_reconnect_thread ex then (None, st)
      else
        let acceptable = acceptable_responses sub_cmd;
            scanned = scan_responses acceptable (length (km_response_queue st)) None (km_response_queue st);
            st = st\<lparr>km_response_queue := snd scanned\<rparr>
        in if fst scanned \<noteq> None then (fst scanned, st)
           else
             let st = st\<lparr>km_response_event := False, km_pending_response := None, km_expected := Some acceptable\<rparr>;
                 frame = KissModem_encode_kiss_frame (word_of_int KISS_CMD_SETHARDWARE) ([sub_cmd] @ data);
                 sent = KissModem_write_frame (ex_outs ex) (ex_flush_ok ex) frame st
             in if \<not> fst sent then (None, (snd sent)\<lparr>km_expected := None\<rparr>)
                else
                  let st = fold KissModem_rx_worker (ex_turns ex) (snd sent)
                  in (if km_shutting_down st then None
                      else if km_response_event st then km_pending_response st else None,
                      st\<lparr>km_expected := None\<rparr>))"

section \<open>Settings and queries\<close>

definition set_parameter :: "byte \<Rightarrow> int \<Rightarrow> exchange \<Rightarrow> kiss_modem \<Rightarrow> bool \<times> kiss_modem" where
  "set_parameter cmd value ex st =
     KissModem_write_frame (ex_outs ex) (ex_flush_ok ex) (KissModem_encode_kiss_frame cmd [word_of_int value]) st"

definition set_kiss_tx_delay :: "int \<Rightarrow> exchange \<Rightarrow> kiss_modem \<Rightarrow> kiss_modem" where
  "set_kiss_tx_delay delay_ms ex st =
     snd (set_parameter MODEM_CMD_TXDELAY (max 1 (min 255 (delay_ms div 10))) ex st)"

definition set_kiss_persistence :: "int \<Rightarrow> exchange \<Rightarrow> kiss_modem \<Rightarrow> bool \<times> kiss_modem" where
  "set_kiss_persistence value ex st = set_parameter MODEM_CMD_PERSISTENCE (max 0 (min 255 value)) ex st"

definition set_kiss_slottime :: "int \<Rightarrow> exchange \<Rightarrow> kiss_modem \<Rightarrow> bool \<times> kiss_modem" where
  "set_kiss_slottime slottime_ms ex st =
     set_parameter MODEM_CMD_SLOTTIME (max 0 (min 255 (slottime_ms div 10))) ex st"

definition set_kiss_txtail :: "int \<Rightarrow> exchange \<Rightarrow> kiss_modem \<Rightarrow> bool \<times> kiss_modem" where
  "set_kiss_txtail txtail_ms ex st =
     set_parameter MODEM_CMD_TXTAIL (max 0 (min 255 (txtail_ms div 10))) ex st"

definition set_kiss_full_duplex :: "bool \<Rightarrow> exchange \<Rightarrow> kiss_modem \<Rightarrow> bool \<times> kiss_modem" where
  "set_kiss_full_duplex full_duplex ex st =
     set_parameter MODEM_CMD_FULLDUPLEX (if full_duplex then 1 else 0) ex st"

text \<open>
  A query sends its command and reads the response when it has the code and the size it expects.
\<close>

definition query ::
  "byte \<Rightarrow> bytes \<Rightarrow> (byte \<Rightarrow> bytes \<Rightarrow> 'r option) \<Rightarrow> exchange \<Rightarrow> kiss_modem \<Rightarrow> 'r option \<times> kiss_modem" where
  "query sub_cmd data parse ex st =
     (case KissModem_send_command sub_cmd data ex st of
        (None, st) \<Rightarrow> (None, st)
      | (Some (code, payload), st) \<Rightarrow> (parse code payload, st))"

definition set_signal_report :: "bool \<Rightarrow> exchange \<Rightarrow> kiss_modem \<Rightarrow> bool \<times> kiss_modem" where
  "set_signal_report enabled ex st =
     (case query HW_CMD_SET_SIGNAL_REPORT [if enabled then 0x01 else 0x00]
        (\<lambda>code _. if code \<in> {HW_RESP_SIGNAL_REPORT, HW_RESP_OK} then Some () else None) ex st of
        (r, st) \<Rightarrow> (r \<noteq> None, st))"

definition get_signal_report :: "exchange \<Rightarrow> kiss_modem \<Rightarrow> bool option \<times> kiss_modem" where
  "get_signal_report = query HW_CMD_GET_SIGNAL_REPORT []
     (\<lambda>code p. if code = HW_RESP_SIGNAL_REPORT \<and> 1 \<le> length p then Some (p ! 0 \<noteq> 0x00) else None)"

definition get_radio_config :: "exchange \<Rightarrow> kiss_modem \<Rightarrow> (int \<times> int \<times> int \<times> int) option \<times> kiss_modem" where
  "get_radio_config = query HW_CMD_GET_RADIO []
     (\<lambda>code p. if code = HW_RESP HW_CMD_GET_RADIO \<and> 10 \<le> length p
               then Some (le_int (take 4 p), le_int (take 4 (drop 4 p)), uint (p ! 8), uint (p ! 9))
               else None)"

definition get_tx_power :: "exchange \<Rightarrow> kiss_modem \<Rightarrow> int option \<times> kiss_modem" where
  "get_tx_power = query HW_CMD_GET_TX_POWER []
     (\<lambda>code p. if code = HW_RESP HW_CMD_GET_TX_POWER \<and> 1 \<le> length p then Some (uint (p ! 0)) else None)"

definition get_current_rssi :: "exchange \<Rightarrow> kiss_modem \<Rightarrow> int \<times> kiss_modem" where
  "get_current_rssi ex st =
     (case query HW_CMD_GET_CURRENT_RSSI []
        (\<lambda>code p. if code = HW_RESP HW_CMD_GET_CURRENT_RSSI \<and> 1 \<le> length p
                  then Some (signed_byte (p ! 0)) else None) ex st of
        (r, st) \<Rightarrow> (opt_default (-999) r, st))"

definition is_channel_busy :: "exchange \<Rightarrow> kiss_modem \<Rightarrow> bool \<times> kiss_modem" where
  "is_channel_busy ex st =
     (case query HW_CMD_IS_CHANNEL_BUSY []
        (\<lambda>code p. if code = HW_RESP HW_CMD_IS_CHANNEL_BUSY \<and> 1 \<le> length p
                  then Some (p ! 0 = 0x01) else None) ex st of
        (r, st) \<Rightarrow> (opt_default False r, st))"

text \<open>\<open>bytes([packet_length])\<close> raises for a length that is no byte.\<close>

definition get_airtime :: "int \<Rightarrow> exchange \<Rightarrow> kiss_modem \<Rightarrow> int option res \<times> kiss_modem" where
  "get_airtime packet_length ex st =
     (case to_byte packet_length of
        Inl e \<Rightarrow> (Inl e, st)
      | Inr b \<Rightarrow>
          case query HW_CMD_GET_AIRTIME [b]
            (\<lambda>code p. if code = HW_RESP HW_CMD_GET_AIRTIME \<and> 4 \<le> length p
                      then Some (le_int (take 4 p)) else None) ex st of
            (r, st) \<Rightarrow> (Inr r, st))"

definition get_noise_floor :: "exchange \<Rightarrow> kiss_modem \<Rightarrow> int option \<times> kiss_modem" where
  "get_noise_floor ex st =
     (case query HW_CMD_GET_NOISE_FLOOR []
        (\<lambda>code p. if code = HW_RESP HW_CMD_GET_NOISE_FLOOR \<and> 2 \<le> length p
                  then Some (le_sint (take 2 p)) else None) ex st of
        (None, st) \<Rightarrow> (None, st)
      | (Some noise, st) \<Rightarrow> (Some noise, st\<lparr>km_noise_floor := Some noise\<rparr>))"

definition get_modem_stats :: "exchange \<Rightarrow> kiss_modem \<Rightarrow> (int \<times> int \<times> int) option \<times> kiss_modem" where
  "get_modem_stats = query HW_CMD_GET_STATS []
     (\<lambda>code p. if code = HW_RESP HW_CMD_GET_STATS \<and> 12 \<le> length p
               then Some (le_int (take 4 p), le_int (take 4 (drop 4 p)), le_int (take 4 (drop 8 p)))
               else None)"

definition get_battery :: "exchange \<Rightarrow> kiss_modem \<Rightarrow> int option \<times> kiss_modem" where
  "get_battery = query HW_CMD_GET_BATTERY []
     (\<lambda>code p. if code = HW_RESP HW_CMD_GET_BATTERY \<and> 2 \<le> length p then Some (le_int (take 2 p)) else None)"

definition ping :: "exchange \<Rightarrow> kiss_modem \<Rightarrow> bool \<times> kiss_modem" where
  "ping ex st =
     (case query HW_CMD_PING [] (\<lambda>code _. if code = HW_RESP HW_CMD_PING then Some () else None) ex st of
        (r, st) \<Rightarrow> (r \<noteq> None, st))"

definition get_sensors :: "byte \<Rightarrow> exchange \<Rightarrow> kiss_modem \<Rightarrow> bytes option \<times> kiss_modem" where
  "get_sensors permissions = query HW_CMD_GET_SENSORS [permissions]
     (\<lambda>code p. if code = HW_RESP HW_CMD_GET_SENSORS then Some p else None)"

definition get_mcu_temp :: "exchange \<Rightarrow> kiss_modem \<Rightarrow> real option \<times> kiss_modem" where
  "get_mcu_temp = query HW_CMD_GET_MCU_TEMP []
     (\<lambda>code p. if code = HW_RESP HW_CMD_GET_MCU_TEMP \<and> 2 \<le> length p
               then Some (of_int (le_sint (take 2 p)) / 10) else None)"

definition get_device_name :: "exchange \<Rightarrow> kiss_modem \<Rightarrow> pystr option \<times> kiss_modem" where
  "get_device_name = query HW_CMD_GET_DEVICE_NAME []
     (\<lambda>code p. if code = HW_RESP HW_CMD_GET_DEVICE_NAME
               then case utf8_decode Strict p of Inl _ \<Rightarrow> None | Inr s \<Rightarrow> Some s
               else None)"

definition reboot :: "exchange \<Rightarrow> kiss_modem \<Rightarrow> kiss_modem" where
  "reboot ex st = snd (KissModem_send_command HW_CMD_REBOOT [] ex st)"

definition get_identity :: "exchange \<Rightarrow> kiss_modem \<Rightarrow> bytes option \<times> kiss_modem" where
  "get_identity ex st =
     (case query HW_CMD_GET_IDENTITY []
        (\<lambda>code p. if code = HW_RESP HW_CMD_GET_IDENTITY \<and> length p = 32 then Some p else None) ex st of
        (None, st) \<Rightarrow> (None, st)
      | (Some key, st) \<Rightarrow> (Some key, st\<lparr>km_modem_identity := Some key\<rparr>))"

definition query_modem_info :: "exchange \<Rightarrow> exchange \<Rightarrow> exchange \<Rightarrow> kiss_modem \<Rightarrow> kiss_modem" where
  "query_modem_info ex1 ex2 ex3 st =
     (let st = (case query HW_CMD_GET_VERSION []
                  (\<lambda>code p. if code = HW_RESP HW_CMD_GET_VERSION \<and> 1 \<le> length p then Some (uint (p ! 0)) else None)
                  ex1 st of
                  (None, st) \<Rightarrow> st
                | (Some version, st) \<Rightarrow> st\<lparr>km_modem_version := Some version\<rparr>);
          st = snd (get_identity ex2 st)
      in snd (get_device_name ex3 st))"

definition get_random :: "int \<Rightarrow> exchange \<Rightarrow> kiss_modem \<Rightarrow> bytes option \<times> kiss_modem" where
  "get_random n ex st =
     (if n < 1 \<or> 64 < n then (None, st)
      else query HW_CMD_GET_RANDOM [word_of_int n]
             (\<lambda>code p. if code = HW_RESP HW_CMD_GET_RANDOM then Some p else None) ex st)"

definition sign_data :: "bytes \<Rightarrow> exchange \<Rightarrow> kiss_modem \<Rightarrow> bytes option \<times> kiss_modem" where
  "sign_data data = query HW_CMD_SIGN_DATA data
     (\<lambda>code p. if code = HW_RESP HW_CMD_SIGN_DATA \<and> length p = 64 then Some p else None)"

definition verify_signature ::
  "bytes \<Rightarrow> bytes \<Rightarrow> bytes \<Rightarrow> exchange \<Rightarrow> kiss_modem \<Rightarrow> bool option \<times> kiss_modem" where
  "verify_signature pubkey signature data ex st =
     (if length pubkey \<noteq> 32 \<or> length signature \<noteq> 64 then (None, st)
      else query HW_CMD_VERIFY_SIGNATURE (pubkey @ signature @ data)
             (\<lambda>code p. if code = HW_RESP HW_CMD_VERIFY_SIGNATURE \<and> 1 \<le> length p
                       then Some (p ! 0 = 0x01) else None) ex st)"

definition encrypt_data ::
  "bytes \<Rightarrow> bytes \<Rightarrow> exchange \<Rightarrow> kiss_modem \<Rightarrow> (bytes \<times> bytes) option \<times> kiss_modem" where
  "encrypt_data key plaintext ex st =
     (if length key \<noteq> 32 then (None, st)
      else query HW_CMD_ENCRYPT_DATA (key @ plaintext)
             (\<lambda>code p. if code = HW_RESP HW_CMD_ENCRYPT_DATA \<and> 2 \<le> length p
                       then Some (take 2 p, drop 2 p) else None) ex st)"

definition decrypt_data ::
  "bytes \<Rightarrow> bytes \<Rightarrow> bytes \<Rightarrow> exchange \<Rightarrow> kiss_modem \<Rightarrow> bytes option \<times> kiss_modem" where
  "decrypt_data key mac ciphertext ex st =
     (if length key \<noteq> 32 \<or> length mac \<noteq> 2 then (None, st)
      else query HW_CMD_DECRYPT_DATA (key @ mac @ ciphertext)
             (\<lambda>code p. if code = HW_RESP HW_CMD_DECRYPT_DATA then Some p else None) ex st)"

definition key_exchange :: "bytes \<Rightarrow> exchange \<Rightarrow> kiss_modem \<Rightarrow> bytes option \<times> kiss_modem" where
  "key_exchange remote_pubkey ex st =
     (if length remote_pubkey \<noteq> 32 then (None, st)
      else query HW_CMD_KEY_EXCHANGE remote_pubkey
             (\<lambda>code p. if code = HW_RESP HW_CMD_KEY_EXCHANGE \<and> length p = 32 then Some p else None) ex st)"

definition hash_data :: "bytes \<Rightarrow> exchange \<Rightarrow> kiss_modem \<Rightarrow> bytes option \<times> kiss_modem" where
  "hash_data data = query HW_CMD_HASH data
     (\<lambda>code p. if code = HW_RESP HW_CMD_HASH \<and> length p = 32 then Some p else None)"

text \<open>Setting up the radio: two commands, and the attributes only when both were answered.\<close>

definition pack_radio :: "int \<Rightarrow> int \<Rightarrow> int \<Rightarrow> int \<Rightarrow> bytes res" where
  "pack_radio frequency_hz bandwidth_hz sf cr =
     bind_res (pack_u 4 frequency_hz) (\<lambda>f. bind_res (pack_u 4 bandwidth_hz) (\<lambda>b.
     bind_res (pack_u 1 sf) (\<lambda>s. bind_res (pack_u 1 cr) (\<lambda>c. Inr (f @ b @ s @ c)))))"

definition refused :: "(byte \<times> bytes) option \<Rightarrow> bool" where
  "refused resp = (case resp of None \<Rightarrow> True | Some (code, _) \<Rightarrow> code = HW_RESP_ERROR)"

definition configure_radio ::
  "int option \<Rightarrow> int option \<Rightarrow> int option \<Rightarrow> int option \<Rightarrow> exchange \<Rightarrow> exchange \<Rightarrow> kiss_modem \<Rightarrow> bool \<times> kiss_modem" where
  "configure_radio frequency bandwidth spreading_factor coding_rate ex1 ex2 st =
     (if \<not> km_is_open st then (False, st)
      else
        let c = km_config st;
            frequency_hz = opt_default (opt_default 869618000 (mc_frequency c)) frequency;
            bandwidth_hz = opt_default (opt_default 62500 (mc_bandwidth c)) bandwidth;
            sf = opt_default (opt_default 8 (mc_spreading_factor c)) spreading_factor;
            cr = opt_default (opt_default 8 (mc_coding_rate c)) coding_rate;
            pwr = mc_the_power c
        in case pack_radio frequency_hz bandwidth_hz sf cr of
             Inl _ \<Rightarrow> (False, st)
           | Inr radio_data \<Rightarrow>
               let r = KissModem_send_command HW_CMD_SET_RADIO radio_data ex1 st
               in if refused (fst r) then (False, snd r)
                  else case to_byte pwr of
                         Inl _ \<Rightarrow> (False, snd r)
                       | Inr p \<Rightarrow>
                           let r = KissModem_send_command HW_CMD_SET_TX_POWER [p] ex2 (snd r)
                           in if refused (fst r) then (False, snd r)
                              else (True, (snd r)\<lparr>km_frequency := frequency_hz, km_bandwidth := bandwidth_hz,
                                     km_spreading_factor := sf, km_coding_rate := cr, km_tx_power := pwr,
                                     km_is_configured := True\<rparr>))"

definition set_tx_power :: "int \<Rightarrow> exchange \<Rightarrow> kiss_modem \<Rightarrow> bool \<times> kiss_modem" where
  "set_tx_power pwr ex st =
     (if \<not> km_is_connected st then (False, st)
      else case to_byte pwr of
             Inl _ \<Rightarrow> (False, st)
           | Inr p \<Rightarrow>
               let r = KissModem_send_command HW_CMD_SET_TX_POWER [p] ex st
               in if refused (fst r) then (False, snd r) else (True, (snd r)\<lparr>km_tx_power := pwr\<rparr>))"

definition check_radio_health :: "exchange \<Rightarrow> kiss_modem \<Rightarrow> bool \<times> kiss_modem" where
  "check_radio_health ex st =
     (if \<not> km_is_connected st then (False, st)
      else case ping ex st of
             (healthy, st) \<Rightarrow> (healthy, if healthy then st else KissModem_mark_serial_failure st))"

section \<open>Transmission\<close>

definition KissModem_send_frame :: "bytes \<Rightarrow> kiss_modem \<Rightarrow> bool \<times> kiss_modem" where
  "KissModem_send_frame data st =
     (if \<not> km_is_connected st then (False, st)
      else if length data < 2 \<or> KISS_MAX_PACKET_SIZE < length data then (False, st)
      else if length (km_tx_buffer st) < TX_BUFFER_SIZE then
        (True, st\<lparr>km_tx_buffer := km_tx_buffer st @ [KissModem_encode_kiss_frame (word_of_int CMD_DATA) data]\<rparr>)
      else (False, st\<lparr>km_buffer_overruns := km_buffer_overruns st + 1\<rparr>))"

datatype tx_verdict = TxConfirmed | TxShuttingDown | TxLinkDown | TxNotWritten | TxLinkLost
  | TxStatusZero | TxAborted | TxBusy | TxNoDone

definition KissModem_resolve_tx_done :: "kiss_modem \<Rightarrow> tx_verdict" where
  "KissModem_resolve_tx_done st =
     (case km_tx_done_result st of Some True \<Rightarrow> TxConfirmed | Some False \<Rightarrow> TxStatusZero | None \<Rightarrow> TxAborted)"

text \<open>
  Sending a data frame and waiting for its confirmation. \<open>during\<close> is what the worker threads do to
  the wrapper between queueing the frame and the end of the wait.
\<close>

definition KissModem_send_frame_and_wait ::
  "bytes \<Rightarrow> bool \<Rightarrow> (kiss_modem \<Rightarrow> kiss_modem) \<Rightarrow> kiss_modem \<Rightarrow> tx_verdict \<times> kiss_modem" where
  "KissModem_send_frame_and_wait data in_reconnect_thread during st =
     (if km_shutting_down st then (TxShuttingDown, st)
      else if (km_reconnecting st \<or> km_degraded st) \<and> \<not> in_reconnect_thread then (TxLinkDown, st)
      else
        let st = st\<lparr>km_tx_done_event := False, km_tx_done_result := None, km_tx_busy_seen := False\<rparr>;
            sent = KissModem_send_frame data st
        in if \<not> fst sent then (TxNotWritten, snd sent)
           else
             let st = during (snd sent)
             in (if km_shutting_down st then TxShuttingDown
                 else if km_tx_done_event st then KissModem_resolve_tx_done st
                 else if km_degraded st \<or> km_stopped st then TxLinkLost
                 else if km_tx_busy_seen st then TxBusy
                 else TxNoDone, st))"

definition KissModem_tx_worker :: "int list \<Rightarrow> bool \<Rightarrow> kiss_modem \<Rightarrow> kiss_modem" where
  "KissModem_tx_worker outs flush_ok st =
     (if km_stopped st \<or> \<not> km_is_open st then st
      else case km_tx_buffer st of
             [] \<Rightarrow> st
           | frame # frames \<Rightarrow>
               let sent = KissModem_write_frame outs flush_ok frame (st\<lparr>km_tx_buffer := frames\<rparr>)
               in if fst sent
                  then (snd sent)\<lparr>km_frames_sent := km_frames_sent (snd sent) + 1,
                                   km_bytes_sent := km_bytes_sent (snd sent) + int (length frame)\<rparr>
                  else snd sent)"

text \<open>
  Listen before talk: \<open>busy k\<close> is the answer to the k-th channel check, \<open>None\<close> when it raises, and
  \<open>pick k\<close> the random choice of a delay. The result is the list of waits.
\<close>

definition LBT_RETRY_DELAYS_MS :: "int list" where "LBT_RETRY_DELAYS_MS = [120, 240, 360]"
definition LBT_MAX_WAIT_MS :: int where "LBT_MAX_WAIT_MS = 4000"

lemma lbt_delay: "120 \<le> LBT_RETRY_DELAYS_MS ! (n mod 3)"
proof -
  have "n mod 3 \<in> {0, 1, 2}" by auto
  then show ?thesis by (auto simp: LBT_RETRY_DELAYS_MS_def)
qed

function prepare_for_tx_lbt :: "(nat \<Rightarrow> bool option) \<Rightarrow> (nat \<Rightarrow> nat) \<Rightarrow> nat \<Rightarrow> int \<Rightarrow> int list" where
  "prepare_for_tx_lbt busy pick k total_wait_ms =
     (if total_wait_ms < LBT_MAX_WAIT_MS then
        case busy k of
          None \<Rightarrow> []
        | Some channel_busy \<Rightarrow>
            if \<not> channel_busy then []
            else
              let remaining_ms = LBT_MAX_WAIT_MS - total_wait_ms;
                  retry_delay_ms = LBT_RETRY_DELAYS_MS ! (pick k mod 3);
                  backoff_ms = min retry_delay_ms remaining_ms
              in backoff_ms # prepare_for_tx_lbt busy pick (k + 1) (total_wait_ms + backoff_ms)
      else [])"
  by pat_completeness auto
termination
  by (relation "measure (\<lambda>(busy, pick, k, total). nat (LBT_MAX_WAIT_MS - total))")
    (use lbt_delay in \<open>auto simp: min_def intro: less_le_trans [of 0 120]\<close>)

declare prepare_for_tx_lbt.simps [simp del]

section \<open>Frames and chunks\<close>

text \<open>
  Handling a frame is built from counting it and one operation for its kind. Each of the three
  properties of the decoder below is shown for these parts and carried over to a frame by the
  following rule.
\<close>

definition count_frame :: "nat \<Rightarrow> kiss_modem \<Rightarrow> kiss_modem" where
  "count_frame n st = st\<lparr>km_frames_received := km_frames_received st + 1,
     km_bytes_received := km_bytes_received st + int n - 1\<rparr>"

definition count_error :: "kiss_modem \<Rightarrow> kiss_modem" where
  "count_error st = st\<lparr>km_errors := km_errors st + 1\<rparr>"

definition count_busy :: "kiss_modem \<Rightarrow> kiss_modem" where
  "count_busy st = st\<lparr>km_tx_busy := km_tx_busy st + 1, km_tx_busy_seen := True\<rparr>"

lemma process_parts:
  assumes comp: "\<And>f g. P f \<Longrightarrow> P g \<Longrightarrow> P (\<lambda>st. f (g st))" and same: "P (\<lambda>st. st)"
    and parts: "\<And>n. P (count_frame n)" "P count_error" "P count_busy"
      "\<And>payload. P (KissModem_data_frame now payload)" "\<And>payload. P (KissModem_rx_meta payload)"
      "\<And>code payload. P (KissModem_response code payload)" "\<And>payload. P (KissModem_tx_done payload)"
  obtains f where "P f" and "\<And>st. kl_buffer st = buf \<Longrightarrow> KissModem_process_received_frame now st = f st"
proof -
  have err: "P (KissModem_error payload)" for payload
  proof -
    have "KissModem_error payload =
        (if payload = [] then KissModem_response HW_RESP_ERROR payload
         else if payload ! 0 = HW_ERR_TX_BUSY then (\<lambda>st. count_busy (count_error st))
         else (\<lambda>st. KissModem_response HW_RESP_ERROR payload (count_error st)))"
      by (rule ext) (simp add: KissModem_error_def count_busy_def count_error_def Let_def Suc_le_eq)
    then show ?thesis by (simp add: parts comp)
  qed
  have handle: "P (KissModem_handle_frame now buf)"
  proof -
    have "KissModem_handle_frame now buf =
        (if uint (buf ! 0) AND 0x0F = CMD_DATA then KissModem_data_frame now (drop 1 buf)
         else if uint (buf ! 0) AND 0x0F \<noteq> KISS_CMD_SETHARDWARE \<or> length buf < 2 then (\<lambda>st. st)
         else if buf ! 1 = HW_RESP_RX_META then KissModem_rx_meta (drop 2 buf)
         else if buf ! 1 = HW_RESP_TX_DONE then KissModem_tx_done (drop 2 buf)
         else if buf ! 1 = HW_RESP_ERROR then KissModem_error (drop 2 buf)
         else KissModem_response (buf ! 1) (drop 2 buf))"
      by (rule ext) (simp add: KissModem_handle_frame_def Let_def)
    then show ?thesis by (simp add: parts same err)
  qed
  define f where "f = (if length buf < 1 \<or> drop_bit 4 (uint (buf ! 0)) AND 0x0F \<noteq> 0 then (\<lambda>st. st)
    else (\<lambda>st. KissModem_handle_frame now buf (count_frame (length buf) st)))"
  have "P f" unfolding f_def by (simp add: same comp handle parts)
  then show thesis
    by (rule that) (auto simp: f_def KissModem_process_received_frame_def count_frame_def Let_def)
qed

definition flagless :: "('a kiss_line_scheme \<Rightarrow> 'a kiss_line_scheme) \<Rightarrow> bool" where
  "flagless f \<longleftrightarrow> (\<forall>st i e. f (st\<lparr>kl_in_frame := i, kl_escaped := e\<rparr>) = (f st)\<lparr>kl_in_frame := i, kl_escaped := e\<rparr>)"

interpretation modem: kiss_process "KissModem_process_received_frame now" for now
proof
  fix st :: kiss_modem and i e
  obtain f where "flagless f"
    and "\<And>s. kl_buffer s = kl_buffer st \<Longrightarrow> KissModem_process_received_frame now s = f s"
    by (rule process_parts [of flagless now "kl_buffer st"])
      (simp_all add: flagless_def count_frame_def count_error_def count_busy_def KissModem_data_frame_def
        KissModem_rx_meta_def KissModem_dispatch_rx_callback_def KissModem_response_def
        KissModem_tx_done_def Let_def split: list.split option.split)
  then show "KissModem_process_received_frame now (st\<lparr>kl_in_frame := i, kl_escaped := e\<rparr>) =
      (KissModem_process_received_frame now st)\<lparr>kl_in_frame := i, kl_escaped := e\<rparr>"
    by (simp add: flagless_def)
qed

text \<open>An operation whose effect on a view of the state depends on that view only.\<close>

definition view_only :: "('s \<Rightarrow> 's) \<Rightarrow> ('s \<Rightarrow> 's) \<Rightarrow> bool" where
  "view_only view f \<longleftrightarrow> (\<forall>st. view (f st) = view (f (view st)))"

lemma view_only_comp: "view_only view f \<Longrightarrow> view_only view g \<Longrightarrow> view_only view (\<lambda>st. f (g st))"
  unfolding view_only_def by metis

text \<open>
  What reception does to the responses and the transmit status does not depend on the clock, nor on
  the data frames that wait for their report.
\<close>

definition response_view :: "kiss_modem \<Rightarrow> kiss_modem" where
  "response_view st = st\<lparr>kl_frame_errors := 0, km_pending_rx := [], km_received := [], km_rx_packets := 0\<rparr>"

lemma process_view:
  assumes "view_only view (\<lambda>st. st)" and "\<And>n. view_only view (count_frame n)" and "view_only view count_error"
    and "view_only view count_busy" and "\<And>payload. view_only view (KissModem_data_frame now payload)"
    and "\<And>payload. view_only view (KissModem_rx_meta payload)"
    and "\<And>code payload. view_only view (KissModem_response code payload)"
    and "\<And>payload. view_only view (KissModem_tx_done payload)" and "kl_buffer (view st) = kl_buffer st"
  shows "view (KissModem_process_received_frame now st) = view (KissModem_process_received_frame now (view st))"
proof (rule process_parts [of "view_only view" now "kl_buffer st"])
  show "view_only view f \<Longrightarrow> view_only view g \<Longrightarrow> view_only view (\<lambda>st. f (g st))" for f g
    by (erule (1) view_only_comp)
  fix f
  assume "view_only view f" and "\<And>s. kl_buffer s = kl_buffer st \<Longrightarrow> KissModem_process_received_frame now s = f s"
  with assms(9) show ?thesis unfolding view_only_def by presburger
qed (fact assms)+

lemma process_view_response:
  "response_view (KissModem_process_received_frame now st) =
   response_view (KissModem_process_received_frame now (response_view st))"
  by (rule process_view)
    (simp_all add: view_only_def response_view_def count_frame_def count_error_def count_busy_def
      KissModem_data_frame_def KissModem_rx_meta_def KissModem_dispatch_rx_callback_def
      KissModem_response_def KissModem_tx_done_def Let_def split: list.split option.split)

lemma process_clock:
  "response_view (KissModem_process_received_frame now st) = response_view (KissModem_process_received_frame 0 st)"
  by (simp add: KissModem_process_received_frame_def KissModem_handle_frame_def KissModem_data_frame_def
      response_view_def Let_def)

interpretation response: kiss_view "KissModem_process_received_frame now" "KissModem_process_received_frame 0"
  response_view for now
proof
  show "response_view (KissModem_process_received_frame now st) =
      response_view (KissModem_process_received_frame 0 (response_view st))" for st
    using process_view_response [of 0 st] process_clock [of now st] by (rule trans [rotated])
  show "response_view (KissModem_process_received_frame 0 st) =
      response_view (KissModem_process_received_frame 0 (response_view st))" for st
    by (rule process_view_response)
qed (simp_all add: response_view_def kiss_set_def kiss_error_def)

end
