(* ===== verification/Kiss_Modem_Link.thy ===== *)
theory Kiss_Modem_Link
  imports Kiss_Modem
begin

text \<open>
  The dialogue of a host and a KISS modem, on top of \<open>Kiss_Modem\<close>. A modem sends messages, each a
  KISS frame; the serial port cuts the stream into chunks that the receive worker reads at any
  times. The theorems state what commands return, what a transmission reports and what the receive
  callback gets, as functions of the messages.
\<close>

section \<open>Messages of the modem\<close>

datatype modem_msg = MData bytes | MHw byte bytes

fun msg_frame :: "modem_msg \<Rightarrow> byte \<times> bytes" where
  "msg_frame (MData data) = (0, data)"
| "msg_frame (MHw code payload) = (6, code # payload)"

definition msg_ok :: "modem_msg \<Rightarrow> bool" where
  "msg_ok m \<longleftrightarrow> length (snd (msg_frame m)) < MAX_FRAME_SIZE"

definition wire :: "modem_msg list \<Rightarrow> bytes" where
  "wire msgs = concat (map (\<lambda>m. kiss_frame (fst (msg_frame m)) (snd (msg_frame m))) msgs)"

definition carries :: "rx_turn list \<Rightarrow> modem_msg list \<Rightarrow> bool" where
  "carries turns msgs \<longleftrightarrow> (\<forall>turn\<in>set turns. snd turn \<noteq> None) \<and> concat (map (\<lambda>turn. the (snd turn)) turns) = wire msgs"

definition link_up :: "kiss_modem \<Rightarrow> bool" where
  "link_up st \<longleftrightarrow> km_is_open st \<and> \<not> km_stopped st"

abbreviation deliver_at :: "real \<Rightarrow> modem_msg \<Rightarrow> kiss_modem \<Rightarrow> kiss_modem" where
  "deliver_at now m \<equiv> kiss_deliver (KissModem_process_received_frame now) (msg_frame m)"

abbreviation deliver_msg :: "modem_msg \<Rightarrow> kiss_modem \<Rightarrow> kiss_modem" where
  "deliver_msg \<equiv> deliver_at 0"

abbreviation modem_bytes :: "real \<Rightarrow> bytes \<Rightarrow> kiss_modem \<Rightarrow> kiss_modem" where
  "modem_bytes now \<equiv> fold (bulk_byte 0 False (KissModem_process_received_frame now))"

lemma decode_wire:
  assumes "kiss_idle 0 st" and "\<forall>m\<in>set msgs. msg_ok m"
  shows "modem_bytes now (wire msgs) st = fold (deliver_at now) msgs st"
proof -
  have "fold (deliver_at now) msgs st = fold (kiss_deliver (KissModem_process_received_frame now)) (map msg_frame msgs) st"
    by (simp add: fold_map comp_def)
  also have "\<dots> = kiss_decode 0 False (KissModem_process_received_frame now)
      (concat (map (\<lambda>(c, data). kiss_frame c data) (map msg_frame msgs))) st"
  proof (rule modem.decode_frames [symmetric, OF assms(1)])
    fix c data
    assume "(c, data) \<in> set (map msg_frame msgs)"
    then obtain m where m: "m \<in> set msgs" "msg_frame m = (c, data)" by force
    have "c = 0 \<or> c = 6" using m(2) by (cases m) auto
    with m assms(2) show "c \<noteq> KISS_FEND \<and> c \<noteq> KISS_FESC \<and> 0 \<le> length data \<and> length data < MAX_FRAME_SIZE"
      by (auto simp: kiss_defs msg_ok_def)
  qed
  finally show ?thesis by (simp add: modem.kiss_decode_fold wire_def comp_def case_prod_beta)
qed

text \<open>The port, the callback and the expected responses survive reception.\<close>

definition kept :: "kiss_modem \<Rightarrow> bool \<times> bool \<times> bool \<times> bool \<times> bool \<times> byte list option" where
  "kept st = (km_is_open st, km_stopped st, km_shutting_down st, km_degraded st, km_callback st, km_expected st)"

lemma process_kept: "kept (KissModem_process_received_frame now st) = kept st"
proof (rule process_parts [of "\<lambda>f. \<forall>st. kept (f st) = kept st" now "kl_buffer st"])
qed (simp_all add: kept_def count_frame_def count_error_def count_busy_def KissModem_data_frame_def
      KissModem_rx_meta_def KissModem_dispatch_rx_callback_def KissModem_response_def
      KissModem_tx_done_def Let_def split: list.split option.split)

lemma bytes_kept: "kept (modem_bytes now data st) = kept st"
  by (rule bulk_fold_keeps) (simp_all add: process_kept, simp_all add: kept_def kiss_set_def kiss_error_def)

lemma flush_eq:
  "KissModem_flush_expired_rx_frames now st =
   st\<lparr>km_pending_rx := snd (flush_pending now (km_pending_rx st)),
      km_rx_packets := km_rx_packets st + int (length (fst (flush_pending now (km_pending_rx st)))),
      km_received := km_received st @
        (if km_callback st then map (\<lambda>p. (p, -999, -999)) (fst (flush_pending now (km_pending_rx st))) else [])\<rparr>"
proof -
  have "fold (\<lambda>payload. KissModem_dispatch_rx_callback payload (-999) (-999)) ps s =
      s\<lparr>km_received := km_received s @ (if km_callback s then map (\<lambda>p. (p, -999, -999)) ps else [])\<rparr>" for ps s
    by (induction ps arbitrary: s) (simp_all add: KissModem_dispatch_rx_callback_def)
  then show ?thesis by (simp add: KissModem_flush_expired_rx_frames_def Let_def)
qed

lemma rx_worker_bytes:
  assumes "link_up st"
  shows "KissModem_rx_worker ((now, now'), Some chunk) st = modem_bytes now' chunk (KissModem_flush_expired_rx_frames now st)"
  using assms
  by (simp add: KissModem_rx_worker_def link_up_def KissModem_decode_kiss_def modem.kiss_decode_fold Let_def)

lemma rx_worker_kept: "link_up st \<Longrightarrow> kept (KissModem_rx_worker ((now, now'), Some chunk) st) = kept st"
  by (simp add: rx_worker_bytes bytes_kept) (simp add: flush_eq kept_def)

lemma link_up_kept: "kept s = kept t \<Longrightarrow> link_up s = link_up t"
  by (simp add: kept_def link_up_def)

section \<open>The stream, however it is cut\<close>

lemma turns_response:
  assumes "link_up st" and "\<forall>turn\<in>set turns. snd turn \<noteq> None"
  shows "response_view (fold KissModem_rx_worker turns st) =
    response_view (modem_bytes 0 (concat (map (\<lambda>turn. the (snd turn)) turns)) st) \<and>
    kept (fold KissModem_rx_worker turns st) = kept st"
  using assms
proof (induction turns arbitrary: st)
  case (Cons turn turns)
  obtain now now' chunk where t: "turn = ((now, now'), Some chunk)" using Cons.prems(2) by (cases turn) auto
  let ?st = "KissModem_rx_worker turn st"
  have k: "kept ?st = kept st" using rx_worker_kept Cons.prems(1) by (simp add: t)
  have "response_view (KissModem_flush_expired_rx_frames now st) = response_view st"
    by (simp add: flush_eq response_view_def)
  then have "response_view ?st = response_view (modem_bytes 0 chunk st)"
    unfolding t rx_worker_bytes [OF Cons.prems(1)] by (rule response.view_fold)
  from response.view_fold [OF this]
  have "response_view (modem_bytes 0 rest ?st) = response_view (modem_bytes 0 rest (modem_bytes 0 chunk st))" for rest .
  then show ?case using Cons.IH [of ?st] Cons.prems link_up_kept [OF k] k by (simp add: t)
qed simp

section \<open>Commands and their answers\<close>

text \<open>
  The messages that count as an answer to a command that accepts the given codes: neither
  unsolicited messages nor the report of a busy transmitter do.
\<close>

fun answers :: "byte list \<Rightarrow> modem_msg \<Rightarrow> bool" where
  "answers acceptable (MData data) = False"
| "answers acceptable (MHw code payload) =
     (code \<in> set acceptable \<and> code \<noteq> HW_RESP_RX_META \<and> code \<noteq> HW_RESP_TX_DONE \<and>
      \<not> (code = HW_RESP_ERROR \<and> payload \<noteq> [] \<and> payload ! 0 = HW_ERR_TX_BUSY))"

fun msg_response :: "modem_msg \<Rightarrow> byte \<times> bytes" where
  "msg_response (MData data) = (0, data)"
| "msg_response (MHw code payload) = (code, payload)"

definition response_state :: "kiss_modem \<Rightarrow> (byte \<times> bytes) option \<times> bool" where
  "response_state st = (km_pending_response st, km_response_event st)"

lemma deliver_expected: "km_expected (deliver_msg m st) = km_expected st"
  using process_kept [of 0 "st\<lparr>kl_buffer := fst (msg_frame m) # snd (msg_frame m)\<rparr>"]
  by (simp add: kiss_deliver_def kept_def)

lemma modem_hw_defs [simp]:
  "HW_RESP_RX_META \<noteq> HW_RESP_TX_DONE" "HW_RESP_RX_META \<noteq> HW_RESP_ERROR" "HW_RESP_TX_DONE \<noteq> HW_RESP_ERROR"
  by (simp_all add: HW_RESP_RX_META_def HW_RESP_TX_DONE_def HW_RESP_ERROR_def)

lemmas modem_hw_defs_sym [simp] = modem_hw_defs [symmetric]

lemma process_msg:
  assumes "kl_buffer st = fst (msg_frame m) # snd (msg_frame m)"
  shows "KissModem_process_received_frame now st =
    (case m of
       MData data \<Rightarrow> KissModem_data_frame now data
     | MHw code payload \<Rightarrow>
         if code = HW_RESP_RX_META then KissModem_rx_meta payload
         else if code = HW_RESP_TX_DONE then KissModem_tx_done payload
         else if code = HW_RESP_ERROR then KissModem_error payload
         else KissModem_response code payload) (count_frame (length (kl_buffer st)) st)"
proof -
  have "uint (6 :: byte) = 6" "drop_bit 4 6 AND 15 = (0 :: int)" "6 AND 15 = (6 :: int)" by code_simp+
  with assms show ?thesis
    by (cases m) (simp_all add: KissModem_process_received_frame_def KissModem_handle_frame_def count_frame_def
        CMD_DATA_def KISS_CMD_SETHARDWARE_def Let_def)
qed

lemma process_response_state:
  "response_state (count_frame n st) = response_state st" "km_expected (count_frame n st) = km_expected st"
  "response_state (KissModem_data_frame now data st) = response_state st"
  "response_state (KissModem_rx_meta payload st) = response_state st"
  "response_state (KissModem_tx_done payload st) = response_state st"
  by (simp_all add: response_state_def count_frame_def KissModem_data_frame_def KissModem_rx_meta_def
      KissModem_dispatch_rx_callback_def KissModem_tx_done_def Let_def split: list.split)

lemma response_response_state:
  "km_expected st = Some acceptable \<Longrightarrow> response_state (KissModem_response code payload st) =
     (if code \<in> set acceptable then (Some (code, payload), True) else response_state st)"
  by (simp add: response_state_def KissModem_response_def Let_def)

lemma error_response_state:
  "km_expected st = Some acceptable \<Longrightarrow> response_state (KissModem_error payload st) =
     (if HW_RESP_ERROR \<in> set acceptable \<and> \<not> (payload \<noteq> [] \<and> payload ! 0 = HW_ERR_TX_BUSY)
      then (Some (HW_RESP_ERROR, payload), True) else response_state st)"
  by (simp add: KissModem_error_def response_state_def KissModem_response_def Let_def Suc_le_eq)

lemma deliver_response:
  assumes "km_expected st = Some acceptable"
  shows "response_state (deliver_msg m st) =
    (if answers acceptable m then (Some (msg_response m), True) else response_state st)"
proof -
  define s where "s = st\<lparr>kl_buffer := fst (msg_frame m) # snd (msg_frame m)\<rparr>"
  have b: "kl_buffer s = fst (msg_frame m) # snd (msg_frame m)" and e: "km_expected s = Some acceptable"
    using assms by (simp_all add: s_def)
  have "response_state (deliver_msg m st) = response_state (KissModem_process_received_frame 0 s)"
    by (simp add: kiss_deliver_def response_state_def s_def)
  also have "\<dots> = (if answers acceptable m then (Some (msg_response m), True) else response_state s)"
    unfolding process_msg [OF b] using e
    by (cases m) (auto simp: process_response_state response_response_state error_response_state)
  finally show ?thesis by (simp add: response_state_def s_def)
qed

lemma deliver_responses:
  assumes "km_expected st = Some acceptable"
  shows "response_state (fold deliver_msg msgs st) =
    (case filter (answers acceptable) msgs of [] \<Rightarrow> response_state st
     | as \<Rightarrow> (Some (msg_response (List.last as)), True))"
  using assms
proof (induction msgs arbitrary: st)
  case (Cons m msgs)
  have "response_state (fold deliver_msg msgs (deliver_msg m st)) =
      (case filter (answers acceptable) msgs of [] \<Rightarrow> response_state (deliver_msg m st)
       | as \<Rightarrow> (Some (msg_response (List.last as)), True))"
    using Cons.prems by (intro Cons.IH) (simp add: deliver_expected)
  then show ?case using deliver_response [OF Cons.prems, of m] by (simp split: list.split)
qed simp

text \<open>A queue without an acceptable response is left as it is.\<close>

lemma scan_responses_none:
  "\<forall>resp\<in>set q. fst resp \<notin> set acceptable \<Longrightarrow> n \<le> length q \<Longrightarrow>
   scan_responses acceptable n None q = (None, drop n q @ take n q)"
proof (induction n arbitrary: q)
  case (Suc n)
  then obtain x q' where q: "q = x # q'" by (cases q) auto
  with Suc show ?case by simp
qed simp

lemma scan_responses_clean:
  "\<forall>resp\<in>set q. fst resp \<notin> set acceptable \<Longrightarrow> scan_responses acceptable (length q) None q = (None, q)"
  by (simp add: scan_responses_none)

text \<open>A write that succeeds has written the whole frame, in whatever pieces.\<close>

lemma write_bytes_whole: "snd (write_bytes outs frame) \<Longrightarrow> fst (write_bytes outs frame) = frame"
proof (induction outs frame rule: write_bytes.induct)
  case (3 n outs b frame)
  then show ?case by (simp add: Let_def split: if_splits)
qed simp_all

lemma write_bytes_prefix: "\<exists>rest. frame = fst (write_bytes outs frame) @ rest"
proof (induction outs frame rule: write_bytes.induct)
  case (3 n outs b frame)
  show ?case
  proof (cases "n \<le> 0")
    case False
    then obtain rest where "drop (nat n) (b # frame) = fst (write_bytes outs (drop (nat n) (b # frame))) @ rest"
      using 3 by auto
    then have "b # frame = take (nat n) (b # frame) @ fst (write_bytes outs (drop (nat n) (b # frame))) @ rest"
      by (metis append_take_drop_id)
    with False show ?thesis by (auto simp: Let_def simp del: take_Cons' drop_Cons')
  qed simp
qed simp_all

text \<open>
  C32: A SetHardware command on a healthy link, with no old answer in the queue and its frame
  written, returns the last answer that the modem sends before the wait ends, and nothing if the
  modem sends none. Received packets, signal reports, transmit confirmations, reports of a busy
  transmitter and answers to other commands may come in between, and the stream may be cut into
  reads anywhere and at any times.
\<close>

theorem command_returns_answer:
  assumes "link_up st" and "\<not> km_shutting_down st" and "\<not> km_degraded st" and "\<not> km_reconnecting st"
    and "\<forall>resp\<in>set (km_response_queue st). fst resp \<notin> set (acceptable_responses sub_cmd)"
    and "snd (write_bytes (ex_outs ex) (KissModem_encode_kiss_frame 6 (sub_cmd # data)))" and "ex_flush_ok ex"
    and "kiss_idle 0 st" and "\<forall>m\<in>set msgs. msg_ok m" and "carries (ex_turns ex) msgs"
  shows "fst (KissModem_send_command sub_cmd data ex st) =
    (case filter (answers (acceptable_responses sub_cmd)) msgs of
       [] \<Rightarrow> None
     | as \<Rightarrow> Some (msg_response (List.last as)))"
proof -
  let ?acc = "acceptable_responses sub_cmd"
  define frame where "frame = KissModem_encode_kiss_frame 6 (sub_cmd # data)"
  define w where "w = write_bytes (ex_outs ex) frame"
  define st' where "st' = st\<lparr>km_response_event := False, km_pending_response := None, km_expected := Some ?acc,
    km_written := km_written st @ fst w\<rparr>"
  have up: "link_up st'" and idle: "kiss_idle 0 st'" and exp: "km_expected st' = Some ?acc"
    using assms(1,8) by (simp_all add: st'_def link_up_def kiss_idle_def)
  have turns: "\<forall>turn\<in>set (ex_turns ex). snd turn \<noteq> None"
    "concat (map (\<lambda>turn. the (snd turn)) (ex_turns ex)) = wire msgs"
    using assms(10) by (auto simp: carries_def)
  have init: "response_state st' = (None, False)" by (simp add: response_state_def st'_def)
  let ?fin = "fold KissModem_rx_worker (ex_turns ex) st'"
  have view: "response_view ?fin = response_view (fold deliver_msg msgs st')" "kept ?fin = kept st'"
    using turns_response [OF up turns(1)] decode_wire [OF idle assms(9)] by (simp_all add: turns(2))
  have "response_state ?fin = response_state (response_view ?fin)"
    by (simp add: response_state_def response_view_def)
  also have "\<dots> = response_state (fold deliver_msg msgs st')"
    unfolding view(1) by (simp add: response_state_def response_view_def)
  also have "\<dots> = (case filter (answers ?acc) msgs of [] \<Rightarrow> (None, False)
      | as \<Rightarrow> (Some (msg_response (List.last as)), True))"
    using deliver_responses [OF exp, of msgs] init by (simp split: list.split)
  finally have state: "response_state ?fin = \<dots>" .
  have "\<not> km_shutting_down ?fin" using view(2) assms(2) by (simp add: kept_def st'_def)
  moreover have "fst (KissModem_send_command sub_cmd data ex st) =
      (if km_shutting_down ?fin then None
       else if km_response_event ?fin then km_pending_response ?fin else None)"
    using assms(1-7) scan_responses_clean [OF assms(5)]
    by (simp add: KissModem_send_command_def KissModem_write_frame_def link_up_def Let_def st'_def w_def frame_def
        KISS_CMD_SETHARDWARE_def)
  ultimately show ?thesis using state by (simp add: response_state_def split: list.splits)
qed

text \<open>A modem for the examples.\<close>

definition sample_config :: modem_config where
  "sample_config = \<lparr>mc_frequency = None, mc_bandwidth = None, mc_spreading_factor = None,
     mc_coding_rate = None, mc_power = None, mc_tx_power = None\<rparr>"

definition sample_modem :: kiss_modem where
  "sample_modem = (new_kiss_modem True sample_config)\<lparr>km_is_open := True, km_is_connected := True\<rparr>"

lemma sample_modem_up [simp]:
  "link_up sample_modem" "kiss_idle 0 sample_modem" "km_is_connected sample_modem"
  "\<not> km_shutting_down sample_modem" "\<not> km_degraded sample_modem" "\<not> km_reconnecting sample_modem"
  "km_response_queue sample_modem = []" "km_tx_buffer sample_modem = []" "km_pending_rx sample_modem = []"
  "km_callback sample_modem" "km_received sample_modem = []"
  by (simp_all add: sample_modem_def new_kiss_modem_def link_up_def kiss_idle_def)

theorem command_returns_answer_witness:
  "fst (KissModem_send_command HW_CMD_GET_TX_POWER []
     \<lparr>ex_in_reconnect_thread = False, ex_outs = [2, 2], ex_flush_ok = True,
      ex_turns = [((1, 1), Some [0xC0, 0, 1, 0xDB]), ((8, 9), Some [0xDC, 0xC0, 0xC0, 6]), ((9, 9), Some [0x8C, 22, 0xC0])]\<rparr>
     sample_modem) = Some (0x8C, [22])"
proof -
  let ?ex = "\<lparr>ex_in_reconnect_thread = False, ex_outs = [2, 2], ex_flush_ok = True,
      ex_turns = [((1, 1), Some [0xC0, 0, 1, 0xDB]), ((8, 9), Some [0xDC, 0xC0, 0xC0, 6]), ((9, 9), Some [0x8C, 22, 0xC0])]\<rparr>"
  let ?msgs = "[MData [1, 0xC0], MHw 0x8C [22]]"
  have "snd (write_bytes [2, 2] (KissModem_encode_kiss_frame 6 [HW_CMD_GET_TX_POWER]))" by code_simp
  moreover have "wire ?msgs = [0xC0, 0, 1, 0xDB, 0xDC, 0xC0, 0xC0, 6, 0x8C, 22, 0xC0]" by code_simp
  moreover have "filter (answers (acceptable_responses HW_CMD_GET_TX_POWER)) ?msgs = [MHw 0x8C [22]]" by code_simp
  ultimately show ?thesis
    using command_returns_answer [of sample_modem HW_CMD_GET_TX_POWER ?ex "[]" ?msgs]
    by (simp add: carries_def msg_ok_def MAX_FRAME_SIZE_def)
qed

section \<open>Confirmed transmission\<close>

fun dones :: "modem_msg list \<Rightarrow> bytes list" where
  "dones [] = []"
| "dones (MData data # msgs) = dones msgs"
| "dones (MHw code payload # msgs) = (if code = HW_RESP_TX_DONE then [payload] else []) @ dones msgs"

fun busy_reported :: "modem_msg list \<Rightarrow> bool" where
  "busy_reported [] = False"
| "busy_reported (MData data # msgs) = busy_reported msgs"
| "busy_reported (MHw code payload # msgs) =
     (code = HW_RESP_ERROR \<and> payload \<noteq> [] \<and> payload ! 0 = HW_ERR_TX_BUSY \<or> busy_reported msgs)"

definition tx_state :: "kiss_modem \<Rightarrow> bool \<times> bool option \<times> bool" where
  "tx_state st = (km_tx_done_event st, km_tx_done_result st, km_tx_busy_seen st)"

fun tx_after :: "modem_msg list \<Rightarrow> bool \<times> bool option \<times> bool \<Rightarrow> bool \<times> bool option \<times> bool" where
  "tx_after msgs (event, result, busy) =
     (event \<or> dones msgs \<noteq> [],
      (case filter (\<lambda>p. p \<noteq> []) (dones msgs) of [] \<Rightarrow> result | ps \<Rightarrow> Some (List.last ps ! 0 = 0x01)),
      busy \<or> busy_reported msgs)"

lemma process_tx_state:
  "tx_state (count_frame n st) = tx_state st"
  "tx_state (KissModem_data_frame now data st) = tx_state st"
  "tx_state (KissModem_rx_meta payload st) = tx_state st"
  "tx_state (KissModem_response code payload st) = tx_state st"
  by (simp_all add: tx_state_def count_frame_def KissModem_data_frame_def KissModem_rx_meta_def
      KissModem_dispatch_rx_callback_def KissModem_response_def Let_def split: list.split)

lemma deliver_tx_state: "tx_state (deliver_msg m st) = tx_after [m] (tx_state st)"
proof -
  define s where "s = st\<lparr>kl_buffer := fst (msg_frame m) # snd (msg_frame m)\<rparr>"
  have b: "kl_buffer s = fst (msg_frame m) # snd (msg_frame m)" by (simp add: s_def)
  have dn: "tx_state (KissModem_tx_done payload t) = tx_after [MHw HW_RESP_TX_DONE payload] (tx_state t)" for payload t
    by (auto simp: KissModem_tx_done_def tx_state_def Suc_le_eq)
  have err: "tx_state (KissModem_error payload t) = tx_after [MHw HW_RESP_ERROR payload] (tx_state t)" for payload t
    by (auto simp: KissModem_error_def tx_state_def KissModem_response_def Let_def Suc_le_eq)
  have "tx_state (deliver_msg m st) = tx_state (KissModem_process_received_frame 0 s)"
    by (simp add: kiss_deliver_def tx_state_def s_def)
  also have "\<dots> = tx_after [m] (tx_state s)"
    unfolding process_msg [OF b]
    by (cases m; cases "tx_state s") (auto simp: process_tx_state dn err)
  finally show ?thesis by (simp add: tx_state_def s_def)
qed

lemma tx_after_Cons: "tx_after (m # msgs) x = tx_after msgs (tx_after [m] x)"
  by (cases m; cases x) (auto split: list.split)

lemma deliver_tx_states: "tx_state (fold deliver_msg msgs st) = tx_after msgs (tx_state st)"
proof (induction msgs arbitrary: st)
  case Nil
  then show ?case by (cases "tx_state st") simp
next
  case (Cons m msgs)
  have "tx_state (fold deliver_msg (m # msgs) st) = tx_after msgs (tx_state (deliver_msg m st))"
    by (simp add: Cons.IH del: tx_after.simps)
  also have "\<dots> = tx_after msgs (tx_after [m] (tx_state st))" by (simp only: deliver_tx_state)
  also have "\<dots> = tx_after (m # msgs) (tx_state st)" by (rule tx_after_Cons [symmetric])
  finally show ?case .
qed

text \<open>What a transmission reports, from the messages that arrive while it waits.\<close>

definition verdict :: "modem_msg list \<Rightarrow> tx_verdict" where
  "verdict msgs =
     (if dones msgs = [] then if busy_reported msgs then TxBusy else TxNoDone
      else case filter (\<lambda>p. p \<noteq> []) (dones msgs) of
             [] \<Rightarrow> TxAborted
           | ps \<Rightarrow> if List.last ps ! 0 = 0x01 then TxConfirmed else TxStatusZero)"

text \<open>
  C34: A packet that the wrapper accepts on a healthy link is reported as sent exactly when the
  modem confirms it: the verdict is that of the last transmit confirmation that arrives during the
  wait. A report of a busy transmitter never fails a transmission that the modem confirms, and
  never confirms one.
\<close>

theorem transmission_verdict:
  assumes "link_up st" and "km_is_connected st" and "\<not> km_shutting_down st" and "\<not> km_degraded st"
    and "\<not> km_reconnecting st" and "2 \<le> length data" and "length data \<le> KISS_MAX_PACKET_SIZE"
    and "length (km_tx_buffer st) < TX_BUFFER_SIZE" and "kiss_idle 0 st" and "\<forall>m\<in>set msgs. msg_ok m"
    and "carries turns msgs"
  shows "fst (KissModem_send_frame_and_wait data False (fold KissModem_rx_worker turns) st) = verdict msgs"
proof -
  define st' where "st' = st\<lparr>km_tx_done_event := False, km_tx_done_result := None, km_tx_busy_seen := False,
    km_tx_buffer := km_tx_buffer st @ [KissModem_encode_kiss_frame (word_of_int CMD_DATA) data]\<rparr>"
  have up: "link_up st'" and idle: "kiss_idle 0 st'" and init: "tx_state st' = (False, None, False)"
    using assms(1,9) by (simp_all add: st'_def link_up_def kiss_idle_def tx_state_def)
  have turns: "\<forall>turn\<in>set turns. snd turn \<noteq> None" "concat (map (\<lambda>turn. the (snd turn)) turns) = wire msgs"
    using assms(11) by (auto simp: carries_def)
  let ?fin = "fold KissModem_rx_worker turns st'"
  have view: "response_view ?fin = response_view (fold deliver_msg msgs st')" "kept ?fin = kept st'"
    using turns_response [OF up turns(1)] decode_wire [OF idle assms(10)] by (simp_all add: turns(2))
  have "tx_state ?fin = tx_state (response_view ?fin)" by (simp add: tx_state_def response_view_def)
  also have "\<dots> = tx_state (fold deliver_msg msgs st')"
    unfolding view(1) by (simp add: tx_state_def response_view_def)
  finally have state: "tx_state ?fin = tx_after msgs (False, None, False)" by (simp add: deliver_tx_states init)
  have "\<not> km_shutting_down ?fin" "\<not> km_degraded ?fin" "\<not> km_stopped ?fin"
    using view(2) assms(1,3,4) by (simp_all add: kept_def st'_def link_up_def)
  moreover have "fst (KissModem_send_frame_and_wait data False (fold KissModem_rx_worker turns) st) =
      (if km_shutting_down ?fin then TxShuttingDown
       else if km_tx_done_event ?fin then KissModem_resolve_tx_done ?fin
       else if km_degraded ?fin \<or> km_stopped ?fin then TxLinkLost
       else if km_tx_busy_seen ?fin then TxBusy else TxNoDone)"
    using assms(2-8)
    by (simp add: KissModem_send_frame_and_wait_def KissModem_send_frame_def Let_def st'_def)
  ultimately show ?thesis
    using state
    by (simp add: tx_state_def verdict_def KissModem_resolve_tx_done_def split: list.split)
qed

theorem transmission_verdict_witness:
  "fst (KissModem_send_frame_and_wait [1, 2, 3] False
     (fold KissModem_rx_worker [((0, 1), Some [0xC0, 6, 0xF1, 7, 0xC0, 0xC0, 6]), ((3, 3), Some [0xF8, 1, 0xC0])]) sample_modem) =
   TxConfirmed"
proof -
  let ?msgs = "[MHw 0xF1 [7], MHw 0xF8 [1]]"
  have "wire ?msgs = [0xC0, 6, 0xF1, 7, 0xC0, 0xC0, 6, 0xF8, 1, 0xC0]" "verdict ?msgs = TxConfirmed" by code_simp+
  then show ?thesis
    using transmission_verdict [of sample_modem "[1, 2, 3]" ?msgs
      "[((0, 1), Some [0xC0, 6, 0xF1, 7, 0xC0, 0xC0, 6]), ((3, 3), Some [0xF8, 1, 0xC0])]"]
    by (simp add: carries_def msg_ok_def MAX_FRAME_SIZE_def KISS_MAX_PACKET_SIZE_def TX_BUFFER_SIZE_def)
qed

section \<open>Messages and the turns in which they arrive\<close>

text \<open>
  The messages of a modem that reports signals, as the modem means them: a packet comes with the
  report that the modem sends for it, if it sends one, and a report is one that was announced with
  its packet.
\<close>

datatype rx_msg = RxPacket bytes "bytes option" | RxReport bytes | RxOther byte bytes

fun plain :: "rx_msg \<Rightarrow> modem_msg" where
  "plain (RxPacket data report) = MData data"
| "plain (RxReport report) = MHw HW_RESP_RX_META report"
| "plain (RxOther code payload) = MHw code payload"

abbreviation msg_bytes :: "rx_msg \<Rightarrow> bytes" where
  "msg_bytes m \<equiv> kiss_frame (fst (msg_frame (plain m))) (snd (msg_frame (plain m)))"

abbreviation rx_wire :: "rx_msg list \<Rightarrow> bytes" where
  "rx_wire msgs \<equiv> wire (map plain msgs)"

text \<open>
  The messages whose last byte is among the next \<open>n\<close> bytes, and the messages that every turn
  completes when \<open>part\<close> bytes of the first one have been read.
\<close>

fun completed :: "nat \<Rightarrow> rx_msg list \<Rightarrow> rx_msg list" where
  "completed n [] = []"
| "completed n (m # msgs) =
     (if length (msg_bytes m) \<le> n then m # completed (n - length (msg_bytes m)) msgs else [])"

fun timeline :: "nat \<Rightarrow> rx_msg list \<Rightarrow> rx_turn list \<Rightarrow> ((real \<times> real) \<times> rx_msg list) list" where
  "timeline part msgs [] = []"
| "timeline part msgs ((clocks, chunk) # turns) =
     (let n = part + length (the chunk); ready = completed n msgs
      in (clocks, ready) # timeline (n - length (rx_wire ready)) (drop (length ready) msgs) turns)"

lemma wire_simps: "wire [] = []" "wire (m # msgs) = kiss_frame (fst (msg_frame m)) (snd (msg_frame m)) @ wire msgs"
  by (simp_all add: wire_def)

lemma completed_subset: "set (completed n msgs) \<subseteq> set msgs"
  by (induction msgs arbitrary: n) auto

lemma completed_split:
  assumes "xs @ ys = rx_wire msgs"
  defines "ready \<equiv> completed (length xs) msgs"
  obtains p where "xs = rx_wire ready @ p" and "p @ ys = rx_wire (drop (length ready) msgs)"
    and "case drop (length ready) msgs of [] \<Rightarrow> p = [] | m # _ \<Rightarrow> length p < length (msg_bytes m)"
proof -
  have "\<exists>p. xs = rx_wire (completed (length xs) msgs) @ p
      \<and> p @ ys = rx_wire (drop (length (completed (length xs) msgs)) msgs)
      \<and> (case drop (length (completed (length xs) msgs)) msgs of [] \<Rightarrow> p = [] | m # _ \<Rightarrow> length p < length (msg_bytes m))"
    using assms(1)
  proof (induction msgs arbitrary: xs)
    case (Cons m msgs)
    show ?case
    proof (cases "length (msg_bytes m) \<le> length xs")
      case True
      define xs' where "xs' = drop (length (msg_bytes m)) xs"
      have "take (length (msg_bytes m)) (xs @ ys) = msg_bytes m" unfolding Cons.prems by (simp add: wire_simps)
      then have "take (length (msg_bytes m)) xs = msg_bytes m" using True by simp
      then have xs: "xs = msg_bytes m @ xs'" unfolding xs'_def by (metis append_take_drop_id)
      then have "xs' @ ys = rx_wire msgs" using Cons.prems by (simp add: wire_simps)
      from Cons.IH [OF this] show ?thesis by (auto simp: xs wire_simps)
    qed (use Cons.prems in \<open>simp add: wire_def\<close>)
  qed (simp add: wire_def)
  with that show thesis unfolding ready_def by blast
qed

text \<open>Bytes in the middle of a frame touch nothing but the line.\<close>

abbreviation line_bytes :: "bytes \<Rightarrow> kiss_modem \<Rightarrow> kiss_modem" where
  "line_bytes \<equiv> fold (bulk_byte 0 False (\<lambda>st. st))"

lemma inside_frame:
  "\<forall>b \<in> set bs. b \<noteq> KISS_FEND \<Longrightarrow> modem_bytes now bs st = line_bytes bs st"
  by (induction bs arbitrary: st) (simp_all add: bulk_byte_def kiss_byte_def)

lemma escape_no_fend: "b \<in> set (kiss_escape data) \<Longrightarrow> b \<noteq> KISS_FEND"
  by (induction data) (auto split: if_splits)

lemma open_frame_quiet:
  assumes "kiss_idle 0 st" and "p @ ys = msg_bytes m @ zs" and "length p < length (msg_bytes m)"
  shows "modem_bytes now p st = line_bytes p st"
proof (cases p)
  case (Cons b bs)
  let ?c = "fst (msg_frame (plain m))" and ?esc = "kiss_escape (snd (msg_frame (plain m)))"
  have "msg_bytes m @ zs = ([KISS_FEND, ?c] @ ?esc) @ KISS_FEND # zs" "length p \<le> length ([KISS_FEND, ?c] @ ?esc)"
    using assms(3) by (simp_all add: kiss_frame_def)
  moreover have "p = take (length p) (msg_bytes m @ zs)" using assms(2) by (metis append_eq_conv_conj)
  ultimately have "p = take (length p) ([KISS_FEND, ?c] @ ?esc)" by (metis append.right_neutral diff_is_0_eq take0 take_append)
  then have b: "b = KISS_FEND" "bs = take (length bs) (?c # ?esc)" unfolding Cons by simp_all
  have "?c \<noteq> KISS_FEND" by (cases "plain m") (simp_all add: kiss_defs)
  moreover have "set bs \<subseteq> set (?c # ?esc)" using b(2) by (metis set_take_subset)
  ultimately have "\<forall>b \<in> set bs. b \<noteq> KISS_FEND" using escape_no_fend by fastforce
  moreover have "bulk_byte 0 False (KissModem_process_received_frame now) KISS_FEND st = bulk_byte 0 False (\<lambda>st. st) KISS_FEND st"
    using assms(1) by (auto simp: bulk_byte_def kiss_byte_def kiss_idle_def)
  ultimately show ?thesis using b(1) by (simp add: Cons inside_frame)
qed simp

lemma bulk_fold_commute:
  fixes g :: "'a kiss_line_scheme \<Rightarrow> 'a kiss_line_scheme"
  assumes "\<And>b f e st. g (kiss_set b f e st) = kiss_set b f e (g st)" and "\<And>st. g (kiss_error st) = kiss_error (g st)"
  shows "fold (bulk_byte least capped (\<lambda>st. st)) p (g st) = g (fold (bulk_byte least capped (\<lambda>st. st)) p st)"
proof (induction p arbitrary: st)
  case (Cons b p)
  have "g st = kiss_set (kl_buffer st) (kl_in_frame st) (kl_escaped st) (g st)"
    using assms(1) [of _ _ _ st] by (metis kiss_set_same)
  then have "kl_buffer (g st) = kl_buffer st" "kl_in_frame (g st) = kl_in_frame st" "kl_escaped (g st) = kl_escaped st"
    by (metis kiss_set_def kiss_line.select_convs(1-3) kiss_line.surjective kiss_line.update_convs(1-3))+
  note same = this
  have "bulk_byte least capped (\<lambda>st. st) b (g st) = g (bulk_byte least capped (\<lambda>st. st) b st)"
    by (rule bulk_byte_shape [where 'a = 'a, of "kl_buffer st" "kl_in_frame st" "kl_escaped st" least capped b])
      (simp_all add: assms same)
  then show ?case by (simp add: Cons.IH)
qed simp

lemma flush_line:
  "line_bytes p (KissModem_flush_expired_rx_frames now st) = KissModem_flush_expired_rx_frames now (line_bytes p st)"
  by (rule bulk_fold_commute) (simp_all add: flush_eq kiss_set_def kiss_error_def)

text \<open>The receive loop seen from the messages: every turn takes the messages that it completes.\<close>

definition take_turn :: "(real \<times> real) \<times> rx_msg list \<Rightarrow> kiss_modem \<Rightarrow> kiss_modem" where
  "take_turn turn st =
     fold (\<lambda>m. deliver_at (snd (fst turn)) (plain m)) (snd turn) (KissModem_flush_expired_rx_frames (fst (fst turn)) st)"

lemma deliver_idle: "kiss_idle 0 st \<Longrightarrow> kiss_idle 0 (fold (\<lambda>m. deliver_at now (plain m)) ms st)"
  by (induction ms arbitrary: st) (simp_all add: kiss_deliver_def kiss_idle_def)

lemma deliver_kept: "kept (fold (\<lambda>m. deliver_at now (plain m)) ms st) = kept st"
proof (induction ms arbitrary: st)
  case (Cons m ms)
  have "kept (deliver_at now (plain m) st) = kept st"
    using process_kept [of now "st\<lparr>kl_buffer := fst (msg_frame (plain m)) # snd (msg_frame (plain m))\<rparr>"]
    by (simp add: kiss_deliver_def kept_def)
  then show ?case by (simp add: Cons.IH)
qed simp

lemma take_turn_keeps:
  "kept (take_turn turn st) = kept st" "kiss_idle 0 st \<Longrightarrow> kiss_idle 0 (take_turn turn st)"
  unfolding take_turn_def deliver_kept
  by (simp add: flush_eq kept_def) (rule deliver_idle, simp add: flush_eq kiss_idle_def)

lemma turns_messages:
  assumes "link_up st" and "kiss_idle 0 st" and "\<forall>m \<in> set msgs. msg_ok (plain m)" and "\<forall>turn \<in> set turns. snd turn \<noteq> None"
    and "p @ concat (map (\<lambda>turn. the (snd turn)) turns) = rx_wire msgs"
    and "case msgs of [] \<Rightarrow> p = [] | m # _ \<Rightarrow> length p < length (msg_bytes m)"
  shows "fold KissModem_rx_worker turns (line_bytes p st) = fold take_turn (timeline (length p) msgs turns) st"
  using assms
proof (induction turns arbitrary: p msgs st)
  case Nil
  then show ?case by (cases msgs) (auto simp: wire_def)
next
  case (Cons turn turns)
  obtain now now' chunk where t: "turn = ((now, now'), Some chunk)" using Cons.prems(4) by (cases turn) auto
  define ready where "ready = completed (length (p @ chunk)) msgs"
  let ?rest = "concat (map (\<lambda>turn. the (snd turn)) turns)" and ?msgs = "drop (length ready) msgs"
  have "(p @ chunk) @ ?rest = rx_wire msgs" using Cons.prems(5) by (simp add: t)
  then obtain p' where p': "p @ chunk = rx_wire ready @ p'" "p' @ ?rest = rx_wire ?msgs"
    "case ?msgs of [] \<Rightarrow> p' = [] | m # _ \<Rightarrow> length p' < length (msg_bytes m)"
    unfolding ready_def by (rule completed_split)
  have quiet: "modem_bytes now' q s = line_bytes q s"
    if "kiss_idle 0 s" "q @ ys = rx_wire ms" "case ms of [] \<Rightarrow> q = [] | m # _ \<Rightarrow> length q < length (msg_bytes m)" for q ys ms s
    using that by (cases ms) (auto simp: wire_simps intro!: open_frame_quiet)
  let ?f = "KissModem_flush_expired_rx_frames now st" and ?st = "take_turn ((now, now'), ready) st"
  have fi: "kiss_idle 0 ?f" using Cons.prems(2) by (simp add: flush_eq kiss_idle_def)
  have ok: "\<forall>m \<in> set (map plain ready). msg_ok m" using Cons.prems(3) completed_subset by (auto simp: ready_def)
  have up: "link_up (line_bytes p st)"
    using Cons.prems(1) link_up_kept [of "line_bytes p st" st] bulk_fold_keeps [of kept "\<lambda>st. st" 0 False p st]
    by (simp add: kept_def kiss_set_def kiss_error_def)
  have "KissModem_rx_worker turn (line_bytes p st) = modem_bytes now' chunk (line_bytes p ?f)"
    unfolding t rx_worker_bytes [OF up] flush_line ..
  also have "\<dots> = modem_bytes now' (p @ chunk) ?f" using quiet [OF fi Cons.prems(5,6)] by simp
  also have "\<dots> = modem_bytes now' p' (modem_bytes now' (rx_wire ready) ?f)" unfolding p'(1) by simp
  also have "\<dots> = modem_bytes now' p' ?st"
    unfolding decode_wire [OF fi ok] by (simp add: take_turn_def fold_map comp_def)
  also have "\<dots> = line_bytes p' ?st" using Cons.prems(2) by (intro quiet [OF _ p'(2,3)] take_turn_keeps(2))
  finally have step: "KissModem_rx_worker turn (line_bytes p st) = line_bytes p' ?st" .
  have len: "length (p @ chunk) - length (rx_wire ready) = length p'" unfolding p'(1) by simp
  have "link_up ?st" using link_up_kept [OF take_turn_keeps(1)] Cons.prems(1) by simp
  moreover have "kiss_idle 0 ?st" using Cons.prems(2) by (rule take_turn_keeps(2))
  moreover have "\<forall>m \<in> set ?msgs. msg_ok (plain m)" using Cons.prems(3) by (auto dest: in_set_dropD)
  ultimately have "fold KissModem_rx_worker turns (line_bytes p' ?st) = fold take_turn (timeline (length p') ?msgs turns) ?st"
    using Cons.prems(4) p'(2,3) by (intro Cons.IH) simp_all
  then show ?case using step len by (simp add: t Let_def ready_def)
qed

section \<open>Received packets and their signal reports\<close>

text \<open>
  The packets that wait for their report: data, announced report, end of the wait. A turn first
  hands on the packets whose wait is over; a packet joins the queue at its end; a report is for the
  packet at the front. The result is \<open>None\<close> when the modem is late or out of turn: a packet is
  overdue although its report is still to come, a report arrives for a packet that is not at the
  front of the queue, or more than 64 packets wait.
\<close>

type_synonym waiting_rx = "bytes \<times> bytes option \<times> real"

fun queue_msgs :: "real \<Rightarrow> rx_msg list \<Rightarrow> waiting_rx list \<Rightarrow> waiting_rx list option" where
  "queue_msgs now [] ws = Some ws"
| "queue_msgs now (RxPacket data report # msgs) ws =
     (if length ws < MAX_PENDING_RX_FRAMES
      then queue_msgs now msgs (ws @ [(data, report, now + RX_META_WAIT_SECONDS)]) else None)"
| "queue_msgs now (RxReport report # msgs) ws =
     (case ws of
        (data, Some r, deadline) # ws' \<Rightarrow> if r = report \<and> 2 \<le> length report then queue_msgs now msgs ws' else None
      | _ \<Rightarrow> None)"
| "queue_msgs now (RxOther code payload # msgs) ws =
     (if code = HW_RESP_RX_META then None else queue_msgs now msgs ws)"

definition overdue :: "real \<Rightarrow> waiting_rx \<Rightarrow> bool" where
  "overdue now w = (snd (snd w) \<le> now)"

fun queue_turns :: "((real \<times> real) \<times> rx_msg list) list \<Rightarrow> waiting_rx list \<Rightarrow> waiting_rx list option" where
  "queue_turns [] ws = Some ws"
| "queue_turns (((now, now'), msgs) # turns) ws =
     (if list_all (\<lambda>(data, report, deadline). report = None) (takeWhile (overdue now) ws)
      then Option.bind (queue_msgs now' msgs (dropWhile (overdue now) ws)) (queue_turns turns)
      else None)"

text \<open>The packets of a list of messages, and what the callback is to get for one of them.\<close>

fun rx_packets :: "rx_msg list \<Rightarrow> (bytes \<times> bytes option) list" where
  "rx_packets [] = []"
| "rx_packets (RxPacket data report # msgs) = (data, report) # rx_packets msgs"
| "rx_packets (RxReport report # msgs) = rx_packets msgs"
| "rx_packets (RxOther code payload # msgs) = rx_packets msgs"

fun handed_on :: "bytes \<times> bytes option \<Rightarrow> bytes \<times> int \<times> real" where
  "handed_on (data, None) = (data, -999, -999)"
| "handed_on (data, Some report) = (data, signed_byte (report ! 1), of_int (signed_byte (report ! 0)) / 4)"

definition waiting_entry :: "waiting_rx \<Rightarrow> bytes \<times> real" where
  "waiting_entry w = (fst w, snd (snd w))"

definition announced :: "waiting_rx \<Rightarrow> bytes \<times> bytes option" where
  "announced w = (fst w, fst (snd w))"

text \<open>
  A modem state and a queue that agree, after the callback got \<open>gone\<close> since the state \<open>st0\<close>.
\<close>

definition queue_state :: "kiss_modem \<Rightarrow> (bytes \<times> bytes option) list \<Rightarrow> waiting_rx list \<Rightarrow> kiss_modem \<Rightarrow> bool" where
  "queue_state st0 gone ws st \<longleftrightarrow>
     km_callback st \<and> km_pending_rx st = map waiting_entry ws \<and> km_received st = km_received st0 @ map handed_on gone"

lemma process_queue_state:
  "queue_state st0 gone ws (count_frame n st) = queue_state st0 gone ws st"
  "queue_state st0 gone ws (KissModem_tx_done payload st) = queue_state st0 gone ws st"
  "queue_state st0 gone ws (KissModem_response code payload st) = queue_state st0 gone ws st"
  "queue_state st0 gone ws (KissModem_error payload st) = queue_state st0 gone ws st"
  "queue_state st0 gone ws (st\<lparr>kl_buffer := b\<rparr>) = queue_state st0 gone ws st"
  "queue_state st0 gone ws (st\<lparr>kl_buffer := b, kl_in_frame := f, kl_escaped := e\<rparr>) = queue_state st0 gone ws st"
  by (simp_all add: queue_state_def count_frame_def KissModem_tx_done_def KissModem_response_def KissModem_error_def Let_def)

lemma data_queue_state:
  "queue_state st0 gone ws st \<Longrightarrow> length ws < MAX_PENDING_RX_FRAMES \<Longrightarrow>
   queue_state st0 gone (ws @ [(data, report, now + RX_META_WAIT_SECONDS)]) (KissModem_data_frame now data st)"
  by (simp add: queue_state_def KissModem_data_frame_def waiting_entry_def)

lemma meta_queue_state:
  "queue_state st0 gone ((data, Some report, deadline) # ws) st \<Longrightarrow> 2 \<le> length report \<Longrightarrow>
   queue_state st0 (gone @ [(data, Some report)]) ws (KissModem_rx_meta report st)"
  by (simp add: queue_state_def KissModem_rx_meta_def KissModem_dispatch_rx_callback_def waiting_entry_def Let_def)

lemma deliver_queue_state:
  assumes "queue_state st0 gone ws st" and "queue_msgs now (m # msgs) ws = Some ws'"
  obtains gone1 ws1 where "queue_state st0 (gone @ gone1) ws1 (deliver_at now (plain m) st)"
    and "queue_msgs now msgs ws1 = Some ws'" and "gone1 @ map announced ws1 = map announced ws @ rx_packets [m]"
proof -
  define s where "s = st\<lparr>kl_buffer := fst (msg_frame (plain m)) # snd (msg_frame (plain m))\<rparr>"
  have b: "kl_buffer s = fst (msg_frame (plain m)) # snd (msg_frame (plain m))" by (simp add: s_def)
  have q: "queue_state st0 gone ws (count_frame (length (kl_buffer s)) s)"
    using assms(1) by (simp add: s_def process_queue_state)
  have to: "queue_state st0 g v (deliver_at now (plain m) st) = queue_state st0 g v (KissModem_process_received_frame now s)" for g v
    by (simp add: kiss_deliver_def process_queue_state s_def)
  show thesis
  proof (cases m)
    case (RxPacket data report)
    then have "queue_state st0 (gone @ []) (ws @ [(data, report, now + RX_META_WAIT_SECONDS)]) (deliver_at now (plain m) st)"
      unfolding to process_msg [OF b] using assms(2) q by (simp add: data_queue_state split: if_splits)
    from that [OF this] RxPacket assms(2) show ?thesis by (simp add: announced_def split: if_splits)
  next
    case (RxReport report)
    with assms(2) obtain data deadline ws1 where ws: "ws = (data, Some report, deadline) # ws1" "2 \<le> length report"
      "queue_msgs now msgs ws1 = Some ws'" by (auto split: list.splits option.splits if_splits)
    have "queue_state st0 (gone @ [(data, Some report)]) ws1 (deliver_at now (plain m) st)"
      unfolding to process_msg [OF b] using q ws(2) by (simp add: RxReport ws(1) meta_queue_state)
    from that [OF this ws(3)] RxReport show ?thesis by (simp add: ws(1) announced_def)
  next
    case (RxOther code payload)
    then have "queue_state st0 (gone @ []) ws (deliver_at now (plain m) st)"
      unfolding to process_msg [OF b] using assms(2) q by (simp add: process_queue_state split: if_splits)
    from that [OF this] RxOther assms(2) show ?thesis by (simp split: if_splits)
  qed
qed

lemma rx_packets_Cons: "rx_packets (m # msgs) = rx_packets [m] @ rx_packets msgs"
  by (cases m) simp_all

lemma rx_packets_append: "rx_packets (xs @ ys) = rx_packets xs @ rx_packets ys"
  by (induction xs rule: rx_packets.induct) simp_all

lemma deliver_queue_states:
  assumes "queue_state st0 gone ws st" and "queue_msgs now msgs ws = Some ws'"
  shows "\<exists>gone'. queue_state st0 (gone @ gone') ws' (fold (\<lambda>m. deliver_at now (plain m)) msgs st)
    \<and> gone' @ map announced ws' = map announced ws @ rx_packets msgs"
  using assms
proof (induction msgs arbitrary: st gone ws)
  case (Cons m msgs)
  obtain gone1 ws1 where 1: "queue_state st0 (gone @ gone1) ws1 (deliver_at now (plain m) st)"
    "queue_msgs now msgs ws1 = Some ws'" "gone1 @ map announced ws1 = map announced ws @ rx_packets [m]"
    by (rule deliver_queue_state [OF Cons.prems])
  from Cons.IH [OF 1(1,2)] obtain gone' where
    2: "queue_state st0 ((gone @ gone1) @ gone') ws' (fold (\<lambda>m. deliver_at now (plain m)) msgs (deliver_at now (plain m) st))"
    "gone' @ map announced ws' = map announced ws1 @ rx_packets msgs" by blast
  have "(gone1 @ gone') @ map announced ws' = map announced ws @ rx_packets (m # msgs)"
    unfolding rx_packets_Cons [of m msgs] append_assoc 2(2) by (simp flip: 1(3))
  with 2(1) show ?case by (intro exI [of _ "gone1 @ gone'"]) simp
qed simp

lemma flush_queue_state:
  assumes "queue_state st0 gone ws st" and "list_all (\<lambda>(data, report, deadline). report = None) (takeWhile (overdue now) ws)"
  shows "queue_state st0 (gone @ map announced (takeWhile (overdue now) ws)) (dropWhile (overdue now) ws)
    (KissModem_flush_expired_rx_frames now st)"
proof -
  have "flush_pending now (map waiting_entry ws)
      = (map fst (takeWhile (overdue now) ws), map waiting_entry (dropWhile (overdue now) ws))"
    by (induction ws) (auto simp: waiting_entry_def overdue_def Let_def)
  moreover have "map (handed_on \<circ> announced) (takeWhile (overdue now) ws)
      = map ((\<lambda>p. (p, -999, -999)) \<circ> fst) (takeWhile (overdue now) ws)"
    using assms(2) by (auto simp: list_all_iff announced_def)
  ultimately show ?thesis using assms(1) by (simp add: queue_state_def flush_eq)
qed

lemma turns_queue_state:
  assumes "queue_state st0 gone ws st" and "queue_turns line ws = Some ws'"
  shows "\<exists>gone'. queue_state st0 (gone @ gone') ws' (fold take_turn line st)
    \<and> gone' @ map announced ws' = map announced ws @ rx_packets (concat (map snd line))"
  using assms
proof (induction line arbitrary: st gone ws)
  case (Cons turn line)
  obtain now now' msgs where t: "turn = ((now, now'), msgs)" by (metis surj_pair)
  let ?g = "map announced (takeWhile (overdue now) ws)"
  from Cons.prems(2) obtain ws1 where quiet: "list_all (\<lambda>(data, report, deadline). report = None) (takeWhile (overdue now) ws)"
    and ws1: "queue_msgs now' msgs (dropWhile (overdue now) ws) = Some ws1" "queue_turns line ws1 = Some ws'"
    by (auto simp: t bind_eq_Some_conv split: if_splits)
  from deliver_queue_states [OF flush_queue_state [OF Cons.prems(1) quiet] ws1(1)] obtain gone1 where
    1: "queue_state st0 ((gone @ ?g) @ gone1) ws1 (take_turn turn st)"
    "gone1 @ map announced ws1 = map announced (dropWhile (overdue now) ws) @ rx_packets msgs"
    by (auto simp: take_turn_def t)
  from Cons.IH [OF 1(1) ws1(2)] obtain gone' where
    2: "queue_state st0 (((gone @ ?g) @ gone1) @ gone') ws' (fold take_turn line (take_turn turn st))"
    "gone' @ map announced ws' = map announced ws1 @ rx_packets (concat (map snd line))" by blast
  have "map announced ws = ?g @ map announced (dropWhile (overdue now) ws)" by (simp flip: map_append)
  then have "(?g @ gone1 @ gone') @ map announced ws' = map announced ws @ rx_packets (concat (map snd (turn # line)))"
    unfolding append_assoc 2(2) using 1(2) by (simp add: t rx_packets_append)
  with 2(1) show ?case by (intro exI [of _ "?g @ gone1 @ gone'"]) simp
qed simp

text \<open>The turns that read a stream complete all its messages, in order.\<close>

lemma timeline_complete:
  assumes "p @ concat (map (\<lambda>turn. the (snd turn)) turns) = rx_wire msgs"
    and "case msgs of [] \<Rightarrow> p = [] | m # _ \<Rightarrow> length p < length (msg_bytes m)"
  shows "concat (map snd (timeline (length p) msgs turns)) = msgs"
  using assms
proof (induction turns arbitrary: p msgs)
  case Nil
  then show ?case by (cases msgs) (auto simp: wire_def)
next
  case (Cons turn turns)
  obtain clocks chunk where t: "turn = (clocks, chunk)" by (cases turn)
  define ready where "ready = completed (length (p @ the chunk)) msgs"
  let ?rest = "concat (map (\<lambda>turn. the (snd turn)) turns)"
  have "(p @ the chunk) @ ?rest = rx_wire msgs" using Cons.prems(1) by (simp add: t)
  then obtain p' where p': "p @ the chunk = rx_wire ready @ p'" "p' @ ?rest = rx_wire (drop (length ready) msgs)"
    "case drop (length ready) msgs of [] \<Rightarrow> p' = [] | m # _ \<Rightarrow> length p' < length (msg_bytes m)"
    unfolding ready_def by (rule completed_split)
  have len: "length (p @ the chunk) - length (rx_wire ready) = length p'" unfolding p'(1) by simp
  have "completed n msgs @ drop (length (completed n msgs)) msgs = msgs" for n
    by (induction msgs arbitrary: n) simp_all
  with Cons.IH [OF p'(2,3)] len show ?case by (simp add: t Let_def ready_def)
qed

text \<open>
  C33: Received packets reach the callback once each, in the order of arrival, with the metrics of
  their own signal report, or with the sentinel metrics when the modem sends no report for them.
  The bytes of any sequence of messages, packets with and without reports and other messages,
  may be cut into reads anywhere, and the receive loop may run at any times, including times at
  which waits are over and the loop hands packets on without a report. As long as every report
  arrives while its packet is the first that still waits, that is, before the end of the packet's
  wait and after the end of the wait of every earlier packet that gets no report, and at most 64
  packets wait, what the callback got is the packets in order up to those that still wait, and
  those are in the queue with the end of their wait.
\<close>

theorem packets_paired_with_reports:
  assumes "link_up st" and "km_callback st" and "km_pending_rx st = []" and "kiss_idle 0 st"
    and "\<forall>m \<in> set msgs. msg_ok (plain m)" and "carries turns (map plain msgs)"
    and "queue_turns (timeline 0 msgs turns) [] = Some ws"
  shows "km_received (fold KissModem_rx_worker turns st) =
      km_received st @ map handed_on (take (length (rx_packets msgs) - length ws) (rx_packets msgs)) \<and>
    km_pending_rx (fold KissModem_rx_worker turns st) = map waiting_entry ws \<and>
    map announced ws = drop (length (rx_packets msgs) - length ws) (rx_packets msgs)"
proof -
  have c: "\<forall>turn \<in> set turns. snd turn \<noteq> None" "[] @ concat (map (\<lambda>turn. the (snd turn)) turns) = rx_wire msgs"
    using assms(6) by (auto simp: carries_def)
  have p: "case msgs of [] \<Rightarrow> [] = [] | m # _ \<Rightarrow> length [] < length (msg_bytes m)"
    by (simp add: kiss_frame_def split: list.split)
  have run: "fold KissModem_rx_worker turns st = fold take_turn (timeline 0 msgs turns) st"
    using turns_messages [OF assms(1,4,5) c p] by simp
  have "queue_state st [] [] st" using assms(2,3) by (simp add: queue_state_def)
  from turns_queue_state [OF this assms(7)] obtain gone where
    g: "queue_state st gone ws (fold KissModem_rx_worker turns st)" "gone @ map announced ws = rx_packets msgs"
    using timeline_complete [OF c(2) p] by (auto simp: run)
  have "length (rx_packets msgs) - length ws = length gone" by (simp flip: g(2))
  with g show ?thesis by (simp add: queue_state_def flip: g(2))
qed

theorem packets_paired_with_reports_witness:
  "km_received (fold KissModem_rx_worker
     [((5, 5), Some [0xC0, 0, 1, 0xC0, 0xC0, 0]), ((5.1, 5.2), Some []), ((5.3, 5.3), Some [2, 0xC0]),
      ((5.4, 5.4), Some [0xC0, 6, 0xF9, 40, 0xB0, 0xC0, 0xC0, 0, 3, 0xC0])] sample_modem) =
   [([1], -999, -999), ([2], -80, 10)]"
proof -
  let ?msgs = "[RxPacket [1] None, RxPacket [2] (Some [40, 0xB0]), RxReport [40, 0xB0], RxPacket [3] None]"
  let ?turns = "[((5, 5), Some [0xC0, 0, 1, 0xC0, 0xC0, 0]), ((5.1, 5.2), Some []), ((5.3, 5.3), Some [2, 0xC0]),
      ((5.4, 5.4), Some [0xC0, 6, 0xF9, 40, 0xB0, 0xC0, 0xC0, 0, 3, 0xC0])] :: rx_turn list"
  have w: "rx_wire ?msgs = [0xC0, 0, 1, 0xC0, 0xC0, 0, 2, 0xC0, 0xC0, 6, 0xF9, 40, 0xB0, 0xC0, 0xC0, 0, 3, 0xC0]"
    by code_simp
  have s: "signed_byte 0xB0 = -80" "signed_byte 40 = 40" by code_simp+
  have q: "queue_turns (timeline 0 ?msgs ?turns) [] = Some [([3], None, 5.65)]" by code_simp
  have "carries ?turns (map plain ?msgs)" unfolding carries_def w by simp
  moreover have "\<forall>m \<in> set ?msgs. msg_ok (plain m)" by (simp add: msg_ok_def MAX_FRAME_SIZE_def)
  ultimately show ?thesis
    using packets_paired_with_reports [OF sample_modem_up(1,10,9,2) _ _ q] s by simp
qed

section \<open>Bounds\<close>

definition queues_ok :: "kiss_modem \<Rightarrow> bool" where
  "queues_ok st \<longleftrightarrow> length (km_pending_rx st) \<le> MAX_PENDING_RX_FRAMES \<and>
     length (km_response_queue st) \<le> RESPONSE_QUEUE_MAXLEN"

lemma process_queues: "queues_ok st \<Longrightarrow> queues_ok (KissModem_process_received_frame now st)"
proof -
  assume ok: "queues_ok st"
  define P where "P = (\<lambda>f. \<forall>st. queues_ok st \<longrightarrow> queues_ok (f st))"
  obtain f where "P f" and "\<And>s. kl_buffer s = kl_buffer st \<Longrightarrow> KissModem_process_received_frame now s = f s"
  proof (rule process_parts [of P now "kl_buffer st"])
    show "P f \<Longrightarrow> P g \<Longrightarrow> P (\<lambda>st. f (g st))" for f g by (simp add: P_def)
    show "P (KissModem_rx_meta payload)" for payload
      by (auto simp: P_def queues_ok_def KissModem_rx_meta_def KissModem_dispatch_rx_callback_def Let_def
          split: list.split)
    show "P (KissModem_response code payload)" for code payload
      by (auto simp: P_def queues_ok_def KissModem_response_def RESPONSE_QUEUE_MAXLEN_def Let_def)
  qed (assumption | simp add: P_def queues_ok_def count_frame_def count_error_def count_busy_def
        KissModem_data_frame_def KissModem_tx_done_def)+
  with ok show ?thesis by (simp add: P_def)
qed

lemma flush_pending_length: "length (snd (flush_pending now pending)) \<le> length pending"
  by (induction now pending rule: flush_pending.induct) (auto simp: Let_def)

lemma rx_worker_queues: "queues_ok st \<Longrightarrow> queues_ok (KissModem_rx_worker turn st)"
proof -
  assume ok: "queues_ok st"
  let ?st = "KissModem_flush_expired_rx_frames (fst (fst turn)) st"
  have flushed: "queues_ok ?st"
    using ok flush_pending_length [of "fst (fst turn)" "km_pending_rx st"] by (simp add: queues_ok_def flush_eq)
  then have "queues_ok (modem_bytes (snd (fst turn)) chunk ?st)" for chunk
    by (rule bulk_fold_invar [of queues_ok, rotated -1])
      (simp_all add: process_queues, simp_all add: queues_ok_def kiss_set_def kiss_error_def)
  moreover have "queues_ok (KissModem_mark_serial_failure ?st)"
    using flushed by (simp add: queues_ok_def KissModem_mark_serial_failure_def)
  ultimately show ?thesis using ok flushed
    by (simp add: KissModem_rx_worker_def KissModem_decode_kiss_def modem.kiss_decode_fold Let_def split: option.split)
qed

interpretation waiting_packets: bounded_store KissModem_rx_worker queues_ok
  "\<lambda>st. length (km_pending_rx st)" "\<lambda>_. MAX_PENDING_RX_FRAMES"
  by unfold_locales (simp_all add: rx_worker_queues, simp add: queues_ok_def)

interpretation unclaimed_responses: bounded_store KissModem_rx_worker queues_ok
  "\<lambda>st. length (km_response_queue st)" "\<lambda>_. RESPONSE_QUEUE_MAXLEN"
  by unfold_locales (simp_all add: rx_worker_queues, simp add: queues_ok_def)

lemma modem_queues_bounded:
  assumes "queues_ok st"
  shows "length (km_pending_rx (fold KissModem_rx_worker turns st)) \<le> 64"
    and "length (km_response_queue (fold KissModem_rx_worker turns st)) \<le> 32"
  using waiting_packets.run_bounded [OF assms] unclaimed_responses.run_bounded [OF assms]
  by (simp_all add: MAX_PENDING_RX_FRAMES_def RESPONSE_QUEUE_MAXLEN_def)

text \<open>
  The frame buffer of the modem wrapper has no bound: escaped bytes are not checked against the
  frame size limit, so a line that sends escape sequences only grows the buffer beyond any size.
\<close>

lemma escaped_bytes_unbounded:
  "\<exists>data. n \<le> length (kl_buffer (KissModem_decode_kiss now data (new_kiss_modem callback config)))"
proof -
  let ?escapes = "concat (replicate n [KISS_FESC, KISS_TFEND])"
  have "length (kl_buffer (modem_bytes now (concat (replicate n [KISS_FESC, KISS_TFEND]))
      (st\<lparr>kl_in_frame := True, kl_escaped := False\<rparr>))) = length (kl_buffer st) + n" for n st
    by (induction n arbitrary: st) (simp_all add: modem.bulk_fesc modem.bulk_escaped)
  moreover have "modem_bytes now [KISS_FEND] (new_kiss_modem callback config) =
      (new_kiss_modem callback config)\<lparr>kl_in_frame := True, kl_escaped := False\<rparr>"
    by (simp add: bulk_byte_def kiss_byte_def new_kiss_modem_def)
  ultimately have "length (kl_buffer (modem_bytes now ([KISS_FEND] @ ?escapes) (new_kiss_modem callback config))) =
      length (kl_buffer (new_kiss_modem callback config)) + n"
    unfolding fold_append comp_apply by presburger
  then show ?thesis unfolding KissModem_decode_kiss_def modem.kiss_decode_fold
    by (intro exI [of _ "[KISS_FEND] @ ?escapes"]) simp
qed

section \<open>Listen before talk\<close>

lemma lbt_waits:
  "0 \<le> sum_list (prepare_for_tx_lbt busy pick k spent) \<and>
   sum_list (prepare_for_tx_lbt busy pick k spent) \<le> max 0 (LBT_MAX_WAIT_MS - spent) \<and>
   120 * int (length (prepare_for_tx_lbt busy pick k spent)) < max 0 (LBT_MAX_WAIT_MS - spent) + 120"
proof (induction busy pick k spent rule: prepare_for_tx_lbt.induct)
  case (1 busy pick k spent)
  note simps = prepare_for_tx_lbt.simps [of busy pick k spent]
  show ?case
  proof (cases "spent < LBT_MAX_WAIT_MS \<and> busy k = Some True")
    case True
    define b where "b = min (LBT_RETRY_DELAYS_MS ! (pick k mod 3)) (LBT_MAX_WAIT_MS - spent)"
    define r where "r = prepare_for_tx_lbt busy pick (k + 1) (spent + b)"
    have "prepare_for_tx_lbt busy pick k spent = b # r"
      using True by (subst simps) (simp add: Let_def b_def r_def)
    moreover have "0 \<le> sum_list r \<and> sum_list r \<le> max 0 (LBT_MAX_WAIT_MS - (spent + b)) \<and>
        120 * int (length r) < max 0 (LBT_MAX_WAIT_MS - (spent + b)) + 120"
      unfolding r_def b_def using True 1 by blast
    moreover have "b = LBT_MAX_WAIT_MS - spent \<or> 120 \<le> b" "0 < b" "b \<le> LBT_MAX_WAIT_MS - spent"
      using True lbt_delay [of "pick k"] unfolding b_def by linarith+
    ultimately show ?thesis by (auto simp: max_def split: if_splits)
  next
    case False
    then have "prepare_for_tx_lbt busy pick k spent = []"
      by (subst simps) (auto split: option.split)
    then show ?thesis by simp
  qed
qed

text \<open>
  C36: Listen before talk ends: whatever the channel checks answer and whichever delays are drawn, a
  sender makes at most 34 waits of at most 4 seconds together and then transmits.
\<close>

theorem lbt_terminates:
  "length (prepare_for_tx_lbt busy pick 0 0) \<le> 34 \<and> sum_list (prepare_for_tx_lbt busy pick 0 0) \<le> 4000"
  using lbt_waits [of busy pick 0 0] by (simp add: LBT_MAX_WAIT_MS_def)

end
