(* ===== verification/Reply_Packets.thy ===== *)
theory Reply_Packets
  imports Text_Handler
begin

text \<open>
  What the receive handlers of a server share: the result that a handler returns
  (\<open>node/handlers/result.py\<close>) and the packets that carry a reply, which are encrypted datagrams
  and returned paths built by \<open>protocol/packet_builder.py\<close>, given the hash width and the scope of
  the request they answer. The lemmas say that such a packet opens at the node whose key the secret
  was agreed with, and shows exactly the reply.
\<close>

record handler_result =
  hr_authenticated :: bool
  hr_response :: "packet option"

definition not_for_us :: handler_result where
  "not_for_us = \<lparr>hr_authenticated = False, hr_response = None\<rparr>"

definition consumed :: "packet option \<Rightarrow> handler_result" where
  "consumed response = \<lparr>hr_authenticated = True, hr_response = response\<rparr>"

lemmas handler_result_defs = not_for_us_def consumed_def

text \<open>The hash width of a request, which its flood reply accumulates at.\<close>

definition request_hash_size :: "int \<Rightarrow> int" where
  "request_hash_size in_path_len = (if is_valid_path_len in_path_len then get_path_hash_size in_path_len else 1)"

section \<open>Replies keep their content\<close>

lemma request_hash_size_mode:
  assumes "0 \<le> n"
  shows "request_hash_size n - 1 \<in> {0, 1, 2}"
proof (cases "is_valid_path_len n")
  case True
  then have "n div 64 \<le> 2" by (simp add: is_valid_path_len_arith)
  moreover have "0 \<le> n div 64" using assms by simp
  ultimately show ?thesis using True by (auto simp: request_hash_size_def path_len_arith)
qed (simp add: request_hash_size_def)

lemma apply_path_hash_mode_cases:
  assumes "apply_path_hash_mode m mark p = Inr q"
  obtains "q = p" | b where "q = p\<lparr>pk_path_len := b\<rparr>" | b where "q = p\<lparr>pk_path_len := b, pk_path_hash_mode_applied := True\<rparr>"
proof (cases "m \<notin> {0, 1, 2} \<or> get_payload_type p = PAYLOAD_TYPE_TRACE \<or> Packet_get_path_hash_count p \<noteq> 0")
  case True
  with assms show thesis by (intro that(1)) (auto simp only: apply_path_hash_mode_def split: if_splits)
next
  case False
  with assms have "bind_res (encode_path_len (m + 1) 0) (\<lambda>b. let p = p\<lparr>pk_path_len := b\<rparr>
      in Inr (if mark then p\<lparr>pk_path_hash_mode_applied := True\<rparr> else p)) = Inr q"
    unfolding apply_path_hash_mode_def by (simp only: if_True if_False de_Morgan_disj not_not simp_thms)
  then show thesis by (cases mark) (auto simp: Let_def bind_res_eq_Inr intro: that)
qed

lemma apply_path_hash_mode_keeps:
  assumes "apply_path_hash_mode m mark p = Inr q"
  shows "pk_header q = pk_header p" and "pk_payload q = pk_payload p" and "get_payload_type q = get_payload_type p"
    and "pk_path q = pk_path p" and "get_route_type q = get_route_type p"
  using assms by (auto elim: apply_path_hash_mode_cases simp: get_payload_type_def get_route_type_def)

lemma apply_path_hash_mode_total:
  assumes "m \<in> {0, 1, 2}"
  shows "\<exists>q. apply_path_hash_mode m mark p = Inr q"
  using assms by (auto simp: apply_path_hash_mode_def encode_path_len_arith Let_def)

lemma datagram_opens:
  assumes "crypto_laws c" and "length ss = 32" and "create_datagram c pt dest li ss plain rt = Inr p" and "plain \<noteq> []"
  obtains d s ct n where "hash_byte (get_public_key dest) = Inr d" and "hash_byte (get_public_key li) = Inr s"
    and "pk_payload p = [d, s] @ ct" and "get_payload_type p = pt"
    and "mac_then_decrypt c (take 16 ss) ss ct = Inr (plain @ replicate n 0)"
    and "length ct = 2 + length plain + block_pad (length plain)"
    and "get_route_type p = get_route_type_value rt False" and "n = block_pad (length plain)"
proof -
  from assms(3) obtain ct d s q where pt: "pt \<in> {PAYLOAD_TYPE_TXT_MSG, PAYLOAD_TYPE_REQ, PAYLOAD_TYPE_RESPONSE}"
    and ct: "encrypt_then_mac c (take 16 ss) ss plain = Inr ct"
    and ds: "hash_byte (get_public_key dest) = Inr d" "hash_byte (get_public_key li) = Inr s"
    and q: "create_packet (PacketBuilder_create_header pt rt False) ([d, s] @ ct) = Inr q"
    and p: "p = q\<lparr>pk_path_len := 0, pk_path := []\<rparr>"
    by (auto simp: create_datagram_def hash_bytes_def Let_def res_simps split: if_splits)
  have r: "0 \<le> pt" "pt < 16" using pt by (auto simp: payload_type_defs)
  have k: "length (take 16 ss) \<in> {16, 24, 32}" using assms(2) by simp
  from encrypt_then_mac_ok [OF assms(1) k, of ss plain] ct obtain cp where
    cp: "ct = take 2 (cr_hmac_sha256 c ss cp) @ cp" "length cp = length plain + block_pad (length plain)"
    "aes_decrypt c (take 16 ss) cp = Inr (plain @ replicate (block_pad (length plain)) 0)" by fastforce
  have "length (take 2 (cr_hmac_sha256 c ss cp)) = 2" using assms(1) by (simp add: crypto_laws_def)
  with cp assms(4) have "mac_then_decrypt c (take 16 ss) ss ct = Inr (plain @ replicate (block_pad (length plain)) 0)"
    and l: "length ct = 2 + length plain + block_pad (length plain)" by (simp_all add: mac_then_decrypt_iff)
  moreover note f = create_packet_sendable(2,3,7) [OF r q]
  moreover have "get_payload_type p = get_payload_type q" "get_route_type p = get_route_type q" "pk_payload p = pk_payload q"
    by (simp_all add: p get_payload_type_def get_route_type_def)
  moreover have "get_route_type q = get_route_type_value rt False"
    using builder_header(5) [OF r, of rt False] f(3) by (simp add: accessor_arith)
  ultimately show thesis using ds l by (intro that [of d s ct]) simp_all
qed

lemma datagram_total:
  assumes "crypto_laws c" and "length ss = 32" and "length plain \<le> 176"
    and "pt \<in> {PAYLOAD_TYPE_TXT_MSG, PAYLOAD_TYPE_REQ, PAYLOAD_TYPE_RESPONSE}"
    and "get_public_key dest \<noteq> []" and "get_public_key li \<noteq> []"
  shows "\<exists>p. create_datagram c pt dest li ss plain rt = Inr p"
proof -
  have k: "length (take 16 ss) \<in> {16, 24, 32}" using assms(2) by simp
  from encrypt_then_mac_ok [OF assms(1) k, of ss plain] obtain ct where
    ct: "encrypt_then_mac c (take 16 ss) ss plain = Inr ct" by blast
  have "length ct = 2 + length plain + block_pad (length plain)" by (rule length_encrypt_then_mac [OF assms(1) k ct])
  with padded_le [OF assms(3)] have l: "length ct \<le> 178" by simp
  obtain d ds s sss where "get_public_key dest = d # ds" "get_public_key li = s # sss"
    using assms(5,6) by (meson list.exhaust)
  then have "hash_bytes (get_public_key dest) (get_public_key li) = Inr [d, s]" by (simp add: hash_bytes_def hash_byte_def)
  moreover obtain q where "create_packet (PacketBuilder_create_header pt rt False) (d # s # ct) = Inr q"
    using l by (simp add: create_packet_def validate_payload_size_def size_defs)
  ultimately show ?thesis using ct assms(4) by (simp add: create_datagram_def Let_def)
qed

end
