(* ===== verification/Request_Handler.thy ===== *)
theory Request_Handler
  imports Reply_Packets
begin

text \<open>
  The server side of protocol requests, \<open>node/handlers/protocol_request.py\<close>: finding the client
  that a REQ authenticates for, the replay watermark, the table of request handlers, and the reply.
  The application's client objects are a heap of records; the code looks at an attribute only when
  the object has it, so an attribute is an option. Lookup callbacks and request handlers belong to
  the application: they are functions of the handler's record, and a request handler may change
  the client it is given.
\<close>

section \<open>State\<close>

definition REQ_TYPE_KEEP_ALIVE :: int where "REQ_TYPE_KEEP_ALIVE = 0x02"

datatype key_attr = KeyStr pystr | KeyBytes bytes

record req_client =
  rc_shared_secret :: "bytes option"
  rc_public_key :: "key_attr option"
  rc_id :: "identity option"
  rc_last_timestamp :: "int option"
  rc_last_activity :: "int option"
  rc_out_path_len :: "int option"
  rc_out_path :: "bytes option"

type_synonym client_heap = "nat \<Rightarrow> req_client"

type_synonym request_fn = "req_client \<Rightarrow> int \<Rightarrow> bytes \<Rightarrow> req_client \<times> bytes option res"

record request_handler =
  rq_local_identity :: local_identity
  rq_contacts :: "nat list option"
  rq_get_client_fn :: "(byte \<Rightarrow> nat option res) option"
  rq_get_clients_fn :: "(byte \<Rightarrow> nat option list option res) option"
  rq_request_handlers :: "(int, request_fn) dict"

section \<open>Finding the client\<close>

definition key_attr_bytes :: "key_attr \<Rightarrow> bytes res" where
  "key_attr_bytes pk = (case pk of KeyStr s \<Rightarrow> fromhex s | KeyBytes b \<Rightarrow> Inr b)"

definition get_clients :: "request_handler \<Rightarrow> client_heap \<Rightarrow> byte \<Rightarrow> nat list res" where
  "get_clients rq heap src_hash =
     (case rq_get_clients_fn rq of
        Some f \<Rightarrow> bind_res (f src_hash) (\<lambda>clients.
          Inr (case clients of None \<Rightarrow> [] | Some cs \<Rightarrow> List.map_filter (\<lambda>x. x) cs))
      | None \<Rightarrow>
          (case rq_get_client_fn rq of
             Some f \<Rightarrow> bind_res (f src_hash) (\<lambda>client.
               Inr (case client of Some r \<Rightarrow> [r] | None \<Rightarrow> []))
           | None \<Rightarrow>
               (case rq_contacts rq of
                  None \<Rightarrow> Inr []
                | Some refs \<Rightarrow>
                    bind_res (map_res (\<lambda>r. case rc_public_key (heap r) of
                        None \<Rightarrow> Inr []
                      | Some attr \<Rightarrow> bind_res (key_attr_bytes attr) (\<lambda>pk.
                          bind_res (index_res pk 0) (\<lambda>b. Inr (if b = src_hash then [r] else [])))) refs)
                      (\<lambda>matches. Inr (concat matches)))))"

definition get_shared_secret :: "crypto \<Rightarrow> local_identity \<Rightarrow> req_client \<Rightarrow> bytes option res" where
  "get_shared_secret c local_identity client =
     (case rc_shared_secret client of
        Some s \<Rightarrow> Inr (Some s)
      | None \<Rightarrow>
          (case rc_public_key client of
             None \<Rightarrow> Inr None
           | Some attr \<Rightarrow> bind_res (key_attr_bytes attr) (\<lambda>pk.
               bind_res (new_identity c pk) (\<lambda>identity.
               bind_res (calc_shared_secret c identity (get_private_key local_identity)) (\<lambda>ss. Inr (Some ss))))))"

text \<open>
  The loop over the candidates. An error while computing a secret is not caught inside the loop.
\<close>

fun find_client ::
  "crypto \<Rightarrow> local_identity \<Rightarrow> client_heap \<Rightarrow> bytes \<Rightarrow> nat list \<Rightarrow> (nat \<times> bytes \<times> bytes) option res" where
  "find_client c local_identity heap encrypted_data [] = Inr None"
| "find_client c local_identity heap encrypted_data (candidate # clients) =
     bind_res (get_shared_secret c local_identity (heap candidate)) (\<lambda>candidate_secret.
     case candidate_secret of
       None \<Rightarrow> find_client c local_identity heap encrypted_data clients
     | Some secret \<Rightarrow>
         if secret = [] then find_client c local_identity heap encrypted_data clients
         else (case mac_then_decrypt c (take 16 secret) secret encrypted_data of
                 Inl _ \<Rightarrow> find_client c local_identity heap encrypted_data clients
               | Inr plaintext \<Rightarrow> Inr (Some (candidate, secret, plaintext))))"

section \<open>The watermark and the request\<close>

definition get_last_req_ts :: "req_client \<Rightarrow> int" where
  "get_last_req_ts client = opt_default 0 (rc_last_timestamp client)"

definition advance_client_watermark :: "real \<Rightarrow> int \<Rightarrow> req_client \<Rightarrow> req_client" where
  "advance_client_watermark now timestamp client =
     (let client = client\<lparr>rc_last_timestamp := Some (max (get_last_req_ts client) timestamp)\<rparr>
      in if rc_last_activity client \<noteq> None then client\<lparr>rc_last_activity := Some (py_int now)\<rparr> else client)"

definition handle_request ::
  "request_handler \<Rightarrow> req_client \<Rightarrow> int \<Rightarrow> int \<Rightarrow> bytes \<Rightarrow> req_client \<times> bytes option res" where
  "handle_request rq client timestamp req_type req_data =
     (case pack_u 4 timestamp of
        Inl e \<Rightarrow> (client, Inl e)
      | Inr response \<Rightarrow>
          let default = (if req_type = REQ_TYPE_KEEP_ALIVE then Some response else None)
          in case map_of (rq_request_handlers rq) req_type of
               None \<Rightarrow> (client, Inr default)
             | Some handler \<Rightarrow>
                 (case handler client timestamp req_data of
                    (client, Inl e) \<Rightarrow> (client, Inl e)
                  | (client, Inr (Some payload)) \<Rightarrow> (client, Inr (Some (response @ payload)))
                  | (client, Inr None) \<Rightarrow> (client, Inr default)))"

section \<open>The reply\<close>

definition client_public_key :: "crypto \<Rightarrow> req_client \<Rightarrow> identity res" where
  "client_public_key c client =
     (case rc_id client of
        Some identity \<Rightarrow> Inr identity
      | None \<Rightarrow>
          (case rc_public_key client of
             None \<Rightarrow> Inl AttributeError
           | Some attr \<Rightarrow> bind_res (key_attr_bytes attr) (new_identity c)))"

definition flood_path_return ::
  "crypto \<Rightarrow> bytes \<Rightarrow> byte \<Rightarrow> byte \<Rightarrow> bytes \<Rightarrow> bytes \<Rightarrow> packet \<Rightarrow> packet res" where
  "flood_path_return c urandom4 client_hash our_hash shared_secret response_data original =
     (let path_len_byte = pk_path_len original;
          valid = is_valid_path_len path_len_byte;
          path_byte_len = (if valid then get_path_byte_len path_len_byte else 0);
          path_list = (if path_byte_len \<noteq> 0 then map uint (slice_to path_byte_len (pk_path original)) else [])
      in bind_res (create_path_return c urandom4 (uint client_hash) (uint our_hash) shared_secret path_list
                     PAYLOAD_TYPE_RESPONSE response_data (if valid then Some path_len_byte else None)) (\<lambda>reply.
         bind_res (apply_path_hash_mode (request_hash_size path_len_byte - 1) True reply) (\<lambda>reply.
         apply_reply_scope c reply (Some original))))"

text \<open>The stored path of a client, when the code may use it.\<close>

definition client_out_path :: "req_client \<Rightarrow> (bytes \<times> int) option" where
  "client_out_path client =
     (case (rc_out_path_len client, rc_out_path client) of
        (Some n, Some out_path) \<Rightarrow>
          if 0 \<le> n \<and> is_valid_path_len n then Some (take (nat MAX_PATH_SIZE) out_path, n) else None
      | _ \<Rightarrow> None)"

definition build_response ::
  "crypto \<Rightarrow> bytes \<Rightarrow> local_identity \<Rightarrow> packet \<Rightarrow> req_client \<Rightarrow> bytes \<Rightarrow> bytes \<Rightarrow> packet option" where
  "build_response c urandom4 local_identity original client response_data shared_secret =
     (case bind_res (client_public_key c client) (\<lambda>client_identity.
           bind_res (index_res (get_public_key client_identity) 0) (\<lambda>client_hash.
           bind_res (index_res (get_public_key local_identity) 0) (\<lambda>our_hash.
           if is_route_flood original
           then flood_path_return c urandom4 client_hash our_hash shared_secret response_data original
           else
             case client_out_path client of
               Some (path_bytes, path_len_encoded) \<Rightarrow>
                 bind_res (create_datagram c PAYLOAD_TYPE_RESPONSE client_identity local_identity shared_secret
                             response_data (str ''direct'')) (\<lambda>reply.
                 with_path path_bytes (Some path_len_encoded) reply)
             | None \<Rightarrow>
                 bind_res (create_datagram c PAYLOAD_TYPE_RESPONSE client_identity local_identity shared_secret
                             response_data (str ''flood'')) (\<lambda>reply.
                 bind_res (apply_path_hash_mode (request_hash_size (pk_path_len original) - 1) True reply) (\<lambda>reply.
                 apply_reply_scope c reply (Some original)))))) of
        Inr reply \<Rightarrow> Some reply | Inl _ \<Rightarrow> None)"

section \<open>Handling a packet\<close>

text \<open>Once the packet is known to be for this node: parse, check the watermark, answer.\<close>

definition answer_request ::
  "crypto \<Rightarrow> real \<Rightarrow> bytes \<Rightarrow> request_handler \<Rightarrow> packet \<Rightarrow> client_heap \<Rightarrow> nat \<Rightarrow> bytes \<Rightarrow> bytes \<Rightarrow>
   client_heap \<times> handler_result" where
  "answer_request c now urandom4 rq packet heap client shared_secret plaintext =
     (if length plaintext < 5 then (heap, consumed None)
      else
        let timestamp = le_int (take 4 plaintext);
            req_type = uint (plaintext ! 4);
            req_data = drop 5 plaintext
        in if timestamp \<le> get_last_req_ts (heap client) then (heap, consumed None)
           else
             case handle_request rq (heap client) timestamp req_type req_data of
               (obj, Inr (Some response_data)) \<Rightarrow>
                 let obj = advance_client_watermark now timestamp obj
                 in (heap(client := obj),
                     consumed (build_response c urandom4 (rq_local_identity rq) packet obj response_data shared_secret))
             | (obj, _) \<Rightarrow> (heap(client := obj), consumed None))"

definition ProtocolRequestHandler_call ::
  "crypto \<Rightarrow> real \<Rightarrow> bytes \<Rightarrow> request_handler \<Rightarrow> packet \<Rightarrow> client_heap \<Rightarrow> client_heap \<times> handler_result" where
  "ProtocolRequestHandler_call c now urandom4 rq packet heap =
     (case pk_payload packet of
        dest_hash # src_hash # encrypted_data \<Rightarrow>
          (case bind_res (index_res (get_public_key (rq_local_identity rq)) 0) (\<lambda>our_hash.
                if dest_hash \<noteq> our_hash then Inr None
                else bind_res (get_clients rq heap src_hash) (\<lambda>clients.
                     find_client c (rq_local_identity rq) heap encrypted_data clients)) of
             Inr (Some (client, shared_secret, plaintext)) \<Rightarrow>
               answer_request c now urandom4 rq packet heap client shared_secret plaintext
           | _ \<Rightarrow> (heap, not_for_us))
      | _ \<Rightarrow> (heap, not_for_us))"

section \<open>Replays\<close>

text \<open>
  What the replay check relies on: a request handler leaves alone what identifies the client, and
  does not set the client's watermark back.
\<close>

definition same_client :: "req_client \<Rightarrow> req_client \<Rightarrow> bool" where
  "same_client x y \<longleftrightarrow> rc_shared_secret y = rc_shared_secret x \<and> rc_public_key y = rc_public_key x
     \<and> get_last_req_ts x \<le> get_last_req_ts y"

definition watermark_kept :: "request_handler \<Rightarrow> bool" where
  "watermark_kept rq \<longleftrightarrow>
     (\<forall>f \<in> snd ` set (rq_request_handlers rq). \<forall>client timestamp data. same_client client (fst (f client timestamp data)))"

definition later_heap :: "client_heap \<Rightarrow> client_heap \<Rightarrow> bool" where
  "later_heap h h' \<longleftrightarrow> (\<forall>r. same_client (h r) (h' r))"

lemma later_heap_refl: "later_heap h h"
  by (simp add: later_heap_def same_client_def)

lemma later_heap_trans: "later_heap h h' \<Longrightarrow> later_heap h' h'' \<Longrightarrow> later_heap h h''"
  unfolding later_heap_def same_client_def by (metis order_trans)

lemma later_heap_upd: "same_client (h r) x \<Longrightarrow> later_heap h (h(r := x))"
  by (simp add: later_heap_def same_client_def)

lemma same_client_advance: "same_client x y \<Longrightarrow> same_client x (advance_client_watermark now ts y)"
  by (simp add: same_client_def advance_client_watermark_def Let_def get_last_req_ts_def opt_default_def le_max_iff_disj)

lemma last_ts_advance: "ts \<le> get_last_req_ts (advance_client_watermark now ts y)"
  by (simp add: advance_client_watermark_def Let_def get_last_req_ts_def opt_default_def)

lemma handle_request_same_client:
  assumes "watermark_kept rq"
  shows "same_client cl (fst (handle_request rq cl ts rt rd))"
proof -
  have refl: "same_client cl cl" by (simp add: same_client_def)
  show ?thesis
  proof (cases "map_of (rq_request_handlers rq) rt")
    case None
    with refl show ?thesis by (simp add: handle_request_def Let_def split: sum.split)
  next
    case (Some f)
    then have "f \<in> snd ` set (rq_request_handlers rq)" by (force dest: map_of_SomeD)
    with assms have "same_client cl (fst (f cl ts rd))" unfolding watermark_kept_def by blast
    with Some refl show ?thesis
      by (auto simp: handle_request_def Let_def split: sum.split prod.split option.split)
  qed
qed

lemma call_later_heap:
  assumes "watermark_kept rq"
  shows "later_heap heap (fst (ProtocolRequestHandler_call c now u rq p heap))"
proof -
  have "later_heap heap (fst (answer_request c now u rq p heap cl ss pt))" for cl ss pt
  proof -
    note sc = handle_request_same_client [OF assms, of "heap cl" "le_int (take 4 pt)" "uint (pt ! 4)" "drop 5 pt"]
    obtain obj r where hr: "handle_request rq (heap cl) (le_int (take 4 pt)) (uint (pt ! 4)) (drop 5 pt) = (obj, r)"
      by (cases "handle_request rq (heap cl) (le_int (take 4 pt)) (uint (pt ! 4)) (drop 5 pt)")
    with sc have "same_client (heap cl) obj" by simp
    with hr show ?thesis
      by (auto simp: answer_request_def Let_def later_heap_refl later_heap_upd same_client_advance
          split: sum.split option.split)
  qed
  then show ?thesis
    by (auto simp: ProtocolRequestHandler_call_def later_heap_refl split: list.split sum.split option.split)
qed

lemma get_clients_later: "later_heap h h' \<Longrightarrow> get_clients rq h' src = get_clients rq h src"
  by (simp add: get_clients_def later_heap_def same_client_def cong: option.case_cong)

lemma find_client_later:
  assumes "later_heap h h'"
  shows "find_client c li h' enc = find_client c li h enc"
proof
  fix rs
  have "get_shared_secret c li (h' r) = get_shared_secret c li (h r)" for r
    using assms by (simp add: get_shared_secret_def later_heap_def same_client_def cong: option.case_cong)
  then show "find_client c li h' enc rs = find_client c li h enc rs"
    by (induction rs) (simp_all cong: option.case_cong sum.case_cong if_cong)
qed

text \<open>The handler on a list of received packets, each with the time and the random bytes it meets.\<close>

fun receive_requests ::
  "crypto \<Rightarrow> request_handler \<Rightarrow> (real \<times> bytes \<times> packet) list \<Rightarrow> client_heap \<Rightarrow> client_heap" where
  "receive_requests c rq [] heap = heap"
| "receive_requests c rq ((now, urandom4, packet) # packets) heap =
     receive_requests c rq packets (fst (ProtocolRequestHandler_call c now urandom4 rq packet heap))"

lemma receive_later_heap: "watermark_kept rq \<Longrightarrow> later_heap heap (receive_requests c rq ps heap)"
proof (induction ps arbitrary: heap)
  case (Cons x ps)
  obtain now u p where x: "x = (now, u, p)" by (cases x)
  show ?case
    unfolding x receive_requests.simps by (rule later_heap_trans [OF call_later_heap Cons.IH]) (rule Cons.prems)+
qed (simp add: later_heap_refl)

lemma answered_parts:
  assumes "hr_response (snd (ProtocolRequestHandler_call c now u rq p heap)) = Some reply"
  obtains src enc cl ss pt where "pk_payload p = hd (get_public_key (rq_local_identity rq)) # src # enc"
    and "get_public_key (rq_local_identity rq) \<noteq> []"
    and "bind_res (get_clients rq heap src) (find_client c (rq_local_identity rq) heap enc) = Inr (Some (cl, ss, pt))"
    and "\<not> length pt < 5"
    and "le_int (take 4 pt) \<le> get_last_req_ts (fst (ProtocolRequestHandler_call c now u rq p heap) cl)"
proof -
  obtain d src enc where pl: "pk_payload p = d # src # enc"
    using assms by (auto simp: ProtocolRequestHandler_call_def not_for_us_def split: list.splits)
  obtain k ks where key: "get_public_key (rq_local_identity rq) = k # ks"
    using assms pl by (cases "get_public_key (rq_local_identity rq)") (simp_all add: ProtocolRequestHandler_call_def not_for_us_def)
  from assms pl key obtain cl ss pt where d: "d = k"
    and f: "bind_res (get_clients rq heap src) (find_client c (rq_local_identity rq) heap enc) = Inr (Some (cl, ss, pt))"
    by (auto simp: ProtocolRequestHandler_call_def not_for_us_def split: if_splits sum.splits option.splits)
  have call: "ProtocolRequestHandler_call c now u rq p heap = answer_request c now u rq p heap cl ss pt"
    using pl key d f by (simp add: ProtocolRequestHandler_call_def)
  obtain obj r where hr: "handle_request rq (heap cl) (le_int (take 4 pt)) (uint (pt ! 4)) (drop 5 pt) = (obj, r)"
    by (cases "handle_request rq (heap cl) (le_int (take 4 pt)) (uint (pt ! 4)) (drop 5 pt)")
  from assms hr have "\<not> length pt < 5" "le_int (take 4 pt) \<le> get_last_req_ts (fst (answer_request c now u rq p heap cl ss pt) cl)"
    unfolding call by (auto simp: answer_request_def Let_def consumed_def last_ts_advance split: if_splits sum.splits option.splits)
  with pl key d f call show thesis by (intro that) simp_all
qed

text \<open>
  C10: A captured request cannot be replayed. Once the handler has answered a REQ, then whatever
  packets it receives afterwards, a packet with the same payload is consumed without an answer and
  without any effect on the clients, by whatever route it comes back. The application's request
  handlers may change a client, but not what identifies it, and may not set its watermark back.
\<close>

theorem request_replay_refused:
  assumes "watermark_kept rq"
    and "ProtocolRequestHandler_call c now urandom4 rq p heap = (heap', r)" and "hr_response r = Some reply"
    and "pk_payload q = pk_payload p"
  shows "let h = receive_requests c rq packets heap'
         in ProtocolRequestHandler_call c now' urandom4' rq q h = (h, consumed None)"
proof -
  define h where "h = receive_requests c rq packets heap'"
  have "hr_response (snd (ProtocolRequestHandler_call c now urandom4 rq p heap)) = Some reply" using assms(2,3) by simp
  from answered_parts [OF this] obtain src enc cl ss pt where
    p: "pk_payload p = hd (get_public_key (rq_local_identity rq)) # src # enc" "get_public_key (rq_local_identity rq) \<noteq> []"
    and f: "bind_res (get_clients rq heap src) (find_client c (rq_local_identity rq) heap enc) = Inr (Some (cl, ss, pt))"
    and pt: "\<not> length pt < 5" "le_int (take 4 pt) \<le> get_last_req_ts (heap' cl)" unfolding assms(2) fst_conv by blast
  have "later_heap heap heap'" using call_later_heap [OF assms(1), of heap c now urandom4 p] by (simp add: assms(2))
  moreover have l: "later_heap heap' h" unfolding h_def by (rule receive_later_heap [OF assms(1)])
  ultimately have "later_heap heap h" by (rule later_heap_trans)
  with f have f': "bind_res (get_clients rq h src) (find_client c (rq_local_identity rq) h enc) = Inr (Some (cl, ss, pt))"
    by (simp add: get_clients_later find_client_later)
  have "get_last_req_ts (heap' cl) \<le> get_last_req_ts (h cl)" using l by (simp add: later_heap_def same_client_def)
  with pt have "answer_request c now' urandom4' rq q h cl ss pt = (h, consumed None)"
    by (simp add: answer_request_def Let_def)
  with p f' show ?thesis
    unfolding h_def [symmetric] by (cases "get_public_key (rq_local_identity rq)")
      (simp_all add: ProtocolRequestHandler_call_def assms(4))
qed

definition toy_request_handler :: request_handler where
  "toy_request_handler =
     \<lparr>rq_local_identity = toy_node 2, rq_contacts = None, rq_get_client_fn = None,
      rq_get_clients_fn = Some (\<lambda>_. Inr (Some [None, Some 0])),
      rq_request_handlers = [(1, \<lambda>client timestamp data. (client, Inr (Some (42 # data))))]\<rparr>"

definition toy_client :: req_client where
  "toy_client =
     \<lparr>rc_shared_secret = None, rc_public_key = Some (KeyBytes (replicate 32 1)), rc_id = None,
      rc_last_timestamp = None, rc_last_activity = Some 0, rc_out_path_len = None, rc_out_path = None\<rparr>"

theorem request_replay_refused_witness:
  "\<exists>p heap' reply. protocol_request_packet toy_crypto (toy_contact (-1) []) (toy_node 1) 1 [5] None 7 = Inr p
     \<and> ProtocolRequestHandler_call toy_crypto 100 [1, 2, 3, 4] toy_request_handler p (\<lambda>_. toy_client) = (heap', consumed (Some reply))
     \<and> ProtocolRequestHandler_call toy_crypto 200 [4, 3, 2, 1] toy_request_handler p heap' = (heap', consumed None)"
proof -
  have "case protocol_request_packet toy_crypto (toy_contact (-1) []) (toy_node 1) 1 [5] None 7 of
      Inl _ \<Rightarrow> False
    | Inr p \<Rightarrow> (case ProtocolRequestHandler_call toy_crypto 100 [1, 2, 3, 4] toy_request_handler p (\<lambda>_. toy_client) of
        (_, r) \<Rightarrow> hr_authenticated r \<and> hr_response r \<noteq> None)" by code_simp
  then obtain p heap' r reply where
    p: "protocol_request_packet toy_crypto (toy_contact (-1) []) (toy_node 1) 1 [5] None 7 = Inr p"
    and call: "ProtocolRequestHandler_call toy_crypto 100 [1, 2, 3, 4] toy_request_handler p (\<lambda>_. toy_client) = (heap', r)"
    and r: "hr_authenticated r" "hr_response r = Some reply"
    by (fastforce split: sum.splits prod.splits)
  have w: "watermark_kept toy_request_handler"
    by (simp add: watermark_kept_def toy_request_handler_def same_client_def)
  have "r = consumed (Some reply)" using r by (cases r) (simp add: consumed_def)
  with request_replay_refused [OF w call r(2) refl, of "[]" 200 "[4, 3, 2, 1]"] p call show ?thesis
    by (simp add: Let_def) blast
qed

text \<open>
  The loop over the candidates does not survive a candidate whose key cannot be used: a client
  that comes later in the list, and whose request would be answered without the other, is refused.
\<close>

lemma find_client_skips:
  assumes "find_client c li heap enc us = Inr None"
  shows "find_client c li heap enc (us @ vs) = find_client c li heap enc vs"
  using assms
proof (induction us)
  case (Cons a us)
  obtain s where s: "get_shared_secret c li (heap a) = Inr s" using Cons.prems by (auto simp: res_simps)
  with Cons show ?case by (auto split: option.splits if_splits sum.splits)
qed simp

lemma malformed_candidate_blocks:
  assumes "pk_payload p = dst # src # enc" and "get_clients rq heap src = Inr (us @ bad # vs)"
    and "find_client c (rq_local_identity rq) heap enc us = Inr None"
    and "get_shared_secret c (rq_local_identity rq) (heap bad) = Inl e"
  shows "ProtocolRequestHandler_call c now urandom4 rq p heap = (heap, not_for_us)"
  using assms find_client_skips [OF assms(3), of "bad # vs"]
  by (cases "get_public_key (rq_local_identity rq)") (simp_all add: ProtocolRequestHandler_call_def)

end
