(* ===== verification/Return_Path.thy ===== *)
theory Return_Path
  imports Reply_Packets
begin

text \<open>
  \<open>node/handlers/return_path.py\<close>: \<open>ReturnPathTeacher\<close>, which tells a peer its route back to
  this node. It collects the copies of a flood reply before they are deduplicated, ranks them by
  how safely their last hop decodes, claims a cooldown per contact, and after a settle window sends
  a returned path that embeds the best copy. A scheduled teach is a value, the job that the code
  hands to the event loop; running the job is a separate operation, so that anything may happen in
  between. The clock and the outcome of the injector are arguments.
\<close>

section \<open>State\<close>

definition RETURN_PATH_COOLDOWN_S :: real where "RETURN_PATH_COOLDOWN_S = 5"
definition RETURN_PATH_SETTLE_S :: real where "RETURN_PATH_SETTLE_S = 3"

definition SF_DEMOD_SNR_LIMIT_DB :: "(int, real) dict" where
  "SF_DEMOD_SNR_LIMIT_DB =
     [(5, -2.5), (6, -5), (7, -7.5), (8, -10), (9, -12.5), (10, -15), (11, -17.5), (12, -20)]"

definition RETURN_PATH_DEFAULT_SF :: int where "RETURN_PATH_DEFAULT_SF = 7"
definition RETURN_PATH_COPY_TTL_S :: real where "RETURN_PATH_COPY_TTL_S = 8"
definition RETURN_PATH_COPY_CACHE_MAX :: nat where "RETURN_PATH_COPY_CACHE_MAX = 128"

type_synonym copy_rank = "real \<times> real \<times> real \<times> real"

record flood_copy =
  fc_path :: bytes
  fc_len_byte :: int
  fc_rssi :: int
  fc_margin :: real
  fc_rank :: copy_rank
  fc_ts :: real

record teacher =
  rt_local_identity :: local_identity
  rt_cooldown_s :: real
  rt_settle_s :: real
  rt_sf_getter :: "int res option"
  rt_noise_floor_dbm :: real
  rt_min_margin_db :: real
  rt_reliable_margin_db :: real
  rt_injector :: bool
  rt_last_taught :: "(bytes, real) dict"
  rt_recent_copies :: "(bytes, flood_copy) dict"
  rt_copy_ttl_s :: real
  rt_copy_cache_max :: nat

definition new_teacher :: "local_identity \<Rightarrow> int res option \<Rightarrow> teacher" where
  "new_teacher local_identity sf_getter =
     \<lparr>rt_local_identity = local_identity, rt_cooldown_s = RETURN_PATH_COOLDOWN_S, rt_settle_s = RETURN_PATH_SETTLE_S,
      rt_sf_getter = sf_getter, rt_noise_floor_dbm = -108, rt_min_margin_db = 2, rt_reliable_margin_db = 6,
      rt_injector = False, rt_last_taught = [], rt_recent_copies = [],
      rt_copy_ttl_s = max RETURN_PATH_COPY_TTL_S (RETURN_PATH_SETTLE_S + 2),
      rt_copy_cache_max = RETURN_PATH_COPY_CACHE_MAX\<rparr>"

definition set_injector :: "bool \<Rightarrow> teacher \<Rightarrow> teacher" where
  "set_injector injector t = t\<lparr>rt_injector := injector\<rparr>"

definition note_evidence_teach :: "real \<Rightarrow> bytes \<Rightarrow> teacher \<Rightarrow> teacher" where
  "note_evidence_teach now contact_pubkey t =
     t\<lparr>rt_last_taught := AList.update contact_pubkey now (rt_last_taught t)\<rparr>"

section \<open>Ranking copies\<close>

definition demod_limit_db :: "teacher \<Rightarrow> real" where
  "demod_limit_db t =
     (let sf = (case rt_sf_getter t of Some (Inr sf) \<Rightarrow> sf | _ \<Rightarrow> RETURN_PATH_DEFAULT_SF)
      in opt_default (the (map_of SF_DEMOD_SNR_LIMIT_DB RETURN_PATH_DEFAULT_SF)) (map_of SF_DEMOD_SNR_LIMIT_DB sf))"

definition copy_margin_db :: "teacher \<Rightarrow> int \<Rightarrow> real \<Rightarrow> real" where
  "copy_margin_db t rssi snr =
     (let limit = demod_limit_db t;
          from_snr = snr - limit;
          from_rssi = of_int rssi - (rt_noise_floor_dbm t + limit)
      in min from_snr from_rssi)"

definition copy_rank :: "teacher \<Rightarrow> real \<Rightarrow> int \<Rightarrow> int \<Rightarrow> copy_rank" where
  "copy_rank t margin len_byte rssi =
     (let hops = of_int (get_path_hash_count len_byte)
      in if rt_reliable_margin_db t \<le> margin then (1, - hops, margin, of_int rssi)
         else (0, margin, - hops, of_int rssi))"

text \<open>Python's order on tuples.\<close>

fun rank_less :: "copy_rank \<Rightarrow> copy_rank \<Rightarrow> bool" where
  "rank_less (a, b, d, e) (a', b', d', e') \<longleftrightarrow>
     a < a' \<or> a = a' \<and> (b < b' \<or> b = b' \<and> (d < d' \<or> d = d' \<and> e < e'))"

section \<open>Collecting copies\<close>

definition addressed_to_us :: "byte \<Rightarrow> teacher \<Rightarrow> bool" where
  "addressed_to_us dest_hash t =
     (case get_public_key (rt_local_identity t) of [] \<Rightarrow> True | k # _ \<Rightarrow> dest_hash = k)"

definition validated_inbound_path :: "packet \<Rightarrow> int \<Rightarrow> bytes option" where
  "validated_inbound_path pkt len_byte =
     (if \<not> is_valid_path_len len_byte then None
      else let byte_len = get_path_byte_len len_byte
           in if int (length (pk_path pkt)) < byte_len then None
              else Some (slice_to byte_len (pk_path pkt)))"

fun prune_copies :: "real \<Rightarrow> real \<Rightarrow> (bytes, flood_copy) dict \<Rightarrow> (bytes, flood_copy) dict" where
  "prune_copies ttl now [] = []"
| "prune_copies ttl now ((h, copy) # copies) =
     (if now - fc_ts copy \<le> ttl then (h, copy) # copies else prune_copies ttl now copies)"

definition record_copy :: "real \<Rightarrow> bytes \<Rightarrow> bytes \<Rightarrow> int \<Rightarrow> int \<Rightarrow> real \<Rightarrow> teacher \<Rightarrow> teacher" where
  "record_copy now packet_hash path len_byte rssi snr t =
     (let margin = copy_margin_db t rssi snr
      in if margin < rt_min_margin_db t then t
         else
           let copies = prune_copies (rt_copy_ttl_s t) now (rt_recent_copies t);
               rank = copy_rank t margin len_byte rssi;
               store = (\<lambda>copy. move_to_end packet_hash (AList.update packet_hash copy copies));
               fresh = \<lparr>fc_path = path, fc_len_byte = len_byte, fc_rssi = rssi, fc_margin = margin,
                        fc_rank = rank, fc_ts = now\<rparr>;
               existing = map_of copies packet_hash
           in if existing \<noteq> None \<and> \<not> rank_less (fc_rank (the existing)) rank
              then t\<lparr>rt_recent_copies := store ((the existing)\<lparr>fc_ts := now\<rparr>)\<rparr>
              else
                let copies = store fresh
                in t\<lparr>rt_recent_copies := (if rt_copy_cache_max t < length copies then List.tl copies else copies)\<rparr>)"

definition note_flood_copy :: "crypto \<Rightarrow> real \<Rightarrow> packet \<Rightarrow> teacher \<Rightarrow> teacher" where
  "note_flood_copy c now pkt t =
     (if \<not> rt_injector t then t
      else if \<not> is_route_flood pkt then t
      else if get_payload_type pkt \<notin> {PAYLOAD_TYPE_RESPONSE, PAYLOAD_TYPE_PATH} then t
      else if length (pk_payload pkt) < 2 \<or> \<not> addressed_to_us (pk_payload pkt ! 0) t then t
      else
        case (validated_inbound_path pkt (pk_path_len pkt), calculate_packet_hash (cr_sha256 c) pkt) of
          (Some path, Inr packet_hash) \<Rightarrow>
            record_copy now packet_hash path (pk_path_len pkt) (pk_rssi pkt) (opt_default 0 (pk_snr pkt)) t
        | _ \<Rightarrow> t)"

section \<open>Teaching\<close>

record teach_job =
  tj_key :: bytes
  tj_previous_cooldown :: "real option"
  tj_dest_hash :: byte
  tj_secret :: bytes
  tj_embedded_path :: bytes
  tj_embedded_len_byte :: int
  tj_out_path :: bytes
  tj_out_path_len :: int
  tj_hash_key :: "bytes option"

definition known_out_path :: "contact_store \<Rightarrow> bytes \<Rightarrow> (bytes \<times> int) option" where
  "known_out_path book contact_pubkey =
     (case get_by_key contact_pubkey book of
        None \<Rightarrow> None
      | Some contact \<Rightarrow>
          let out_path_len = ct_out_path_len contact
          in if out_path_len < 0 \<or> \<not> is_valid_path_len out_path_len then None
             else let out_path = ct_out_path contact;
                      expected = get_path_byte_len out_path_len
                  in if int (length out_path) < expected then None
                     else Some (slice_to expected out_path, out_path_len))"

definition shared_secret_for :: "crypto \<Rightarrow> local_identity \<Rightarrow> bytes \<Rightarrow> bytes option" where
  "shared_secret_for c local_identity contact_pubkey =
     (case bind_res (new_identity c contact_pubkey) (\<lambda>identity.
           calc_shared_secret c identity (get_private_key local_identity)) of
        Inr ss \<Rightarrow> Some ss | Inl _ \<Rightarrow> None)"

definition cooldown_active :: "real \<Rightarrow> bytes \<Rightarrow> teacher \<Rightarrow> bool" where
  "cooldown_active now key t =
     (case map_of (rt_last_taught t) key of None \<Rightarrow> False | Some lst \<Rightarrow> now - lst < rt_cooldown_s t)"

definition teach ::
  "crypto \<Rightarrow> real \<Rightarrow> bytes \<Rightarrow> byte \<Rightarrow> bytes \<Rightarrow> int \<Rightarrow> bytes \<Rightarrow> int \<Rightarrow> bytes option \<Rightarrow> bytes option \<Rightarrow> teacher \<Rightarrow>
   teacher \<times> teach_job option" where
  "teach c now key dest_hash embedded_path embedded_len_byte out_path out_path_len shared_secret hash_key t =
     (if cooldown_active now key t then (t, None)
      else
        case (case shared_secret of Some s \<Rightarrow> Some s | None \<Rightarrow> shared_secret_for c (rt_local_identity t) key) of
          None \<Rightarrow> (t, None)
        | Some secret \<Rightarrow>
            if secret = [] then (t, None)
            else (t\<lparr>rt_last_taught := AList.update key now (rt_last_taught t)\<rparr>,
                  Some \<lparr>tj_key = key, tj_previous_cooldown = map_of (rt_last_taught t) key, tj_dest_hash = dest_hash,
                        tj_secret = secret, tj_embedded_path = embedded_path, tj_embedded_len_byte = embedded_len_byte,
                        tj_out_path = out_path, tj_out_path_len = out_path_len, tj_hash_key = hash_key\<rparr>))"

definition maybe_teach_from_flood_reply ::
  "crypto \<Rightarrow> real \<Rightarrow> contact_store \<Rightarrow> packet \<Rightarrow> bytes \<Rightarrow> byte \<Rightarrow> bytes option \<Rightarrow> teacher \<Rightarrow> teacher \<times> teach_job option res" where
  "maybe_teach_from_flood_reply c now book pkt contact_pubkey src_hash shared_secret t =
     (if \<not> rt_injector t then (t, Inr None)
      else if \<not> is_route_flood pkt then (t, Inr None)
      else
        case known_out_path book contact_pubkey of
          None \<Rightarrow> (t, Inr None)
        | Some (out_path, out_path_len) \<Rightarrow>
            (case validated_inbound_path pkt (pk_path_len pkt) of
               None \<Rightarrow> (t, Inr None)
             | Some embedded_path \<Rightarrow>
                 (case calculate_packet_hash (cr_sha256 c) pkt of
                    Inl e \<Rightarrow> (t, Inl e)
                  | Inr packet_hash \<Rightarrow>
                      let t = record_copy now packet_hash embedded_path (pk_path_len pkt) (pk_rssi pkt)
                                (opt_default 0 (pk_snr pkt)) t;
                          (t, job) = teach c now contact_pubkey src_hash embedded_path (pk_path_len pkt) out_path out_path_len
                                       shared_secret (Some packet_hash) t
                      in (t, Inr job))))"

text \<open>
  The packet of a teach: a returned path, sent direct along the known route. The argument
  \<open>injector_ok\<close> says for which packets the injector returns; where it raises, the claim on the
  cooldown is rolled back. The value it returns is not looked at.
\<close>

definition teach_packet ::
  "crypto \<Rightarrow> bytes \<Rightarrow> local_identity \<Rightarrow> byte \<Rightarrow> bytes \<Rightarrow> bytes \<Rightarrow> int \<Rightarrow> bytes \<Rightarrow> int \<Rightarrow> packet res" where
  "teach_packet c urandom4 local_identity dest_hash secret path len_byte out_path out_path_len =
     bind_res (index_res (get_public_key local_identity) 0) (\<lambda>src_hash.
     bind_res (create_path_return c urandom4 (uint dest_hash) (uint src_hash) secret (map uint path) 0xFF [] (Some len_byte)) (\<lambda>p.
     with_path out_path (Some out_path_len) (p\<lparr>pk_header := (pk_header p AND NOT PH_ROUTE_MASK) OR ROUTE_TYPE_DIRECT\<rparr>)))"

definition dispatch_teach ::
  "crypto \<Rightarrow> bytes \<Rightarrow> (packet \<Rightarrow> bool) \<Rightarrow> teach_job \<Rightarrow> teacher \<Rightarrow> teacher \<times> packet option" where
  "dispatch_teach c urandom4 injector_ok job t =
     (let best = (case tj_hash_key job of None \<Rightarrow> None | Some h \<Rightarrow> map_of (rt_recent_copies t) h);
          t = (case tj_hash_key job of None \<Rightarrow> t
               | Some h \<Rightarrow> t\<lparr>rt_recent_copies := AList.delete h (rt_recent_copies t)\<rparr>);
          (path, len_byte) = (case best of Some copy \<Rightarrow> (fc_path copy, fc_len_byte copy)
                              | None \<Rightarrow> (tj_embedded_path job, tj_embedded_len_byte job));
          rollback = t\<lparr>rt_last_taught :=
             (case tj_previous_cooldown job of
                None \<Rightarrow> AList.delete (tj_key job) (rt_last_taught t)
              | Some previous \<Rightarrow> AList.update (tj_key job) previous (rt_last_taught t))\<rparr>
      in case teach_packet c urandom4 (rt_local_identity t) (tj_dest_hash job) (tj_secret job) path len_byte
                (tj_out_path job) (tj_out_path_len job) of
           Inl _ \<Rightarrow> (rollback, None)
         | Inr p \<Rightarrow> if injector_ok p then (t, Some p) else (rollback, None))"

definition maybe_reteach_better_copy ::
  "crypto \<Rightarrow> real \<Rightarrow> bytes \<Rightarrow> (packet \<Rightarrow> bool) \<Rightarrow> bytes \<Rightarrow> byte \<Rightarrow> bytes \<Rightarrow> int \<Rightarrow> bytes \<Rightarrow> int \<Rightarrow> bytes \<Rightarrow> bytes \<Rightarrow>
   teacher \<Rightarrow> teacher \<times> packet option" where
  "maybe_reteach_better_copy c now urandom4 injector_ok contact_pubkey dest_hash taught_path taught_len_byte
       out_path out_path_len shared_secret hash_key t =
     (if \<not> rt_injector t then (t, None)
      else
        let best = map_of (rt_recent_copies t) hash_key;
            t = t\<lparr>rt_recent_copies := AList.delete hash_key (rt_recent_copies t)\<rparr>
        in case best of
             None \<Rightarrow> (t, None)
           | Some copy \<Rightarrow>
               if fc_path copy = taught_path \<and> fc_len_byte copy = taught_len_byte then (t, None)
               else
                 (case teach_packet c urandom4 (rt_local_identity t) dest_hash shared_secret (fc_path copy) (fc_len_byte copy)
                         out_path out_path_len of
                    Inl _ \<Rightarrow> (t, None)
                  | Inr p \<Rightarrow>
                      if injector_ok p
                      then (t\<lparr>rt_last_taught := AList.update contact_pubkey now (rt_last_taught t)\<rparr>, Some p)
                      else (t, None)))"

section \<open>The best copy\<close>

type_synonym flood_obs = "real \<times> bytes \<times> bytes \<times> int \<times> int \<times> real"

text \<open>A copy as \<open>_record_copy\<close> gets it: time, packet hash, path, encoded length, RSSI, SNR.\<close>

fun observe :: "flood_obs \<Rightarrow> teacher \<Rightarrow> teacher" where
  "observe (now, packet_hash, path, len_byte, rssi, snr) t = record_copy now packet_hash path len_byte rssi snr t"

fun obs_time :: "flood_obs \<Rightarrow> real" where "obs_time (now, h, path, len_byte, rssi, snr) = now"
fun obs_hash :: "flood_obs \<Rightarrow> bytes" where "obs_hash (now, h, path, len_byte, rssi, snr) = h"
fun obs_route :: "flood_obs \<Rightarrow> bytes \<times> int" where "obs_route (now, h, path, len_byte, rssi, snr) = (path, len_byte)"
fun obs_margin :: "teacher \<Rightarrow> flood_obs \<Rightarrow> real" where
  "obs_margin t (now, h, path, len_byte, rssi, snr) = copy_margin_db t rssi snr"
fun obs_rank :: "teacher \<Rightarrow> flood_obs \<Rightarrow> copy_rank" where
  "obs_rank t (now, h, path, len_byte, rssi, snr) = copy_rank t (copy_margin_db t rssi snr) len_byte rssi"

definition candidate :: "teacher \<Rightarrow> bytes \<Rightarrow> flood_obs \<Rightarrow> bool" where
  "candidate t h ob \<longleftrightarrow> obs_hash ob = h \<and> rt_min_margin_db t \<le> obs_margin t ob"

definition best_among :: "teacher \<Rightarrow> flood_obs list \<Rightarrow> bytes \<Rightarrow> flood_copy option \<Rightarrow> bool" where
  "best_among t obs h x \<longleftrightarrow>
     (case x of
        None \<Rightarrow> \<forall>ob \<in> set obs. \<not> candidate t h ob
      | Some copy \<Rightarrow>
          (\<exists>ob \<in> set obs. candidate t h ob \<and> obs_route ob = (fc_path copy, fc_len_byte copy) \<and> obs_rank t ob = fc_rank copy)
          \<and> (\<forall>ob \<in> set obs. candidate t h ob \<longrightarrow> \<not> rank_less (fc_rank copy) (obs_rank t ob)))"

lemma rank_less_irrefl: "\<not> rank_less a a"
  by (cases a) simp

lemma rank_less_trans: "rank_less a b \<Longrightarrow> rank_less b d \<Longrightarrow> rank_less a d"
  by (cases a; cases b; cases d) auto

lemma config_simps [simp]:
  "demod_limit_db (t\<lparr>rt_recent_copies := X\<rparr>) = demod_limit_db t"
  "copy_margin_db (t\<lparr>rt_recent_copies := X\<rparr>) rssi snr = copy_margin_db t rssi snr"
  "copy_rank (t\<lparr>rt_recent_copies := X\<rparr>) = copy_rank t"
  by (simp_all add: demod_limit_db_def copy_margin_db_def copy_rank_def fun_eq_iff)

lemma prune_copies_fresh: "\<forall>(h, copy) \<in> set X. now - fc_ts copy \<le> ttl \<Longrightarrow> prune_copies ttl now X = X"
  by (cases X) auto

text \<open>What the table of copies satisfies while the window is open and the table does not overflow.\<close>

definition copies_inv :: "teacher \<Rightarrow> flood_obs list \<Rightarrow> (bytes, flood_copy) dict \<Rightarrow> bool" where
  "copies_inv t obs X \<longleftrightarrow> dict_ok X \<and> fst ` set X \<subseteq> obs_hash ` set obs
     \<and> (\<forall>(h, copy) \<in> set X. fc_ts copy \<in> obs_time ` set obs) \<and> (\<forall>h. best_among t obs h (map_of X h))"

lemma best_among_other:
  assumes "obs_hash ob \<noteq> h"
  shows "best_among t (obs @ [ob]) h x \<longleftrightarrow> best_among t obs h x"
  using assms by (auto simp: best_among_def candidate_def split: option.split)

lemma best_among_weak:
  assumes "obs_margin t ob < rt_min_margin_db t"
  shows "best_among t (obs @ [ob]) h x \<longleftrightarrow> best_among t obs h x"
  using assms by (auto simp: best_among_def candidate_def split: option.split)

lemma best_among_keep:
  assumes "best_among t obs h (Some copy)" and "\<not> rank_less (fc_rank copy) (obs_rank t ob)"
    and "fc_path copy' = fc_path copy" "fc_len_byte copy' = fc_len_byte copy" "fc_rank copy' = fc_rank copy"
  shows "best_among t (obs @ [ob]) h (Some copy')"
  using assms by (auto simp: best_among_def)

lemma best_among_new:
  assumes "best_among t obs h x" and "candidate t h ob" and "\<And>old. x = Some old \<Longrightarrow> rank_less (fc_rank old) (obs_rank t ob)"
    and "obs_route ob = (fc_path copy, fc_len_byte copy)" "obs_rank t ob = fc_rank copy"
  shows "best_among t (obs @ [ob]) h (Some copy)"
proof -
  have "\<not> rank_less (fc_rank copy) (obs_rank t ob')" if "ob' \<in> set obs" "candidate t h ob'" for ob'
  proof (cases x)
    case None
    with assms(1) that show ?thesis by (simp add: best_among_def)
  next
    case (Some old)
    with assms(1) that have "\<not> rank_less (fc_rank old) (obs_rank t ob')" by (auto simp: best_among_def)
    with assms(3) [OF Some] assms(5) rank_less_trans show ?thesis by metis
  qed
  then show ?thesis using assms(2,4,5) rank_less_irrefl by (auto simp: best_among_def)
qed

lemma record_copy_weak:
  "copy_margin_db t rssi snr < rt_min_margin_db t \<Longrightarrow> record_copy now h path len_byte rssi snr t = t"
  by (simp add: record_copy_def)

lemma copies_inv_store:
  assumes "copies_inv t obs X" and "obs_hash ob = h" and "fc_ts copy = obs_time ob"
    and "best_among t (obs @ [ob]) h (Some copy)"
  shows "copies_inv t (obs @ [ob]) (move_to_end h (AList.update h copy X))"
proof -
  let ?U = "AList.update h copy X"
  have d: "dict_ok ?U" using assms(1) by (simp add: copies_inv_def distinct_update)
  have m: "map_of (move_to_end h ?U) = (map_of X)(h \<mapsto> copy)"
    by (simp add: map_of_move_to_end [OF d] update_conv')
  have old: "best_among t obs g (map_of X g)" for g using assms(1) by (simp add: copies_inv_def)
  have best: "best_among t (obs @ [ob]) g (map_of (move_to_end h ?U) g)" for g
  proof (cases "g = h")
    case True
    then show ?thesis unfolding m using assms(4) by simp
  next
    case False
    with assms(2) old [of g] show ?thesis unfolding m by (simp add: best_among_other)
  qed
  have d': "dict_ok (move_to_end h ?U)" by (rule dict_ok_move_to_end [OF d])
  have entry: "(g, cp) = (h, copy) \<or> (g, cp) \<in> set X" if "(g, cp) \<in> set (move_to_end h ?U)" for g cp
  proof -
    have "((map_of X)(h \<mapsto> copy)) g = Some cp" using map_of_is_SomeI [OF d' that] by (simp add: m)
    then show ?thesis by (auto split: if_splits dest: map_of_SomeD)
  qed
  have st: "g \<in> obs_hash ` set (obs @ [ob]) \<and> fc_ts cp \<in> obs_time ` set (obs @ [ob])"
    if "(g, cp) \<in> set (move_to_end h ?U)" for g cp
    using entry [OF that]
  proof
    assume "(g, cp) = (h, copy)"
    with assms(2,3) show ?thesis by auto
  next
    assume x: "(g, cp) \<in> set X"
    then have "g \<in> fst ` set X" by force
    with x assms(1) show ?thesis unfolding copies_inv_def by auto
  qed
  have "fst ` set (move_to_end h ?U) \<subseteq> obs_hash ` set (obs @ [ob])" using st by (metis image_subsetI prod.collapse)
  moreover have "\<forall>(g, cp) \<in> set (move_to_end h ?U). fc_ts cp \<in> obs_time ` set (obs @ [ob])" using st by blast
  ultimately show ?thesis using best d' by (simp add: copies_inv_def)
qed

lemma observe_inv:
  assumes "copies_inv t obs X" and "\<forall>ob' \<in> set obs. obs_time ob - obs_time ob' \<le> rt_copy_ttl_s t"
    and "card (obs_hash ` set (obs @ [ob])) \<le> rt_copy_cache_max t"
  obtains Y where "observe ob (t\<lparr>rt_recent_copies := X\<rparr>) = t\<lparr>rt_recent_copies := Y\<rparr>" and "copies_inv t (obs @ [ob]) Y"
proof -
  obtain now h path len_byte rssi snr where ob: "ob = (now, h, path, len_byte, rssi, snr)" by (cases ob)
  define margin where "margin = copy_margin_db t rssi snr"
  define rank where "rank = copy_rank t margin len_byte rssi"
  define fresh where "fresh = \<lparr>fc_path = path, fc_len_byte = len_byte, fc_rssi = rssi, fc_margin = margin, fc_rank = rank, fc_ts = now\<rparr>"
  let ?st = "\<lambda>copy. move_to_end h (AList.update h copy X)"
  show thesis
  proof (cases "margin < rt_min_margin_db t")
    case True
    moreover have "copies_inv t (obs @ [ob]) X"
      using assms(1) True by (auto simp: copies_inv_def ob margin_def best_among_weak)
    ultimately show ?thesis by (intro that [of X]) (simp_all add: ob record_copy_weak margin_def)
  next
    case False
    have "\<forall>(g, cp) \<in> set X. now - fc_ts cp \<le> rt_copy_ttl_s t" using assms(1,2) by (fastforce simp: copies_inv_def ob)
    then have pr: "prune_copies (rt_copy_ttl_s t) now X = X" by (rule prune_copies_fresh)
    have cand: "candidate t h ob" using False by (simp add: candidate_def ob margin_def)
    have old: "best_among t obs h (map_of X h)" using assms(1) by (simp add: copies_inv_def)
    show ?thesis
    proof (cases "map_of X h \<noteq> None \<and> \<not> rank_less (fc_rank (the (map_of X h))) rank")
      case True
      then obtain ex where ex: "map_of X h = Some ex" "\<not> rank_less (fc_rank ex) rank" by auto
      have "best_among t (obs @ [ob]) h (Some (ex\<lparr>fc_ts := now\<rparr>))"
        using old ex by (intro best_among_keep [of t obs h ex]) (simp_all add: ob rank_def margin_def)
      then have "copies_inv t (obs @ [ob]) (?st (ex\<lparr>fc_ts := now\<rparr>))"
        by (intro copies_inv_store [OF assms(1)]) (simp_all add: ob)
      moreover have "observe ob (t\<lparr>rt_recent_copies := X\<rparr>) = t\<lparr>rt_recent_copies := ?st (ex\<lparr>fc_ts := now\<rparr>)\<rparr>"
        using False ex by (simp add: ob record_copy_def Let_def pr margin_def rank_def)
      ultimately show ?thesis by (rule that [rotated])
    next
      case weaker: False
      have "best_among t (obs @ [ob]) h (Some fresh)"
        using weaker by (intro best_among_new [OF old cand]) (auto simp: ob rank_def margin_def fresh_def)
      then have inv: "copies_inv t (obs @ [ob]) (?st fresh)"
        by (intro copies_inv_store [OF assms(1)]) (simp_all add: ob fresh_def)
      then have "length (?st fresh) = card (fst ` set (?st fresh))"
        using distinct_card [of "map fst (?st fresh)"] unfolding copies_inv_def by simp
      also have "\<dots> \<le> card (obs_hash ` set (obs @ [ob]))" using inv by (intro card_mono) (auto simp: copies_inv_def)
      finally have "\<not> rt_copy_cache_max t < length (?st fresh)" using assms(3) by simp
      then have "observe ob (t\<lparr>rt_recent_copies := X\<rparr>) = t\<lparr>rt_recent_copies := ?st fresh\<rparr>"
        using False weaker by (auto simp: ob record_copy_def Let_def pr margin_def rank_def fresh_def)
      with inv show ?thesis by (intro that [of "?st fresh"])
    qed
  qed
qed

text \<open>The copies that are noted within one window, for no more packets than the table holds.\<close>

definition one_window :: "teacher \<Rightarrow> flood_obs list \<Rightarrow> bool" where
  "one_window t obs \<longleftrightarrow> (\<forall>x \<in> set obs. \<forall>y \<in> set obs. obs_time y - obs_time x \<le> rt_copy_ttl_s t)
     \<and> card (obs_hash ` set obs) \<le> rt_copy_cache_max t"

lemma observe_all:
  assumes "rt_recent_copies t = []" and "one_window t obs"
  obtains Y where "fold observe obs t = t\<lparr>rt_recent_copies := Y\<rparr>" and "copies_inv t obs Y"
proof -
  have "\<exists>Y. fold observe obs t = t\<lparr>rt_recent_copies := Y\<rparr> \<and> copies_inv t obs Y"
    using assms(2)
  proof (induction obs rule: rev_induct)
    case Nil
    have "t = t\<lparr>rt_recent_copies := []\<rparr>" using assms(1) by simp
    moreover have "copies_inv t [] []" by (simp add: copies_inv_def best_among_def)
    ultimately show ?case by (intro exI [of _ "[]"]) simp
  next
    case (snoc ob obs)
    have "card (obs_hash ` set obs) \<le> card (obs_hash ` set (obs @ [ob]))" by (intro card_mono) auto
    with snoc.prems have "one_window t obs" by (simp add: one_window_def)
    then obtain X where X: "fold observe obs t = t\<lparr>rt_recent_copies := X\<rparr>" "copies_inv t obs X" using snoc.IH by blast
    have "\<forall>ob' \<in> set obs. obs_time ob - obs_time ob' \<le> rt_copy_ttl_s t"
      "card (obs_hash ` set (obs @ [ob])) \<le> rt_copy_cache_max t"
      using snoc.prems by (simp_all add: one_window_def)
    from observe_inv [OF X(2) this] obtain Y where
      "observe ob (t\<lparr>rt_recent_copies := X\<rparr>) = t\<lparr>rt_recent_copies := Y\<rparr>" "copies_inv t (obs @ [ob]) Y" by blast
    with X(1) show ?case by (intro exI [of _ Y]) simp
  qed
  with that show thesis by blast
qed

section \<open>The teach packet\<close>

lemma bare_path_return_opens:
  assumes "crypto_laws c" and "length ss = 32"
    and "create_path_return c urandom4 (uint d) (uint s) ss (map uint path) et [] (Some plen) = Inr q"
  obtains ct n where "pk_payload q = [d, s] @ ct" and "pk_header q = 33" and "sendable q" and "pk_recv_region_key q = None"
    and "mac_then_decrypt c (take 16 ss) ss ct = Inr (word_of_int plen # path @ 0xFF # urandom4 @ replicate n 0)"
    and "is_valid_path_len plen" and "int (length path) = get_path_byte_len plen" and "0 \<le> plen" and "plen < 256"
proof -
  have hd: "PacketBuilder_create_header PAYLOAD_TYPE_PATH (str ''flood'') False = 33" by code_simp
  from assms(3) obtain fb ct where v: "is_valid_path_len plen" "int (length path) = get_path_byte_len plen"
    and fb: "plen = uint fb" and ct: "encrypt_then_mac c (take 16 ss) ss (fb # path @ 0xFF # urandom4) = Inr ct"
    and q: "create_packet (PacketBuilder_create_header PAYLOAD_TYPE_PATH (str ''flood'') False) (d # s # ct) = Inr q"
    by (auto simp: create_path_return_def path_return_first_byte_def Let_def res_simps map_res_uint split: if_splits)
  let ?in = "fb # path @ 0xFF # urandom4"
  have k: "length (take 16 ss) \<in> {16, 24, 32}" using assms(2) by simp
  from encrypt_then_mac_ok [OF assms(1) k, of ss ?in] ct obtain cp where
    cp: "ct = take 2 (cr_hmac_sha256 c ss cp) @ cp" "length cp = length ?in + block_pad (length ?in)"
    "aes_decrypt c (take 16 ss) cp = Inr (?in @ replicate (block_pad (length ?in)) 0)" by fastforce
  have "length (take 2 (cr_hmac_sha256 c ss cp)) = 2" using assms(1) by (simp add: crypto_laws_def)
  with cp have "mac_then_decrypt c (take 16 ss) ss ct = Inr (?in @ replicate (block_pad (length ?in)) 0)"
    by (simp add: mac_then_decrypt_iff)
  moreover have "plen < 256" "0 \<le> plen" using uint_lt2p [of fb] fb by simp_all
  moreover note create_packet_sendable(1,3,7) [OF _ _ q]
  moreover have "pk_recv_region_key q = None" using q by (auto simp: create_packet_def res_simps new_packet_def)
  ultimately show thesis
    using v fb hd by (intro that [of ct "block_pad (length ?in)"]) (auto simp: payload_type_defs)
qed

text \<open>What the peer finds in a teach: our route, which it is to use from now on.\<close>

lemma teach_packet_opens:
  assumes "crypto_laws c" and "length ss = 32"
    and "teach_packet c urandom4 li d ss path len_byte out_path out_path_len = Inr p"
  obtains ct n where "pk_payload p = [d, hd (get_public_key li)] @ ct" and "get_payload_type p = PAYLOAD_TYPE_PATH"
    and "is_route_direct p" and "pk_path p = out_path" and "pk_path_len p = out_path_len"
    and "mac_then_decrypt c (take 16 ss) ss ct = Inr (word_of_int len_byte # path @ 0xFF # urandom4 @ replicate n 0)"
    and "is_valid_path_len len_byte" and "int (length path) = get_path_byte_len len_byte" and "0 \<le> len_byte" and "len_byte < 256"
proof -
  from assms(3) obtain k ks q where key: "get_public_key li = k # ks"
    and q: "create_path_return c urandom4 (uint d) (uint k) ss (map uint path) 0xFF [] (Some len_byte) = Inr q"
    and p: "with_path out_path (Some out_path_len) (q\<lparr>pk_header := (pk_header q AND NOT PH_ROUTE_MASK) OR ROUTE_TYPE_DIRECT\<rparr>) = Inr p"
    by (cases "get_public_key li") (auto simp: teach_packet_def res_simps)
  have h: "((33 :: int) AND NOT PH_ROUTE_MASK) OR ROUTE_TYPE_DIRECT = 34" by code_simp
  have t: "drop_bit PH_TYPE_SHIFT (34 :: int) AND PH_TYPE_MASK = PAYLOAD_TYPE_PATH" by code_simp
  from bare_path_return_opens [OF assms(1,2) q] obtain ct n where o: "pk_payload q = [d, k] @ ct" "pk_header q = 33"
    "mac_then_decrypt c (take 16 ss) ss ct = Inr (word_of_int len_byte # path @ 0xFF # urandom4 @ replicate n 0)"
    "is_valid_path_len len_byte" "int (length path) = get_path_byte_len len_byte" "0 \<le> len_byte" "len_byte < 256" by blast
  have pf: "p = q\<lparr>pk_header := 34, pk_path := out_path, pk_path_len := out_path_len\<rparr>"
    using with_path_fields(1) [OF p] by (simp add: o(2) h)
  have "is_route_direct p" by (simp add: route_arith pf)
  moreover have "get_payload_type p = PAYLOAD_TYPE_PATH" using t by (simp add: get_payload_type_def pf)
  ultimately show thesis using o by (intro that [of ct n]) (simp_all add: pf key)
qed

definition obs_hops :: "flood_obs \<Rightarrow> int" where
  "obs_hops ob = get_path_hash_count (snd (obs_route ob))"

text \<open>A copy that no copy beats in rank: reliable if any is, and then of the fewest hops.\<close>

lemma unbeaten_route:
  assumes "\<not> rank_less (obs_rank t ob) (obs_rank t ob')"
  shows "rt_reliable_margin_db t \<le> obs_margin t ob' \<Longrightarrow>
           rt_reliable_margin_db t \<le> obs_margin t ob \<and> obs_hops ob \<le> obs_hops ob'"
    and "\<not> rt_reliable_margin_db t \<le> obs_margin t ob \<Longrightarrow> obs_margin t ob' \<le> obs_margin t ob"
  using assms by (cases ob; cases ob'; auto simp: copy_rank_def Let_def obs_hops_def split: if_splits)+

text \<open>
  C11: A teach embeds the best route that was heard. Whatever copies of flood replies are noted
  within one window, the packet that the scheduled teach then sends goes direct along our own route
  to the peer, and opens under the shared secret to a route on which some copy of the very reply
  arrived with enough margin to decode; that copy is reliable whenever any copy is and then has the
  fewest hops among the reliable ones, and otherwise has the largest margin. Only when no copy of
  that reply qualified is it the route the triggering copy came on.
\<close>

theorem teach_embeds_best_copy:
  assumes "crypto_laws c" and "length (tj_secret job) = 32" and "tj_hash_key job = Some h"
    and "rt_recent_copies t = []" and "one_window t obs"
    and "dispatch_teach c urandom4 injector_ok job (fold observe obs t) = (t', Some p)"
  shows "\<exists>path len_byte n.
    mac_then_decrypt c (take 16 (tj_secret job)) (tj_secret job) (drop 2 (pk_payload p))
      = Inr (word_of_int len_byte # path @ 0xFF # urandom4 @ replicate n 0)
    \<and> is_route_direct p \<and> pk_path p = tj_out_path job \<and> pk_path_len p = tj_out_path_len job
    \<and> (if \<exists>ob \<in> set obs. candidate t h ob
       then \<exists>ob \<in> set obs. candidate t h ob \<and> obs_route ob = (path, len_byte)
         \<and> (\<forall>ob' \<in> set obs. candidate t h ob' \<longrightarrow>
              (rt_reliable_margin_db t \<le> obs_margin t ob' \<longrightarrow>
                 rt_reliable_margin_db t \<le> obs_margin t ob \<and> obs_hops ob \<le> obs_hops ob')
              \<and> (\<not> rt_reliable_margin_db t \<le> obs_margin t ob \<longrightarrow> obs_margin t ob' \<le> obs_margin t ob))
       else path = tj_embedded_path job \<and> len_byte = tj_embedded_len_byte job)"
proof -
  obtain Y where Y: "fold observe obs t = t\<lparr>rt_recent_copies := Y\<rparr>" "copies_inv t obs Y"
    using observe_all [OF assms(4,5)] by blast
  have best: "best_among t obs h (map_of Y h)" using Y(2) by (simp add: copies_inv_def)
  obtain path len_byte where r: "(case map_of Y h of Some copy \<Rightarrow> (fc_path copy, fc_len_byte copy)
      | None \<Rightarrow> (tj_embedded_path job, tj_embedded_len_byte job)) = (path, len_byte)" by (meson surj_pair)
  with assms(3,6) have tp: "teach_packet c urandom4 (rt_local_identity t) (tj_dest_hash job) (tj_secret job) path len_byte
      (tj_out_path job) (tj_out_path_len job) = Inr p"
    by (auto simp: dispatch_teach_def Let_def Y(1) split: sum.splits if_splits)
  from teach_packet_opens [OF assms(1,2) tp] obtain ct n where o: "pk_payload p = [tj_dest_hash job, hd (get_public_key (rt_local_identity t))] @ ct"
    "is_route_direct p" "pk_path p = tj_out_path job" "pk_path_len p = tj_out_path_len job"
    "mac_then_decrypt c (take 16 (tj_secret job)) (tj_secret job) ct
       = Inr (word_of_int len_byte # path @ 0xFF # urandom4 @ replicate n 0)" by blast
  have route: "if \<exists>ob \<in> set obs. candidate t h ob
       then \<exists>ob \<in> set obs. candidate t h ob \<and> obs_route ob = (path, len_byte)
         \<and> (\<forall>ob' \<in> set obs. candidate t h ob' \<longrightarrow>
              (rt_reliable_margin_db t \<le> obs_margin t ob' \<longrightarrow>
                 rt_reliable_margin_db t \<le> obs_margin t ob \<and> obs_hops ob \<le> obs_hops ob')
              \<and> (\<not> rt_reliable_margin_db t \<le> obs_margin t ob \<longrightarrow> obs_margin t ob' \<le> obs_margin t ob))
       else path = tj_embedded_path job \<and> len_byte = tj_embedded_len_byte job"
  proof (cases "map_of Y h")
    case None
    with best r show ?thesis by (simp add: best_among_def)
  next
    case (Some copy)
    with best obtain ob where ob: "ob \<in> set obs" "candidate t h ob" "obs_route ob = (fc_path copy, fc_len_byte copy)"
      "obs_rank t ob = fc_rank copy" "\<forall>ob' \<in> set obs. candidate t h ob' \<longrightarrow> \<not> rank_less (fc_rank copy) (obs_rank t ob')"
      by (auto simp only: best_among_def option.case)
    moreover have "obs_route ob = (path, len_byte)" using Some r ob(3) by simp
    ultimately show ?thesis using unbeaten_route [of t ob] by metis
  qed
  have "mac_then_decrypt c (take 16 (tj_secret job)) (tj_secret job) (drop 2 (pk_payload p))
      = Inr (word_of_int len_byte # path @ 0xFF # urandom4 @ replicate n 0)" using o(1,5) by simp
  with o(2-4) route show ?thesis by blast
qed

definition toy_teacher :: teacher where
  "toy_teacher = set_injector True (new_teacher (toy_node 1) (Some (Inr 7)))"

definition toy_copies :: "flood_obs list" where
  "toy_copies = [(0, [9], [5, 6], 2, -60, 5), (1, [9], [7], 1, -70, 3), (2, [8], [], 0, -60, 5)]"

definition toy_job :: teach_job where
  "toy_job =
     \<lparr>tj_key = replicate 32 2, tj_previous_cooldown = None, tj_dest_hash = 2, tj_secret = replicate 32 3,
      tj_embedded_path = [5, 6], tj_embedded_len_byte = 2, tj_out_path = [6, 5], tj_out_path_len = 2, tj_hash_key = Some [9]\<rparr>"

theorem teach_embeds_best_copy_witness:
  "\<exists>t' p n. dispatch_teach toy_crypto [1, 2, 3, 4] (\<lambda>_. True) toy_job (fold observe toy_copies toy_teacher) = (t', Some p)
     \<and> mac_then_decrypt toy_crypto (replicate 16 3) (replicate 32 3) (drop 2 (pk_payload p))
         = Inr (1 # [7] @ 0xFF # [1, 2, 3, 4] @ replicate n 0)"
proof -
  have "case dispatch_teach toy_crypto [1, 2, 3, 4] (\<lambda>_. True) toy_job (fold observe toy_copies toy_teacher) of
      (_, None) \<Rightarrow> False | (_, Some _) \<Rightarrow> True" by code_simp
  then obtain t' p where d: "dispatch_teach toy_crypto [1, 2, 3, 4] (\<lambda>_. True) toy_job (fold observe toy_copies toy_teacher) = (t', Some p)"
    by (auto split: prod.splits option.splits)
  have w: "one_window toy_teacher toy_copies"
    by (simp add: one_window_def toy_copies_def toy_teacher_def set_injector_def new_teacher_def RETURN_PATH_COPY_TTL_S_def
        RETURN_PATH_SETTLE_S_def RETURN_PATH_COPY_CACHE_MAX_def)
  have m: "copy_margin_db toy_teacher (-60) 5 = 12.5" "copy_margin_db toy_teacher (-70) 3 = 10.5" by code_simp+
  have cfg: "rt_min_margin_db toy_teacher = 2" "rt_reliable_margin_db toy_teacher = 6" "rt_recent_copies toy_teacher = []"
    by (simp_all add: toy_teacher_def set_injector_def new_teacher_def)
  have hops: "get_path_hash_count 2 = 2" "get_path_hash_count 1 = 1" by code_simp+
  have "length (tj_secret toy_job) = 32" "tj_hash_key toy_job = Some [9]" by (simp_all add: toy_job_def)
  from teach_embeds_best_copy [OF toy_crypto_laws this cfg(3) w d] obtain path len_byte n where
    r: "mac_then_decrypt toy_crypto (take 16 (tj_secret toy_job)) (tj_secret toy_job) (drop 2 (pk_payload p))
      = Inr (word_of_int len_byte # path @ 0xFF # [1, 2, 3, 4] @ replicate n 0)"
    and b: "path = [7]" "len_byte = 1"
    by (auto simp: toy_copies_def candidate_def m cfg obs_hops_def hops)
  from r have "mac_then_decrypt toy_crypto (replicate 16 3) (replicate 32 3) (drop 2 (pk_payload p))
      = Inr (1 # [7] @ 0xFF # [1, 2, 3, 4] @ replicate n 0)" by (simp add: toy_job_def b)
  with d show ?thesis by blast
qed

section \<open>The cooldown\<close>

text \<open>A scheduled teach blocks every other teach to that contact until the cooldown is over.\<close>

lemma teach_claims_cooldown:
  assumes "teach c now key d ep el op ol ss hk t = (t', Some job)"
  shows "\<not> cooldown_active now key t" and "tj_key job = key"
    and "now' - now < rt_cooldown_s t \<Longrightarrow> teach c now' key d' ep' el' op' ol' ss' hk' t' = (t', None)"
proof -
  have "\<not> cooldown_active now key t \<and> tj_key job = key \<and> t' = t\<lparr>rt_last_taught := AList.update key now (rt_last_taught t)\<rparr>"
    using assms by (auto simp: teach_def split: if_splits option.splits)
  then show "\<not> cooldown_active now key t" "tj_key job = key"
    "now' - now < rt_cooldown_s t \<Longrightarrow> teach c now' key d' ep' el' op' ol' ss' hk' t' = (t', None)"
    by (auto simp: teach_def cooldown_active_def update_conv')
qed

text \<open>
  A failed teach releases the claim, but by restoring what was there when it was scheduled: a teach
  to the same contact that was reported in between no longer holds the contact back.
\<close>

lemma rollback_drops_later_claim:
  assumes "teach c now key d ep el op ol ss hk t = (t', Some job)" and "map_of (rt_last_taught t) key = None"
  shows "\<not> cooldown_active now'' key (fst (dispatch_teach c urandom4 (\<lambda>_. False) job (note_evidence_teach now' key t')))"
proof -
  have job: "tj_key job = key" "tj_previous_cooldown job = None"
    using assms by (auto simp: teach_def split: if_splits option.splits)
  have "map_of (rt_last_taught (fst (dispatch_teach c urandom4 (\<lambda>_. False) job s))) key = None" for s
    by (auto simp: dispatch_teach_def Let_def job delete_conv' split: sum.split option.split prod.split)
  then show ?thesis by (simp add: cooldown_active_def)
qed

end
