(* ===== verification/Telemetry.thy ===== *)
theory Telemetry
  imports Protocol_Utils
begin

text \<open>
  What a response to a request can hold: sensor readings in the CayenneLPP format (the decoder in
  \<open>node/handlers/protocol_response.py\<close> and the encoder in \<open>protocol/cayenne_lpp.py\<close>), the
  statistics structure of a repeater, and text. Floats are reals, except where the encoder rounds
  to single precision: that rounding is written out. Which code points count as white space or as
  printable comes from the Unicode database, which is the argument \<open>unicode\<close>. The strings that
  the code formats for people to read are left out; everything they show is in the parsed value.
\<close>

section \<open>Big-endian integers\<close>

definition be_int :: "bytes \<Rightarrow> int" where
  "be_int bs = le_int (rev bs)"

definition be_sint :: "bytes \<Rightarrow> int" where
  "be_sint bs = le_sint (rev bs)"

section \<open>The decoder\<close>

definition LPP_TYPES :: "(int, pystr \<times> nat \<times> int \<times> bool) dict" where
  "LPP_TYPES =
     [(0x00, str ''Digital Input'', 1, 1, False), (0x01, str ''Digital Output'', 1, 1, False),
      (0x02, str ''Analog Input'', 2, 100, True), (0x03, str ''Analog Output'', 2, 100, True),
      (0x64, str ''Generic Sensor'', 4, 1, False), (0x65, str ''Illuminance'', 2, 1, False),
      (0x66, str ''Presence'', 1, 1, False), (0x67, str ''Temperature'', 2, 10, True),
      (0x68, str ''Humidity'', 1, 2, False), (0x71, str ''Accelerometer'', 6, 1000, True),
      (0x73, str ''Barometer'', 2, 10, False), (0x74, str ''Voltage'', 2, 100, False),
      (0x75, str ''Current'', 2, 1000, True), (0x76, str ''Frequency'', 4, 1, False),
      (0x78, str ''Percentage'', 1, 1, False), (0x79, str ''Altitude'', 2, 1, True),
      (0x7D, str ''Concentration'', 2, 1, False), (0x80, str ''Power'', 2, 1, False),
      (0x82, str ''Distance'', 4, 1000, False), (0x83, str ''Energy'', 4, 1000, False),
      (0x84, str ''Direction'', 2, 1, False), (0x85, str ''Unix Time'', 4, 1, False),
      (0x86, str ''Gyroscope'', 6, 100, True), (0x87, str ''Colour'', 3, 1, False),
      (0x88, str ''GPS'', 9, 1, True), (0x8E, str ''Switch'', 1, 1, False), (0xF0, str ''Polyline'', 8, 1, False)]"

datatype lpp_value =
    LppGps real real real
  | LppAxes real real real
  | LppColour byte byte byte
  | LppHex pystr
  | LppNumber real

record lpp_sensor =
  lpp_channel :: byte
  lpp_type :: pystr
  lpp_type_id :: byte
  lpp_value :: lpp_value
  lpp_raw_value :: pystr

definition lpp_read_value :: "byte \<Rightarrow> nat \<Rightarrow> int \<Rightarrow> bool \<Rightarrow> bytes \<Rightarrow> lpp_value" where
  "lpp_read_value type_id sz divisor is_signed raw =
     (if type_id = 0x88 then
        LppGps (of_int (be_sint (take 3 raw)) / 10000) (of_int (be_sint (take 3 (drop 3 raw))) / 10000)
          (of_int (be_sint (take 3 (drop 6 raw))) / 100)
      else if sz = 6 \<and> type_id \<in> {0x71, 0x86} then
        LppAxes (of_int (be_sint (take 2 raw)) / of_int divisor) (of_int (be_sint (take 2 (drop 2 raw))) / of_int divisor)
          (of_int (be_sint (take 2 (drop 4 raw))) / of_int divisor)
      else if type_id = 0x87 then LppColour (raw ! 0) (raw ! 1) (raw ! 2)
      else if type_id = 0xF0 then LppHex (hex_str raw)
      else
        let val = (if is_signed then be_sint raw else be_int raw)
        in LppNumber (if divisor \<noteq> 1 then of_int val / of_int divisor else of_int val))"

function decode_cayenne_lpp :: "bytes \<Rightarrow> lpp_sensor list" where
  "decode_cayenne_lpp data =
     (case data of
        channel # type_id # rest \<Rightarrow>
          if channel = 0 then []
          else (case map_of LPP_TYPES (uint type_id) of
                  None \<Rightarrow> []
                | Some (name, sz, divisor, is_signed) \<Rightarrow>
                    if length rest < sz then []
                    else
                      let raw = take sz rest
                      in \<lparr>lpp_channel = channel, lpp_type = name, lpp_type_id = type_id,
                          lpp_value = lpp_read_value type_id sz divisor is_signed raw, lpp_raw_value = hex_str raw\<rparr>
                         # decode_cayenne_lpp (drop sz rest))
      | _ \<Rightarrow> [])"
  by auto
termination
  by (relation "measure length") auto

declare decode_cayenne_lpp.simps [simp del]

section \<open>The encoder\<close>

text \<open>\<open>struct.pack("<f", x)\<close> and back: the nearest single-precision number, ties to even.\<close>

definition round_even :: "real \<Rightarrow> int" where
  "round_even x =
     (let f = \<lfloor>x\<rfloor>; d = x - of_int f
      in if d < 1 / 2 then f else if 1 / 2 < d then f + 1 else if even f then f else f + 1)"

definition f32_unit :: "real \<Rightarrow> real" where
  "f32_unit x = 2 powr of_int (max (\<lfloor>log 2 \<bar>x\<bar>\<rfloor> - 23) (- 149))"

definition f32 :: "real \<Rightarrow> real res" where
  "f32 x =
     (if x = 0 then Inr 0
      else let y = of_int (round_even (x / f32_unit x)) * f32_unit x
           in if 2 ^ 128 \<le> \<bar>y\<bar> then Inl OverflowError else Inr y)"

definition LPP_ENCODER_TYPES :: "(int, nat \<times> int \<times> bool) dict" where
  "LPP_ENCODER_TYPES =
     [(0x67, 2, 10, True), (0x68, 1, 2, False), (0x73, 2, 10, False), (0x74, 2, 100, False), (0x75, 2, 1000, True),
      (0x80, 2, 1, False)]"

definition add_field :: "int \<Rightarrow> int \<Rightarrow> real \<Rightarrow> bytes res" where
  "add_field channel type_code value =
     (case map_of LPP_ENCODER_TYPES type_code of
        None \<Rightarrow> Inl KeyError
      | Some (sz, multiplier, is_signed) \<Rightarrow>
          let sign = (value < 0);
              value = (if sign then - value else value)
          in bind_res (f32 value) (\<lambda>x. bind_res (f32 (of_int multiplier)) (\<lambda>m. bind_res (f32 (x * m)) (\<lambda>product.
             let v = py_int product;
                 msk = 2 ^ (sz * 8) - 1;
                 v = (if is_signed \<and> sign then (msk - (v AND msk) + 1) AND msk else v AND msk)
             in Inr ([word_of_int (channel AND 0xFF), word_of_int (type_code AND 0xFF)] @ rev (le_bytes sz v))))))"

definition encode_voltage :: "int \<Rightarrow> real \<Rightarrow> bytes res" where
  "encode_voltage channel volts = add_field channel 0x74 volts"
definition encode_current :: "int \<Rightarrow> real \<Rightarrow> bytes res" where
  "encode_current channel amps = add_field channel 0x75 amps"
definition encode_power :: "int \<Rightarrow> int \<Rightarrow> bytes res" where
  "encode_power channel watts = add_field channel 0x80 (of_int watts)"
definition encode_temperature :: "int \<Rightarrow> real \<Rightarrow> bytes res" where
  "encode_temperature channel celsius = add_field channel 0x67 celsius"
definition encode_relative_humidity :: "int \<Rightarrow> real \<Rightarrow> bytes res" where
  "encode_relative_humidity channel percent = add_field channel 0x68 percent"
definition encode_barometric_pressure :: "int \<Rightarrow> real \<Rightarrow> bytes res" where
  "encode_barometric_pressure channel hpa = add_field channel 0x73 hpa"

section \<open>Responses\<close>

record repeater_stats =
  st_batt_milli_volts :: int
  st_curr_tx_queue_len :: int
  st_noise_floor :: int
  st_last_rssi :: int
  st_n_packets_recv :: int
  st_n_packets_sent :: int
  st_total_air_time_secs :: int
  st_total_up_time_secs :: int
  st_n_sent_flood :: int
  st_n_sent_direct :: int
  st_n_recv_flood :: int
  st_n_recv_direct :: int
  st_err_events :: int
  st_last_snr :: real
  st_n_direct_dups :: int
  st_n_flood_dups :: int
  st_total_rx_air_time_secs :: int
  st_n_recv_errors :: int

datatype parsed_response =
    BinaryResponse bytes
  | TelemetryResponse int "lpp_sensor list" bytes
  | StatsResponse repeater_stats bytes
  | TextResponse pystr

definition u_field :: "nat \<Rightarrow> nat \<Rightarrow> bytes \<Rightarrow> int" where
  "u_field pos n bs = le_int (take n (drop pos bs))"

definition s_field :: "nat \<Rightarrow> nat \<Rightarrow> bytes \<Rightarrow> int" where
  "s_field pos n bs = le_sint (take n (drop pos bs))"

definition parse_stats_response :: "bytes \<Rightarrow> (repeater_stats \<times> bytes) option" where
  "parse_stats_response data =
     (if length data < 56 then None
      else
        let stats_data = drop 4 data;
            stats_data = take 56 (stats_data @ replicate (56 - length stats_data) 0)
        in if 20000 < u_field 0 2 stats_data then None
           else if s_field 6 2 stats_data < -200 \<or> 0 < s_field 6 2 stats_data then None
           else Some
             (\<lparr>st_batt_milli_volts = u_field 0 2 stats_data, st_curr_tx_queue_len = u_field 2 2 stats_data,
               st_noise_floor = s_field 4 2 stats_data, st_last_rssi = s_field 6 2 stats_data,
               st_n_packets_recv = u_field 8 4 stats_data, st_n_packets_sent = u_field 12 4 stats_data,
               st_total_air_time_secs = u_field 16 4 stats_data, st_total_up_time_secs = u_field 20 4 stats_data,
               st_n_sent_flood = u_field 24 4 stats_data, st_n_sent_direct = u_field 28 4 stats_data,
               st_n_recv_flood = u_field 32 4 stats_data, st_n_recv_direct = u_field 36 4 stats_data,
               st_err_events = u_field 40 2 stats_data, st_last_snr = of_int (s_field 42 2 stats_data) / 4,
               st_n_direct_dups = u_field 44 2 stats_data, st_n_flood_dups = u_field 46 2 stats_data,
               st_total_rx_air_time_secs = u_field 48 4 stats_data, st_n_recv_errors = u_field 52 4 stats_data\<rparr>,
              stats_data))"

definition parse_telemetry_response :: "bytes \<Rightarrow> parsed_response option" where
  "parse_telemetry_response data =
     (if length data < 8 then None
      else
        let reflected_timestamp = le_int (take 4 data);
            lpp_data = drop 4 data
        in if lpp_data ! 0 \<noteq> 0x01 \<or> lpp_data ! 1 \<noteq> 0x74 then None
           else let sensors = decode_cayenne_lpp lpp_data
                in if sensors = [] then None else Some (TelemetryResponse reflected_timestamp sensors lpp_data))"

record unicode =
  uc_space :: "nat \<Rightarrow> bool"
  uc_printable :: "nat \<Rightarrow> bool"

definition toy_unicode :: unicode where
  "toy_unicode = \<lparr>uc_space = (\<lambda>ch. ch = 32), uc_printable = (\<lambda>ch. 32 \<le> ch \<and> ch < 127)\<rparr>"

definition py_strip :: "unicode \<Rightarrow> pystr \<Rightarrow> pystr" where
  "py_strip u s = rev (dropWhile (uc_space u) (rev (dropWhile (uc_space u) s)))"

definition rstrip_zero :: "bytes \<Rightarrow> bytes" where
  "rstrip_zero bs = rev (dropWhile (\<lambda>b. b = 0) (rev bs))"

definition parse_text_response :: "unicode \<Rightarrow> bytes \<Rightarrow> pystr option" where
  "parse_text_response u data =
     (if length data \<le> 4 then None
      else case utf8_decode Strict (rstrip_zero (drop 4 data)) of
             Inl _ \<Rightarrow> None
           | Inr text_candidate \<Rightarrow>
               let stripped = py_strip u text_candidate
               in if stripped \<noteq> [] \<and> list_all (uc_printable u) stripped then Some stripped else None)"

definition parse_protocol_response :: "unicode \<Rightarrow> bytes \<Rightarrow> parsed_response" where
  "parse_protocol_response u data =
     (if length data = 13 \<and> data ! 4 \<in> {0x00, 0x01} then BinaryResponse data
      else case parse_telemetry_response data of
             Some telemetry \<Rightarrow> telemetry
           | None \<Rightarrow>
               (case parse_stats_response data of
                  Some (stats, raw_bytes) \<Rightarrow> StatsResponse stats raw_bytes
                | None \<Rightarrow>
                    (case parse_text_response u data of
                       Some t \<Rightarrow> TextResponse t
                     | None \<Rightarrow> BinaryResponse data)))"

section \<open>Single precision\<close>

lemma round_even_close: "\<bar>of_int (round_even x) - x\<bar> \<le> 1 / 2"
proof -
  have "of_int \<lfloor>x\<rfloor> \<le> x" "x < of_int \<lfloor>x\<rfloor> + 1" by linarith+
  then show ?thesis by (simp add: round_even_def Let_def abs_le_iff)
qed

text \<open>In the range of normal numbers the relative error is at most \<open>2 ^ -24\<close>.\<close>

lemma f32_close:
  assumes "f32 x = Inr y" and "2 powr (-126) \<le> \<bar>x\<bar>"
  shows "\<bar>y - x\<bar> \<le> \<bar>x\<bar> / 2 ^ 24"
proof -
  have x: "x \<noteq> 0" using assms(2) by auto
  define e where "e = \<lfloor>log 2 \<bar>x\<bar>\<rfloor>"
  have "- 126 \<le> log 2 \<bar>x\<bar>" using assms(2) x by (simp add: le_log_iff)
  then have e: "-126 \<le> e" unfolding e_def by (simp add: le_floor_iff)
  then have "max (e - 23) (- 149) = e - 23" by (intro max_absorb1) simp
  then have unit: "f32_unit x = 2 powr of_int (e - 23)" by (simp add: f32_unit_def e_def [symmetric])
  have "2 powr of_int e \<le> 2 powr log 2 \<bar>x\<bar>" unfolding e_def by (intro powr_mono) simp_all
  then have le: "2 powr of_int e \<le> \<bar>x\<bar>" using x by simp
  have u: "f32_unit x = 2 powr of_int e / 2 ^ 23" unfolding unit by (simp add: powr_diff powr_realpow [symmetric])
  have pos: "0 < f32_unit x" unfolding unit by simp
  have y: "y = of_int (round_even (x / f32_unit x)) * f32_unit x"
    using assms(1) x by (auto simp: f32_def Let_def split: if_splits)
  have "y - x = (of_int (round_even (x / f32_unit x)) - x / f32_unit x) * f32_unit x"
    using pos by (simp add: y field_simps)
  then have "\<bar>y - x\<bar> = \<bar>of_int (round_even (x / f32_unit x)) - x / f32_unit x\<bar> * f32_unit x"
    using pos by (simp add: abs_mult)
  also have "\<dots> \<le> 1 / 2 * f32_unit x" using pos round_even_close by (intro mult_right_mono) auto
  also have "\<dots> = 2 powr of_int e / 2 ^ 24" unfolding u by simp
  also have "\<dots> \<le> \<bar>x\<bar> / 2 ^ 24" using le by (intro divide_right_mono) simp_all
  finally show ?thesis .
qed

text \<open>Small integers are single-precision numbers.\<close>

lemma round_even_of_int [simp]: "round_even (of_int n) = n"
  by (simp add: round_even_def)

lemma f32_of_int:
  assumes "1 \<le> n" and "n < 2 ^ 24"
  shows "f32 (of_int n) = Inr (of_int n)"
proof -
  define e where "e = \<lfloor>log 2 (of_int n :: real)\<rfloor>"
  have "0 \<le> log 2 (of_int n :: real)" using assms(1) by simp
  then have e0: "0 \<le> e" by (simp add: e_def)
  have "log 2 (of_int n :: real) < 24" using assms by (simp add: log_less_iff powr_numeral)
  then have e1: "e \<le> 23" unfolding e_def by linarith
  have "max (e - 23) (- 149) = e - 23" using e0 by (intro max_absorb1) simp
  then have "f32_unit (of_int n) = 2 powr of_int (e - 23)" using assms(1) by (simp add: f32_unit_def e_def [symmetric])
  also have "\<dots> = 1 / 2 ^ nat (23 - e)" using e1
    by (simp add: powr_realpow [symmetric] powr_minus [symmetric] divide_powr_uminus)
  finally have u: "f32_unit (of_int n) = 1 / 2 ^ nat (23 - e)" .
  have "of_int n / f32_unit (of_int n) = (of_int (n * 2 ^ nat (23 - e)) :: real)" by (simp add: u)
  then have "of_int (round_even (of_int n / f32_unit (of_int n))) * f32_unit (of_int n) = (of_int n :: real)"
    using u by (metis nonzero_divide_eq_eq round_even_of_int zero_less_divide_1_iff zero_less_numeral zero_less_power less_irrefl)
  moreover have "of_int n < (2 ^ 24 :: real)" using assms(2) by (simp only: of_int_less_numeral_power_cancel_iff)
  then have "of_int n < (2 ^ 128 :: real)" by (rule less_le_trans) simp
  ultimately show ?thesis using assms(1) by (simp add: f32_def Let_def)
qed

text \<open>The scaled value that the encoder truncates.\<close>

lemma f32_product_close:
  assumes "f32 value = Inr x" and "f32 (x * of_int m) = Inr y" and "0 \<le> value" and "value = 0 \<or> 1 / 10 ^ 6 \<le> value"
    and "1 \<le> m" and "value * of_int m \<le> 65536"
  shows "\<bar>y - value * of_int m\<bar> < 1 / 64" and "0 \<le> y"
proof -
  have "\<bar>y - value * of_int m\<bar> < 1 / 64 \<and> 0 \<le> y"
  proof (cases "value = 0")
    case True
    with assms(1,2) show ?thesis by (simp add: f32_def)
  next
    case False
    define V where "V = value * of_int m"
    have v: "1 / 10 ^ 6 \<le> value" using False assms(4) by simp
    have tiny: "2 powr (-126) \<le> (1 / 10 ^ 7 :: real)" by (simp add: powr_minus_divide powr_numeral)
    have "2 powr (-126) \<le> \<bar>value\<bar>" using tiny v by simp
    from f32_close [OF assms(1) this] have x: "\<bar>x - value\<bar> \<le> value / 2 ^ 24" using assms(3) by simp
    then have "\<bar>x - value\<bar> \<le> value / 16777216" by simp
    then have xpos: "value * (1 / 2) \<le> x" using assms(3) by linarith
    have m: "(1 :: real) \<le> of_int m" using assms(5) by simp
    have xm: "\<bar>x * of_int m - V\<bar> \<le> V / 2 ^ 24"
    proof -
      have "\<bar>x * of_int m - V\<bar> = \<bar>x - value\<bar> * of_int m" using m by (simp add: V_def abs_mult left_diff_distrib [symmetric])
      also have "\<dots> \<le> value / 2 ^ 24 * of_int m" using x m by (intro mult_right_mono) simp_all
      finally show ?thesis by (simp add: V_def)
    qed
    have "1 / 10 ^ 7 \<le> x * of_int m"
    proof -
      have "1 / 10 ^ 7 \<le> x" using xpos v by simp
      also have "\<dots> \<le> x * of_int m" using m xpos v by (simp add: mult_le_cancel_left1)
      finally show ?thesis .
    qed
    then have "2 powr (-126) \<le> \<bar>x * of_int m\<bar>" and pos: "0 \<le> x * of_int m" using tiny by simp_all
    from f32_close [OF assms(2) this(1)] pos have y: "\<bar>y - x * of_int m\<bar> \<le> x * of_int m / 2 ^ 24" by simp
    have V: "0 \<le> V" "V \<le> 65536" using assms(3,6) m by (simp_all add: V_def)
    define Q where "Q = x * of_int m"
    have "\<bar>y - Q\<bar> \<le> Q / 16777216" "\<bar>Q - V\<bar> \<le> V / 16777216" "0 \<le> Q" using y xm pos by (simp_all add: Q_def)
    with V have "\<bar>y - V\<bar> < 1 / 64" "0 \<le> y" by linarith+
    then show ?thesis by (simp add: V_def)
  qed
  then show "\<bar>y - value * of_int m\<bar> < 1 / 64" "0 \<le> y" by simp_all
qed

section \<open>What is encoded is decoded\<close>

lemma and_low_bits: "(x :: int) AND (2 ^ k - 1) = x mod 2 ^ k"
  using take_bit_eq_mask [of k x] by (simp add: take_bit_eq_mod mask_eq_exp_minus_1)

lemma encoder_types:
  assumes "map_of LPP_ENCODER_TYPES tc = Some (sz, m, sg)"
  shows "\<exists>name. map_of LPP_TYPES tc = Some (name, sz, m, sg)" and "tc \<notin> {0x71, 0x86, 0x87, 0x88, 0xF0}"
    and "0 < tc" "tc < 256" "1 \<le> m" "m < 2 ^ 24" "sz = 1 \<or> sz = 2"
proof -
  have all: "\<forall>(tc, sz, m, sg) \<in> set LPP_ENCODER_TYPES.
      (case map_of LPP_TYPES tc of None \<Rightarrow> False | Some (name, sz', m', sg') \<Rightarrow> (sz', m', sg') = (sz, m, sg))
      \<and> tc \<notin> {0x71, 0x86, 0x87, 0x88, 0xF0} \<and> 0 < tc \<and> tc < 256 \<and> 1 \<le> m \<and> m < 2 ^ 24 \<and> (sz = 1 \<or> sz = 2)" by code_simp
  have "(tc, sz, m, sg) \<in> set LPP_ENCODER_TYPES" by (rule map_of_SomeD [OF assms])
  from bspec [OF all this] show "\<exists>name. map_of LPP_TYPES tc = Some (name, sz, m, sg)" "tc \<notin> {0x71, 0x86, 0x87, 0x88, 0xF0}"
    "0 < tc" "tc < 256" "1 \<le> m" "m < 2 ^ 24" "sz = 1 \<or> sz = 2"
    by (auto split: option.splits)
qed

text \<open>The values that a field of a given type can represent.\<close>

definition lpp_in_range :: "nat \<Rightarrow> int \<Rightarrow> bool \<Rightarrow> real \<Rightarrow> bool" where
  "lpp_in_range sz m sg value \<longleftrightarrow> (value = 0 \<or> 1 / 10 ^ 6 \<le> \<bar>value\<bar>)
     \<and> (if sg then \<bar>value\<bar> * of_int m \<le> 2 ^ (8 * sz - 1) - 1 else 0 \<le> value \<and> value * of_int m \<le> 2 ^ (8 * sz) - 1)"

lemma stored_field:
  assumes "0 \<le> v" and "if sg then v < 2 ^ (8 * sz - 1) else v < 2 ^ (8 * sz) \<and> \<not> neg" and "sz = 1 \<or> sz = (2 :: nat)"
  shows "(if sg then be_sint else be_int)
     (rev (le_bytes sz (if sg \<and> neg then (2 ^ (sz * 8) - 1 - (v AND (2 ^ (sz * 8) - 1)) + 1) AND (2 ^ (sz * 8) - 1)
                       else v AND (2 ^ (sz * 8) - 1)))) = (if neg then - v else v)"
proof -
  have neg: "- v mod k = (if v = 0 then 0 else k - v)" if "v < k" for k
  proof (cases "v = 0")
    case False
    have "- v mod k = (k - v) mod k" by simp
    also have "\<dots> = k - v" using that assms(1) False by (intro mod_pos_pos_trivial) simp_all
    finally show ?thesis using False by simp
  qed simp
  have "v < 256" if "sz = 1" using assms(2) that by (simp split: if_splits)
  moreover have "v < 65536" if "sz = 2" using assms(2) that by (simp split: if_splits)
  ultimately show ?thesis
    using assms neg [of 256] neg [of 65536]
    by (auto simp: and_low_bits be_int_def be_sint_def le_sint_def Let_def le_int_le_bytes mod_pos_pos_trivial
        simp del: le_bytes.simps split: if_splits)
qed

text \<open>The size of one step of a field.\<close>

definition lpp_step :: "int \<Rightarrow> real" where
  "lpp_step tc = (case map_of LPP_ENCODER_TYPES tc of Some (sz, m, sg) \<Rightarrow> 1 / of_int m | None \<Rightarrow> 0)"

definition lpp_field_ok :: "int \<times> int \<times> real \<Rightarrow> bool" where
  "lpp_field_ok field =
     (case field of (ch, tc, value) \<Rightarrow> 1 \<le> ch \<and> ch \<le> 255
        \<and> (case map_of LPP_ENCODER_TYPES tc of Some (sz, m, sg) \<Rightarrow> lpp_in_range sz m sg value | None \<Rightarrow> False))"

definition lpp_matches :: "int \<times> int \<times> real \<Rightarrow> lpp_sensor \<Rightarrow> bool" where
  "lpp_matches field s =
     (case field of (ch, tc, value) \<Rightarrow> uint (lpp_channel s) = ch \<and> uint (lpp_type_id s) = tc
        \<and> (case lpp_value s of LppNumber r \<Rightarrow> \<bar>r - value\<bar> < lpp_step tc * (1 + 1 / 64) | _ \<Rightarrow> False))"

lemma add_field_bytes:
  assumes "map_of LPP_ENCODER_TYPES tc = Some (sz, m, sg)" and "lpp_in_range sz m sg value"
    and "add_field ch tc value = Inr bs"
  obtains raw where "bs = [word_of_int (ch AND 0xFF), word_of_int (tc AND 0xFF)] @ raw" and "length raw = sz"
    and "\<bar>of_int ((if sg then be_sint else be_int) raw) - value * of_int m\<bar> < 1 + 1 / 64"
proof -
  note t = encoder_types [OF assms(1)]
  let ?neg = "value < 0"
  let ?a = "\<bar>value\<bar>"
  have fm: "f32 (of_int m) = Inr (of_int m)" using t(5,6) by (rule f32_of_int)
  from assms(3) obtain x y where x: "f32 ?a = Inr x" and y: "f32 (x * of_int m) = Inr y"
    and bs: "bs = [word_of_int (ch AND 0xFF), word_of_int (tc AND 0xFF)] @ rev (le_bytes sz
       (if sg \<and> ?neg then (2 ^ (sz * 8) - 1 - (py_int y AND (2 ^ (sz * 8) - 1)) + 1) AND (2 ^ (sz * 8) - 1)
        else py_int y AND (2 ^ (sz * 8) - 1)))"
    by (auto simp: add_field_def assms(1) Let_def bind_res_eq_Inr fm abs_if simp del: le_bytes.simps split: if_splits)
  have small: "?a * of_int m \<le> 65536" and lim: "if sg then ?a * of_int m \<le> 2 ^ (8 * sz - 1) - 1 else \<not> ?neg \<and> ?a * of_int m \<le> 2 ^ (8 * sz) - 1"
    using assms(2) t(7) by (auto simp: lpp_in_range_def split: if_splits)
  have norm: "?a = 0 \<or> 1 / 10 ^ 6 \<le> ?a" using assms(2) by (auto simp: lpp_in_range_def)
  note c = f32_product_close [OF x y abs_ge_zero norm t(5) small]
  have v: "py_int y = \<lfloor>y\<rfloor>" "0 \<le> \<lfloor>y\<rfloor>" using c(2) by (simp_all add: py_int_def)
  define L where "L = (if sg then 2 ^ (8 * sz - 1) else 2 ^ (8 * sz) :: int)"
  have "?a * of_int m \<le> of_int L - 1" using lim by (auto simp: L_def split: if_splits)
  with c(1) have "y < of_int L" by linarith
  then have "\<lfloor>y\<rfloor> < L" by (simp add: floor_less_iff)
  then have "if sg then \<lfloor>y\<rfloor> < 2 ^ (8 * sz - 1) else \<lfloor>y\<rfloor> < 2 ^ (8 * sz) \<and> \<not> ?neg"
    using lim by (auto simp: L_def split: if_splits)
  from stored_field [OF v(2) this t(7)] have st: "(if sg then be_sint else be_int) (rev (le_bytes sz
       (if sg \<and> ?neg then (2 ^ (sz * 8) - 1 - (py_int y AND (2 ^ (sz * 8) - 1)) + 1) AND (2 ^ (sz * 8) - 1)
        else py_int y AND (2 ^ (sz * 8) - 1)))) = (if ?neg then - \<lfloor>y\<rfloor> else \<lfloor>y\<rfloor>)" unfolding v(1) .
  have "\<bar>of_int (if ?neg then - \<lfloor>y\<rfloor> else \<lfloor>y\<rfloor>) - value * of_int m\<bar> < 1 + 1 / 64"
  proof (cases ?neg)
    case True
    then have "?a * of_int m = - (value * of_int m)" by simp
    with c(1) have "\<bar>- of_int \<lfloor>y\<rfloor> - value * of_int m\<bar> < 1 + 1 / 64" by linarith
    with True show ?thesis by simp
  next
    case False
    then have "?a * of_int m = value * of_int m" by simp
    with c(1) have "\<bar>of_int \<lfloor>y\<rfloor> - value * of_int m\<bar> < 1 + 1 / 64" by linarith
    with False show ?thesis by simp
  qed
  note close = this [folded st]
  show thesis by (rule that [OF bs _ close]) (simp only: length_rev length_le_bytes)
qed

lemma lpp_field_decodes:
  assumes "lpp_field_ok (ch, tc, value)" and "add_field ch tc value = Inr bs"
  obtains s where "decode_cayenne_lpp (bs @ rest) = s # decode_cayenne_lpp rest" and "lpp_matches (ch, tc, value) s"
proof -
  obtain sz m sg where e: "map_of LPP_ENCODER_TYPES tc = Some (sz, m, sg)" and r: "lpp_in_range sz m sg value"
    and ch: "1 \<le> ch" "ch \<le> 255"
    using assms(1) by (auto simp: lpp_field_ok_def split: option.splits)
  from add_field_bytes [OF e r assms(2)] obtain raw where
    bs: "bs = [word_of_int (ch AND 0xFF), word_of_int (tc AND 0xFF)] @ raw" "length raw = sz"
    and v: "\<bar>of_int ((if sg then be_sint else be_int) raw) - value * of_int m\<bar> < 1 + 1 / 64" by blast
  note t = encoder_types [OF e]
  obtain name where name: "map_of LPP_TYPES tc = Some (name, sz, m, sg)" using t(1) by blast
  have u: "uint (word_of_int (ch AND 0xFF) :: byte) = ch" "uint (word_of_int (tc AND 0xFF) :: byte) = tc"
    using ch t(3,4) by (simp_all add: mask_simps uint_byte_of_int)
  define tid chb where "tid = (word_of_int (tc AND 0xFF) :: byte)" and "chb = (word_of_int (ch AND 0xFF) :: byte)"
  have ut: "uint tid = tc" "uint chb = ch" using u by (simp_all add: tid_def chb_def)
  have ne: "tid \<notin> {0x71, 0x86, 0x87, 0x88, 0xF0}" "chb \<noteq> 0" using t(2) ch by (auto simp: ut [symmetric])
  define k where "k = (if sg then be_sint else be_int) raw"
  have num: "lpp_read_value tid sz m sg raw = LppNumber (of_int k / of_int m)"
    using ne(1) by (simp add: lpp_read_value_def Let_def k_def)
  have "decode_cayenne_lpp (bs @ rest) = \<lparr>lpp_channel = chb, lpp_type = name, lpp_type_id = tid,
      lpp_value = LppNumber (of_int k / of_int m), lpp_raw_value = hex_str raw\<rparr> # decode_cayenne_lpp rest"
    unfolding bs(1) tid_def [symmetric] chb_def [symmetric]
    by (subst decode_cayenne_lpp.simps) (simp add: ne(2) ut name num bs(2))
  moreover have "\<bar>of_int k / of_int m - value\<bar> < lpp_step tc * (1 + 1 / 64)"
  proof -
    have m: "0 < (of_int m :: real)" using t(5) by simp
    have "of_int k / of_int m - value = (of_int k - value * of_int m) / of_int m" using m by (simp add: field_simps)
    also have "\<bar>\<dots>\<bar> = \<bar>of_int k - value * of_int m\<bar> / of_int m" using m by simp
    also have "\<dots> < (1 + 1 / 64) / of_int m" using v m unfolding k_def by (intro divide_strict_right_mono)
    finally show ?thesis by (simp add: lpp_step_def e)
  qed
  ultimately show thesis by (intro that) (auto simp: lpp_matches_def ut)
qed

lemma lpp_padding: "decode_cayenne_lpp (replicate n 0) = []"
proof (cases n)
  case (Suc k)
  then show ?thesis by (cases k) (simp_all add: decode_cayenne_lpp.simps)
qed (simp add: decode_cayenne_lpp.simps)

text \<open>
  C20: Telemetry survives the wire. Readings that fit their fields, encoded one after the other,
  with the zero padding that the block cipher adds at the end, decode to exactly one sensor per
  reading, in order, with its channel and type, and with a value less than 1.016 steps of that
  field away from the reading; the single-precision arithmetic of the encoder is included.
\<close>

theorem telemetry_roundtrip:
  assumes "list_all lpp_field_ok readings" and "map_res (\<lambda>(ch, tc, value). add_field ch tc value) readings = Inr parts"
  shows "list_all2 lpp_matches readings (decode_cayenne_lpp (concat parts @ replicate n 0))"
  using assms
proof (induction readings arbitrary: parts)
  case Nil
  then show ?case by (simp add: lpp_padding)
next
  case (Cons field readings)
  obtain ch tc r where field: "field = (ch, tc, r)" by (cases field)
  from Cons.prems obtain bs ps where bs: "add_field ch tc r = Inr bs"
    and ps: "map_res (\<lambda>(ch, tc, value). add_field ch tc value) readings = Inr ps" and parts: "parts = bs # ps"
    by (auto simp: field bind_res_eq_Inr)
  have "lpp_field_ok (ch, tc, r)" using Cons.prems by (simp add: field)
  from lpp_field_decodes [OF this bs] obtain s where
    "decode_cayenne_lpp (bs @ concat ps @ replicate n 0) = s # decode_cayenne_lpp (concat ps @ replicate n 0)"
    "lpp_matches (ch, tc, r) s" by blast
  with Cons.IH [OF _ ps] Cons.prems show ?case by (simp add: parts field)
qed

theorem telemetry_roundtrip_witness:
  "\<exists>parts. map_res (\<lambda>(ch, tc, value). add_field ch tc value) [(1, 0x74, 4), (2, 0x67, -5)] = Inr parts
     \<and> list_all2 lpp_matches [(1, 0x74, 4), (2, 0x67, -5)] (decode_cayenne_lpp (concat parts @ replicate 8 0))"
proof -
  have f: "f32 1 = Inr 1" "f32 4 = Inr 4" "f32 100 = Inr 100" "f32 400 = Inr 400" "f32 5 = Inr 5" "f32 10 = Inr 10" "f32 50 = Inr 50"
    using f32_of_int [of 1] f32_of_int [of 4] f32_of_int [of 100] f32_of_int [of 400] f32_of_int [of 5] f32_of_int [of 10]
      f32_of_int [of 50] by simp_all
  have "\<exists>bs. add_field 1 0x74 4 = Inr bs" "\<exists>bs. add_field 2 0x67 (-5) = Inr bs"
    by (simp_all add: add_field_def LPP_ENCODER_TYPES_def f Let_def)
  then obtain parts where p: "map_res (\<lambda>(ch, tc, value). add_field ch tc value) [(1, 0x74, 4), (2, 0x67, -5)] = Inr parts" by auto
  have "list_all lpp_field_ok [(1, 0x74, 4), (2, 0x67, -5)]"
    by (simp add: lpp_field_ok_def LPP_ENCODER_TYPES_def lpp_in_range_def)
  from telemetry_roundtrip [OF this p] p show ?thesis by blast
qed

end
