(* ===== verification/Response_Handler.thy ===== *)
theory Response_Handler
  imports Return_Path Telemetry
begin

text \<open>
  The client side of requests, \<open>node/handlers/protocol_response.py\<close>: opening RESPONSE and PATH
  packets, storing the route that a PATH carries, answering a flood PATH with a reciprocal one, and
  handing the response to the request that waits for it. The handler shares the contact book and
  the return-path teacher with the login handler (\<open>create_core_handlers\<close> in
  \<open>node/handlers/registry.py\<close>), so both keep their state in one record. What a call does beyond
  changing that state is a list of effects in the order in which the code causes them; a packet
  that the code hands to the event loop for sending is a job.
\<close>

section \<open>State\<close>

record 'cb client_state =
  cs_local_identity :: local_identity
  cs_book :: contact_store
  cs_teacher :: teacher
  cs_response_waiters :: "(bytes \<times> int, 'cb) dict"
  cs_binary_callback :: bool
  cs_packet_injector :: bool
  cs_path_updated :: "(bytes \<Rightarrow> int \<Rightarrow> bytes \<Rightarrow> unit res) option"
  cs_pending_logins :: "(bytes, 'cb) dict"
  cs_login_passwords :: "(byte, pystr) dict"
  cs_foreign_request_probe :: "(int \<Rightarrow> bytes \<Rightarrow> bool res) option"

definition create_client_state :: "local_identity \<Rightarrow> contact_store \<Rightarrow> int option \<Rightarrow> 'cb client_state" where
  "create_client_state identity book spreading_factor =
     \<lparr>cs_local_identity = identity, cs_book = book,
      cs_teacher = new_teacher identity (Some (Inr (opt_default RETURN_PATH_DEFAULT_SF spreading_factor))),
      cs_response_waiters = [], cs_binary_callback = False, cs_packet_injector = False, cs_path_updated = None,
      cs_pending_logins = [], cs_login_passwords = [], cs_foreign_request_probe = None\<rparr>"

definition set_packet_injector :: "bool \<Rightarrow> 'cb client_state \<Rightarrow> 'cb client_state" where
  "set_packet_injector injector st = st\<lparr>cs_packet_injector := injector, cs_teacher := set_injector injector (cs_teacher st)\<rparr>"

definition set_response_callback :: "bytes \<Rightarrow> int \<Rightarrow> 'cb \<Rightarrow> 'cb client_state \<Rightarrow> 'cb client_state" where
  "set_response_callback contact_pubkey request_tag callback st =
     st\<lparr>cs_response_waiters := AList.update (contact_pubkey, request_tag AND 0xFFFFFFFF) callback (cs_response_waiters st)\<rparr>"

definition clear_response_callback :: "bytes \<Rightarrow> int \<Rightarrow> 'cb client_state \<Rightarrow> 'cb client_state" where
  "clear_response_callback contact_pubkey request_tag st =
     st\<lparr>cs_response_waiters := AList.delete (contact_pubkey, request_tag AND 0xFFFFFFFF) (cs_response_waiters st)\<rparr>"

record reciprocal_job =
  rj_packet :: packet
  rj_contact_pubkey :: bytes
  rj_dest_hash :: byte
  rj_taught_path :: bytes
  rj_taught_len_byte :: int
  rj_out_path :: bytes
  rj_out_path_len :: int
  rj_shared_secret :: bytes
  rj_hash_key :: bytes

datatype 'cb client_effect =
    Respond 'cb parsed_response
  | BinaryResponseCallback bytes bytes "(int \<times> bytes \<times> int \<times> bytes \<times> bytes) option"
  | ContactPathUpdated bytes int bytes
  | QueueReciprocal reciprocal_job
  | ScheduleTeach teach_job
  | LoginCallback 'cb bool "int \<times> int \<times> int \<times> int \<times> int"
  | RecordLogin bytes int bool

section \<open>PATH payloads\<close>

text \<open>A decrypted PATH: encoded path length, path, type of the extra, extra.\<close>

definition split_path_payload :: "bytes \<Rightarrow> (int \<times> bytes \<times> int \<times> bytes) option" where
  "split_path_payload decrypted =
     (case decrypted of
        [] \<Rightarrow> None
      | b # rest \<Rightarrow>
          if \<not> is_valid_path_len (uint b) then None
          else let path_byte_len = nat (get_path_byte_len (uint b))
               in if length decrypted < 1 + path_byte_len + 1 then None
                  else Some (uint b, take path_byte_len rest, uint (rest ! path_byte_len) AND 0x0F,
                             drop (path_byte_len + 1) rest))"

definition update_contact_path :: "bytes \<Rightarrow> int \<Rightarrow> bytes \<Rightarrow> contact_store \<Rightarrow> contact_store \<times> bool" where
  "update_contact_path contact_pubkey path_len_byte out_path_bytes book =
     (case get_by_key contact_pubkey book of
        None \<Rightarrow> (book, False)
      | Some contact \<Rightarrow>
          (fst (ContactStore_update (contact\<lparr>ct_out_path_len := path_len_byte, ct_out_path := out_path_bytes\<rparr>) book), True))"

text \<open>The reciprocal PATH, built at once and sent later; an error drops it.\<close>

definition reciprocal_of ::
  "crypto \<Rightarrow> bytes \<Rightarrow> local_identity \<Rightarrow> byte \<Rightarrow> bytes \<Rightarrow> bytes \<Rightarrow> packet \<Rightarrow> int \<Rightarrow> bytes \<Rightarrow> reciprocal_job res" where
  "reciprocal_of c urandom4 local_identity src_hash contact_pubkey shared_secret pkt path_len_byte out_path_bytes =
     bind_res (calculate_packet_hash (cr_sha256 c) pkt) (\<lambda>hash_key.
     bind_res (teach_packet c urandom4 local_identity src_hash shared_secret (pk_path pkt) (pk_path_len pkt)
                 out_path_bytes path_len_byte) (\<lambda>reciprocal.
     Inr \<lparr>rj_packet = reciprocal, rj_contact_pubkey = contact_pubkey, rj_dest_hash = src_hash,
          rj_taught_path = pk_path pkt, rj_taught_len_byte = pk_path_len pkt, rj_out_path = out_path_bytes,
          rj_out_path_len = path_len_byte, rj_shared_secret = shared_secret, rj_hash_key = hash_key\<rparr>))"

definition send_reciprocal_path ::
  "crypto \<Rightarrow> bytes \<Rightarrow> byte \<Rightarrow> bytes \<Rightarrow> bytes \<Rightarrow> packet \<Rightarrow> int \<Rightarrow> bytes \<Rightarrow> 'cb client_state \<Rightarrow> 'cb client_effect list" where
  "send_reciprocal_path c urandom4 src_hash contact_pubkey shared_secret pkt path_len_byte out_path_bytes st =
     (if \<not> cs_packet_injector st then []
      else case reciprocal_of c urandom4 (cs_local_identity st) src_hash contact_pubkey shared_secret pkt path_len_byte out_path_bytes of
             Inr job \<Rightarrow> [QueueReciprocal job] | Inl _ \<Rightarrow> [])"

text \<open>
  The queued send. When the injector takes the packet (it neither raises nor returns False), the
  teach is noted; the correction is then
  scheduled, and is a separate operation of the teacher.
\<close>

definition dispatch_reciprocal :: "real \<Rightarrow> (packet \<Rightarrow> bool) \<Rightarrow> reciprocal_job \<Rightarrow> 'cb client_state \<Rightarrow> 'cb client_state \<times> packet option" where
  "dispatch_reciprocal now injector_ok job st =
     (if injector_ok (rj_packet job)
      then (st\<lparr>cs_teacher := note_evidence_teach now (rj_contact_pubkey job) (cs_teacher st)\<rparr>, Some (rj_packet job))
      else (st, None))"

definition reteach_after_reciprocal ::
  "crypto \<Rightarrow> real \<Rightarrow> bytes \<Rightarrow> (packet \<Rightarrow> bool) \<Rightarrow> reciprocal_job \<Rightarrow> 'cb client_state \<Rightarrow> 'cb client_state \<times> packet option" where
  "reteach_after_reciprocal c now urandom4 injector_ok job st =
     (let (t, sent) = maybe_reteach_better_copy c now urandom4 injector_ok (rj_contact_pubkey job) (rj_dest_hash job)
                        (rj_taught_path job) (rj_taught_len_byte job) (rj_out_path job) (rj_out_path_len job)
                        (rj_shared_secret job) (rj_hash_key job) (cs_teacher st)
      in (st\<lparr>cs_teacher := t\<rparr>, sent))"

section \<open>Opening a response\<close>

text \<open>The contacts whose key starts with the source hash, as \<open>_contacts_by_hash\<close> yields them.\<close>

definition contacts_by_hash :: "contact_store \<Rightarrow> byte \<Rightarrow> contact_proxy list" where
  "contacts_by_hash book contact_hash =
     filter (\<lambda>contact. case fromhex (cx_public_key contact) of Inr (b # _) \<Rightarrow> b = contact_hash | _ \<Rightarrow> False)
       (list_contacts book)"

record opened =
  op_parsed :: parsed_response
  op_decrypted :: bytes
  op_contact_pubkey :: bytes
  op_response_payload :: "bytes option"

text \<open>A PATH that opened: store its route, tell the application, answer it when it was flooded.\<close>

definition take_path ::
  "crypto \<Rightarrow> bytes \<Rightarrow> packet \<Rightarrow> byte \<Rightarrow> bytes \<Rightarrow> bytes \<Rightarrow> int \<Rightarrow> bytes \<Rightarrow> 'cb client_state \<Rightarrow>
   'cb client_state \<times> 'cb client_effect list res" where
  "take_path c urandom4 pkt src_hash contact_pubkey shared_secret path_len_byte out_path_bytes st =
     (let (book, updated) = update_contact_path contact_pubkey path_len_byte out_path_bytes (cs_book st);
          st = st\<lparr>cs_book := book\<rparr>;
          told = (case cs_path_updated st of
                    Some f \<Rightarrow> if updated then bind_res (f contact_pubkey path_len_byte out_path_bytes)
                                  (\<lambda>_. Inr [ContactPathUpdated contact_pubkey path_len_byte out_path_bytes])
                              else Inr []
                  | None \<Rightarrow> Inr [])
      in (st, bind_res told (\<lambda>effs.
                Inr (effs @ (if is_route_flood pkt
                     then send_reciprocal_path c urandom4 src_hash contact_pubkey shared_secret pkt path_len_byte out_path_bytes st
                     else [])))))"

text \<open>
  The candidates that decrypt, tried in order: one whose PATH is malformed is passed over, the
  first other one decides.
\<close>

fun open_response ::
  "crypto \<Rightarrow> unicode \<Rightarrow> real \<Rightarrow> bytes \<Rightarrow> packet \<Rightarrow> byte \<Rightarrow> (contact_proxy \<times> bytes \<times> bytes \<times> bytes) list \<Rightarrow> 'cb client_state \<Rightarrow>
   'cb client_state \<times> ('cb client_effect list \<times> opened option) res" where
  "open_response c u now urandom4 pkt src_hash [] st = (st, Inr ([], None))"
| "open_response c u now urandom4 pkt src_hash ((contact, pubkey, shared_secret, decrypted) # candidates) st =
     (if get_payload_type pkt = PAYLOAD_TYPE_PATH then
        (case split_path_payload decrypted of
           None \<Rightarrow> open_response c u now urandom4 pkt src_hash candidates st
         | Some (path_len_byte, out_path_bytes, extra_type, extra) \<Rightarrow>
             let is_response = (extra_type = PAYLOAD_TYPE_RESPONSE \<and> extra \<noteq> []);
                 response_data = (if is_response then extra else decrypted);
                 (st, effs) = take_path c urandom4 pkt src_hash pubkey shared_secret path_len_byte out_path_bytes st
             in (st, bind_res effs (\<lambda>effs. Inr (effs,
                   Some \<lparr>op_parsed = parse_protocol_response u response_data, op_decrypted = decrypted,
                         op_contact_pubkey = pubkey, op_response_payload = (if is_response then Some extra else None)\<rparr>))))
      else
        let (t, job) = (if get_payload_type pkt = PAYLOAD_TYPE_RESPONSE
                        then maybe_teach_from_flood_reply c now (cs_book st) pkt pubkey src_hash (Some shared_secret) (cs_teacher st)
                        else (cs_teacher st, Inr None));
            st = st\<lparr>cs_teacher := t\<rparr>
        in (st, bind_res job (\<lambda>job. Inr (case job of Some j \<Rightarrow> [ScheduleTeach j] | None \<Rightarrow> [],
              Some \<lparr>op_parsed = parse_protocol_response u decrypted, op_decrypted = decrypted, op_contact_pubkey = pubkey,
                    op_response_payload =
                      (if get_payload_type pkt = PAYLOAD_TYPE_RESPONSE then Some decrypted else None)\<rparr>))))"

definition decrypt_protocol_response ::
  "crypto \<Rightarrow> unicode \<Rightarrow> real \<Rightarrow> bytes \<Rightarrow> packet \<Rightarrow> byte \<Rightarrow> 'cb client_state \<Rightarrow>
   'cb client_state \<times> ('cb client_effect list \<times> opened option) res" where
  "decrypt_protocol_response c u now urandom4 pkt src_hash st =
     (let payload = get_payload pkt;
          encrypted_data = drop 2 payload
      in if length payload < 6 \<or> length encrypted_data < CIPHER_MAC_SIZE + (CIPHER_BLOCK_SIZE - 1) then (st, Inr ([], None))
         else open_response c u now urandom4 pkt src_hash
                (iter_decrypt_by_src_hash c (contacts_by_hash (cs_book st) src_hash) src_hash
                   (cs_local_identity st) encrypted_data) st)"

section \<open>Delivering it\<close>

definition response_path_info :: "packet \<Rightarrow> opened \<Rightarrow> (int \<times> bytes \<times> int \<times> bytes \<times> bytes) option" where
  "response_path_info pkt r =
     (if get_payload_type pkt \<noteq> PAYLOAD_TYPE_PATH then None
      else case split_path_payload (op_decrypted r) of
             None \<Rightarrow> None
           | Some (path_len_byte, out_path, _, _) \<Rightarrow>
               Some (path_len_byte, out_path, if pk_path pkt \<noteq> [] then pk_path_len pkt else 0, pk_path pkt, op_contact_pubkey r))"

definition deliver_response ::
  "packet \<Rightarrow> opened \<Rightarrow> 'cb client_state \<Rightarrow> 'cb client_state \<times> 'cb client_effect list" where
  "deliver_response pkt r st =
     (case op_response_payload r of
        None \<Rightarrow> (st, [])
      | Some response_payload \<Rightarrow>
          if length response_payload < 4 then (st, [])
          else
            let response_tag = le_int (take 4 response_payload);
                waiter = map_of (cs_response_waiters st) (op_contact_pubkey r, response_tag);
                st = st\<lparr>cs_response_waiters := AList.delete (op_contact_pubkey r, response_tag) (cs_response_waiters st)\<rparr>
            in case waiter of
                 Some callback \<Rightarrow> (st, [Respond callback (op_parsed r)])
               | None \<Rightarrow>
                   if \<not> cs_binary_callback st then (st, [])
                   else
                     let tag_bytes = take 4 response_payload;
                         response_data = drop 4 response_payload
                     in if length response_data = 9 \<and> response_data ! 0 \<in> {0x00, 0x01} then (st, [])
                        else (st, [BinaryResponseCallback tag_bytes response_data (response_path_info pkt r)]))"

definition ProtocolResponseHandler_call ::
  "crypto \<Rightarrow> unicode \<Rightarrow> real \<Rightarrow> bytes \<Rightarrow> packet \<Rightarrow> 'cb client_state \<Rightarrow>
   'cb client_state \<times> 'cb client_effect list \<times> bool" where
  "ProtocolResponseHandler_call c u now urandom4 pkt st =
     (case (pk_payload pkt, get_public_key (cs_local_identity st)) of
        (dest_hash # src_hash # rest, our_hash # _) \<Rightarrow>
          if length (pk_payload pkt) < 4 \<or> dest_hash \<noteq> our_hash then (st, [], False)
          else
            (case decrypt_protocol_response c u now urandom4 pkt src_hash st of
               (st, Inl e) \<Rightarrow> (st, [], False)
             | (st, Inr (effs, None)) \<Rightarrow> (st, effs, False)
             | (st, Inr (effs, Some r)) \<Rightarrow>
                 let (st, delivered) = deliver_response pkt r st
                 in (st, effs @ delivered, True))
      | _ \<Rightarrow> (st, [], False))"

end
