(* ===== verification/Login_Server.thy ===== *)
theory Login_Server
  imports Reply_Packets
begin

text \<open>
  The server side of logins, \<open>node/handlers/login_server.py\<close>: opening an anonymous request,
  reading the password out of it, asking the application, and building the 13-byte reply. The
  application's callbacks are functions of the handler's record; what a call does beyond its result
  is a list of effects in the order in which the code causes them. The clock, the random blob and
  the random padding are arguments.
\<close>

section \<open>State\<close>

definition RESP_SERVER_LOGIN_OK :: int where "RESP_SERVER_LOGIN_OK = 0x00"
definition FIRMWARE_VER_LEVEL :: byte where "FIRMWARE_VER_LEVEL = 2"
definition LOGIN_RESPONSE_DELAY_MS :: int where "LOGIN_RESPONSE_DELAY_MS = 300"

record login_server =
  ls_local_identity :: local_identity
  ls_authenticate :: "identity \<Rightarrow> bytes \<Rightarrow> pystr \<Rightarrow> int \<Rightarrow> int option \<Rightarrow> (bool \<times> int) res"
  ls_takes_sync_since :: bool
  ls_is_room_server :: bool
  ls_get_out_path :: "(identity \<Rightarrow> (bytes \<times> int) option res) option"
  ls_clear_out_path :: bool
  ls_send_packet_callback :: bool

datatype login_effect =
    Authenticate identity bytes pystr int "int option"
  | ClearOutPath identity
  | SendPacket packet int

section \<open>The reply\<close>

definition lookup_out_path :: "login_server \<Rightarrow> identity \<Rightarrow> (bytes \<times> int) option" where
  "lookup_out_path ls client_identity =
     (case ls_get_out_path ls of
        None \<Rightarrow> None
      | Some f \<Rightarrow>
          (case f client_identity of
             Inr (Some (path_bytes, path_len_encoded)) \<Rightarrow>
               if path_len_encoded < 0 \<or> \<not> is_valid_path_len path_len_encoded then None
               else let expected = nat (get_path_byte_len path_len_encoded)
                    in if length path_bytes < expected then None
                       else Some (take expected path_bytes, path_len_encoded)
           | _ \<Rightarrow> None))"

definition login_reply_data :: "real \<Rightarrow> int \<Rightarrow> int \<Rightarrow> int \<Rightarrow> bytes res" where
  "login_reply_data now blob response_code permissions =
     bind_res (pack_u 4 (py_int now)) (\<lambda>current_time.
     bind_res (to_byte response_code) (\<lambda>code.
     bind_res (to_byte permissions) (\<lambda>perms.
     bind_res (pack_u 4 blob) (\<lambda>random_blob.
     Inr (current_time @ [code, 0, if acl_is_admin permissions then 1 else 0, perms] @ random_blob
          @ [FIRMWARE_VER_LEVEL])))))"

text \<open>The reply packet before the width and the scope of the request are applied.\<close>

definition login_reply_packet ::
  "crypto \<Rightarrow> bytes \<Rightarrow> login_server \<Rightarrow> identity \<Rightarrow> bytes \<Rightarrow> bool \<Rightarrow> bytes \<Rightarrow> packet \<Rightarrow> packet res" where
  "login_reply_packet c urandom4 ls client_identity shared_secret is_flood reply_data original =
     (if is_flood then
        bind_res (index_res (get_public_key client_identity) 0) (\<lambda>client_hash.
        bind_res (index_res (get_public_key (ls_local_identity ls)) 0) (\<lambda>server_hash.
        let has_path = 0 < pk_path_len original;
            path_list = (if has_path then map uint (slice_to (Packet_get_path_byte_len original) (pk_path original)) else [])
        in create_path_return c urandom4 (uint client_hash) (uint server_hash) shared_secret path_list
             PAYLOAD_TYPE_RESPONSE reply_data (if has_path then Some (pk_path_len original) else None)))
      else
        case lookup_out_path ls client_identity of
          Some (path_bytes, path_len_encoded) \<Rightarrow>
            bind_res (create_datagram c PAYLOAD_TYPE_RESPONSE client_identity (ls_local_identity ls) shared_secret
                        reply_data (str ''direct'')) (\<lambda>response_pkt.
            with_path (take (nat MAX_PATH_SIZE) path_bytes) (Some path_len_encoded) response_pkt)
        | None \<Rightarrow>
            create_datagram c PAYLOAD_TYPE_RESPONSE client_identity (ls_local_identity ls) shared_secret
              reply_data (str ''flood''))"

definition login_reply ::
  "crypto \<Rightarrow> bytes \<Rightarrow> login_server \<Rightarrow> identity \<Rightarrow> bytes \<Rightarrow> bool \<Rightarrow> bytes \<Rightarrow> packet \<Rightarrow> packet res" where
  "login_reply c urandom4 ls client_identity shared_secret is_flood reply_data original =
     bind_res (login_reply_packet c urandom4 ls client_identity shared_secret is_flood reply_data original) (\<lambda>response_pkt.
     if is_route_flood response_pkt then
       bind_res (apply_path_hash_mode (request_hash_size (pk_path_len original) - 1) True response_pkt) (\<lambda>response_pkt.
       apply_reply_scope c response_pkt (Some original))
     else Inr response_pkt)"

definition send_login_response ::
  "crypto \<Rightarrow> real \<Rightarrow> int \<Rightarrow> bytes \<Rightarrow> login_server \<Rightarrow> identity \<Rightarrow> bytes \<Rightarrow> bool \<Rightarrow> int \<Rightarrow> int \<Rightarrow> packet \<Rightarrow> login_effect list" where
  "send_login_response c now blob urandom4 ls client_identity shared_secret is_flood response_code permissions original =
     (if \<not> ls_send_packet_callback ls then []
      else
        case login_reply_data now blob response_code permissions of
          Inl _ \<Rightarrow> []
        | Inr reply_data \<Rightarrow>
            (if is_flood \<and> ls_clear_out_path ls then [ClearOutPath client_identity] else [])
            @ (case login_reply c urandom4 ls client_identity shared_secret is_flood reply_data original of
                 Inr response_pkt \<Rightarrow> [SendPacket response_pkt LOGIN_RESPONSE_DELAY_MS]
               | Inl _ \<Rightarrow> []))"

section \<open>Handling a request\<close>

text \<open>The bytes from a position up to the next NUL or the end.\<close>

definition password_field :: "nat \<Rightarrow> bytes \<Rightarrow> bytes" where
  "password_field start plaintext = takeWhile (\<lambda>b. b \<noteq> 0) (drop start plaintext)"

definition login_request ::
  "crypto \<Rightarrow> real \<Rightarrow> int \<Rightarrow> bytes \<Rightarrow> login_server \<Rightarrow> packet \<Rightarrow> identity \<Rightarrow> bytes \<Rightarrow> bytes \<Rightarrow> login_effect list" where
  "login_request c now blob urandom4 ls packet client_identity shared_secret plaintext =
     (if length plaintext < 4 \<or> (ls_is_room_server ls \<and> length plaintext < 8) then []
      else
        let client_timestamp = le_int (take 4 plaintext);
            sync_since = (if ls_is_room_server ls then Some (le_int (take 4 (drop 4 plaintext))) else None);
            password_bytes = password_field (if ls_is_room_server ls then 8 else 4) plaintext
        in case utf8_decode Ignore password_bytes of
             Inl _ \<Rightarrow> []
           | Inr password \<Rightarrow>
               let passed_sync = (if ls_takes_sync_since ls then sync_since else None);
                   asked = Authenticate client_identity shared_secret password client_timestamp passed_sync
               in asked # (case ls_authenticate ls client_identity shared_secret password client_timestamp passed_sync of
                    Inr (True, permissions) \<Rightarrow>
                      send_login_response c now blob urandom4 ls client_identity shared_secret (is_route_flood packet)
                        RESP_SERVER_LOGIN_OK permissions packet
                  | _ \<Rightarrow> []))"

text \<open>Opening an anonymous request, which the login handler and its wrapper do alike.\<close>

definition open_anon_request :: "crypto \<Rightarrow> local_identity \<Rightarrow> packet \<Rightarrow> (identity \<times> bytes \<times> bytes) option" where
  "open_anon_request c local_identity packet =
     (let payload = pk_payload packet
      in if length payload < 34 then None
         else
           case bind_res (index_res (get_public_key local_identity) 0) (\<lambda>our_hash.
                if payload ! 0 \<noteq> our_hash then Inr None
                else bind_res (new_identity c (take 32 (drop 1 payload))) (\<lambda>client_identity.
                     bind_res (calc_shared_secret c client_identity (get_private_key local_identity)) (\<lambda>shared_secret.
                     bind_res (mac_then_decrypt c (take 16 shared_secret) shared_secret (drop 33 payload)) (\<lambda>plaintext.
                     Inr (Some (client_identity, shared_secret, plaintext)))))) of
             Inr r \<Rightarrow> r | Inl _ \<Rightarrow> None)"

definition LoginServerHandler_call ::
  "crypto \<Rightarrow> real \<Rightarrow> int \<Rightarrow> bytes \<Rightarrow> login_server \<Rightarrow> packet \<Rightarrow> handler_result \<times> login_effect list" where
  "LoginServerHandler_call c now blob urandom4 ls packet =
     (case open_anon_request c (ls_local_identity ls) packet of
        None \<Rightarrow> (not_for_us, [])
      | Some (client_identity, shared_secret, plaintext) \<Rightarrow>
          (consumed None, login_request c now blob urandom4 ls packet client_identity shared_secret plaintext))"

section \<open>The request that a client builds\<close>

lemma login_reply_data_fields:
  assumes "login_reply_data now blob code perms = Inr d"
  shows "length d = 13" and "le_int (take 4 d) = py_int now" and "uint (d ! 4) = code"
    and "d ! 6 = (if acl_is_admin perms then 1 else 0)" and "uint (d ! 7) = perms"
proof -
  from assms obtain t cd pm b where t: "pack_u 4 (py_int now) = Inr t" and cd: "code = uint cd" and pm: "perms = uint pm"
    and b: "pack_u 4 blob = Inr b" and d: "d = t @ [cd, 0, if acl_is_admin perms then 1 else 0, pm] @ b @ [FIRMWARE_VER_LEVEL]"
    by (auto simp: login_reply_data_def bind_res_eq_Inr to_byte_eq_Inr)
  have l: "length t = 4" "length b = 4" "le_int t = py_int now" using t b by (auto simp: res_simps byte_simps simp del: le_bytes.simps)
  show "length d = 13" "le_int (take 4 d) = py_int now" "uint (d ! 4) = code"
    "d ! 6 = (if acl_is_admin perms then 1 else 0)" "uint (d ! 7) = perms"
    using l by (simp_all add: d cd pm nth_append)
qed

lemma takeWhile_password:
  assumes "0 \<notin> set enc"
  shows "takeWhile (\<lambda>b. b \<noteq> 0) (enc @ replicate n 0) = (enc :: bytes)"
  using assms by (induction enc) (auto simp: takeWhile_eq_Nil_iff)

text \<open>What the anonymous request of a client holds when it comes up at the server.\<close>

lemma anon_payload_opens:
  assumes "crypto_laws c" and "identity_laws c"
    and "local_identity_of_seed c sa = Inr a" and "local_identity_of_seed c sb = Inr b"
    and "agreed c a b ss" and "length ss = 32" and "encrypt_then_mac c (take 16 ss) ss pt = Inr ct" and "pt \<noteq> []"
    and "hash_byte (get_public_key b) = Inr d" and "pk_payload q = d # get_public_key a @ ct"
  shows "\<exists>ca. new_identity c (get_public_key a) = Inr ca \<and> get_public_key ca = get_public_key a
    \<and> open_anon_request c b q = Some (ca, ss, pt @ replicate (block_pad (length pt)) 0)"
proof -
  note la = local_identity_of_seed_fields(2) [OF assms(2,3)]
  have k: "length (take 16 ss) \<in> {16, 24, 32}" using assms(6) by simp
  from encrypt_then_mac_ok [OF assms(1) k, of ss pt] assms(7) obtain cp where
    cp: "ct = take 2 (cr_hmac_sha256 c ss cp) @ cp" "length cp = length pt + block_pad (length pt)"
    "aes_decrypt c (take 16 ss) cp = Inr (pt @ replicate (block_pad (length pt)) 0)" by fastforce
  have "length (take 2 (cr_hmac_sha256 c ss cp)) = 2" using assms(1) by (simp add: crypto_laws_def)
  with cp assms(8) have dec: "mac_then_decrypt c (take 16 ss) ss ct = Inr (pt @ replicate (block_pad (length pt)) 0)"
    and lct: "2 < length ct" by (auto simp: mac_then_decrypt_iff)
  obtain ca where ca: "new_identity c (get_public_key a) = Inr ca" "calc_shared_secret c ca (get_private_key b) = Inr ss"
    using agreed_sym [OF assms(2-4), of ss] assms(5) by (auto simp: agreed_def)
  then have "get_public_key ca = get_public_key a" by (auto simp: new_identity_def get_public_key_def res_simps)
  moreover have "index_res (get_public_key b) 0 = Inr d" using assms(9) by (cases "get_public_key b") (simp_all add: hash_byte_def)
  ultimately show ?thesis using la lct ca dec by (auto simp: open_anon_request_def assms(10) Let_def)
qed

lemma login_packet_opens:
  assumes "crypto_laws c" and "identity_laws c"
    and "local_identity_of_seed c sa = Inr a" and "local_identity_of_seed c sb = Inr b"
    and "cx_public_key cb = hex_str (get_public_key b)"
    and "login_packet c cb a password ts = Inr p" and "pk_payload q = pk_payload p"
  obtains ca ss enc n where "new_identity c (get_public_key a) = Inr ca" and "agreed c a b ss" and "agreed c b a ss"
    and "length ss = 32" and "utf8_encode password = Inr enc" and "0 \<le> ts" and "ts < 2 ^ 32"
    and "open_anon_request c b q = Some (ca, ss, le_bytes 4 ts
           @ (if cx_type cb = CONTACT_TYPE_ROOM_SERVER then le_bytes 4 (cx_sync_since cb) else [])
           @ take 15 enc @ replicate n 0)"
    and "cx_type cb = CONTACT_TYPE_ROOM_SERVER \<longrightarrow> 0 \<le> cx_sync_since cb \<and> cx_sync_since cb < 2 ^ 32"
proof -
  let ?room = "cx_type cb = CONTACT_TYPE_ROOM_SERVER"
  let ?mid = "if ?room then le_bytes 4 (cx_sync_since cb) else []"
  note la = local_identity_of_seed_fields(2) [OF assms(2,3)] and lb = local_identity_of_seed_fields(2) [OF assms(2,4)]
  from assms(6) obtain enc pt ib ss pkt where enc: "utf8_encode password = Inr enc"
    and pt: "(if ?room then bind_res (pack_u 4 (cx_sync_since cb)) (\<lambda>s. pack_timestamp_data ts [PartBytes s, PartBytes (take 15 enc)])
               else pack_timestamp_data ts [PartBytes (take 15 enc)]) = Inr pt"
    and ib: "new_identity c (get_public_key b) = Inr ib" and ss: "calc_shared_secret c ib (get_private_key a) = Inr ss"
    and pkt: "create_anon_req c ib a ss pt (if cx_out_path_len cb < 0 then str ''flood'' else str ''direct'') = Inr pkt"
    and "(if 0 < cx_out_path_len cb \<and> cx_out_path cb \<noteq> [] then attach_contact_path (cx_out_path_len cb) (cx_out_path cb) pkt
           else Inr pkt) = Inr p"
    unfolding login_packet_def Let_def assms(5) fromhex_hex_str bind_res_simps by (elim bind_res_InrE) (rule that)
  then have same: "p = pkt \<or> (\<exists>n bs. attach_contact_path n bs pkt = Inr p)" by (auto split: if_splits)
  have ag: "agreed c a b ss" using ib ss lb by (simp add: agreed_def)
  then have ag': "agreed c b a ss" by (simp add: agreed_sym [OF assms(2-4)])
  have l: "length ss = 32" using ss assms(2) by (auto simp: calc_shared_secret_def scalarmult_def identity_laws_def)
  have ptf: "pt = le_bytes 4 ts @ ?mid @ take 15 enc" "0 \<le> ts" "ts < 2 ^ 32"
    "?room \<Longrightarrow> 0 \<le> cx_sync_since cb \<and> cx_sync_since cb < 2 ^ 32"
    using pt by (auto simp: pack_timestamp_data_def part_bytes_def res_simps simp del: le_bytes.simps split: if_splits)
  have pubb: "get_public_key ib = get_public_key b" using ib by (auto simp: new_identity_def get_public_key_def res_simps)
  from pkt obtain d ct q0 where d: "hash_byte (get_public_key b) = Inr d" and ct: "encrypt_then_mac c (take 16 ss) ss pt = Inr ct"
    and pay: "pk_payload pkt = d # get_public_key a @ ct"
    by (auto simp: create_anon_req_def Let_def res_simps pubb create_packet_def)
  have "pk_payload p = pk_payload pkt" using same with_path_fields(1)
    by (fastforce simp: attach_contact_path_def Let_def split: if_splits)
  with pay assms(7) have payq: "pk_payload q = d # get_public_key a @ ct" by simp
  have "pt \<noteq> []" using ptf(1) by (auto dest: arg_cong [where f = length])
  from anon_payload_opens [OF assms(1-4) ag l ct this d payq] obtain ca where ca: "new_identity c (get_public_key a) = Inr ca"
    "open_anon_request c b q = Some (ca, ss, pt @ replicate (block_pad (length pt)) 0)" by blast
  with ag ag' l enc ptf show thesis by (intro that [of ca ss enc "block_pad (length pt)"]) simp_all
qed

definition toy_login_server :: login_server where
  "toy_login_server = \<lparr>ls_local_identity = toy_node 2,
     ls_authenticate = (\<lambda>_ _ password _ _. Inr (password = str ''hello'', if password = str ''hello'' then 3 else 0)),
     ls_takes_sync_since = True, ls_is_room_server = False, ls_get_out_path = None, ls_clear_out_path = True,
     ls_send_packet_callback = True\<rparr>"

end
