(* ===== verification/Login_Response.thy ===== *)
theory Login_Response
  imports Response_Handler Login_Server
begin

text \<open>
  The client side of logins, \<open>node/handlers/login_response.py\<close>, and the PATH handler of
  \<open>node/handlers/path.py\<close>, which offers a PATH packet to the response, login and ACK handlers in
  turn. Both work on the state that the response handler keeps.
\<close>

section \<open>Login replies\<close>

definition LOGIN_ADMIN_CODE_ADMIN :: int where "LOGIN_ADMIN_CODE_ADMIN = 1"
definition CLIENT_LOGIN_OK :: int where "CLIENT_LOGIN_OK = 0x80"
definition RESP_SERVER_LOGIN_SUCCESS_ALT :: int where "RESP_SERVER_LOGIN_SUCCESS_ALT = 0x00"

record login_data =
  ld_timestamp :: int
  ld_response_code :: int
  ld_keep_alive_interval :: int
  ld_is_admin :: bool
  ld_admin_code :: int
  ld_permissions :: int
  ld_acl_role :: int
  ld_random_blob :: bytes
  ld_firmware_ver_level :: "int option"

definition register_login_callback :: "bytes \<Rightarrow> 'cb \<Rightarrow> 'cb client_state \<Rightarrow> 'cb client_state" where
  "register_login_callback pubkey callback st =
     st\<lparr>cs_pending_logins := AList.update pubkey callback (cs_pending_logins st)\<rparr>"

definition remove_login_callback :: "bytes \<Rightarrow> 'cb \<Rightarrow> 'cb client_state \<Rightarrow> 'cb client_state" where
  "remove_login_callback pubkey callback st =
     (if map_of (cs_pending_logins st) pubkey = Some callback
      then st\<lparr>cs_pending_logins := AList.delete pubkey (cs_pending_logins st)\<rparr> else st)"

definition store_login_password :: "byte \<Rightarrow> pystr \<Rightarrow> 'cb client_state \<Rightarrow> 'cb client_state" where
  "store_login_password dest_hash password st =
     st\<lparr>cs_login_passwords := AList.update dest_hash password (cs_login_passwords st)\<rparr>"

definition clear_login_password :: "byte \<Rightarrow> 'cb client_state \<Rightarrow> 'cb client_state" where
  "clear_login_password dest_hash st = st\<lparr>cs_login_passwords := AList.delete dest_hash (cs_login_passwords st)\<rparr>"

definition parse_login_reply :: "bytes \<Rightarrow> login_data option" where
  "parse_login_reply plaintext =
     (if length plaintext < 12 then None
      else
        let permissions = uint (plaintext ! 7);
            admin_code = uint (plaintext ! 6)
        in Some \<lparr>ld_timestamp = le_int (take 4 plaintext), ld_response_code = uint (plaintext ! 4),
                 ld_keep_alive_interval = uint (plaintext ! 5), ld_is_admin = (admin_code = LOGIN_ADMIN_CODE_ADMIN),
                 ld_admin_code = admin_code, ld_permissions = permissions, ld_acl_role = acl_role permissions,
                 ld_random_blob = take 4 (drop 8 plaintext),
                 ld_firmware_ver_level = (if 13 \<le> length plaintext then Some (uint (plaintext ! 12)) else None)\<rparr>)"

text \<open>Whether the packet authenticates for a contact, and what login reply it holds.\<close>

definition decrypt_response :: "crypto \<Rightarrow> local_identity \<Rightarrow> packet \<Rightarrow> nat \<Rightarrow> contact_proxy \<Rightarrow> bool \<times> login_data option" where
  "decrypt_response c local_identity packet encrypted_start contact =
     (case bind_res (fromhex (cx_public_key contact)) (\<lambda>contact_pubkey.
           bind_res (new_identity c contact_pubkey) (\<lambda>contact_identity.
           bind_res (calc_shared_secret c contact_identity (get_private_key local_identity)) (\<lambda>shared_secret.
           mac_then_decrypt c (take 16 shared_secret) shared_secret (drop encrypted_start (pk_payload packet))))) of
        Inl _ \<Rightarrow> (False, None)
      | Inr plaintext \<Rightarrow>
          if plaintext = [] then (False, None)
          else if get_payload_type packet = PAYLOAD_TYPE_PATH then
            (case split_path_payload plaintext of
               None \<Rightarrow> (False, None)
             | Some (_, _, extra_type, extra) \<Rightarrow>
                 if extra_type \<noteq> PAYLOAD_TYPE_RESPONSE \<or> extra = [] then (True, None)
                 else (True, parse_login_reply extra))
          else (True, parse_login_reply plaintext))"

fun find_login_contact ::
  "crypto \<Rightarrow> local_identity \<Rightarrow> packet \<Rightarrow> nat \<Rightarrow> contact_proxy list \<Rightarrow> (contact_proxy \<times> login_data option) option" where
  "find_login_contact c local_identity packet encrypted_start [] = None"
| "find_login_contact c local_identity packet encrypted_start (contact # candidates) =
     (case decrypt_response c local_identity packet encrypted_start contact of
        (True, response_data) \<Rightarrow> Some (contact, response_data)
      | (False, _) \<Rightarrow> find_login_contact c local_identity packet encrypted_start candidates)"

definition login_candidates :: "contact_store \<Rightarrow> byte \<Rightarrow> contact_proxy list" where
  "login_candidates book lookup_hash =
     filter (\<lambda>contact. case fromhex (cx_public_key contact) of
               Inr pk \<Rightarrow> length pk = 32 \<and> hd pk = lookup_hash | Inl _ \<Rightarrow> False) (Contact_Store.contacts book)"

definition has_pending_login_for_hash :: "byte \<Rightarrow> 'cb client_state \<Rightarrow> bool" where
  "has_pending_login_for_hash lookup_hash st =
     (lookup_hash \<in> set (dict_keys (cs_login_passwords st))
      \<or> list_ex (\<lambda>key. key \<noteq> [] \<and> hd key = lookup_hash) (dict_keys (cs_pending_logins st)))"

definition is_foreign_request_reply :: "login_data option \<Rightarrow> bytes \<Rightarrow> 'cb client_state \<Rightarrow> bool" where
  "is_foreign_request_reply response_data pubkey st =
     (case (cs_foreign_request_probe st, response_data) of
        (Some probe, Some d) \<Rightarrow> (case probe (ld_timestamp d AND 0xFFFFFFFF) pubkey of Inr b \<Rightarrow> b | Inl _ \<Rightarrow> False)
      | _ \<Rightarrow> False)"

definition forward_to_protocol_handler ::
  "crypto \<Rightarrow> unicode \<Rightarrow> real \<Rightarrow> bytes \<Rightarrow> packet \<Rightarrow> 'cb client_state \<Rightarrow> 'cb client_state \<times> 'cb client_effect list \<times> bool" where
  "forward_to_protocol_handler c u now urandom4 packet st =
     (if get_payload_type packet = PAYLOAD_TYPE_PATH then (st, [], False)
      else ProtocolResponseHandler_call c u now urandom4 packet st)"

definition process_login_response :: "login_data \<Rightarrow> bytes \<Rightarrow> 'cb client_state \<Rightarrow> 'cb client_effect list" where
  "process_login_response d pubkey st =
     (let success = (ld_response_code d \<in> {CLIENT_LOGIN_OK, RESP_SERVER_LOGIN_SUCCESS_ALT})
      in (if success then [RecordLogin pubkey (ld_timestamp d) (ld_is_admin d)] else [])
         @ (case map_of (cs_pending_logins st) pubkey of
              Some callback \<Rightarrow> [LoginCallback callback success
                (ld_timestamp d, ld_response_code d, ld_admin_code d, ld_permissions d, ld_acl_role d)]
            | None \<Rightarrow> []))"

definition LoginResponseHandler_call ::
  "crypto \<Rightarrow> unicode \<Rightarrow> real \<Rightarrow> bytes \<Rightarrow> packet \<Rightarrow> 'cb client_state \<Rightarrow>
   ('cb client_state \<times> 'cb client_effect list \<times> bool) res" where
  "LoginResponseHandler_call c u now urandom4 packet st =
     (let payload = pk_payload packet; li = cs_local_identity st
      in if length payload < 4 then Inr (st, [], False)
         else
           let anon = (34 \<le> length payload \<and> take 32 (drop 1 payload) = get_public_key li);
               dest_hash = payload ! 0;
               encrypted_start = (if anon then 33 else 2);
               lookup_hash = (if anon then dest_hash else payload ! 1)
           in bind_res (index_res (get_public_key li) 0) (\<lambda>our_hash.
              if dest_hash \<noteq> our_hash then Inr (st, [], False)
              else if \<not> has_pending_login_for_hash lookup_hash st
              then Inr (forward_to_protocol_handler c u now urandom4 packet st)
              else
                case find_login_contact c li packet encrypted_start (login_candidates (cs_book st) lookup_hash) of
                  None \<Rightarrow> Inr (st, [], False)
                | Some (contact, response_data) \<Rightarrow>
                    bind_res (fromhex (cx_public_key contact)) (\<lambda>pubkey.
                    if is_foreign_request_reply response_data pubkey st \<or> map_of (cs_pending_logins st) pubkey = None
                    then Inr (forward_to_protocol_handler c u now urandom4 packet st)
                    else
                      let (t, job) = (if get_payload_type packet = PAYLOAD_TYPE_RESPONSE
                            then maybe_teach_from_flood_reply c now (cs_book st) packet pubkey lookup_hash None (cs_teacher st)
                            else (cs_teacher st, Inr None));
                          st = st\<lparr>cs_teacher := t\<rparr>
                      in bind_res job (\<lambda>job.
                         let effs = (case job of Some j \<Rightarrow> [ScheduleTeach j] | None \<Rightarrow> [])
                         in case response_data of
                              None \<Rightarrow> Inr (st, effs, True)
                            | Some d \<Rightarrow>
                                Inr (clear_login_password lookup_hash st, effs @ process_login_response d pubkey st, True)))))"

section \<open>PATH packets\<close>

text \<open>
  The three sub-handlers in order; an error in one of them ends the call, and what was established
  before it stands. Whether the call consumed the packet, and the ACK that it carried.
\<close>

definition PathHandler_call ::
  "crypto \<Rightarrow> unicode \<Rightarrow> real \<Rightarrow> bytes \<Rightarrow> packet \<Rightarrow> 'cb client_state \<Rightarrow>
   'cb client_state \<times> 'cb client_effect list \<times> int option \<times> bool" where
  "PathHandler_call c u now urandom4 pkt st =
     (let (st, effs, authenticated) = ProtocolResponseHandler_call c u now urandom4 pkt st
      in case LoginResponseHandler_call c u now urandom4 pkt st of
           Inl _ \<Rightarrow> (st, effs, None, authenticated)
         | Inr (st, effs', authenticated') \<Rightarrow>
             let ack_crc = process_path_ack_variants c (Some (cs_local_identity st))
                             (Some (Contact_Store.contacts (cs_book st))) pkt
             in (st, effs @ effs', ack_crc, authenticated \<or> authenticated' \<or> ack_crc \<noteq> None))"

end
