(* ===== verification/Session.thy ===== *)
theory Session
  imports Request_Handler Login_Response
begin

text \<open>
  Sessions between two nodes: a request with its response, a login with its reply, and a taught
  route, each followed from the node that builds the packet through the handlers of the other node
  and back. The packets may take any route in between; the statements only ask that a packet comes
  up with the payload it was sent with.
\<close>

section \<open>Packets that carry a reply\<close>

definition carries_reply :: "crypto \<Rightarrow> bytes \<Rightarrow> packet \<Rightarrow> bytes \<Rightarrow> byte \<Rightarrow> byte \<Rightarrow> bytes \<Rightarrow> bool" where
  "carries_reply c ss r data d s route \<longleftrightarrow>
     (\<exists>ct n. pk_payload r = [d, s] @ ct \<and> 17 \<le> length ct
       \<and> (get_payload_type r = PAYLOAD_TYPE_RESPONSE
            \<and> mac_then_decrypt c (take 16 ss) ss ct = Inr (data @ replicate n 0) \<and> n = block_pad (length data)
          \<or> get_payload_type r = PAYLOAD_TYPE_PATH
            \<and> (\<exists>plen. mac_then_decrypt c (take 16 ss) ss ct
                  = Inr (word_of_int plen # route @ word_of_int PAYLOAD_TYPE_RESPONSE # data @ replicate n 0)
                \<and> is_valid_path_len plen \<and> 0 \<le> plen \<and> plen < 256 \<and> int (length route) = get_path_byte_len plen)))"

lemma carries_reply_cong:
  "carries_reply c ss r data d s route \<Longrightarrow> pk_payload q = pk_payload r \<Longrightarrow> get_payload_type q = get_payload_type r \<Longrightarrow>
   carries_reply c ss q data d s route"
  by (simp add: carries_reply_def)

lemma padded_ge_16: "0 < n \<Longrightarrow> 16 \<le> n + block_pad n"
  using block_pad_aligned [of n] by (auto elim!: dvdE)

lemma carries_pathI:
  assumes "pk_payload r = [d, s] @ ct" and "17 \<le> length ct" and "get_payload_type r = PAYLOAD_TYPE_PATH"
    and "mac_then_decrypt c (take 16 ss) ss ct = Inr (word_of_int plen # route @ word_of_int PAYLOAD_TYPE_RESPONSE # data @ replicate n 0)"
    and "is_valid_path_len plen" and "0 \<le> plen" and "plen < 256" and "int (length route) = get_path_byte_len plen"
  shows "carries_reply c ss r data d s route"
  unfolding carries_reply_def
  by (rule exI [of _ ct], rule exI [of _ n]) (intro conjI disjI2 exI [of _ plen] assms)

lemma carries_responseI:
  assumes "pk_payload r = [d, s] @ ct" and "17 \<le> length ct" and "get_payload_type r = PAYLOAD_TYPE_RESPONSE"
    and "mac_then_decrypt c (take 16 ss) ss ct = Inr (data @ replicate n 0)" and "n = block_pad (length data)"
  shows "carries_reply c ss r data d s route"
  unfolding carries_reply_def
  by (rule exI [of _ ct], rule exI [of _ n]) (intro conjI disjI1 assms)

lemma path_return_carries:
  assumes "crypto_laws c" and "length ss = 32" and "data \<noteq> []"
    and "create_path_return c urandom4 (uint d) (uint s) ss (map uint path) PAYLOAD_TYPE_RESPONSE data (Some plen) = Inr q"
  shows "carries_reply c ss q data d s path"
proof -
  from path_return_opens [OF assms(1-4)] obtain ct n where o: "pk_payload q = [d, s] @ ct" "get_payload_type q = PAYLOAD_TYPE_PATH"
    "mac_then_decrypt c (take 16 ss) ss ct = Inr (word_of_int plen # path @ word_of_int PAYLOAD_TYPE_RESPONSE # data @ replicate n 0)"
    "is_valid_path_len plen" "int (length path) = get_path_byte_len plen" "0 \<le> plen" "plen < 256" by blast
  from assms(3,4) obtain m ct' where ct': "encrypt_then_mac c (take 16 ss) ss m = Inr ct'" "m \<noteq> []" "pk_payload q = [d, s] @ ct'"
    by (auto simp: create_path_return_def Let_def res_simps create_packet_def split: if_splits)
  have k: "length (take 16 ss) \<in> {16, 24, 32}" using assms(2) by simp
  have "length ct' = 2 + length m + block_pad (length m)" by (rule length_encrypt_then_mac [OF assms(1) k ct'(1)])
  with ct'(2,3) o(1) padded_ge_16 [of "length m"] have "17 \<le> length ct" by simp
  from carries_pathI [OF o(1) this o(2,3,4,6,7,5)] show ?thesis .
qed

lemma datagram_carries:
  assumes "crypto_laws c" and "length ss = 32" and "data \<noteq> []"
    and "create_datagram c PAYLOAD_TYPE_RESPONSE dest li ss data rt = Inr p"
    and "get_public_key dest = d # ds" and "get_public_key li = s # sl"
  shows "carries_reply c ss p data d s route" and "get_route_type p = get_route_type_value rt False"
proof -
  obtain d' s' ct n where h: "hash_byte (get_public_key dest) = Inr d'" "hash_byte (get_public_key li) = Inr s'"
    and o': "pk_payload p = [d', s'] @ ct" and o0: "get_payload_type p = PAYLOAD_TYPE_RESPONSE"
    "mac_then_decrypt c (take 16 ss) ss ct = Inr (data @ replicate n 0)"
    "length ct = 2 + length data + block_pad (length data)" "get_route_type p = get_route_type_value rt False" "n = block_pad (length data)"
    by (rule datagram_opens [OF assms(1,2,4,3)])
  have "pk_payload p = [d, s] @ ct" using h o' assms(5,6) by (simp add: hash_byte_def)
  note o = this o0
  have "17 \<le> length ct" using o(4) padded_ge_16 [of "length data"] assms(3) by simp
  from carries_responseI [OF o(1) this o(2,3,6)] show "carries_reply c ss p data d s route" .
  show "get_route_type p = get_route_type_value rt False" by (rule o(5))
qed

text \<open>Width and scope of the request leave the reply as it is.\<close>

lemma reply_finish:
  assumes "crypto_laws c" and "carries_reply c ss p data d s route" and "0 \<le> pk_path_len q"
    and "\<And>k. pk_recv_region_key q = Some k \<Longrightarrow> length k = 16"
  shows "\<exists>r. bind_res (apply_path_hash_mode (request_hash_size (pk_path_len q) - 1) True p)
               (\<lambda>r. apply_reply_scope c r (Some q)) = Inr r \<and> carries_reply c ss r data d s route"
proof -
  obtain p' where p': "apply_path_hash_mode (request_hash_size (pk_path_len q) - 1) True p = Inr p'"
    using apply_path_hash_mode_total [OF request_hash_size_mode [OF assms(3)]] by blast
  obtain r where r: "apply_reply_scope c p' (Some q) = Inr r" using apply_reply_scope_total [OF assms(1,4)] by blast
  have "carries_reply c ss r data d s route"
    by (rule carries_reply_cong [OF assms(2)])
      (simp_all add: apply_reply_scope_keeps [OF r] apply_path_hash_mode_keeps [OF p'])
  with p' r show ?thesis by simp
qed

lemma with_path_carries:
  assumes "carries_reply c ss p data d s route"
  shows "\<exists>r. with_path bs (Some e) p = Inr r \<and> carries_reply c ss r data d s route \<and> get_route_type r = get_route_type p"
proof -
  have "with_path bs (Some e) p = Inr (p\<lparr>pk_path := bs, pk_path_len := e\<rparr>)" by (simp add: with_path_def set_path_def)
  then show ?thesis using carries_reply_cong [OF assms, of "p\<lparr>pk_path := bs, pk_path_len := e\<rparr>"]
    by (auto simp: get_payload_type_def get_route_type_def)
qed

section \<open>The server's reply to a request\<close>

lemma sendable_route_bytes:
  assumes "sendable q"
  shows "is_valid_path_len (pk_path_len q)" and "0 \<le> pk_path_len q" and "int (length (pk_path q)) = get_path_byte_len (pk_path_len q)"
  using assms by (simp_all add: sendable_def writable_def lengths_ok_def packet_path_defs)

lemma build_response_carries:
  assumes "crypto_laws c" and "length ss = 32" and "sendable q" and "\<And>k. pk_recv_region_key q = Some k \<Longrightarrow> length k = 16"
    and "client_public_key c client = Inr ci" and "get_public_key ci = d # ds" and "get_public_key b = s # sl"
    and "data \<noteq> []" and "length data \<le> 97"
  shows "\<exists>r. build_response c urandom4 b q client data ss = Some r \<and> carries_reply c ss r data d s (pk_path q)"
proof (cases "is_route_flood q")
  case True
  note pl = sendable_route_bytes [OF assms(3)]
  have sl: "(if get_path_byte_len (pk_path_len q) \<noteq> 0 then map uint (slice_to (get_path_byte_len (pk_path_len q)) (pk_path q)) else [])
      = map uint (pk_path q)" unfolding pl(3) [symmetric] by simp
  have et: "0 \<le> PAYLOAD_TYPE_RESPONSE" "PAYLOAD_TYPE_RESPONSE < 256" by (simp_all add: payload_type_defs)
  obtain p where p: "create_path_return c urandom4 (uint d) (uint s) ss (map uint (pk_path q)) PAYLOAD_TYPE_RESPONSE data
      (Some (pk_path_len q)) = Inr p"
    using path_return_total [OF assms(1,2) pl assms(8,9) et] by blast
  from reply_finish [OF assms(1) path_return_carries [OF assms(1,2,8) p] pl(2) assms(4)] obtain r where
    "bind_res (apply_path_hash_mode (request_hash_size (pk_path_len q) - 1) True p) (\<lambda>r. apply_reply_scope c r (Some q)) = Inr r"
    and cr: "carries_reply c ss r data d s (pk_path q)" by blast
  with p have "flood_path_return c urandom4 d s ss data q = Inr r"
    unfolding flood_path_return_def Let_def if_P [OF pl(1)] sl by simp
  with True cr assms(5-7) show ?thesis by (simp add: build_response_def)
next
  case False
  have "length data \<le> 176" using assms(9) by simp
  then have dg: "\<exists>p. create_datagram c PAYLOAD_TYPE_RESPONSE ci b ss data rt = Inr p" for rt
    by (intro datagram_total [OF assms(1,2)]) (simp_all add: assms(6,7))
  show ?thesis
  proof (cases "client_out_path client")
    case None
    obtain p where p: "create_datagram c PAYLOAD_TYPE_RESPONSE ci b ss data (str ''flood'') = Inr p" using dg by blast
    from reply_finish [OF assms(1) datagram_carries(1) [OF assms(1,2,8) p assms(6,7)] sendable_route_bytes(2) [OF assms(3)] assms(4)]
    obtain r where "bind_res (apply_path_hash_mode (request_hash_size (pk_path_len q) - 1) True p)
        (\<lambda>r. apply_reply_scope c r (Some q)) = Inr r" "carries_reply c ss r data d s (pk_path q)" by blast
    with None False p assms(5-7) show ?thesis by (simp add: build_response_def)
  next
    case (Some pe)
    obtain bs e where pe: "pe = (bs, e)" by (cases pe)
    obtain p where p: "create_datagram c PAYLOAD_TYPE_RESPONSE ci b ss data (str ''direct'') = Inr p" using dg by blast
    from with_path_carries [OF datagram_carries(1) [OF assms(1,2,8) p assms(6,7)], of bs e] obtain r where
      "with_path bs (Some e) p = Inr r" "carries_reply c ss r data d s (pk_path q)" by blast
    with Some False p assms(5-7) pe show ?thesis by (simp add: build_response_def)
  qed
qed

section \<open>The reply at the client\<close>

lemma split_path_payload_of:
  assumes "is_valid_path_len plen" "0 \<le> plen" "plen < 256" "int (length route) = get_path_byte_len plen"
  shows "split_path_payload (word_of_int plen # route @ b # rest) = Some (plen, route, uint b AND 0x0F, rest)"
proof -
  have "uint (word_of_int plen :: byte) = plen" using assms(2,3) by (rule uint_byte_of_int)
  moreover have "nat (get_path_byte_len plen) = length route" using assms(4) by simp
  ultimately show ?thesis using assms(1) by (simp add: split_path_payload_def Let_def)
qed

text \<open>A client whose contact book has the peer, with no earlier contact of the same hash.\<close>

definition knows_peer :: "contact_store \<Rightarrow> bytes \<Rightarrow> bool" where
  "knows_peer book key \<longleftrightarrow> length key = 32 \<and> (\<exists>us x vs. list_contacts book = us @ x # vs
     \<and> hash_clear us key \<and> cx_public_key x = hex_str key)"

lemma contact_list_found:
  assumes "list_contacts book = us @ x # vs" "hash_clear us key" "cx_public_key x = hex_str key" "key \<noteq> []"
    and "text_try c a ct x = Some (ss, dec)"
  shows "\<exists>more. iter_decrypt_by_src_hash c (contacts_by_hash book (hd key)) (hd key) a ct = (x, key, ss, dec) # more"
proof -
  let ?P = "\<lambda>contact. case fromhex (cx_public_key contact) of Inr (b # _) \<Rightarrow> b = hd key | _ \<Rightarrow> False"
  have "?P x" using assms(3,4) by (cases key) simp_all
  then have "contacts_by_hash book (hd key) = filter ?P us @ x # filter ?P vs" by (simp add: contacts_by_hash_def assms(1))
  moreover have "hash_clear (filter ?P us) key" using assms(2) by (auto simp: hash_clear_def list_all_iff)
  ultimately show ?thesis using iter_decrypt_first [OF _ assms(3,5)] by simp
qed

lemma peer_found:
  assumes "knows_peer book key" and "agreed c a b ss" and "key = get_public_key b"
    and "mac_then_decrypt c (take 16 ss) ss ct = Inr dec"
  shows "\<exists>x more. iter_decrypt_by_src_hash c (contacts_by_hash book (hd key)) (hd key) a ct = (x, key, ss, dec) # more"
proof -
  obtain us x vs where x: "list_contacts book = us @ x # vs" "hash_clear us key" "cx_public_key x = hex_str key"
    and "length key = 32" using assms(1) unfolding knows_peer_def by blast
  then have ne: "key \<noteq> []" by auto
  have "text_try c a ct x = Some (ss, dec)" using x(3) assms(3) by (intro text_try_agreed [OF assms(2) _ assms(4)]) simp
  from contact_list_found [OF x ne this] show ?thesis by blast
qed

text \<open>The application's callback on a changed path does not raise.\<close>

definition path_callback_ok :: "'cb client_state \<Rightarrow> bool" where
  "path_callback_ok st = (case cs_path_updated st of None \<Rightarrow> True | Some f \<Rightarrow> \<forall>key n path. f key n path = Inr ())"

lemma take_path_ok:
  assumes "path_callback_ok st"
  obtains effs where "take_path c urandom4 pkt src key ss plen route st
      = (st\<lparr>cs_book := fst (update_contact_path key plen route (cs_book st))\<rparr>, Inr effs)"
proof -
  have "\<exists>effs. take_path c urandom4 pkt src key ss plen route st
      = (st\<lparr>cs_book := fst (update_contact_path key plen route (cs_book st))\<rparr>, Inr effs)"
    using assms by (cases "update_contact_path key plen route (cs_book st)")
      (auto simp: take_path_def Let_def path_callback_ok_def split: option.splits)
  with that show thesis by blast
qed

lemma teach_decision_total:
  assumes "get_payload_type pkt \<noteq> PAYLOAD_TYPE_TRACE"
  obtains t job where "maybe_teach_from_flood_reply c now book pkt key src ss t0 = (t, Inr job)"
proof -
  obtain h where "calculate_packet_hash (cr_sha256 c) pkt = Inr h" using packet_hash_total [OF assms] by blast
  then have "\<exists>t job. maybe_teach_from_flood_reply c now book pkt key src ss t0 = (t, Inr job)"
    by (simp add: maybe_teach_from_flood_reply_def Let_def split: option.split prod.split)
  with that show thesis by blast
qed

text \<open>The state after a reply: the contact book and the teacher may change, nothing else.\<close>

definition same_waiting :: "'cb client_state \<Rightarrow> 'cb client_state \<Rightarrow> bool" where
  "same_waiting st st' \<longleftrightarrow> (\<exists>book t. st' = st\<lparr>cs_book := book, cs_teacher := t\<rparr>)"

lemma open_reply:
  assumes "carries_reply c ss q data (hd (get_public_key a)) (hd (get_public_key b)) route" and "sendable q"
    and "agreed c a b ss" and "cs_local_identity st = a" and "knows_peer (cs_book st) (get_public_key b)"
    and "path_callback_ok st" and "data \<noteq> []"
  obtains st' effs r n where
    "decrypt_protocol_response c u now urandom4 q (hd (get_public_key b)) st = (st', Inr (effs, Some r))"
    and "op_response_payload r = Some (data @ replicate n 0)" and "op_contact_pubkey r = get_public_key b"
    and "op_parsed r = parse_protocol_response u (data @ replicate n 0)" and "same_waiting st st'"
    and "get_payload_type q = PAYLOAD_TYPE_PATH \<Longrightarrow> get_by_key (get_public_key b) (cs_book st) = Some x \<Longrightarrow>
         \<exists>plen. cs_book st' = fst (ContactStore_update (x\<lparr>ct_out_path_len := plen, ct_out_path := route\<rparr>) (cs_book st))
           \<and> is_valid_path_len plen \<and> 0 \<le> plen \<and> int (length route) = get_path_byte_len plen"
    and "get_payload_type q = PAYLOAD_TYPE_RESPONSE \<longrightarrow> n = block_pad (length data)"
proof -
  let ?kb = "get_public_key b"
  from assms(1) obtain ct n where ct: "pk_payload q = [hd (get_public_key a), hd ?kb] @ ct" "17 \<le> length ct"
    and cases: "get_payload_type q = PAYLOAD_TYPE_RESPONSE \<and> mac_then_decrypt c (take 16 ss) ss ct = Inr (data @ replicate n 0)
        \<and> n = block_pad (length data)
      \<or> get_payload_type q = PAYLOAD_TYPE_PATH \<and> (\<exists>plen. mac_then_decrypt c (take 16 ss) ss ct
           = Inr (word_of_int plen # route @ word_of_int PAYLOAD_TYPE_RESPONSE # data @ replicate n 0)
         \<and> is_valid_path_len plen \<and> 0 \<le> plen \<and> plen < 256 \<and> int (length route) = get_path_byte_len plen)"
    unfolding carries_reply_def by blast
  have gp: "get_payload q = [hd (get_public_key a), hd ?kb] @ ct"
    using assms(2) ct(1) by (simp add: get_payload_def sendable_def writable_def lengths_ok_def)
  have dec: "decrypt_protocol_response c u now urandom4 q (hd ?kb) st = open_response c u now urandom4 q (hd ?kb)
      (iter_decrypt_by_src_hash c (contacts_by_hash (cs_book st) (hd ?kb)) (hd ?kb) a ct) st"
    using ct(2) by (simp add: decrypt_protocol_response_def gp assms(4) CIPHER_MAC_SIZE_def CIPHER_BLOCK_SIZE_def)
  from cases show thesis
  proof
    assume r: "get_payload_type q = PAYLOAD_TYPE_RESPONSE \<and> mac_then_decrypt c (take 16 ss) ss ct = Inr (data @ replicate n 0)
        \<and> n = block_pad (length data)"
    from peer_found [OF assms(5,3) refl r [THEN conjunct2, THEN conjunct1]] obtain x more where
      it: "iter_decrypt_by_src_hash c (contacts_by_hash (cs_book st) (hd ?kb)) (hd ?kb) a ct = (x, ?kb, ss, data @ replicate n 0) # more" by blast
    have "get_payload_type q \<noteq> PAYLOAD_TYPE_TRACE" "get_payload_type q \<noteq> PAYLOAD_TYPE_PATH" using r by (simp_all add: payload_type_defs)
    then obtain t job where t: "maybe_teach_from_flood_reply c now (cs_book st) q ?kb (hd ?kb) (Some ss) (cs_teacher st) = (t, Inr job)"
      using teach_decision_total by blast
    have sw: "same_waiting st (st\<lparr>cs_teacher := t\<rparr>)" unfolding same_waiting_def by (intro exI [of _ "cs_book st"] exI [of _ t]) simp
    have "decrypt_protocol_response c u now urandom4 q (hd ?kb) st
        = (st\<lparr>cs_teacher := t\<rparr>, Inr (case job of None \<Rightarrow> [] | Some j \<Rightarrow> [ScheduleTeach j],
            Some \<lparr>op_parsed = parse_protocol_response u (data @ replicate n 0), op_decrypted = data @ replicate n 0,
              op_contact_pubkey = ?kb, op_response_payload = Some (data @ replicate n 0)\<rparr>))"
      unfolding dec it using r t \<open>get_payload_type q \<noteq> PAYLOAD_TYPE_PATH\<close> by simp
    note eq = this
    show thesis by (rule that [OF eq, of n]) (use sw r \<open>get_payload_type q \<noteq> PAYLOAD_TYPE_PATH\<close> in simp_all)
  next
    assume "get_payload_type q = PAYLOAD_TYPE_PATH \<and> (\<exists>plen. mac_then_decrypt c (take 16 ss) ss ct
           = Inr (word_of_int plen # route @ word_of_int PAYLOAD_TYPE_RESPONSE # data @ replicate n 0)
         \<and> is_valid_path_len plen \<and> 0 \<le> plen \<and> plen < 256 \<and> int (length route) = get_path_byte_len plen)"
    then obtain plen where ty: "get_payload_type q = PAYLOAD_TYPE_PATH"
      and d: "mac_then_decrypt c (take 16 ss) ss ct
           = Inr (word_of_int plen # route @ word_of_int PAYLOAD_TYPE_RESPONSE # data @ replicate n 0)"
      and pl: "is_valid_path_len plen" "0 \<le> plen" "plen < 256" "int (length route) = get_path_byte_len plen" by blast
    have et: "uint (word_of_int PAYLOAD_TYPE_RESPONSE :: byte) AND 0x0F = PAYLOAD_TYPE_RESPONSE" by code_simp
    from peer_found [OF assms(5,3) refl d] obtain x more where
      it: "iter_decrypt_by_src_hash c (contacts_by_hash (cs_book st) (hd ?kb)) (hd ?kb) a ct
        = (x, ?kb, ss, word_of_int plen # route @ word_of_int PAYLOAD_TYPE_RESPONSE # data @ replicate n 0) # more" by blast
    obtain effs where tp: "take_path c urandom4 q (hd ?kb) ?kb ss plen route st
        = (st\<lparr>cs_book := fst (update_contact_path ?kb plen route (cs_book st))\<rparr>, Inr effs)"
      using take_path_ok [OF assms(6)] by blast
    let ?st' = "st\<lparr>cs_book := fst (update_contact_path ?kb plen route (cs_book st))\<rparr>"
    have sw: "same_waiting st ?st'" unfolding same_waiting_def
      by (intro exI [of _ "cs_book ?st'"] exI [of _ "cs_teacher st"]) simp
    have "open_response c u now urandom4 q (hd ?kb) (iter_decrypt_by_src_hash c (contacts_by_hash (cs_book st) (hd ?kb)) (hd ?kb) a ct) st
        = (?st', Inr (effs, Some \<lparr>op_parsed = parse_protocol_response u (data @ replicate n 0),
             op_decrypted = word_of_int plen # route @ word_of_int PAYLOAD_TYPE_RESPONSE # data @ replicate n 0,
             op_contact_pubkey = ?kb, op_response_payload = Some (data @ replicate n 0)\<rparr>))"
      unfolding it using assms(7) ty tp by (simp add: split_path_payload_of [OF pl] et Let_def)
    with dec have eq: "decrypt_protocol_response c u now urandom4 q (hd ?kb) st
        = (?st', Inr (effs, Some \<lparr>op_parsed = parse_protocol_response u (data @ replicate n 0),
             op_decrypted = word_of_int plen # route @ word_of_int PAYLOAD_TYPE_RESPONSE # data @ replicate n 0,
             op_contact_pubkey = ?kb, op_response_payload = Some (data @ replicate n 0)\<rparr>))" by simp
    show thesis by (rule that [OF eq, of n]) (use sw pl ty in \<open>auto simp: update_contact_path_def payload_type_defs\<close>)
  qed
qed

section \<open>A request and its response\<close>

lemma encrypted_request_opens:
  assumes "crypto_laws c" and "identity_laws c"
    and "local_identity_of_seed c sa = Inr a" and "local_identity_of_seed c sb = Inr b"
    and "cx_public_key cb = hex_str (get_public_key b)"
    and "protocol_request_packet c cb a code data route ts = Inr p"
  obtains ss ct e where "agreed c a b ss" and "agreed c b a ss" and "length ss = 32"
    and "pk_payload p = [hd (get_public_key b), hd (get_public_key a)] @ ct"
    and "mac_then_decrypt c (take 16 ss) ss ct
           = Inr (le_bytes 4 ts @ e # data @ replicate (block_pad (5 + length data)) 0)"
    and "code = uint e" and "0 \<le> ts" and "ts < 2 ^ 32"
proof -
  note lb = local_identity_of_seed_fields(2) [OF assms(2,4)]
  from assms(6) obtain pt payload where pt: "pack_timestamp_data ts [PartInt code, PartBytes data] = Inr pt"
    and payload: "create_encrypted_payload c cb a pt = Inr payload"
    and pp: "pk_payload p = payload"
    unfolding protocol_request_packet_def Let_def
    by (elim bind_res_InrE) (auto simp: attach_contact_path_def Let_def create_packet_def res_simps
        dest!: with_path_fields(1) split: if_splits)
  obtain e where e: "code = uint e" "pt = le_bytes 4 ts @ e # data" "0 \<le> ts" "ts < 2 ^ 32"
    using pt by (auto simp: pack_timestamp_data_def part_bytes_def res_simps simp del: le_bytes.simps)
  obtain ss d s ct where
    k: "calc_shared_secret_and_key c cb a = Inr (ss, take 16 ss)" and ct: "encrypt_then_mac c (take 16 ss) ss pt = Inr ct"
    and pl: "payload = [d, s] @ ct" "length payload = 4 + length pt + block_pad (length pt)" and d: "\<exists>pk. fromhex (cx_public_key cb) = Inr pk \<and> hash_byte pk = Inr d"
    and s: "hash_byte (get_public_key a) = Inr s" and l: "length ss = 32"
    by (rule encrypted_payload_ok [OF assms(1,2) payload])
  have ag: "agreed c a b ss" using shared_secret_key_ok(4) [OF assms(2) k] lb by (auto simp: agreed_def assms(5))
  then have ag': "agreed c b a ss" by (simp add: agreed_sym [OF assms(2-4)])
  have hs: "d = hd (get_public_key b)" "s = hd (get_public_key a)"
    using d s by (auto simp: assms(5) hash_byte_def split: list.splits)
  have kl: "length (take 16 ss) \<in> {16, 24, 32}" using l by simp
  from encrypt_then_mac_ok [OF assms(1) kl, of ss pt] ct obtain cp where
    cp: "ct = take 2 (cr_hmac_sha256 c ss cp) @ cp" "length cp = length pt + block_pad (length pt)"
    "aes_decrypt c (take 16 ss) cp = Inr (pt @ replicate (block_pad (length pt)) 0)" by fastforce
  have "length (take 2 (cr_hmac_sha256 c ss cp)) = 2" using assms(1) by (simp add: crypto_laws_def)
  with cp e(2) have "mac_then_decrypt c (take 16 ss) ss ct = Inr (pt @ replicate (block_pad (length pt)) 0)"
    by (auto simp: mac_then_decrypt_iff)
  moreover have "length pt = 5 + length data" by (simp add: e(2))
  ultimately show thesis using ag ag' l pp pl hs e by (intro that [of ss ct e]) simp_all
qed

text \<open>A client record that is nothing but the client's key.\<close>

definition client_record :: "req_client \<Rightarrow> bytes \<Rightarrow> bool" where
  "client_record client key \<longleftrightarrow> rc_shared_secret client = None \<and> rc_id client = None \<and> rc_public_key client = Some (KeyBytes key)"

lemma client_record_ok:
  assumes "client_record client (get_public_key a)" and "agreed c b a ss"
  shows "get_shared_secret c b client = Inr (Some ss)"
    and "\<exists>ci. client_public_key c client = Inr ci \<and> get_public_key ci = get_public_key a"
  using assms by (auto simp: client_record_def agreed_def get_shared_secret_def client_public_key_def key_attr_bytes_def
      new_identity_def get_public_key_def res_simps)

lemma client_found:
  assumes "get_clients rq heap src = Inr (us @ cl # vs)" and "find_client c b heap ct us = Inr None"
    and "get_shared_secret c b (heap cl) = Inr (Some ss)" and "ss \<noteq> []" and "mac_then_decrypt c (take 16 ss) ss ct = Inr pt"
  shows "bind_res (get_clients rq heap src) (find_client c b heap ct) = Inr (Some (cl, ss, pt))"
  using assms find_client_skips [OF assms(2), of "cl # vs"] by simp

lemma deliver_waiting:
  assumes "op_response_payload r = Some (le_bytes 4 ts @ payload)" and "op_contact_pubkey r = key"
    and "0 \<le> ts" and "ts < 2 ^ 32" and "map_of (cs_response_waiters st) (key, ts) = Some cb"
  shows "deliver_response pkt r st
    = (st\<lparr>cs_response_waiters := AList.delete (key, ts) (cs_response_waiters st)\<rparr>, [Respond cb (op_parsed r)])"
proof -
  have "le_int (le_bytes 4 ts) = ts" using assms(3,4) by (simp add: le_int_le_bytes del: le_bytes.simps)
  with assms show ?thesis by (simp add: deliver_response_def Let_def del: le_bytes.simps)
qed

text \<open>The effects that hand a response to the application.\<close>

fun is_answer :: "'cb client_effect \<Rightarrow> bool" where
  "is_answer (Respond cb pr) = True"
| "is_answer (BinaryResponseCallback x y z) = True"
| "is_answer (LoginCallback cb ok x) = True"
| "is_answer _ = False"

lemma reciprocal_no_answer: "filter is_answer (send_reciprocal_path c urandom4 src key ss pkt plen route st) = []"
  by (auto simp: send_reciprocal_path_def Let_def split: sum.splits option.splits if_splits)

lemma take_path_no_answer:
  "take_path c urandom4 pkt src key ss plen route st = (st', Inr effs) \<Longrightarrow> filter is_answer effs = []"
  by (auto simp: take_path_def Let_def res_simps reciprocal_no_answer split: prod.splits option.splits if_splits)

lemma open_response_no_answer:
  "open_response c u now urandom4 pkt src cands st = (st', Inr (effs, r)) \<Longrightarrow> filter is_answer effs = []"
proof (induction cands)
  case (Cons cand cands)
  obtain x key ss d where cand: "cand = (x, key, ss, d)" by (cases cand)
  show ?case
  proof (cases "get_payload_type pkt = PAYLOAD_TYPE_PATH")
    case True
    then show ?thesis
    proof (cases "split_path_payload d")
      case None
      with Cons True show ?thesis by (simp add: cand)
    next
      case (Some v)
      obtain plen route ty extra where v: "v = (plen, route, ty, extra)" by (cases v)
      obtain st1 es where tp: "take_path c urandom4 pkt src key ss plen route st = (st1, es)"
        by (cases "take_path c urandom4 pkt src key ss plen route st")
      from Cons.prems True Some have "es = Inr effs" by (cases es) (simp_all add: cand v tp Let_def)
      with tp take_path_no_answer show ?thesis by blast
    qed
  next
    case False
    from Cons.prems False have "effs = [] \<or> (\<exists>j. effs = [ScheduleTeach j])"
      by (cases "maybe_teach_from_flood_reply c now (cs_book st) pkt key src (Some ss) (cs_teacher st)")
        (auto simp: cand Let_def bind_res_eq_Inr split: if_splits option.splits)
    then show ?thesis by auto
  qed
qed simp

lemma decrypt_no_answer:
  "decrypt_protocol_response c u now urandom4 pkt src st = (st', Inr (effs, r)) \<Longrightarrow> filter is_answer effs = []"
  by (auto simp: decrypt_protocol_response_def Let_def dest: open_response_no_answer split: if_splits)

lemma response_delivered:
  assumes "carries_reply c ss q (le_bytes 4 ts @ payload) (hd (get_public_key a)) (hd (get_public_key b)) route" and "sendable q"
    and "agreed c a b ss" and "cs_local_identity st = a" and "knows_peer (cs_book st) (get_public_key b)"
    and "path_callback_ok st" and "0 \<le> ts" and "ts < 2 ^ 32" and "length (get_public_key a) = 32"
    and "map_of (cs_response_waiters st) (get_public_key b, ts) = Some cb"
  shows "\<exists>st' effs n. ProtocolResponseHandler_call c u now urandom4 q st = (st', effs, True)
    \<and> filter is_answer effs = [Respond cb (parse_protocol_response u (le_bytes 4 ts @ payload @ replicate n 0))]
    \<and> cs_response_waiters st' = AList.delete (get_public_key b, ts) (cs_response_waiters st)"
proof -
  have ne: "le_bytes 4 ts @ payload \<noteq> []" by (metis append_is_Nil_conv length_0_conv length_le_bytes zero_neq_numeral)
  obtain st1 effs r n where dec: "decrypt_protocol_response c u now urandom4 q (hd (get_public_key b)) st = (st1, Inr (effs, Some r))"
    and r: "op_response_payload r = Some ((le_bytes 4 ts @ payload) @ replicate n 0)" "op_contact_pubkey r = get_public_key b"
      "op_parsed r = parse_protocol_response u ((le_bytes 4 ts @ payload) @ replicate n 0)"
    and sw: "same_waiting st st1"
    by (rule open_reply [OF assms(1-6) ne])
  have w: "map_of (cs_response_waiters st1) (get_public_key b, ts) = Some cb"
    using sw assms(10) by (auto simp: same_waiting_def)
  have del: "deliver_response q r st1 = (st1\<lparr>cs_response_waiters := AList.delete (get_public_key b, ts) (cs_response_waiters st1)\<rparr>,
      [Respond cb (op_parsed r)])"
    by (rule deliver_waiting [OF _ r(2) assms(7,8) w]) (simp add: r(1) del: le_bytes.simps)
  from assms(1) obtain ct where pl: "pk_payload q = [hd (get_public_key a), hd (get_public_key b)] @ ct" "17 \<le> length ct"
    by (auto simp: carries_reply_def)
  obtain k ks where ka: "get_public_key a = k # ks" using assms(9) by (cases "get_public_key a") auto
  have "ProtocolResponseHandler_call c u now urandom4 q st
      = (st1\<lparr>cs_response_waiters := AList.delete (get_public_key b, ts) (cs_response_waiters st1)\<rparr>, effs @ [Respond cb (op_parsed r)], True)"
    using pl dec del by (simp add: ProtocolResponseHandler_call_def assms(4) ka)
  moreover have "cs_response_waiters st1 = cs_response_waiters st" using sw by (auto simp: same_waiting_def)
  ultimately show ?thesis using r(3) decrypt_no_answer [OF dec] by (auto simp del: le_bytes.simps)
qed

lemma request_handled:
  assumes "handle_request rq (heap cl) ts code req = (obj, Inr (Some data))" and "get_last_req_ts (heap cl) < ts"
    and "build_response c urandom4 (rq_local_identity rq) q (advance_client_watermark now ts obj) data ss = Some r"
    and "pt = le_bytes 4 ts @ e # req" and "code = uint e" and "0 \<le> ts" and "ts < 2 ^ 32"
  shows "answer_request c now urandom4 rq q heap cl ss pt = (heap(cl := advance_client_watermark now ts obj), consumed (Some r))"
proof -
  have "le_int (le_bytes 4 ts) = ts" using assms(6,7) by (simp add: le_int_le_bytes del: le_bytes.simps)
  moreover have "pt ! 4 = e" "drop 5 pt = req" "take 4 pt = le_bytes 4 ts" "\<not> length pt < 5"
    by (simp_all add: assms(4) nth_append del: le_bytes.simps)
  ultimately show ?thesis using assms(1-3,5) by (simp add: answer_request_def Let_def del: le_bytes.simps)
qed

lemma handle_request_registered:
  assumes "map_of (rq_request_handlers rq) code = Some f" and "f client ts req = (obj, Inr (Some payload))"
    and "0 \<le> ts" and "ts < 2 ^ 32"
  shows "handle_request rq client ts code req = (obj, Inr (Some (le_bytes 4 ts @ payload)))"
  using assms by (simp add: handle_request_def pack_u_def Let_def del: le_bytes.simps)

lemma client_record_advance: "client_record client key \<Longrightarrow> client_record (advance_client_watermark now ts client) key"
  by (simp add: client_record_def advance_client_watermark_def Let_def)

text \<open>
  C8: A request is answered and its answer reaches the waiter. Node A builds a request for node B.
  Whatever route the packet takes, when it comes up at B with its payload (B holding a record of A
  that no earlier candidate shadows, and a timestamp older than the request's), B's handler claims
  the packet, runs the request handler for its code on the data, and answers; and by whatever route
  the answer returns to A, A's handler claims it and hands a response to exactly one callback,
  once: the waiter registered for B and this request's tag, with the reply that B's request handler
  produced (and the zeros that fill its last cipher block). That waiter is forgotten and every other
  one stays registered.
\<close>

theorem request_answered:
  assumes "crypto_laws c" and "identity_laws c"
    and "local_identity_of_seed c sa = Inr a" and "local_identity_of_seed c sb = Inr b"
    and "cx_public_key cb = hex_str (get_public_key b)"
    and "protocol_request_packet c cb a code data route ts = Inr p"
    and "sendable q" and "pk_payload q = pk_payload p" and "\<And>k. pk_recv_region_key q = Some k \<Longrightarrow> length k = 16"
    and "rq_local_identity rq = b" and "get_clients rq heap (hd (get_public_key a)) = Inr (us @ cl # vs)"
    and "find_client c b heap (drop 2 (pk_payload p)) us = Inr None"
    and "client_record (heap cl) (get_public_key a)" and "get_last_req_ts (heap cl) < ts"
    and "map_of (rq_request_handlers rq) code = Some f"
    and "f (heap cl) ts (data @ replicate (block_pad (5 + length data)) 0) = (obj, Inr (Some payload))"
    and "client_record obj (get_public_key a)" and "length payload \<le> 93"
    and "cs_local_identity st = a" and "knows_peer (cs_book st) (get_public_key b)" and "path_callback_ok st"
    and "map_of (cs_response_waiters st) (get_public_key b, ts) = Some waiter"
  shows "\<exists>heap' reply. ProtocolRequestHandler_call c now urandom4 rq q heap = (heap', consumed (Some reply))
    \<and> ts \<le> get_last_req_ts (heap' cl)
    \<and> (\<forall>r. sendable r \<and> pk_payload r = pk_payload reply \<and> get_payload_type r = get_payload_type reply \<longrightarrow>
        (\<exists>st' effs n. ProtocolResponseHandler_call c u now' urandom4' r st = (st', effs, True)
          \<and> filter is_answer effs = [Respond waiter (parse_protocol_response u (le_bytes 4 ts @ payload @ replicate n 0))]
          \<and> cs_response_waiters st' = AList.delete (get_public_key b, ts) (cs_response_waiters st)))"
proof -
  obtain ss ct e where ag: "agreed c a b ss" "agreed c b a ss" and l: "length ss = 32"
    and pp: "pk_payload p = [hd (get_public_key b), hd (get_public_key a)] @ ct"
    and dec: "mac_then_decrypt c (take 16 ss) ss ct = Inr (le_bytes 4 ts @ e # data @ replicate (block_pad (5 + length data)) 0)"
    and e: "code = uint e" and ts: "0 \<le> ts" "ts < 2 ^ 32"
    by (rule encrypted_request_opens [OF assms(1-6)])
  note la = local_identity_of_seed_fields(2) [OF assms(2,3)] and lb = local_identity_of_seed_fields(2) [OF assms(2,4)]
  obtain k ks m ms where ka: "get_public_key a = k # ks" and kb: "get_public_key b = m # ms"
    using la lb by (metis length_0_conv list.exhaust zero_neq_numeral)
  let ?obj = "advance_client_watermark now ts obj" and ?data = "le_bytes 4 ts @ payload"
  have found: "bind_res (get_clients rq heap (hd (get_public_key a))) (find_client c b heap ct)
      = Inr (Some (cl, ss, le_bytes 4 ts @ e # data @ replicate (block_pad (5 + length data)) 0))"
    using assms(12) l by (intro client_found [OF assms(11) _ client_record_ok(1) [OF assms(13) ag(2)] _ dec]) (auto simp: pp)
  obtain ci where ci: "client_public_key c ?obj = Inr ci" "get_public_key ci = get_public_key a"
    using client_record_ok(2) [OF client_record_advance [OF assms(17)] ag(2)] by blast
  have kci: "get_public_key ci = k # ks" using ci(2) ka by simp
  have ne: "?data \<noteq> []" by (metis append_is_Nil_conv length_0_conv length_le_bytes zero_neq_numeral)
  have len: "length ?data \<le> 97" using assms(18) by (simp del: le_bytes.simps)
  obtain reply where rep: "build_response c urandom4 b q ?obj ?data ss = Some reply"
    and car: "carries_reply c ss reply ?data k m (pk_path q)"
    using build_response_carries [OF assms(1) l assms(7) assms(9) ci(1) kci kb ne len] by blast
  have "answer_request c now urandom4 rq q heap cl ss (le_bytes 4 ts @ e # data @ replicate (block_pad (5 + length data)) 0)
      = (heap(cl := ?obj), consumed (Some reply))"
    by (rule request_handled [where heap = heap and cl = cl, OF handle_request_registered [OF assms(15,16) ts] assms(14) _ refl e ts])
      (simp add: assms(10) rep)
  with found have call: "ProtocolRequestHandler_call c now urandom4 rq q heap = (heap(cl := ?obj), consumed (Some reply))"
    by (simp add: ProtocolRequestHandler_call_def assms(8,10) pp kb ka)
  have "\<exists>st' effs n. ProtocolResponseHandler_call c u now' urandom4' r st = (st', effs, True)
          \<and> filter is_answer effs = [Respond waiter (parse_protocol_response u (le_bytes 4 ts @ payload @ replicate n 0))]
          \<and> cs_response_waiters st' = AList.delete (get_public_key b, ts) (cs_response_waiters st)"
    if "sendable r \<and> pk_payload r = pk_payload reply \<and> get_payload_type r = get_payload_type reply" for r
  proof -
    have "carries_reply c ss r ?data (hd (get_public_key a)) (hd (get_public_key b)) (pk_path q)"
      using carries_reply_cong [OF car] that by (simp add: ka kb)
    from response_delivered [OF this _ ag(1) assms(19-21) ts la assms(22)] that show ?thesis by blast
  qed
  with call last_ts_advance [of ts now obj] show ?thesis by (intro exI [of _ "heap(cl := ?obj)"] exI [of _ reply]) simp
qed

definition toy_server_contact :: contact where
  "toy_server_contact = (sample_contact 0 1 0 0)\<lparr>ct_public_key := replicate 32 2, ct_out_path_len := -1, ct_out_path := []\<rparr>"

definition toy_client_state :: "nat client_state" where
  "toy_client_state = create_client_state (toy_node 1) (put_contact toy_server_contact (new_contact_store 8)) None"

lemma toy_client_state_facts:
  "cs_local_identity toy_client_state = toy_node 1" "path_callback_ok toy_client_state"
  "knows_peer (cs_book toy_client_state) (get_public_key (toy_node 2))"
proof -
  have "list_contacts (cs_book toy_client_state) = [] @ contact_proxy_of toy_server_contact # []"
    by (simp add: toy_client_state_def create_client_state_def list_contacts_def contacts_def put_contact_def
        new_contact_store_def contact_proxy_of_def toy_server_contact_def)
  moreover have "cx_public_key (contact_proxy_of toy_server_contact) = hex_str (get_public_key (toy_node 2))"
    by (simp add: contact_proxy_of_def toy_server_contact_def toy_node_def get_public_key_def)
  moreover have "length (get_public_key (toy_node 2)) = 32" "hash_clear [] (get_public_key (toy_node 2))"
    by (simp_all add: toy_node_def get_public_key_def hash_clear_def)
  ultimately show "knows_peer (cs_book toy_client_state) (get_public_key (toy_node 2))" unfolding knows_peer_def by blast
qed (simp_all add: toy_client_state_def create_client_state_def path_callback_ok_def)

lemma toy_server_key: "cx_public_key (toy_contact n bs) = hex_str (get_public_key (toy_node 2))"
  by (simp add: toy_contact_def contact_proxy_of_def toy_node_def get_public_key_def)

theorem request_answered_witness:
  "\<exists>p heap' reply st' effs n.
     protocol_request_packet toy_crypto (toy_contact (-1) []) (toy_node 1) 1 [5] None 7 = Inr p
     \<and> ProtocolRequestHandler_call toy_crypto 100 [1, 2, 3, 4] toy_request_handler p (\<lambda>_. toy_client) = (heap', consumed (Some reply))
     \<and> ProtocolResponseHandler_call toy_crypto toy_unicode 101 [4, 3, 2, 1] reply
         (set_response_callback (get_public_key (toy_node 2)) 7 3 toy_client_state) = (st', effs, True)
     \<and> filter is_answer effs
         = [Respond 3 (parse_protocol_response toy_unicode (le_bytes 4 7 @ 42 # 5 # replicate 10 0 @ replicate n 0))]"
proof -
  let ?st = "set_response_callback (get_public_key (toy_node 2)) 7 3 toy_client_state"
  have "case protocol_request_packet toy_crypto (toy_contact (-1) []) (toy_node 1) 1 [5] None 7 of
      Inl _ \<Rightarrow> False | Inr p \<Rightarrow> sendable p \<and> pk_recv_region_key p = None" by code_simp
  then obtain p where p: "protocol_request_packet toy_crypto (toy_contact (-1) []) (toy_node 1) 1 [5] None 7 = Inr p"
    "sendable p" "pk_recv_region_key p = None" by (auto split: sum.splits)
  have st: "cs_local_identity ?st = toy_node 1" "knows_peer (cs_book ?st) (get_public_key (toy_node 2))" "path_callback_ok ?st"
    "map_of (cs_response_waiters ?st) (get_public_key (toy_node 2), 7) = Some 3"
    using toy_client_state_facts by (simp_all add: set_response_callback_def path_callback_ok_def update_conv')
  have cl: "client_record toy_client (get_public_key (toy_node 1))"
    by (simp add: client_record_def toy_client_def toy_node_def get_public_key_def)
  have rq: "rq_local_identity toy_request_handler = toy_node 2"
    "get_clients toy_request_handler (\<lambda>_. toy_client) (hd (get_public_key (toy_node 1))) = Inr ([] @ 0 # [])"
    "map_of (rq_request_handlers toy_request_handler) 1 = Some (\<lambda>client timestamp data. (client, Inr (Some (42 # data))))"
    by (simp_all add: toy_request_handler_def get_clients_def map_filter_def)
  have pad: "block_pad 6 = 10" by code_simp
  have "\<exists>heap' reply. ProtocolRequestHandler_call toy_crypto 100 [1, 2, 3, 4] toy_request_handler p (\<lambda>_. toy_client)
      = (heap', consumed (Some reply)) \<and> 7 \<le> get_last_req_ts (heap' 0)
    \<and> (\<forall>r. sendable r \<and> pk_payload r = pk_payload reply \<and> get_payload_type r = get_payload_type reply \<longrightarrow>
        (\<exists>st' effs n. ProtocolResponseHandler_call toy_crypto toy_unicode 101 [4, 3, 2, 1] r ?st = (st', effs, True)
          \<and> filter is_answer effs
              = [Respond 3 (parse_protocol_response toy_unicode (le_bytes 4 7 @ (42 # [5] @ replicate 10 0) @ replicate n 0))]
          \<and> cs_response_waiters st' = AList.delete (get_public_key (toy_node 2), 7) (cs_response_waiters ?st)))"
    by (rule request_answered [OF toy_crypto_laws toy_identity_laws toy_node_seed toy_node_seed toy_server_key p(1,2) refl _ rq(1,2)
          _ cl _ rq(3) _ cl _ st])
      (simp_all add: p(3) pad toy_client_def get_last_req_ts_def opt_default_def del: le_bytes.simps)
  then obtain heap' reply where call: "ProtocolRequestHandler_call toy_crypto 100 [1, 2, 3, 4] toy_request_handler p (\<lambda>_. toy_client)
      = (heap', consumed (Some reply))"
    and fw: "sendable reply \<longrightarrow> (\<exists>st' effs n. ProtocolResponseHandler_call toy_crypto toy_unicode 101 [4, 3, 2, 1] reply ?st = (st', effs, True)
          \<and> filter is_answer effs
              = [Respond 3 (parse_protocol_response toy_unicode (le_bytes 4 7 @ (42 # [5] @ replicate 10 0) @ replicate n 0))])"
    by blast
  have "case protocol_request_packet toy_crypto (toy_contact (-1) []) (toy_node 1) 1 [5] None 7 of
      Inl _ \<Rightarrow> False
    | Inr p \<Rightarrow> (case ProtocolRequestHandler_call toy_crypto 100 [1, 2, 3, 4] toy_request_handler p (\<lambda>_. toy_client) of
        (_, r) \<Rightarrow> (case hr_response r of None \<Rightarrow> False | Some reply \<Rightarrow> sendable reply))" by code_simp
  then have "sendable reply" by (simp add: p(1) call consumed_def)
  with fw p(1) call show ?thesis by (simp del: le_bytes.simps) blast
qed

section \<open>A login and its reply\<close>

lemma path_return_no_path:
  "create_path_return c urandom4 d s ss [] et extra None = create_path_return c urandom4 d s ss [] et extra (Some 0)"
  by (simp add: create_path_return_def path_return_first_byte_def is_valid_path_len_arith path_len_arith)

lemma login_reply_packet_carries:
  assumes "crypto_laws c" and "length ss = 32" and "sendable q"
    and "get_public_key ci = d # ds" and "get_public_key (ls_local_identity ls) = s # sl"
    and "data \<noteq> []" and "length data \<le> 97"
  shows "\<exists>p. login_reply_packet c urandom4 ls ci ss flood data q = Inr p \<and> carries_reply c ss p data d s (pk_path q)"
proof (cases flood)
  case True
  note pl = sendable_route_bytes [OF assms(3)]
  have et: "0 \<le> PAYLOAD_TYPE_RESPONSE" "PAYLOAD_TYPE_RESPONSE < 256" by (simp_all add: payload_type_defs)
  obtain p where p: "create_path_return c urandom4 (uint d) (uint s) ss (map uint (pk_path q)) PAYLOAD_TYPE_RESPONSE data
      (Some (pk_path_len q)) = Inr p"
    using path_return_total [OF assms(1,2) pl assms(6,7) et] by blast
  have sl: "slice_to (Packet_get_path_byte_len q) (pk_path q) = pk_path q"
    unfolding Packet_get_path_byte_len_def pl(3) [symmetric] by simp
  have "login_reply_packet c urandom4 ls ci ss flood data q = Inr p"
  proof (cases "0 < pk_path_len q")
    case False
    with pl(2) have 0: "pk_path_len q = 0" by simp
    then have "pk_path q = []" using pl(3) by (simp add: path_len_arith)
    with 0 True p assms(4,5) show ?thesis by (simp add: login_reply_packet_def path_return_no_path)
  qed (use True p assms(4,5) in \<open>simp add: login_reply_packet_def sl\<close>)
  with path_return_carries [OF assms(1,2,6) p] show ?thesis by blast
next
  case False
  have "length data \<le> 176" using assms(7) by simp
  then have dg: "\<exists>p. create_datagram c PAYLOAD_TYPE_RESPONSE ci (ls_local_identity ls) ss data rt = Inr p" for rt
    by (intro datagram_total [OF assms(1,2)]) (simp_all add: assms(4,5))
  show ?thesis
  proof (cases "lookup_out_path ls ci")
    case None
    obtain p where p: "create_datagram c PAYLOAD_TYPE_RESPONSE ci (ls_local_identity ls) ss data (str ''flood'') = Inr p" using dg by blast
    with None False datagram_carries(1) [OF assms(1,2,6) p assms(4,5)] show ?thesis by (simp add: login_reply_packet_def)
  next
    case (Some pe)
    obtain bs e where pe: "pe = (bs, e)" by (cases pe)
    obtain p where p: "create_datagram c PAYLOAD_TYPE_RESPONSE ci (ls_local_identity ls) ss data (str ''direct'') = Inr p" using dg by blast
    from with_path_carries [OF datagram_carries(1) [OF assms(1,2,6) p assms(4,5)], of "take (nat MAX_PATH_SIZE) bs" e] obtain r where
      "with_path (take (nat MAX_PATH_SIZE) bs) (Some e) p = Inr r" "carries_reply c ss r data d s (pk_path q)" by blast
    with Some False p pe show ?thesis by (simp add: login_reply_packet_def)
  qed
qed

lemma login_reply_carries:
  assumes "crypto_laws c" and "length ss = 32" and "sendable q" and "\<And>k. pk_recv_region_key q = Some k \<Longrightarrow> length k = 16"
    and "get_public_key ci = d # ds" and "get_public_key (ls_local_identity ls) = s # sl"
    and "data \<noteq> []" and "length data \<le> 97"
  shows "\<exists>r. login_reply c urandom4 ls ci ss flood data q = Inr r \<and> carries_reply c ss r data d s (pk_path q)"
proof -
  obtain p where p: "login_reply_packet c urandom4 ls ci ss flood data q = Inr p" and car: "carries_reply c ss p data d s (pk_path q)"
    using login_reply_packet_carries [OF assms(1-3,5-8)] by blast
  show ?thesis
  proof (cases "is_route_flood p")
    case True
    from reply_finish [OF assms(1) car sendable_route_bytes(2) [OF assms(3)] assms(4)] obtain r where
      "bind_res (apply_path_hash_mode (request_hash_size (pk_path_len q) - 1) True p) (\<lambda>r. apply_reply_scope c r (Some q)) = Inr r"
      "carries_reply c ss r data d s (pk_path q)" by blast
    with True p show ?thesis by (simp add: login_reply_def)
  qed (use p car in \<open>simp add: login_reply_def\<close>)
qed

lemma login_reply_data_total:
  assumes "0 \<le> py_int now" "py_int now < 2 ^ 32" "0 \<le> blob" "blob < 2 ^ 32" "0 \<le> perms" "perms < 256"
  shows "\<exists>d. login_reply_data now blob RESP_SERVER_LOGIN_OK perms = Inr d"
proof -
  have "to_byte RESP_SERVER_LOGIN_OK = Inr 0" by code_simp
  with assms show ?thesis by (simp add: login_reply_data_def pack_u_def to_byte_Inr del: le_bytes.simps)
qed

text \<open>The reply as the client reads it.\<close>

definition login_data_of :: "int \<Rightarrow> int \<Rightarrow> login_data \<Rightarrow> bool" where
  "login_data_of ts perms d \<longleftrightarrow> ld_timestamp d = ts \<and> ld_response_code d = 0
     \<and> ld_admin_code d = (if acl_is_admin perms then 1 else 0) \<and> ld_is_admin d = acl_is_admin perms
     \<and> ld_permissions d = perms \<and> ld_acl_role d = acl_role perms"

lemma parse_login_reply_of:
  assumes "login_reply_data now blob RESP_SERVER_LOGIN_OK perms = Inr d"
  shows "\<exists>ld. parse_login_reply (d @ replicate n 0) = Some ld \<and> login_data_of (py_int now) perms ld"
proof -
  note f = login_reply_data_fields [OF assms]
  have "(d @ replicate n 0) ! 4 = d ! 4" "(d @ replicate n 0) ! 6 = d ! 6" "(d @ replicate n 0) ! 7 = d ! 7"
    "take 4 (d @ replicate n 0) = take 4 d" using f(1) by (simp_all add: nth_append)
  with f show ?thesis
    by (simp add: parse_login_reply_def Let_def login_data_of_def RESP_SERVER_LOGIN_OK_def LOGIN_ADMIN_CODE_ADMIN_def)
qed

lemma decrypt_response_carried:
  assumes "carries_reply c ss r d (hd (get_public_key a)) (hd (get_public_key b)) route" and "agreed c a b ss"
    and "cx_public_key x = hex_str (get_public_key b)" and "login_reply_data now blob RESP_SERVER_LOGIN_OK perms = Inr d"
  shows "\<exists>ld. decrypt_response c a r 2 x = (True, Some ld) \<and> login_data_of (py_int now) perms ld"
proof -
  from assms(1) obtain ct n where pl: "pk_payload r = [hd (get_public_key a), hd (get_public_key b)] @ ct"
    and cs: "get_payload_type r = PAYLOAD_TYPE_RESPONSE \<and> mac_then_decrypt c (take 16 ss) ss ct = Inr (d @ replicate n 0)
      \<or> get_payload_type r = PAYLOAD_TYPE_PATH \<and> (\<exists>plen. mac_then_decrypt c (take 16 ss) ss ct
           = Inr (word_of_int plen # route @ word_of_int PAYLOAD_TYPE_RESPONSE # d @ replicate n 0)
         \<and> is_valid_path_len plen \<and> 0 \<le> plen \<and> plen < 256 \<and> int (length route) = get_path_byte_len plen)"
    unfolding carries_reply_def by blast
  obtain ib where ib: "new_identity c (get_public_key b) = Inr ib" "calc_shared_secret c ib (get_private_key a) = Inr ss"
    using assms(2) by (auto simp: agreed_def)
  have ne: "d \<noteq> []" using login_reply_data_fields(1) [OF assms(4)] by auto
  have et: "uint (word_of_int PAYLOAD_TYPE_RESPONSE :: byte) AND 0x0F = PAYLOAD_TYPE_RESPONSE" by code_simp
  have ty: "PAYLOAD_TYPE_RESPONSE \<noteq> PAYLOAD_TYPE_PATH" by (simp add: payload_type_defs)
  obtain ld where ld: "parse_login_reply (d @ replicate n 0) = Some ld" "login_data_of (py_int now) perms ld"
    using parse_login_reply_of [OF assms(4)] by blast
  have "decrypt_response c a r 2 x = (True, Some ld)"
    using cs
  proof
    assume "get_payload_type r = PAYLOAD_TYPE_RESPONSE \<and> mac_then_decrypt c (take 16 ss) ss ct = Inr (d @ replicate n 0)"
    with ty ne ib ld(1) show ?thesis by (simp add: decrypt_response_def assms(3) pl)
  next
    assume "get_payload_type r = PAYLOAD_TYPE_PATH \<and> (\<exists>plen. mac_then_decrypt c (take 16 ss) ss ct
           = Inr (word_of_int plen # route @ word_of_int PAYLOAD_TYPE_RESPONSE # d @ replicate n 0)
         \<and> is_valid_path_len plen \<and> 0 \<le> plen \<and> plen < 256 \<and> int (length route) = get_path_byte_len plen)"
    then obtain plen where p: "get_payload_type r = PAYLOAD_TYPE_PATH"
      "mac_then_decrypt c (take 16 ss) ss ct = Inr (word_of_int plen # route @ word_of_int PAYLOAD_TYPE_RESPONSE # d @ replicate n 0)"
      "is_valid_path_len plen" "0 \<le> plen" "plen < 256" "int (length route) = get_path_byte_len plen" by blast
    with ne ib ld(1) show ?thesis by (simp add: decrypt_response_def assms(3) pl split_path_payload_of [OF p(3-6)] et)
  qed
  with ld(2) show ?thesis by blast
qed

lemma login_contact_found:
  assumes "knows_peer book (get_public_key b)" and "decrypt_response c a r 2 x = (True, Some ld)"
    and "list_contacts book = us @ x # vs" and "hash_clear us (get_public_key b)" and "cx_public_key x = hex_str (get_public_key b)"
  shows "find_login_contact c a r 2 (login_candidates book (hd (get_public_key b))) = Some (x, Some ld)"
proof -
  let ?P = "\<lambda>contact. case fromhex (cx_public_key contact) of
      Inr pk \<Rightarrow> length pk = 32 \<and> hd pk = hd (get_public_key b) | Inl _ \<Rightarrow> False"
  have "filter ?P us = []"
  proof -
    have "\<not> ?P y" if "y \<in> set us" for y
    proof (cases "fromhex (cx_public_key y)")
      case (Inr pk)
      with assms(4) that show ?thesis by (cases pk) (auto simp: hash_clear_def list_all_iff)
    qed simp
    then show ?thesis by (simp add: filter_empty_conv)
  qed
  moreover have "?P x" using assms(1,5) by (simp add: knows_peer_def)
  ultimately have "login_candidates book (hd (get_public_key b)) = x # filter ?P vs"
    using assms(3) by (simp add: login_candidates_def list_contacts_def)
  with assms(2) show ?thesis by simp
qed

text \<open>No pending request of the client carries the tag of the reply.\<close>

definition no_foreign_request :: "int \<Rightarrow> bytes \<Rightarrow> 'cb client_state \<Rightarrow> bool" where
  "no_foreign_request ts key st =
     (case cs_foreign_request_probe st of None \<Rightarrow> True | Some probe \<Rightarrow> probe ts key \<noteq> Inr True)"

lemma login_reply_claimed:
  assumes "carries_reply c ss r d (hd (get_public_key a)) (hd (get_public_key b)) route" and "agreed c a b ss"
    and "login_reply_data now blob RESP_SERVER_LOGIN_OK perms = Inr d" and "0 \<le> py_int now" and "py_int now < 2 ^ 32"
    and "length (get_public_key a) = 32" and "hd (get_public_key a) \<noteq> hd (get_public_key b)"
    and "cs_local_identity st = a" and "knows_peer (cs_book st) (get_public_key b)"
    and "map_of (cs_pending_logins st) (get_public_key b) = Some waiter" and "no_foreign_request (py_int now) (get_public_key b) st"
  shows "\<exists>st' effs. LoginResponseHandler_call c u now' urandom4 r st = Inr (st', effs, True)
    \<and> LoginCallback waiter True (py_int now, 0, if acl_is_admin perms then 1 else 0, perms, acl_role perms) \<in> set effs
    \<and> RecordLogin (get_public_key b) (py_int now) (acl_is_admin perms) \<in> set effs"
proof -
  let ?kb = "get_public_key b"
  obtain us x vs where x: "list_contacts (cs_book st) = us @ x # vs" "hash_clear us ?kb" "cx_public_key x = hex_str ?kb"
    and lb: "length ?kb = 32" using assms(9) unfolding knows_peer_def by blast
  obtain ld where dec: "decrypt_response c a r 2 x = (True, Some ld)" and ld: "login_data_of (py_int now) perms ld"
    using decrypt_response_carried [OF assms(1,2) x(3) assms(3)] by blast
  note found = login_contact_found [OF assms(9) dec x]
  from assms(1) obtain ct where pl: "pk_payload r = [hd (get_public_key a), hd ?kb] @ ct" "17 \<le> length ct"
    and ty: "get_payload_type r = PAYLOAD_TYPE_RESPONSE \<or> get_payload_type r = PAYLOAD_TYPE_PATH"
    by (auto simp: carries_reply_def)
  obtain k ks where ka: "get_public_key a = k # ks" using assms(6) by (cases "get_public_key a") auto
  have anon: "hd ?kb \<noteq> k" using assms(7) by (simp add: ka)
  have "(?kb, waiter) \<in> set (cs_pending_logins st)" using assms(10) by (rule map_of_SomeD)
  moreover have "?kb \<noteq> []" using lb by auto
  ultimately have pend: "has_pending_login_for_hash (hd ?kb) st" by (force simp: has_pending_login_for_hash_def list_ex_iff)
  have mask: "py_int now AND 0xFFFFFFFF = py_int now"
    using and_low_bits [of "py_int now" 32] assms(4,5) by simp
  have fr: "\<not> is_foreign_request_reply (Some ld) ?kb st"
    using assms(11) ld mask by (auto simp: is_foreign_request_reply_def no_foreign_request_def login_data_of_def split: option.splits sum.splits)
  have nt: "get_payload_type r \<noteq> PAYLOAD_TYPE_TRACE" using ty by (auto simp: payload_type_defs)
  obtain t job where t: "(if get_payload_type r = PAYLOAD_TYPE_RESPONSE
      then maybe_teach_from_flood_reply c now' (cs_book st) r ?kb (hd ?kb) None (cs_teacher st) else (cs_teacher st, Inr None)) = (t, Inr job)"
    using teach_decision_total [OF nt, of c now' "cs_book st" ?kb "hd ?kb" None "cs_teacher st"] by (metis (full_types))
  let ?st = "st\<lparr>cs_teacher := t\<rparr>"
  let ?effs = "(case job of Some j \<Rightarrow> [ScheduleTeach j] | None \<Rightarrow> []) @ process_login_response ld ?kb ?st"
  have "LoginResponseHandler_call c u now' urandom4 r st = Inr (clear_login_password (hd ?kb) ?st, ?effs, True)"
    unfolding LoginResponseHandler_call_def assms(8) pl(1) ka using anon pl(2) pend found fr assms(10) t ty
    by (cases "get_payload_type r = PAYLOAD_TYPE_RESPONSE") (simp_all add: Let_def x(3) ka)
  moreover have "process_login_response ld ?kb ?st = [RecordLogin ?kb (py_int now) (acl_is_admin perms),
      LoginCallback waiter True (py_int now, 0, if acl_is_admin perms then 1 else 0, perms, acl_role perms)]"
    using ld assms(10) by (simp add: process_login_response_def Let_def login_data_of_def RESP_SERVER_LOGIN_SUCCESS_ALT_def)
  ultimately show ?thesis by simp
qed

lemma login_request_granted:
  assumes "utf8_encode password = Inr enc" and "0 \<notin> set password" and "0 \<le> ts" and "ts < 2 ^ 32"
    and "ls_is_room_server ls \<longrightarrow> 0 \<le> since \<and> since < 2 ^ 32"
    and "pt = le_bytes 4 ts @ (if ls_is_room_server ls then le_bytes 4 since else []) @ enc @ replicate n 0"
    and "sync = (if ls_is_room_server ls \<and> ls_takes_sync_since ls then Some since else None)"
    and "ls_authenticate ls ci ss password ts sync = Inr (True, perms)" and "ls_send_packet_callback ls"
    and "login_reply_data now blob RESP_SERVER_LOGIN_OK perms = Inr d" and "login_reply c urandom4 ls ci ss (is_route_flood q) d q = Inr reply"
  shows "login_request c now blob urandom4 ls q ci ss pt = Authenticate ci ss password ts sync #
    (if is_route_flood q \<and> ls_clear_out_path ls then [ClearOutPath ci] else []) @ [SendPacket reply LOGIN_RESPONSE_DELAY_MS]"
proof -
  have field: "password_field (if ls_is_room_server ls then 8 else 4) pt = enc"
    using takeWhile_password [OF utf8_encode_no_zero [OF assms(1,2)], of n] by (simp add: password_field_def assms(6) del: le_bytes.simps)
  have t4: "le_int (take 4 pt) = ts" using assms(3,4) by (simp add: assms(6) le_int_le_bytes del: le_bytes.simps)
  have len: "\<not> (length pt < 4 \<or> (ls_is_room_server ls \<and> length pt < 8))" by (simp add: assms(6) del: le_bytes.simps)
  have "le_int (take 4 (drop 4 pt)) = since" if "ls_is_room_server ls"
    using assms(5) that by (simp add: assms(6) le_int_le_bytes del: le_bytes.simps)
  then have syn: "(if ls_takes_sync_since ls then if ls_is_room_server ls then Some (le_int (take 4 (drop 4 pt))) else None else None) = sync"
    by (simp add: assms(7))
  have dpw: "utf8_decode Ignore enc = Inr password" by (rule utf8_decode_encode [OF assms(1)])
  show ?thesis unfolding login_request_def if_not_P [OF len] field Let_def t4 dpw sum.case syn assms(8)
    using assms(9-11) by (simp add: send_login_response_def)
qed

text \<open>
  C9: A login completes. Node A builds a login for node B with a password of at most 15 bytes.
  Whatever route the packet takes, when it comes up at B with its payload, B's handler claims it
  and asks the application with exactly that password, timestamp and, at a room server, the time
  since which A is in sync; when the application grants permissions, B sends a reply, and by
  whatever route it returns to A, A's login handler claims it and completes the pending login for B with
  success, those permissions, the role in them, and the admin flag exactly when the role is admin.
\<close>

theorem login_completes:
  assumes "crypto_laws c" and "identity_laws c"
    and "local_identity_of_seed c sa = Inr a" and "local_identity_of_seed c sb = Inr b"
    and "cx_public_key cb = hex_str (get_public_key b)"
    and "login_packet c cb a password ts = Inr p" and "utf8_encode password = Inr enc" and "length enc \<le> 15" and "0 \<notin> set password"
    and "sendable q" and "pk_payload q = pk_payload p" and "\<And>k. pk_recv_region_key q = Some k \<Longrightarrow> length k = 16"
    and "ls_local_identity ls = b" and "ls_is_room_server ls \<longleftrightarrow> cx_type cb = CONTACT_TYPE_ROOM_SERVER"
    and "sync = (if ls_is_room_server ls \<and> ls_takes_sync_since ls then Some (cx_sync_since cb) else None)"
    and "\<And>ci ss. get_public_key ci = get_public_key a \<Longrightarrow> ls_authenticate ls ci ss password ts sync = Inr (True, perms)"
    and "ls_send_packet_callback ls" and "0 \<le> perms" and "perms < 256"
    and "0 \<le> py_int now" and "py_int now < 2 ^ 32" and "0 \<le> blob" and "blob < 2 ^ 32"
    and "cs_local_identity st = a" and "knows_peer (cs_book st) (get_public_key b)" and "hd (get_public_key a) \<noteq> hd (get_public_key b)"
    and "map_of (cs_pending_logins st) (get_public_key b) = Some waiter" and "no_foreign_request (py_int now) (get_public_key b) st"
  shows "\<exists>effs ci ss reply. LoginServerHandler_call c now blob urandom4 ls q = (consumed None, effs)
    \<and> Authenticate ci ss password ts sync \<in> set effs \<and> get_public_key ci = get_public_key a
    \<and> SendPacket reply LOGIN_RESPONSE_DELAY_MS \<in> set effs
    \<and> (\<forall>r. pk_payload r = pk_payload reply \<and> get_payload_type r = get_payload_type reply \<longrightarrow>
        (\<exists>st' effs'. LoginResponseHandler_call c u now' urandom4' r st = Inr (st', effs', True)
          \<and> LoginCallback waiter True (py_int now, 0, if acl_is_admin perms then 1 else 0, perms, acl_role perms) \<in> set effs'
          \<and> RecordLogin (get_public_key b) (py_int now) (acl_is_admin perms) \<in> set effs'))"
proof -
  let ?room = "cx_type cb = CONTACT_TYPE_ROOM_SERVER"
  let ?mid = "if ?room then le_bytes 4 (cx_sync_since cb) else []"
  obtain ss ca enc' n where ca: "new_identity c (get_public_key a) = Inr ca" and ag: "agreed c a b ss" "agreed c b a ss"
    and l: "length ss = 32" and enc': "utf8_encode password = Inr enc'" and ts: "0 \<le> ts" "ts < 2 ^ 32"
    and op: "open_anon_request c b q = Some (ca, ss, le_bytes 4 ts @ ?mid @ take 15 enc' @ replicate n 0)"
    and sy: "?room \<longrightarrow> 0 \<le> cx_sync_since cb \<and> cx_sync_since cb < 2 ^ 32"
    by (rule login_packet_opens [OF assms(1-6) assms(11)])
  note la = local_identity_of_seed_fields(2) [OF assms(2,3)] and lb = local_identity_of_seed_fields(2) [OF assms(2,4)]
  have kc: "get_public_key ca = get_public_key a" using ca by (auto simp: new_identity_def get_public_key_def res_simps)
  obtain k ks m ms where ka: "get_public_key a = k # ks" and kb: "get_public_key b = m # ms"
    using la lb by (metis length_0_conv list.exhaust zero_neq_numeral)
  define pt where "pt = le_bytes 4 ts @ ?mid @ enc @ replicate n 0"
  have pt: "le_bytes 4 ts @ ?mid @ take 15 enc' @ replicate n 0 = pt" using enc' assms(7,8) by (simp add: pt_def)
  obtain d where d: "login_reply_data now blob RESP_SERVER_LOGIN_OK perms = Inr d"
    using login_reply_data_total [OF assms(20-23,18,19)] by blast
  have dl: "d \<noteq> []" "length d \<le> 97" using login_reply_data_fields(1) [OF d] by auto
  have kca: "get_public_key ca = k # ks" and kls: "get_public_key (ls_local_identity ls) = m # ms" using kc ka kb assms(13) by simp_all
  obtain reply where rep: "login_reply c urandom4 ls ca ss (is_route_flood q) d q = Inr reply"
    and car: "carries_reply c ss reply d k m (pk_path q)"
    using login_reply_carries [OF assms(1) l assms(10) assms(12) kca kls dl] by blast
  have au: "ls_authenticate ls ca ss password ts sync = Inr (True, perms)" by (rule assms(16) [OF kc])
  let ?effs = "Authenticate ca ss password ts sync #
    (if is_route_flood q \<and> ls_clear_out_path ls then [ClearOutPath ca] else []) @ [SendPacket reply LOGIN_RESPONSE_DELAY_MS]"
  have "login_request c now blob urandom4 ls q ca ss pt = ?effs"
    using sy by (intro login_request_granted [OF assms(7,9) ts _ _ _ au assms(17) d rep, where since = "cx_sync_since cb" and n = n])
      (simp_all add: pt_def assms(14,15))
  with op pt have call: "LoginServerHandler_call c now blob urandom4 ls q = (consumed None, ?effs)"
    by (simp add: LoginServerHandler_call_def assms(13))
  have "\<exists>st' effs'. LoginResponseHandler_call c u now' urandom4' r st = Inr (st', effs', True)
          \<and> LoginCallback waiter True (py_int now, 0, if acl_is_admin perms then 1 else 0, perms, acl_role perms) \<in> set effs'
          \<and> RecordLogin (get_public_key b) (py_int now) (acl_is_admin perms) \<in> set effs'"
    if "pk_payload r = pk_payload reply \<and> get_payload_type r = get_payload_type reply" for r
  proof -
    have "carries_reply c ss r d (hd (get_public_key a)) (hd (get_public_key b)) (pk_path q)"
      using carries_reply_cong [OF car] that by (simp add: ka kb)
    from login_reply_claimed [OF this ag(1) d assms(20,21) la assms(26,24,25,27,28)] show ?thesis .
  qed
  with call kc show ?thesis by (intro exI [of _ ?effs] exI [of _ ca] exI [of _ ss] exI [of _ reply]) simp
qed

theorem login_completes_witness:
  "\<exists>p effs reply st' effs'. login_packet toy_crypto (toy_contact (-1) []) (toy_node 1) (str ''hello'') 7 = Inr p
     \<and> LoginServerHandler_call toy_crypto 100 9 [1, 2, 3, 4] toy_login_server p = (consumed None, effs)
     \<and> SendPacket reply LOGIN_RESPONSE_DELAY_MS \<in> set effs
     \<and> LoginResponseHandler_call toy_crypto toy_unicode 101 [4, 3, 2, 1] reply
         (register_login_callback (get_public_key (toy_node 2)) 3 toy_client_state) = Inr (st', effs', True)
     \<and> LoginCallback 3 True (100, 0, 1, 3, 3) \<in> set effs'"
proof -
  let ?st = "register_login_callback (get_public_key (toy_node 2)) 3 toy_client_state"
  have "case login_packet toy_crypto (toy_contact (-1) []) (toy_node 1) (str ''hello'') 7 of
      Inl _ \<Rightarrow> False | Inr p \<Rightarrow> sendable p \<and> pk_recv_region_key p = None" by code_simp
  then obtain p where p: "login_packet toy_crypto (toy_contact (-1) []) (toy_node 1) (str ''hello'') 7 = Inr p"
    "sendable p" "pk_recv_region_key p = None" by (auto split: sum.splits)
  have enc: "utf8_encode (str ''hello'') = Inr [104, 101, 108, 108, 111]" by code_simp
  have st: "cs_local_identity ?st = toy_node 1" "knows_peer (cs_book ?st) (get_public_key (toy_node 2))"
    "hd (get_public_key (toy_node 1)) \<noteq> hd (get_public_key (toy_node 2))"
    "map_of (cs_pending_logins ?st) (get_public_key (toy_node 2)) = Some 3" "no_foreign_request (py_int 100) (get_public_key (toy_node 2)) ?st"
    using toy_client_state_facts
    by (simp_all add: register_login_callback_def update_conv' toy_node_def get_public_key_def no_foreign_request_def
        toy_client_state_def create_client_state_def)
  have nz: "0 \<notin> set (str ''hello'')" by code_simp
  have room: "ls_is_room_server toy_login_server \<longleftrightarrow> cx_type (toy_contact (-1) []) = CONTACT_TYPE_ROOM_SERVER" by code_simp
  have "\<exists>effs ci ss reply. LoginServerHandler_call toy_crypto 100 9 [1, 2, 3, 4] toy_login_server p = (consumed None, effs)
    \<and> Authenticate ci ss (str ''hello'') 7 None \<in> set effs \<and> get_public_key ci = get_public_key (toy_node 1)
    \<and> SendPacket reply LOGIN_RESPONSE_DELAY_MS \<in> set effs
    \<and> (\<forall>r. pk_payload r = pk_payload reply \<and> get_payload_type r = get_payload_type reply \<longrightarrow>
        (\<exists>st' effs'. LoginResponseHandler_call toy_crypto toy_unicode 101 [4, 3, 2, 1] r ?st = Inr (st', effs', True)
          \<and> LoginCallback 3 True (py_int 100, 0, if acl_is_admin 3 then 1 else 0, 3, acl_role 3) \<in> set effs'
          \<and> RecordLogin (get_public_key (toy_node 2)) (py_int 100) (acl_is_admin 3) \<in> set effs'))"
    by (rule login_completes [OF toy_crypto_laws toy_identity_laws toy_node_seed toy_node_seed toy_server_key p(1) enc _ nz p(2) refl _ _ room _
          _ _ _ _ _ _ _ _ st])
      (simp_all add: p(3) toy_login_server_def py_int_def)
  then obtain effs reply st' effs' where "LoginServerHandler_call toy_crypto 100 9 [1, 2, 3, 4] toy_login_server p = (consumed None, effs)"
    "SendPacket reply LOGIN_RESPONSE_DELAY_MS \<in> set effs"
    "LoginResponseHandler_call toy_crypto toy_unicode 101 [4, 3, 2, 1] reply ?st = Inr (st', effs', True)"
    "LoginCallback 3 True (py_int 100, 0, if acl_is_admin 3 then 1 else 0, 3, acl_role 3) \<in> set effs'" by blast
  moreover have "py_int 100 = 100" "acl_is_admin 3" "acl_role 3 = 3" by (simp add: py_int_def) code_simp+
  ultimately show ?thesis using p(1) by auto
qed

end
