(* ===== verification/Anon_Request.thy ===== *)
theory Anon_Request
  imports Login_Server
begin

text \<open>
  Anonymous requests at a server, \<open>node/handlers/anon_request.py\<close>: a request is opened with the
  key in it, and the byte after its timestamp says whether it is a login, which goes to the login
  handler, or asks for the regions, the owner or the features of the node. Such a question is
  answered only when it came direct, along the path it carries, and only as often as a rate
  limiter that all identities of the node share allows. The names, texts and flags are the
  application's, and the clock is an argument.
\<close>

section \<open>The rate limiter\<close>

record anon_limiter =
  al_maximum :: int
  al_secs :: real
  al_start_timestamp :: real
  al_count :: int

definition new_anon_limiter :: "int \<Rightarrow> real \<Rightarrow> anon_limiter" where
  "new_anon_limiter maximum secs = \<lparr>al_maximum = maximum, al_secs = secs, al_start_timestamp = 0, al_count = 0\<rparr>"

definition allow :: "real \<Rightarrow> anon_limiter \<Rightarrow> anon_limiter \<times> bool" where
  "allow now lm =
     (if now < al_start_timestamp lm + al_secs lm
      then let lm = lm\<lparr>al_count := al_count lm + 1\<rparr> in (lm, al_count lm \<le> al_maximum lm)
      else (lm\<lparr>al_start_timestamp := now, al_count := 1\<rparr>, True))"

section \<open>Discovery\<close>

definition ANON_REQ_TYPE_REGIONS :: int where "ANON_REQ_TYPE_REGIONS = 0x01"
definition ANON_REQ_TYPE_OWNER :: int where "ANON_REQ_TYPE_OWNER = 0x02"
definition ANON_REQ_TYPE_BASIC :: int where "ANON_REQ_TYPE_BASIC = 0x03"
definition SERVER_RESPONSE_DELAY_MS :: int where "SERVER_RESPONSE_DELAY_MS = 300"

lemmas anon_type_defs = ANON_REQ_TYPE_REGIONS_def ANON_REQ_TYPE_OWNER_def ANON_REQ_TYPE_BASIC_def

record anon_handler =
  ah_local_identity :: local_identity
  ah_login_handler :: login_server
  ah_region_names_fn :: "pystr res option"
  ah_owner_info_fn :: "(pystr \<times> pystr) res option"
  ah_features_fn :: "int res option"
  ah_clock_fn :: "int res option"
  ah_send_packet_callback :: bool

datatype anon_effect =
    LoginEffect login_effect
  | DiscoveryReply packet int

text \<open>\<open>encode("utf-8", errors="ignore")\<close>: code points that have no encoding are left out.\<close>

definition utf8_encode_ignore :: "pystr \<Rightarrow> bytes" where
  "utf8_encode_ignore s = concat (map (\<lambda>ch. case utf8_encode [ch] of Inr bs \<Rightarrow> bs | Inl _ \<Rightarrow> []) s)"

text \<open>The bytes before the last comma, or all of them when it is missing or the first byte.\<close>

definition cut_at_comma :: "bytes \<Rightarrow> bytes" where
  "cut_at_comma bs = (let rest = dropWhile (\<lambda>b. b \<noteq> 44) (rev bs) in if 1 < length rest then rev (List.tl rest) else bs)"

definition discovery_body :: "anon_handler \<Rightarrow> int \<Rightarrow> bytes res" where
  "discovery_body ah subtype =
     (if subtype = ANON_REQ_TYPE_REGIONS then
        bind_res (opt_default (Inr []) (ah_region_names_fn ah)) (\<lambda>names.
        let name_bytes = utf8_encode_ignore names;
            max_names = nat (MAX_PACKET_PAYLOAD - 24)
        in Inr (if max_names < length name_bytes then cut_at_comma (take max_names name_bytes) else name_bytes))
      else if subtype = ANON_REQ_TYPE_OWNER then
        bind_res (opt_default (Inr ([], [])) (ah_owner_info_fn ah)) (\<lambda>(node_name, owner).
        Inr (utf8_encode_ignore (node_name @ [10] @ owner)))
      else
        bind_res (opt_default (Inr 0) (ah_features_fn ah)) (\<lambda>features. Inr [word_of_int (features AND 0xFF)]))"

definition discovery_packet ::
  "crypto \<Rightarrow> bytes \<Rightarrow> anon_handler \<Rightarrow> packet \<Rightarrow> identity \<Rightarrow> bytes \<Rightarrow> bytes \<Rightarrow> int \<Rightarrow> int \<Rightarrow> bytes \<Rightarrow> packet res" where
  "discovery_packet c urandom4 ah packet client_identity shared_secret reply_data reply_path_len hash_size path_bytes =
     bind_res
       (if is_route_flood packet then
          bind_res (index_res (get_public_key client_identity) 0) (\<lambda>client_hash.
          bind_res (index_res (get_public_key (ah_local_identity ah)) 0) (\<lambda>server_hash.
          let has_path = 0 < pk_path_len packet;
              in_path = (if has_path then map uint (slice_to (Packet_get_path_byte_len packet) (pk_path packet)) else [])
          in bind_res (create_path_return c urandom4 (uint client_hash) (uint server_hash) shared_secret in_path
                 PAYLOAD_TYPE_RESPONSE reply_data (if has_path then Some (pk_path_len packet) else None)) (\<lambda>response_pkt.
             apply_path_hash_mode (request_hash_size (pk_path_len packet) - 1) True response_pkt)))
        else
          bind_res (create_datagram c PAYLOAD_TYPE_RESPONSE client_identity (ah_local_identity ah) shared_secret
                      reply_data (str ''direct'')) (\<lambda>response_pkt.
          if 0 < reply_path_len \<and> path_bytes \<noteq> []
          then bind_res (encode_path_len hash_size reply_path_len) (\<lambda>encoded. with_path path_bytes (Some encoded) response_pkt)
          else Inr response_pkt))
       (\<lambda>response_pkt. apply_reply_scope c response_pkt (Some packet))"

definition handle_discovery ::
  "crypto \<Rightarrow> real \<Rightarrow> bytes \<Rightarrow> anon_handler \<Rightarrow> packet \<Rightarrow> identity \<Rightarrow> bytes \<Rightarrow> int \<Rightarrow> bytes \<Rightarrow> anon_effect list" where
  "handle_discovery c now urandom4 ah packet client_identity shared_secret subtype plaintext =
     (let reply_path_byte = (if 5 < length plaintext then uint (plaintext ! 5) else 0);
          reply_path_len = reply_path_byte AND 0x3F;
          hash_size = drop_bit 6 reply_path_byte + 1;
          path_bytes = take (nat (reply_path_len * hash_size)) (drop 6 plaintext)
      in case bind_res (opt_default (Inr (py_int now)) (ah_clock_fn ah)) (\<lambda>clock.
              bind_res (pack_u 4 (clock AND 0xFFFFFFFF)) (\<lambda>now_clock.
              bind_res (discovery_body ah subtype) (\<lambda>body.
              if \<not> ah_send_packet_callback ah then Inr []
              else bind_res (discovery_packet c urandom4 ah packet client_identity shared_secret
                               (take 4 plaintext @ now_clock @ body) reply_path_len hash_size path_bytes) (\<lambda>response_pkt.
                   Inr [DiscoveryReply response_pkt SERVER_RESPONSE_DELAY_MS])))) of
           Inr effs \<Rightarrow> effs | Inl _ \<Rightarrow> [])"

definition AnonRequestHandler_call ::
  "crypto \<Rightarrow> real \<Rightarrow> int \<Rightarrow> bytes \<Rightarrow> anon_handler \<Rightarrow> packet \<Rightarrow> anon_limiter \<Rightarrow>
   anon_limiter \<times> handler_result \<times> anon_effect list" where
  "AnonRequestHandler_call c now blob urandom4 ah packet lm =
     (case open_anon_request c (ah_local_identity ah) packet of
        None \<Rightarrow> (lm, not_for_us, [])
      | Some (client_identity, shared_secret, plaintext) \<Rightarrow>
          if ls_is_room_server (ah_login_handler ah) \<or> length plaintext < 5 \<or> plaintext ! 4 = 0 \<or> 0x20 \<le> plaintext ! 4
          then (lm, consumed None,
                map LoginEffect (snd (LoginServerHandler_call c now blob urandom4 (ah_login_handler ah) packet)))
          else
            let subtype = uint (plaintext ! 4)
            in if subtype \<notin> {ANON_REQ_TYPE_REGIONS, ANON_REQ_TYPE_OWNER, ANON_REQ_TYPE_BASIC} \<or> \<not> is_route_direct packet
               then (lm, consumed None, [])
               else
                 let (lm, ok) = allow now lm
                 in (lm, consumed None,
                     if ok then handle_discovery c now urandom4 ah packet client_identity shared_secret subtype plaintext
                     else []))"

section \<open>How often a node answers\<close>

type_synonym anon_event = "anon_handler \<times> real \<times> int \<times> bytes \<times> packet"

fun event_time :: "anon_event \<Rightarrow> real" where "event_time (ah, now, blob, urandom4, packet) = now"

text \<open>Requests at the identities of a node one after the other, and the replies to discovery requests.\<close>

fun anon_run :: "crypto \<Rightarrow> anon_event list \<Rightarrow> anon_limiter \<Rightarrow> anon_limiter \<times> anon_effect list" where
  "anon_run c [] lm = (lm, [])"
| "anon_run c ((ah, now, blob, urandom4, packet) # evs) lm =
     (let (lm, _, effs) = AnonRequestHandler_call c now blob urandom4 ah packet lm;
          (lm, more) = anon_run c evs lm
      in (lm, effs @ more))"

definition is_discovery :: "anon_effect \<Rightarrow> bool" where
  "is_discovery eff = (case eff of DiscoveryReply _ _ \<Rightarrow> True | LoginEffect _ \<Rightarrow> False)"

definition discovery_replies :: "anon_effect list \<Rightarrow> nat" where
  "discovery_replies effs = length (filter is_discovery effs)"

lemma discovery_replies_simps [simp]:
  "discovery_replies [] = 0" "discovery_replies (xs @ ys) = discovery_replies xs + discovery_replies ys"
  "discovery_replies (map LoginEffect effs) = 0"
  by (auto simp: discovery_replies_def is_discovery_def filter_empty_conv)

lemma handle_discovery_once:
  "discovery_replies (handle_discovery c now urandom4 ah packet ci ss subtype pt) \<le> 1"
  by (auto simp: handle_discovery_def Let_def discovery_replies_def bind_res_eq_Inr split: sum.splits if_splits)

text \<open>A request leaves the limiter alone and sends no reply, or is charged to it and sends at most one when allowed.\<close>

lemma anon_call_charged:
  "(fst (AnonRequestHandler_call c now blob urandom4 ah packet lm) = lm
      \<and> discovery_replies (snd (snd (AnonRequestHandler_call c now blob urandom4 ah packet lm))) = 0)
   \<or> (fst (AnonRequestHandler_call c now blob urandom4 ah packet lm) = fst (allow now lm)
      \<and> discovery_replies (snd (snd (AnonRequestHandler_call c now blob urandom4 ah packet lm))) \<le> (if snd (allow now lm) then 1 else 0))"
  using handle_discovery_once
  by (simp add: AnonRequestHandler_call_def Let_def split: option.split prod.split)

lemma anon_run_Cons:
  assumes "anon_run c ((ah, now, blob, urandom4, packet) # evs) lm = (lm', effs)"
  obtains mid es where "anon_run c evs mid = (lm', es)"
    and "(mid = lm \<and> discovery_replies effs = discovery_replies es)
         \<or> (mid = fst (allow now lm) \<and> discovery_replies effs \<le> (if snd (allow now lm) then 1 else 0) + discovery_replies es)"
proof -
  obtain mid r es1 where x: "AnonRequestHandler_call c now blob urandom4 ah packet lm = (mid, r, es1)" by (metis prod_cases3)
  obtain l es where y: "anon_run c evs mid = (l, es)" by fastforce
  from assms x y have "l = lm'" "effs = es1 @ es" by simp_all
  with y anon_call_charged [of c now blob urandom4 ah packet lm] show thesis by (intro that [of mid es]) (auto simp: x)
qed

lemma allow_fields [simp]:
  "al_maximum (fst (allow now lm)) = al_maximum lm" "al_secs (fst (allow now lm)) = al_secs lm"
  by (simp_all add: allow_def Let_def)

lemma anon_run_state:
  assumes "anon_run c evs lm = (lm', effs)" and "0 \<le> al_count lm"
  shows "al_maximum lm' = al_maximum lm" and "al_secs lm' = al_secs lm" and "0 \<le> al_count lm'"
proof -
  have "al_maximum lm' = al_maximum lm \<and> al_secs lm' = al_secs lm \<and> 0 \<le> al_count lm'"
    using assms
  proof (induction evs arbitrary: lm effs)
    case (Cons ev evs)
    obtain ah now blob urandom4 packet where ev: "ev = (ah, now, blob, urandom4, packet)" by (metis prod_cases5)
    from Cons.prems(1) [unfolded ev] obtain mid es where m: "anon_run c evs mid = (lm', es)"
      and "mid = lm \<or> mid = fst (allow now lm)" by (rule anon_run_Cons) blast
    moreover have "0 \<le> al_count (fst (allow now lm))" using Cons.prems(2) by (simp add: allow_def Let_def)
    ultimately have "0 \<le> al_count mid" "al_maximum mid = al_maximum lm" "al_secs mid = al_secs lm"
      using Cons.prems(2) by auto
    with Cons.IH [OF m] show ?case by simp
  qed simp
  then show "al_maximum lm' = al_maximum lm" and "al_secs lm' = al_secs lm" and "0 \<le> al_count lm'" by simp_all
qed

lemma replies_in_window:
  assumes "anon_run c evs lm = (lm', effs)" and "\<forall>ev \<in> set evs. event_time ev < al_start_timestamp lm + al_secs lm"
  shows "int (discovery_replies effs) \<le> max 0 (al_maximum lm - al_count lm)"
  using assms
proof (induction evs arbitrary: lm effs)
  case (Cons ev evs)
  obtain ah now blob urandom4 packet where ev: "ev = (ah, now, blob, urandom4, packet)" by (metis prod_cases5)
  from Cons.prems(1) [unfolded ev] obtain mid es where m: "anon_run c evs mid = (lm', es)"
    and d: "(mid = lm \<and> discovery_replies effs = discovery_replies es)
         \<or> (mid = fst (allow now lm) \<and> discovery_replies effs \<le> (if snd (allow now lm) then 1 else 0) + discovery_replies es)"
    by (rule anon_run_Cons)
  have now: "now < al_start_timestamp lm + al_secs lm" and rest: "\<forall>ev \<in> set evs. event_time ev < al_start_timestamp lm + al_secs lm"
    using Cons.prems(2) by (simp_all add: ev)
  from now have al: "allow now lm = (lm\<lparr>al_count := al_count lm + 1\<rparr>, al_count lm + 1 \<le> al_maximum lm)" by (simp add: allow_def Let_def)
  have "int (discovery_replies es) \<le> max 0 (al_maximum mid - al_count mid)"
    using d rest by (intro Cons.IH [OF m]) (auto simp: al)
  with d show ?case by (auto simp: al split: if_splits)
qed simp

lemma replies_in_interval:
  assumes "anon_run c evs lm = (lm', effs)" and "1 \<le> al_maximum lm"
    and "\<forall>ev \<in> set evs. a \<le> event_time ev \<and> event_time ev < a + al_secs lm"
  shows "int (discovery_replies effs) \<le> max 0 (al_maximum lm - al_count lm) + al_maximum lm"
  using assms
proof (induction evs arbitrary: lm effs)
  case (Cons ev evs)
  obtain ah now blob urandom4 packet where ev: "ev = (ah, now, blob, urandom4, packet)" by (metis prod_cases5)
  from Cons.prems(1) [unfolded ev] obtain mid es where m: "anon_run c evs mid = (lm', es)"
    and d: "(mid = lm \<and> discovery_replies effs = discovery_replies es)
         \<or> (mid = fst (allow now lm) \<and> discovery_replies effs \<le> (if snd (allow now lm) then 1 else 0) + discovery_replies es)"
    by (rule anon_run_Cons)
  have now: "a \<le> now" and rest: "\<forall>ev \<in> set evs. a \<le> event_time ev \<and> event_time ev < a + al_secs lm"
    using Cons.prems(3) by (simp_all add: ev)
  consider "mid = lm" "discovery_replies effs = discovery_replies es"
    | "now < al_start_timestamp lm + al_secs lm" "mid = lm\<lparr>al_count := al_count lm + 1\<rparr>"
      "discovery_replies effs \<le> (if al_count lm + 1 \<le> al_maximum lm then 1 else 0) + discovery_replies es"
    | "mid = lm\<lparr>al_start_timestamp := now, al_count := 1\<rparr>" "discovery_replies effs \<le> 1 + discovery_replies es"
    using d by (auto simp: allow_def Let_def split: if_splits)
  then show ?case
  proof cases
    case 1
    with Cons.IH [OF m] Cons.prems(2) rest show ?thesis by simp
  next
    case 2
    have "int (discovery_replies es) \<le> max 0 (al_maximum mid - al_count mid) + al_maximum mid"
      using Cons.prems(2) rest by (intro Cons.IH [OF m]) (auto simp: 2(2))
    with 2(2,3) show ?thesis by (auto split: if_splits)
  next
    case 3
    have "int (discovery_replies es) \<le> max 0 (al_maximum mid - al_count mid)"
      using rest now by (intro replies_in_window [OF m]) (auto simp: 3(1))
    with 3 Cons.prems(2) show ?thesis by simp
  qed
qed simp

text \<open>
  C19: A node is not an amplifier for anonymous questions. Whatever requests its identities have
  received before, and whatever requests they receive within a span as long as the limiter's
  window, the node sends at most twice the limiter's maximum of discovery replies in that span.
\<close>

theorem discovery_rate_bounded:
  assumes "1 \<le> maximum" and "anon_run c before (new_anon_limiter maximum secs) = (lm, effs)"
    and "\<forall>ev \<in> set evs. a \<le> event_time ev \<and> event_time ev < a + secs"
  shows "int (discovery_replies (snd (anon_run c evs lm))) \<le> 2 * maximum"
proof -
  note st = anon_run_state [OF assms(2)]
  have lm: "al_maximum lm = maximum" "al_secs lm = secs" "0 \<le> al_count lm" using st by (simp_all add: new_anon_limiter_def)
  obtain lm' es where run: "anon_run c evs lm = (lm', es)" by fastforce
  have "int (discovery_replies es) \<le> max 0 (al_maximum lm - al_count lm) + al_maximum lm"
    using assms(1,3) by (intro replies_in_interval [OF run, where a = a]) (simp_all add: lm)
  with lm assms(1) run show ?thesis by (simp split: if_splits)
qed

definition toy_anon_handler :: anon_handler where
  "toy_anon_handler = \<lparr>ah_local_identity = toy_node 2, ah_login_handler = toy_login_server,
     ah_region_names_fn = Some (Inr (str ''north,south'')), ah_owner_info_fn = None, ah_features_fn = None, ah_clock_fn = None,
     ah_send_packet_callback = True\<rparr>"

definition toy_regions_request :: packet where
  "toy_regions_request = (case anon_request_packet toy_crypto (toy_contact 0 []) (toy_node 1) [0x01, 0] 7 of Inr p \<Rightarrow> p | Inl _ \<Rightarrow> new_packet)"

theorem discovery_rate_bounded_witness:
  "discovery_replies (snd (anon_run toy_crypto (replicate 6 (toy_anon_handler, 100, 9, [1, 2, 3, 4], toy_regions_request))
      (new_anon_limiter 4 180))) = 4
   \<and> int (discovery_replies (snd (anon_run toy_crypto (replicate 6 (toy_anon_handler, 100, 9, [1, 2, 3, 4], toy_regions_request))
      (new_anon_limiter 4 180)))) \<le> 2 * 4"
proof
  show "discovery_replies (snd (anon_run toy_crypto (replicate 6 (toy_anon_handler, 100, 9, [1, 2, 3, 4], toy_regions_request))
      (new_anon_limiter 4 180))) = 4" by code_simp
  show "int (discovery_replies (snd (anon_run toy_crypto (replicate 6 (toy_anon_handler, 100, 9, [1, 2, 3, 4], toy_regions_request))
      (new_anon_limiter 4 180)))) \<le> 2 * 4"
    by (rule discovery_rate_bounded [where before = "[]" and effs = "[]" and secs = 180 and a = 0]) simp_all
qed

section \<open>The request that a client builds\<close>

lemma anon_request_opens:
  assumes "crypto_laws c" and "identity_laws c"
    and "local_identity_of_seed c sa = Inr a" and "local_identity_of_seed c sb = Inr b"
    and "cx_public_key cb = hex_str (get_public_key b)"
    and "anon_request_packet c cb a req ts = Inr p" and "pk_payload q = pk_payload p"
  obtains ca ss n where "get_public_key ca = get_public_key a" and "agreed c a b ss"
    and "length ss = 32" and "0 \<le> ts" and "ts < 2 ^ 32"
    and "open_anon_request c b q = Some (ca, ss, le_bytes 4 ts @ req @ replicate n 0)"
proof -
  note lb = local_identity_of_seed_fields(2) [OF assms(2,4)]
  from assms(6) obtain pt ib ss ct d h pk0 where pt: "pack_timestamp_data ts [PartBytes req] = Inr pt"
    and ib: "new_identity c (get_public_key b) = Inr ib" and ss: "calc_shared_secret c ib (get_private_key a) = Inr ss"
    and ct: "encrypt_then_mac c (take 16 ss) ss pt = Inr ct" and d: "hash_byte (get_public_key b) = Inr d"
    and pk0: "create_packet h (d # get_public_key a @ ct) = Inr pk0"
    and p: "(if 0 \<le> cx_out_path_len cb \<and> 0 < length (cx_out_path cb)
          then attach_contact_path (cx_out_path_len cb) (cx_out_path cb) (pk0\<lparr>pk_path_len := 0, pk_path := []\<rparr>)
          else Inr (pk0\<lparr>pk_path_len := 0, pk_path := []\<rparr>)) = Inr p"
    by (auto simp: anon_request_packet_def calc_shared_secret_and_key_def Let_def assms(5) bind_res_eq_Inr fromhex_hex_str)
  define pkt where "pkt = pk0\<lparr>pk_path_len := 0, pk_path := []\<rparr>"
  have pkt: "pk_payload pkt = d # get_public_key a @ ct" using pk0 by (auto simp: pkt_def create_packet_def bind_res_eq_Inr)
  from p [folded pkt_def]
have same: "p = pkt \<or> (\<exists>n bs. attach_contact_path n bs pkt = Inr p)" by (auto split: if_splits)
  have "pk_payload p = pk_payload pkt" using same with_path_fields(1)
    by (fastforce simp: attach_contact_path_def Let_def split: if_splits)
  with pkt assms(7) have payq: "pk_payload q = d # get_public_key a @ ct" by simp
  have ag: "agreed c a b ss" using ib ss lb by (simp add: agreed_def)
  have l: "length ss = 32" using ss assms(2) by (auto simp: calc_shared_secret_def scalarmult_def identity_laws_def)
  have ptf: "pt = le_bytes 4 ts @ req" "0 \<le> ts" "ts < 2 ^ 32"
    using pt by (auto simp: pack_timestamp_data_def part_bytes_def res_simps simp del: le_bytes.simps)
  have "pt \<noteq> []" using ptf(1) by (auto dest: arg_cong [where f = length])
  from anon_payload_opens [OF assms(1-4) ag l ct this d payq] ptf ag l show thesis by (auto intro: that)
qed

section \<open>Answering a discovery request\<close>

lemma byte_of_path_len:
  assumes "0 \<le> e" and "e < 256"
  shows "uint (word_of_int e :: byte) = e" and "e AND 0x3F = e mod 64" and "drop_bit 6 e + 1 = e div 64 + 1"
  using assms by (simp_all add: uint_byte_of_int mask_simps)

end
