(* ===== verification/Companion_Parsing.thy ===== *)
theory Companion_Parsing
  imports Telemetry Anon_Request
begin

text \<open>
  What a companion makes of the body of a response, \<open>companion/binary_parsing.py\<close>: one parser per
  kind of request, selected by the request that the tag belongs to. The optional package that reads
  Cayenne LPP frames is a parameter, and so is the classification of Unicode characters.
\<close>

section \<open>Splitting\<close>

text \<open>\<open>split(sep)\<close>, and \<open>split(sep, n)\<close> with at most n splits.\<close>

fun split_on :: "'a \<Rightarrow> 'a list \<Rightarrow> 'a list list" where
  "split_on sep [] = [[]]"
| "split_on sep (x # xs) =
     (if x = sep then [] # split_on sep xs
      else case split_on sep xs of [] \<Rightarrow> [[x]] | p # ps \<Rightarrow> (x # p) # ps)"

fun split_max :: "'a \<Rightarrow> nat \<Rightarrow> 'a list \<Rightarrow> 'a list list" where
  "split_max sep 0 xs = [xs]"
| "split_max sep (Suc n) xs =
     (case dropWhile (\<lambda>x. x \<noteq> sep) xs of
        [] \<Rightarrow> [xs]
      | _ # rest \<Rightarrow> takeWhile (\<lambda>x. x \<noteq> sep) xs # split_max sep n rest)"

text \<open>\<open>sep.join(parts)\<close>.\<close>

fun join_with :: "'a list \<Rightarrow> 'a list list \<Rightarrow> 'a list" where
  "join_with sep [] = []"
| "join_with sep [p] = p"
| "join_with sep (p # q # ps) = p @ sep @ join_with sep (q # ps)"

definition nth_or :: "'a list \<Rightarrow> nat \<Rightarrow> 'a list list \<Rightarrow> 'a list" where
  "nth_or d i xs = (if i < length xs then xs ! i else d)"

section \<open>Exported contacts\<close>

definition CONTACT_NAME_SIZE :: nat where "CONTACT_NAME_SIZE = 32"
definition EXPORTED_CONTACT_SIZE :: nat where "EXPORTED_CONTACT_SIZE = 73"

definition encode_exported_contact :: "bytes \<Rightarrow> int \<Rightarrow> pystr \<Rightarrow> real \<Rightarrow> real \<Rightarrow> bytes res" where
  "encode_exported_contact pub_key adv_type name gps_lat gps_lon =
     bind_res (utf8_encode name) (\<lambda>encoded.
     let cut = take CONTACT_NAME_SIZE encoded;
         name_field = cut @ replicate (CONTACT_NAME_SIZE - length cut) 0
     in bind_res (to_byte adv_type) (\<lambda>ty.
        bind_res (pack_s 4 (py_int (gps_lat * 1000000))) (\<lambda>lat.
        bind_res (pack_s 4 (py_int (gps_lon * 1000000))) (\<lambda>lon.
        Inr (take 32 pub_key @ replicate (32 - length pub_key) 0 @ [ty] @ name_field @ lat @ lon)))))"

record exported_contact =
  ec_public_key :: bytes
  ec_adv_type :: int
  ec_name :: pystr
  ec_name_raw :: bytes
  ec_gps_lat :: real
  ec_gps_lon :: real
  ec_lat_microdeg :: int
  ec_lon_microdeg :: int

definition decode_exported_contact :: "bytes \<Rightarrow> exported_contact option res" where
  "decode_exported_contact data =
     (if length data < EXPORTED_CONTACT_SIZE then Inr None
      else
        let name_raw = takeWhile (\<lambda>b. b \<noteq> 0) (take 32 (drop 33 data));
            lat = le_sint (take 4 (drop 65 data));
            lon = le_sint (take 4 (drop 69 data))
        in bind_res (utf8_decode Replace name_raw) (\<lambda>name.
           Inr (Some \<lparr>ec_public_key = take 32 data, ec_adv_type = uint (data ! 32), ec_name = name, ec_name_raw = name_raw,
                      ec_gps_lat = of_int lat / 1000000, ec_gps_lon = of_int lon / 1000000,
                      ec_lat_microdeg = lat, ec_lon_microdeg = lon\<rparr>)))"

section \<open>Responses\<close>

definition BINARY_STATUS :: int where "BINARY_STATUS = 0x01"
definition BINARY_TELEMETRY :: int where "BINARY_TELEMETRY = 0x03"
definition BINARY_MMA :: int where "BINARY_MMA = 0x04"
definition BINARY_ACL :: int where "BINARY_ACL = 0x05"
definition BINARY_NEIGHBOURS :: int where "BINARY_NEIGHBOURS = 0x06"
definition BINARY_OWNER_INFO :: int where "BINARY_OWNER_INFO = 0x07"

lemmas binary_type_defs = BINARY_STATUS_def BINARY_TELEMETRY_def BINARY_MMA_def BINARY_ACL_def BINARY_NEIGHBOURS_def
  BINARY_OWNER_INFO_def

record status_info =
  st_pubkey_pre :: pystr
  st_bat :: int
  st_tx_queue_len :: int
  st_noise_floor :: int
  st_last_rssi :: int
  st_nb_recv :: int
  st_nb_sent :: int
  st_airtime :: int
  st_uptime :: int
  st_sent_flood :: int
  st_sent_direct :: int
  st_recv_flood :: int
  st_recv_direct :: int
  st_full_evts :: int
  st_last_snr :: real
  st_direct_dups :: int
  st_flood_dups :: int
  st_rx_airtime :: int

record neighbour =
  nb_pubkey :: pystr
  nb_secs_ago :: int
  nb_snr :: real

datatype 'l binary_response =
    StatusInfo status_info
  | TelemetryInfo pystr "'l option"
  | MmaInfo pystr "'l option"
  | AclInfo "(pystr \<times> int) list"
  | NeighboursInfo int int "neighbour list"
  | NeighboursRaw pystr
  | OwnerInfo int pystr pystr pystr pystr
  | RegionsInfo int "pystr list"
  | AnonOwnerInfo int pystr pystr
  | AnonBasicInfo int int bool int bool
  | RawAnon pystr int
  | RawRequest pystr int

text \<open>\<open>int.from_bytes(data[i : i + n], "little")\<close>, unsigned and signed; a slice beyond the end is empty and reads as 0.\<close>

definition u_at :: "nat \<Rightarrow> nat \<Rightarrow> bytes \<Rightarrow> int" where
  "u_at i n data = le_int (take n (drop i data))"

definition s_at :: "nat \<Rightarrow> nat \<Rightarrow> bytes \<Rightarrow> int" where
  "s_at i n data = (let bs = take n (drop i data) in if bs = [] then 0 else le_sint bs)"

definition parse_status :: "bytes \<Rightarrow> pystr option \<Rightarrow> nat \<Rightarrow> status_info" where
  "parse_status data pubkey_prefix offset =
     (let (pre, k) = (if pubkey_prefix = None \<and> 8 \<le> length data then (hex_str (take 6 (drop 2 data)), 8)
                      else (opt_default [] pubkey_prefix, offset))
      in \<lparr>st_pubkey_pre = pre, st_bat = u_at k 2 data, st_tx_queue_len = u_at (k + 2) 2 data,
          st_noise_floor = s_at (k + 4) 2 data, st_last_rssi = s_at (k + 6) 2 data,
          st_nb_recv = u_at (k + 8) 4 data, st_nb_sent = u_at (k + 12) 4 data, st_airtime = u_at (k + 16) 4 data,
          st_uptime = u_at (k + 20) 4 data, st_sent_flood = u_at (k + 24) 4 data, st_sent_direct = u_at (k + 28) 4 data,
          st_recv_flood = u_at (k + 32) 4 data, st_recv_direct = u_at (k + 36) 4 data, st_full_evts = u_at (k + 40) 2 data,
          st_last_snr = of_int (s_at (k + 42) 2 data) / 4, st_direct_dups = u_at (k + 44) 2 data,
          st_flood_dups = u_at (k + 46) 2 data, st_rx_airtime = u_at (k + 48) 4 data\<rparr>)"

definition lpp_frame :: "(bytes \<Rightarrow> 'l res) \<Rightarrow> bytes \<Rightarrow> 'l option" where
  "lpp_frame lpp data = (case lpp data of Inr frame \<Rightarrow> Some frame | Inl _ \<Rightarrow> None)"

definition parse_owner_info :: "unicode \<Rightarrow> bytes \<Rightarrow> 'l binary_response" where
  "parse_owner_info u data =
     (case utf8_decode Replace (drop 4 data) of
        Inl _ \<Rightarrow> RawRequest (hex_str data) BINARY_OWNER_INFO
      | Inr decoded \<Rightarrow>
          let txt = py_strip u decoded;
              parts = split_max 10 2 txt
          in OwnerInfo (u_at 0 4 data) (nth_or [] 0 parts) (nth_or [] 1 parts) (nth_or [] 2 parts) txt)"

definition anon_clock :: "bytes \<Rightarrow> int" where
  "anon_clock data = (if 4 \<le> length data then u_at 0 4 data else 0)"

definition parse_regions :: "bytes \<Rightarrow> 'l binary_response" where
  "parse_regions data =
     (case utf8_decode Replace (takeWhile (\<lambda>b. b \<noteq> 0) (drop 4 data)) of
        Inl _ \<Rightarrow> RawAnon (hex_str data) ANON_REQ_TYPE_REGIONS
      | Inr txt \<Rightarrow> RegionsInfo (anon_clock data) (filter (\<lambda>r. r \<noteq> []) (split_on 44 txt)))"

definition parse_anon_owner :: "bytes \<Rightarrow> 'l binary_response" where
  "parse_anon_owner data =
     (case utf8_decode Replace (takeWhile (\<lambda>b. b \<noteq> 0) (drop 4 data)) of
        Inl _ \<Rightarrow> RawAnon (hex_str data) ANON_REQ_TYPE_OWNER
      | Inr txt \<Rightarrow>
          let parts = split_max 10 1 txt
          in AnonOwnerInfo (anon_clock data) (nth_or [] 0 parts) (nth_or [] 1 parts))"

definition parse_anon_basic :: "bytes \<Rightarrow> 'l binary_response" where
  "parse_anon_basic data =
     (let features = (if 5 \<le> length data then uint (data ! 4) else 0);
          bridge_type = features AND 0x03
      in AnonBasicInfo (anon_clock data) features (bridge_type \<noteq> 0) bridge_type (features AND 0x80 \<noteq> 0))"

function acl_entries :: "bytes \<Rightarrow> (pystr \<times> int) list" where
  "acl_entries buf =
     (if length buf < 7 then []
      else
        let key = hex_str (take 6 buf);
            rest = acl_entries (drop 7 buf)
        in if key \<noteq> str ''000000000000'' then (key, uint (buf ! 6)) # rest else rest)"
  by pat_completeness auto

termination acl_entries
  by (relation "measure length") auto

declare acl_entries.simps [simp del]

fun neighbour_entries :: "nat \<Rightarrow> nat \<Rightarrow> bytes \<Rightarrow> neighbour list" where
  "neighbour_entries pk_plen 0 data = []"
| "neighbour_entries pk_plen (Suc n) data =
     (if length data < pk_plen + 4 + 1 then []
      else \<lparr>nb_pubkey = hex_str (take pk_plen data), nb_secs_ago = s_at pk_plen 4 data,
            nb_snr = of_int (s_at (pk_plen + 4) 1 data) / 4\<rparr>
           # neighbour_entries pk_plen n (drop (pk_plen + 5) data))"

definition parse_neighbours :: "bytes \<Rightarrow> nat \<Rightarrow> 'l binary_response" where
  "parse_neighbours data pk_plen =
     (if length data < 4 then NeighboursRaw (hex_str data)
      else NeighboursInfo (s_at 0 2 data) (s_at 2 2 data)
             (neighbour_entries pk_plen (nat (s_at 2 2 data)) (drop 4 data)))"

text \<open>The context of a request: the subtype of an anonymous request and the length of key prefixes.\<close>

record request_context =
  rc_anon_sub_type :: "int option"
  rc_pubkey_prefix_length :: nat

definition parse_binary_response ::
  "unicode \<Rightarrow> (bytes \<Rightarrow> 'l res) \<Rightarrow> int \<Rightarrow> bytes \<Rightarrow> pystr \<Rightarrow> request_context \<Rightarrow> 'l binary_response" where
  "parse_binary_response u lpp request_type data pubkey_prefix context =
     (case rc_anon_sub_type context of
        Some anon_sub_type \<Rightarrow>
          if anon_sub_type = ANON_REQ_TYPE_REGIONS then parse_regions data
          else if anon_sub_type = ANON_REQ_TYPE_OWNER then parse_anon_owner data
          else if anon_sub_type = ANON_REQ_TYPE_BASIC then parse_anon_basic data
          else RawAnon (hex_str data) anon_sub_type
      | None \<Rightarrow>
          if request_type = BINARY_STATUS \<and> 52 \<le> length data
          then StatusInfo (parse_status data (if pubkey_prefix = [] then None else Some pubkey_prefix) 0)
          else if request_type = BINARY_TELEMETRY then TelemetryInfo (hex_str data) (lpp_frame lpp data)
          else if request_type = BINARY_MMA \<and> 4 \<le> length data
          then MmaInfo (hex_str (drop 4 data)) (lpp_frame lpp (drop 4 data))
          else if request_type = BINARY_ACL then AclInfo (acl_entries data)
          else if request_type = BINARY_NEIGHBOURS then parse_neighbours data (rc_pubkey_prefix_length context)
          else if request_type = BINARY_OWNER_INFO \<and> 4 \<le> length data then parse_owner_info u data
          else RawRequest (hex_str data) request_type)"

section \<open>What the parsers recover\<close>

lemma split_on_append:
  assumes "sep \<notin> set p"
  shows "split_on sep (p @ sep # xs) = p # split_on sep xs" and "split_on sep p = [p]"
  using assms by (induction p) auto

lemma split_on_join:
  assumes "\<forall>p \<in> set ps. sep \<notin> set p" and "ps \<noteq> []"
  shows "split_on sep (join_with [sep] ps) = ps"
  using assms by (induction "[sep]" ps rule: join_with.induct) (simp_all add: split_on_append)

lemma split_max_once:
  assumes "sep \<notin> set p"
  shows "split_max sep (Suc n) (p @ sep # xs) = p # split_max sep n xs"
proof -
  have "takeWhile (\<lambda>x. x \<noteq> sep) (p @ sep # xs) = p" "dropWhile (\<lambda>x. x \<noteq> sep) (p @ sep # xs) = sep # xs"
    using assms by (induction p) auto
  then show ?thesis by simp
qed

lemma takeWhile_zeros:
  assumes "0 \<notin> set bs"
  shows "takeWhile (\<lambda>b. b \<noteq> 0) (bs @ replicate n (0 :: byte)) = bs"
  using assms by (induction bs) (auto simp: takeWhile_replicate)

lemma utf8_replace_encoded:
  assumes "utf8_encode s = Inr bs"
  shows "utf8_decode Replace bs = Inr s"
  by (rule utf8_decode_encode [OF assms])

lemma exported_contact_roundtrip:
  assumes "encode_exported_contact pub_key adv_type name lat lon = Inr bs" and "length pub_key = 32"
    and "utf8_encode name = Inr enc" and "length enc \<le> 32" and "0 \<notin> set name"
  shows "\<exists>x. decode_exported_contact bs = Inr (Some x) \<and> ec_public_key x = pub_key \<and> ec_adv_type x = adv_type \<and> ec_name x = name
    \<and> ec_lat_microdeg x = py_int (lat * 1000000) \<and> ec_lon_microdeg x = py_int (lon * 1000000)"
proof -
  from assms obtain ty la lo where ty: "to_byte adv_type = Inr ty" and la: "pack_s 4 (py_int (lat * 1000000)) = Inr la"
    and lo: "pack_s 4 (py_int (lon * 1000000)) = Inr lo"
    and bs: "bs = pub_key @ [ty] @ (enc @ replicate (32 - length enc) 0) @ la @ lo"
    by (auto simp: encode_exported_contact_def Let_def bind_res_eq_Inr CONTACT_NAME_SIZE_def)
  have l: "length la = 4" "length lo = 4" using la lo by (auto simp: pack_s_eq_Inr)
  have nm: "takeWhile (\<lambda>b. b \<noteq> 0) (enc @ replicate (32 - length enc) 0) = enc"
    by (rule takeWhile_zeros [OF utf8_encode_no_zero [OF assms(3,5)]])
  have parts: "take 32 bs = pub_key" "bs ! 32 = ty" "take 32 (drop 33 bs) = enc @ replicate (32 - length enc) 0"
    "take 4 (drop 65 bs) = la" "take 4 (drop 69 bs) = lo" "length bs = 73"
    using assms(2,4) l by (simp_all add: bs nth_append)
  have "uint ty = adv_type" using ty by (simp add: to_byte_eq_Inr)
  then show ?thesis
    by (simp add: decode_exported_contact_def Let_def EXPORTED_CONTACT_SIZE_def parts nm utf8_replace_encoded [OF assms(3)]
        le_sint_pack_s [OF la] le_sint_pack_s [OF lo])
qed

end
