(* ===== verification/Discovery.thy ===== *)
theory Discovery
  imports Session Companion_Parsing
begin

text \<open>
  Asking a node for its regions: the anonymous request that a companion builds, the answer of the
  other node's handler, and what the companion's parser makes of it.
\<close>

section \<open>The answer\<close>

lemma direct_reply_scope:
  assumes "get_route_type p \<noteq> ROUTE_TYPE_FLOOD"
  shows "\<exists>r. apply_reply_scope c p req = Inr r \<and> (r = p \<or> r = p\<lparr>pk_flood_scope_applied := True\<rparr>)"
  using assms by (auto simp: apply_reply_scope_def split: option.splits)

lemma direct_discovery_packet:
  assumes "crypto_laws c" and "length ss = 32" and "data \<noteq> []" and "length data \<le> 176"
    and "get_public_key ci = d # ds" and "get_public_key (ah_local_identity ah) = s # sl" and "\<not> is_route_flood q"
    and "is_valid_path_len e" and "0 \<le> e" and "int (length path) = get_path_byte_len e"
  shows "\<exists>r. discovery_packet c urandom4 ah q ci ss data (e mod 64) (e div 64 + 1) path = Inr r
    \<and> carries_reply c ss r data d s [] \<and> is_route_direct r \<and> pk_path r = path \<and> get_payload_type r = PAYLOAD_TYPE_RESPONSE"
proof -
  have ne: "get_public_key ci \<noteq> []" "get_public_key (ah_local_identity ah) \<noteq> []" using assms(5,6) by auto
  obtain p where p: "create_datagram c PAYLOAD_TYPE_RESPONSE ci (ah_local_identity ah) ss data (str ''direct'') = Inr p"
    using datagram_total [OF assms(1,2,4) _ ne] by blast
  have cp: "carries_reply c ss p data d s []" and rp: "get_route_type p = get_route_type_value (str ''direct'') False"
    by (rule datagram_carries [OF assms(1-3) p assms(5,6)])+
  obtain pt ct where ty: "get_payload_type p = PAYLOAD_TYPE_RESPONSE"
    by (rule datagram_opens [OF assms(1,2) p assms(3)])
  have p0: "pk_path p = []" using p by (auto simp: create_datagram_def Let_def res_simps split: if_splits)
  have rt: "get_route_type_value (str ''direct'') False = ROUTE_TYPE_DIRECT" by code_simp
  define r0 where "r0 = (if 0 < e mod 64 \<and> path \<noteq> [] then p\<lparr>pk_path := path, pk_path_len := e\<rparr> else p)"
  have "encode_path_len (e div 64 + 1) (e mod 64) = Inr e" using decode_encode_path_len [of e] by (simp add: path_len_arith)
  then have step: "(if 0 < e mod 64 \<and> path \<noteq> []
      then bind_res (encode_path_len (e div 64 + 1) (e mod 64)) (\<lambda>encoded. with_path path (Some encoded) p) else Inr p) = Inr r0"
    by (simp add: r0_def with_path_def set_path_def)
  have "e mod 64 = 0 \<Longrightarrow> path = []" using assms(10) by (simp add: path_len_arith)
  moreover have "0 \<le> e mod 64" by simp
  ultimately have path: "pk_path r0 = path" using p0 by (auto simp: r0_def)
  have r0: "get_route_type r0 = ROUTE_TYPE_DIRECT" "get_payload_type r0 = PAYLOAD_TYPE_RESPONSE" "pk_payload r0 = pk_payload p"
    using rp rt ty by (auto simp: r0_def get_route_type_def get_payload_type_def)
  obtain r where r: "apply_reply_scope c r0 (Some q) = Inr r" "r = r0 \<or> r = r0\<lparr>pk_flood_scope_applied := True\<rparr>"
    using direct_reply_scope [of r0 c "Some q"] r0(1) by (auto simp: route_defs)
  have "carries_reply c ss r data d s []"
    using r(2) r0 ty by (intro carries_reply_cong [OF cp]) (auto simp: get_payload_type_def)
  moreover have "is_route_direct r" "pk_path r = path" "get_payload_type r = PAYLOAD_TYPE_RESPONSE"
    using r(2) r0 path by (auto simp: is_route_direct_def get_route_type_def get_payload_type_def route_defs)
  moreover have "discovery_packet c urandom4 ah q ci ss data (e mod 64) (e div 64 + 1) path = Inr r"
    using assms(7) by (simp add: discovery_packet_def p step r(1))
  ultimately show ?thesis by blast
qed

lemma utf8_encode_ignore_encoded:
  "utf8_encode s = Inr bs \<Longrightarrow> utf8_encode_ignore s = bs"
  by (induction s arbitrary: bs) (auto simp: utf8_encode_ignore_def utf8_encode_Cons res_simps)

lemma regions_answered:
  assumes "crypto_laws c" and "length ss = 32" and "get_public_key ci = d # ds" and "get_public_key (ah_local_identity ah) = s # sl"
    and "\<not> is_route_flood q" and "ah_send_packet_callback ah" and "ah_clock_fn ah = None" and "0 \<le> py_int now" and "py_int now < 2 ^ 32"
    and "ah_region_names_fn ah = Some (Inr names)" and "utf8_encode names = Inr enc" and "length enc \<le> 160"
    and "is_valid_path_len e" and "0 \<le> e" and "int (length path) = get_path_byte_len e"
  shows "\<exists>r. handle_discovery c now urandom4 ah q ci ss ANON_REQ_TYPE_REGIONS (le_bytes 4 ts @ 0x01 # word_of_int e # path @ replicate n 0)
      = [DiscoveryReply r SERVER_RESPONSE_DELAY_MS]
    \<and> carries_reply c ss r (le_bytes 4 ts @ le_bytes 4 (py_int now) @ enc) d s [] \<and> is_route_direct r \<and> pk_path r = path
    \<and> get_payload_type r = PAYLOAD_TYPE_RESPONSE"
proof -
  let ?pt = "le_bytes 4 ts @ 0x01 # word_of_int e # path @ replicate n 0" and ?data = "le_bytes 4 ts @ le_bytes 4 (py_int now) @ enc"
  have e256: "e < 256" using assms(13,14) by (auto simp: is_valid_path_len_arith)
  note eb = byte_of_path_len [OF assms(14) e256]
  have l4: "length (le_bytes 4 ts) = 4" "length (le_bytes 4 (py_int now)) = 4" by simp_all
  have p5: "?pt ! 5 = word_of_int e" and len: "5 < length ?pt" using l4(1) by (simp_all add: nth_append)
  have rb: "(if 5 < length ?pt then uint (?pt ! 5) else 0) = e" unfolding p5 eb(1) using len by simp
  have pb: "take (nat (e mod 64 * (e div 64 + 1))) (drop 6 ?pt) = path"
    using assms(15) l4(1) by (simp add: path_len_arith flip: of_nat_eq_iff)
  have cl: "py_int now AND 0xFFFFFFFF = py_int now" using and_low_bits [of "py_int now" 32] assms(8,9) by simp
  have pk: "pack_u 4 (py_int now) = Inr (le_bytes 4 (py_int now))" using assms(8,9) by (simp add: pack_u_eq_Inr)
  have body: "discovery_body ah ANON_REQ_TYPE_REGIONS = Inr enc"
    using assms(12) by (simp add: discovery_body_def assms(10) opt_default_def utf8_encode_ignore_encoded [OF assms(11)] size_defs Let_def)
  have "?data \<noteq> []" "length ?data \<le> 176" using l4 assms(12) by (auto dest: arg_cong [where f = length])
  from direct_discovery_packet [OF assms(1,2) this assms(3,4,5,13,14,15)] obtain r where
    r: "discovery_packet c urandom4 ah q ci ss ?data (e mod 64) (e div 64 + 1) path = Inr r"
    "carries_reply c ss r ?data d s []" "is_route_direct r" "pk_path r = path" "get_payload_type r = PAYLOAD_TYPE_RESPONSE" by blast
  have t4: "take 4 ?pt = le_bytes 4 ts" using l4(1) by simp
  have "handle_discovery c now urandom4 ah q ci ss ANON_REQ_TYPE_REGIONS ?pt = [DiscoveryReply r SERVER_RESPONSE_DELAY_MS]"
    unfolding handle_discovery_def Let_def rb eb(2,3) pb t4
    by (simp add: assms(6,7) opt_default_def cl pk body r(1) del: le_bytes.simps)
  with r show ?thesis by blast
qed

section \<open>The companion's side\<close>

lemma binary_delivered:
  assumes "carries_reply c ss q (le_bytes 4 ts @ payload) (hd (get_public_key a)) (hd (get_public_key b)) route" and "sendable q"
    and "agreed c a b ss" and "cs_local_identity st = a" and "knows_peer (cs_book st) (get_public_key b)"
    and "path_callback_ok st" and "0 \<le> ts" and "ts < 2 ^ 32" and "length (get_public_key a) = 32"
    and "map_of (cs_response_waiters st) (get_public_key b, ts) = None" and "cs_binary_callback st"
    and "get_payload_type q = PAYLOAD_TYPE_RESPONSE"
  shows "\<exists>st' effs n info. ProtocolResponseHandler_call c u now urandom4 q st = (st', effs, True)
    \<and> BinaryResponseCallback (le_bytes 4 ts) (payload @ replicate n 0) info \<in> set effs"
proof -
  have ne: "le_bytes 4 ts @ payload \<noteq> []" by (metis append_is_Nil_conv length_0_conv length_le_bytes zero_neq_numeral)
  obtain st1 effs r n where dec: "decrypt_protocol_response c u now urandom4 q (hd (get_public_key b)) st = (st1, Inr (effs, Some r))"
    and r: "op_response_payload r = Some ((le_bytes 4 ts @ payload) @ replicate n 0)" "op_contact_pubkey r = get_public_key b"
      "op_parsed r = parse_protocol_response u ((le_bytes 4 ts @ payload) @ replicate n 0)"
    and sw: "same_waiting st st1"
    and pad: "get_payload_type q = PAYLOAD_TYPE_RESPONSE \<longrightarrow> n = block_pad (length (le_bytes 4 ts @ payload))"
    by (rule open_reply [OF assms(1-6) ne])
  have w: "map_of (cs_response_waiters st1) (get_public_key b, ts) = None" "cs_binary_callback st1"
    using sw assms(10,11) by (auto simp: same_waiting_def)
  have tag: "le_int (le_bytes 4 ts) = ts" using assms(7,8) by (simp add: le_int_le_bytes del: le_bytes.simps)
  have "16 dvd 4 + length payload + n" using pad assms(12) block_pad_aligned [of "length (le_bytes 4 ts @ payload)"]
    by (simp del: le_bytes.simps)
  moreover have "\<not> 16 dvd (13 :: nat)" by simp
  ultimately have l9: "length (payload @ replicate n 0) \<noteq> 9" by (auto simp: add.assoc)
  have del: "snd (deliver_response q r st1) = [BinaryResponseCallback (le_bytes 4 ts) (payload @ replicate n 0) (response_path_info q r)]"
    using w l9 by (simp add: deliver_response_def Let_def r(1,2) tag del: le_bytes.simps)
  from assms(1) obtain ct where pl: "pk_payload q = [hd (get_public_key a), hd (get_public_key b)] @ ct" "17 \<le> length ct"
    by (auto simp: carries_reply_def)
  obtain k ks where ka: "get_public_key a = k # ks" using assms(9) by (cases "get_public_key a") auto
  have "ProtocolResponseHandler_call c u now urandom4 q st = (fst (deliver_response q r st1), effs @ snd (deliver_response q r st1), True)"
    using pl dec by (simp add: ProtocolResponseHandler_call_def assms(4) ka split: prod.split)
  with del show ?thesis by auto
qed

lemma parse_regions_of:
  assumes "utf8_encode (join_with [44] names) = Inr enc" and "\<forall>name \<in> set names. name \<noteq> [] \<and> 44 \<notin> set name \<and> 0 \<notin> set name"
    and "0 \<le> clock" and "clock < 2 ^ 32"
  shows "parse_regions (le_bytes 4 clock @ enc @ replicate n 0) = RegionsInfo clock names"
proof -
  have "0 \<notin> set (join_with [44] names)" using assms(2) by (induction "[44 :: nat]" names rule: join_with.induct) auto
  from takeWhile_zeros [OF utf8_encode_no_zero [OF assms(1) this], of n]
  have tw: "takeWhile (\<lambda>b. b \<noteq> 0) (drop 4 (le_bytes 4 clock @ enc @ replicate n 0)) = enc" by (simp del: le_bytes.simps)
  have "filter (\<lambda>r. r \<noteq> []) (split_on 44 (join_with [44] names)) = names"
  proof (cases "names = []")
    case False
    have "split_on 44 (join_with [44] names) = names" by (rule split_on_join) (use assms(2) False in auto)
    with assms(2) show ?thesis by (simp add: filter_id_conv)
  qed simp
  moreover have "anon_clock (le_bytes 4 clock @ enc @ replicate n 0) = clock"
    using assms(3,4) by (simp add: anon_clock_def u_at_def le_int_le_bytes del: le_bytes.simps)
  ultimately show ?thesis unfolding parse_regions_def tw by (simp add: utf8_replace_encoded [OF assms(1)])
qed

text \<open>
  C12: The regions of a node can be asked for. A companion builds an anonymous request for the
  regions of node B with a path for the reply; when it reaches B direct, by whatever path, and the
  limiter allows an answer, B sends one reply direct along exactly the path in the request; and
  when that comes back to the companion, the response handler hands its body to the binary
  callback under the tag of the request, and the body parses to B's clock and exactly B's regions.
\<close>

theorem regions_discovered:
  assumes "crypto_laws c" and "identity_laws c"
    and "local_identity_of_seed c sa = Inr a" and "local_identity_of_seed c sb = Inr b"
    and "cx_public_key cb = hex_str (get_public_key b)"
    and "is_valid_path_len e" and "0 \<le> e" and "int (length path) = get_path_byte_len e"
    and "anon_request_packet c cb a (0x01 # word_of_int e # path) ts = Inr p"
    and "is_route_direct q" and "pk_payload q = pk_payload p"
    and "ah_local_identity ah = b" and "\<not> ls_is_room_server (ah_login_handler ah)" and "ah_send_packet_callback ah"
    and "ah_clock_fn ah = None" and "0 \<le> py_int now" and "py_int now < 2 ^ 32"
    and "ah_region_names_fn ah = Some (Inr (join_with [44] names))" and "utf8_encode (join_with [44] names) = Inr enc" and "length enc \<le> 160"
    and "\<forall>name \<in> set names. name \<noteq> [] \<and> 44 \<notin> set name \<and> 0 \<notin> set name"
    and "allow now lm = (lm', True)"
    and "cs_local_identity st = a" and "knows_peer (cs_book st) (get_public_key b)" and "path_callback_ok st"
    and "map_of (cs_response_waiters st) (get_public_key b, ts) = None" and "cs_binary_callback st"
    and "rc_anon_sub_type context = Some ANON_REQ_TYPE_REGIONS"
  shows "\<exists>reply. AnonRequestHandler_call c now blob urandom4 ah q lm = (lm', consumed None, [DiscoveryReply reply SERVER_RESPONSE_DELAY_MS])
    \<and> is_route_direct reply \<and> pk_path reply = path
    \<and> (\<forall>r. sendable r \<and> pk_payload r = pk_payload reply \<and> get_payload_type r = get_payload_type reply \<longrightarrow>
        (\<exists>st' effs data info. ProtocolResponseHandler_call c u now' urandom4' r st = (st', effs, True)
          \<and> BinaryResponseCallback (le_bytes 4 ts) data info \<in> set effs
          \<and> parse_binary_response u lpp 0x07 data prefix context = RegionsInfo (py_int now) names))"
proof -
  obtain ca ss n where kc: "get_public_key ca = get_public_key a" and ag: "agreed c a b ss" and l: "length ss = 32"
    and ts: "0 \<le> ts" "ts < 2 ^ 32"
    and op: "open_anon_request c b q = Some (ca, ss, le_bytes 4 ts @ (0x01 # word_of_int e # path) @ replicate n 0)"
    by (rule anon_request_opens [OF assms(1-5) assms(9,11)])
  note la = local_identity_of_seed_fields(2) [OF assms(2,3)] and lb = local_identity_of_seed_fields(2) [OF assms(2,4)]
  obtain k ks m ms where ka: "get_public_key a = k # ks" and kb: "get_public_key b = m # ms"
    using la lb by (metis length_0_conv list.exhaust zero_neq_numeral)
  let ?pt = "le_bytes 4 ts @ 0x01 # word_of_int e # path @ replicate n 0"
  have nf: "\<not> is_route_flood q" using assms(10) by (auto simp: is_route_direct_def is_route_flood_def route_defs Let_def)
  have kca: "get_public_key ca = k # ks" and kah: "get_public_key (ah_local_identity ah) = m # ms" using kc ka kb assms(12) by simp_all
  obtain reply where hd: "handle_discovery c now urandom4 ah q ca ss ANON_REQ_TYPE_REGIONS ?pt = [DiscoveryReply reply SERVER_RESPONSE_DELAY_MS]"
    and rep: "carries_reply c ss reply (le_bytes 4 ts @ le_bytes 4 (py_int now) @ enc) k m []" "is_route_direct reply" "pk_path reply = path"
      "get_payload_type reply = PAYLOAD_TYPE_RESPONSE"
    using regions_answered [OF assms(1) l kca kah nf assms(14-20) assms(6-8)] by blast
  have p4: "?pt ! 4 = 1" and len: "\<not> length ?pt < 5" by (simp_all add: nth_append del: le_bytes.simps)
  have pr: "\<not> (0x20 :: byte) \<le> 1" by code_simp
  have call: "AnonRequestHandler_call c now blob urandom4 ah q lm = (lm', consumed None, [DiscoveryReply reply SERVER_RESPONSE_DELAY_MS])"
    using op p4 len hd assms(10,13,22) pr by (simp add: AnonRequestHandler_call_def assms(12) anon_type_defs Let_def del: le_bytes.simps)
  have "\<exists>st' effs data info. ProtocolResponseHandler_call c u now' urandom4' r st = (st', effs, True)
          \<and> BinaryResponseCallback (le_bytes 4 ts) data info \<in> set effs
          \<and> parse_binary_response u lpp 0x07 data prefix context = RegionsInfo (py_int now) names"
    if r: "sendable r \<and> pk_payload r = pk_payload reply \<and> get_payload_type r = get_payload_type reply" for r
  proof -
    have cr: "carries_reply c ss r (le_bytes 4 ts @ le_bytes 4 (py_int now) @ enc) (hd (get_public_key a)) (hd (get_public_key b)) []"
      using carries_reply_cong [OF rep(1)] r by (simp add: ka kb del: le_bytes.simps)
    have "get_payload_type r = PAYLOAD_TYPE_RESPONSE" using r rep(4) by simp
    from binary_delivered [OF cr _ ag assms(23-25) ts la assms(26,27) this, of u now' urandom4'] r obtain st' effs n info where
      d: "ProtocolResponseHandler_call c u now' urandom4' r st = (st', effs, True)"
      "BinaryResponseCallback (le_bytes 4 ts) ((le_bytes 4 (py_int now) @ enc) @ replicate n 0) info \<in> set effs" by blast
    have "parse_binary_response u lpp 0x07 (le_bytes 4 (py_int now) @ enc @ replicate n 0) prefix context = RegionsInfo (py_int now) names"
      using parse_regions_of [OF assms(19,21,16,17)] by (simp add: parse_binary_response_def assms(28))
    with d show ?thesis by (auto simp del: le_bytes.simps)
  qed
  with call rep(2,3) show ?thesis by blast
qed

theorem regions_discovered_witness:
  "\<exists>p reply st' effs data info. anon_request_packet toy_crypto (toy_contact 0 []) (toy_node 1) [0x01, 0x01, 0x2A] 7 = Inr p
     \<and> AnonRequestHandler_call toy_crypto 100 9 [1, 2, 3, 4] toy_anon_handler p (new_anon_limiter 4 180)
         = (\<lparr>al_maximum = 4, al_secs = 180, al_start_timestamp = 0, al_count = 1\<rparr>, consumed None, [DiscoveryReply reply SERVER_RESPONSE_DELAY_MS])
     \<and> pk_path reply = [0x2A]
     \<and> ProtocolResponseHandler_call toy_crypto toy_unicode 101 [4, 3, 2, 1] reply (toy_client_state\<lparr>cs_binary_callback := True\<rparr>) = (st', effs, True)
     \<and> BinaryResponseCallback (le_bytes 4 7) data info \<in> set effs
     \<and> parse_binary_response toy_unicode (\<lambda>_. Inr ()) 0x07 data [] \<lparr>rc_anon_sub_type = Some 1, rc_pubkey_prefix_length = 6\<rparr>
         = RegionsInfo 100 [str ''north'', str ''south'']"
proof -
  let ?st = "toy_client_state\<lparr>cs_binary_callback := True\<rparr>" and ?ah = toy_anon_handler
    and ?ctx = "\<lparr>rc_anon_sub_type = Some 1, rc_pubkey_prefix_length = 6\<rparr>" and ?names = "[str ''north'', str ''south'']"
    and ?lm = "\<lparr>al_maximum = 4, al_secs = 180, al_start_timestamp = 0, al_count = 1\<rparr>"
  have "case anon_request_packet toy_crypto (toy_contact 0 []) (toy_node 1) [0x01, 0x01, 0x2A] 7 of
      Inl _ \<Rightarrow> False | Inr p \<Rightarrow> is_route_direct p" by code_simp
  then obtain p where p: "anon_request_packet toy_crypto (toy_contact 0 []) (toy_node 1) (0x01 # word_of_int 1 # [0x2A]) 7 = Inr p"
    "is_route_direct p" by (auto split: sum.splits)
  have ah: "ah_local_identity ?ah = toy_node 2" "\<not> ls_is_room_server (ah_login_handler ?ah)" "ah_send_packet_callback ?ah"
    "ah_clock_fn ?ah = None" "ah_region_names_fn ?ah = Some (Inr (join_with [44] ?names))"
    by (simp_all add: toy_anon_handler_def toy_login_server_def) code_simp
  have enc: "utf8_encode (join_with [44] ?names) = Inr [110, 111, 114, 116, 104, 44, 115, 111, 117, 116, 104]" by code_simp
  have nm: "\<forall>name \<in> set ?names. name \<noteq> [] \<and> 44 \<notin> set name \<and> 0 \<notin> set name" by code_simp
  have path: "is_valid_path_len 1" "int (length [0x2A :: byte]) = get_path_byte_len 1" by code_simp+
  have st: "cs_local_identity ?st = toy_node 1" "knows_peer (cs_book ?st) (get_public_key (toy_node 2))" "path_callback_ok ?st"
    "map_of (cs_response_waiters ?st) (get_public_key (toy_node 2), 7) = None"
    using toy_client_state_facts by (simp_all add: path_callback_ok_def) (simp add: toy_client_state_def create_client_state_def)
  have al: "allow 100 (new_anon_limiter 4 180) = (?lm, True)" by (simp add: allow_def new_anon_limiter_def Let_def)
  have "\<exists>reply. AnonRequestHandler_call toy_crypto 100 9 [1, 2, 3, 4] ?ah p (new_anon_limiter 4 180)
      = (?lm, consumed None, [DiscoveryReply reply SERVER_RESPONSE_DELAY_MS])
    \<and> is_route_direct reply \<and> pk_path reply = [0x2A]
    \<and> (\<forall>r. sendable r \<and> pk_payload r = pk_payload reply \<and> get_payload_type r = get_payload_type reply \<longrightarrow>
        (\<exists>st' effs data info. ProtocolResponseHandler_call toy_crypto toy_unicode 101 [4, 3, 2, 1] r ?st = (st', effs, True)
          \<and> BinaryResponseCallback (le_bytes 4 7) data info \<in> set effs
          \<and> parse_binary_response toy_unicode (\<lambda>_. Inr ()) 0x07 data [] ?ctx = RegionsInfo (py_int 100) ?names))"
    by (rule regions_discovered [OF toy_crypto_laws toy_identity_laws toy_node_seed toy_node_seed toy_server_key path(1) _ path(2)
          p refl ah(1-4) _ _ ah(5) enc _ nm al st])
      (simp_all add: py_int_def anon_type_defs)
  then obtain reply where call: "AnonRequestHandler_call toy_crypto 100 9 [1, 2, 3, 4] ?ah p (new_anon_limiter 4 180)
      = (?lm, consumed None, [DiscoveryReply reply SERVER_RESPONSE_DELAY_MS])" "pk_path reply = [0x2A]"
    and fw: "sendable reply \<longrightarrow> (\<exists>st' effs data info. ProtocolResponseHandler_call toy_crypto toy_unicode 101 [4, 3, 2, 1] reply ?st = (st', effs, True)
          \<and> BinaryResponseCallback (le_bytes 4 7) data info \<in> set effs
          \<and> parse_binary_response toy_unicode (\<lambda>_. Inr ()) 0x07 data [] ?ctx = RegionsInfo (py_int 100) ?names)" by blast
  have "case anon_request_packet toy_crypto (toy_contact 0 []) (toy_node 1) [0x01, 0x01, 0x2A] 7 of
      Inl _ \<Rightarrow> False
    | Inr p \<Rightarrow> (case AnonRequestHandler_call toy_crypto 100 9 [1, 2, 3, 4] ?ah p (new_anon_limiter 4 180) of
        (_, _, effs) \<Rightarrow> list_all (\<lambda>eff. case eff of DiscoveryReply r _ \<Rightarrow> sendable r | _ \<Rightarrow> False) effs)" by code_simp
  then have "sendable reply" using p(1) by (simp add: call(1))
  with fw p(1) call show ?thesis by (simp add: py_int_def del: le_bytes.simps)
qed

end
