(* ===== verification/Companion_Base.thy ===== *)
theory Companion_Base
  imports Login_Response Companion_Parsing Message_Queue Channel_Store Path_Cache Packet_Filter
begin

text \<open>
  The companion that a phone or a host application talks to: its state
  (\<open>companion/companion_base.py\<close>), its configuration, signing and flood scope
  (\<open>companion/base_config.py\<close>), request timeouts (\<open>companion/timing.py\<close>) and the helpers of
  \<open>companion/base_support.py\<close>. The stores of contacts, channels, messages and paths are the ones of
  the other theories; the contact store is the one that the response handlers work on. Preferences
  live in memory, so the hook that saves them is left out. Clocks are arguments.
\<close>

section \<open>Timeouts\<close>

definition DEFAULT_MAX_ATTEMPTS :: nat where "DEFAULT_MAX_ATTEMPTS = 3"
definition MIN_TIMEOUT_MILLIS :: int where "MIN_TIMEOUT_MILLIS = 1500"
definition MAX_TIMEOUT_MILLIS :: int where "MAX_TIMEOUT_MILLIS = 12000"

definition Timing_estimate_airtime_ms :: "int \<Rightarrow> int \<Rightarrow> int \<Rightarrow> int \<Rightarrow> int \<Rightarrow> bool option \<Rightarrow> real" where
  "Timing_estimate_airtime_ms packet_length sf bw_hz cr preamble_symbols low_dr_opt =
     calculate_lora_airtime_ms packet_length sf (of_int (if bw_hz = 0 then 250000 else bw_hz)) (of_int cr)
       preamble_symbols True True low_dr_opt"

definition calc_flood_timeout_ms :: "real \<Rightarrow> int" where
  "calc_flood_timeout_ms airtime_ms = py_int (500 + 16 * airtime_ms)"

definition calc_direct_timeout_ms_for_hops :: "real \<Rightarrow> int \<Rightarrow> int" where
  "calc_direct_timeout_ms_for_hops airtime_ms hop_count =
     (let hops = max 0 hop_count AND 63
      in py_int (500 + (6 * airtime_ms + 250) * of_int (hops + 1)))"

definition calc_direct_timeout_ms :: "real \<Rightarrow> int \<Rightarrow> int" where
  "calc_direct_timeout_ms airtime_ms out_path_len =
     calc_direct_timeout_ms_for_hops airtime_ms (if 0 < out_path_len then get_path_hash_count out_path_len else 0)"

definition response_timeout_ms :: "int \<Rightarrow> bool \<Rightarrow> int \<Rightarrow> int \<Rightarrow> int \<Rightarrow> int \<Rightarrow> int \<Rightarrow> int" where
  "response_timeout_ms raw_length is_flood out_path_len sf bw_hz cr preamble_symbols =
     (let airtime = Timing_estimate_airtime_ms raw_length sf bw_hz cr preamble_symbols None;
          ms = (if is_flood then calc_flood_timeout_ms airtime else calc_direct_timeout_ms airtime out_path_len)
      in max MIN_TIMEOUT_MILLIS (min MAX_TIMEOUT_MILLIS ms))"

lemma response_timeout_range:
  "1500 \<le> response_timeout_ms raw_length is_flood out_path_len sf bw_hz cr preamble_symbols"
  "response_timeout_ms raw_length is_flood out_path_len sf bw_hz cr preamble_symbols \<le> 12000"
  by (simp_all add: response_timeout_ms_def Let_def MIN_TIMEOUT_MILLIS_def MAX_TIMEOUT_MILLIS_def)

section \<open>Remembering what was seen\<close>

record seen_cache =
  sc_entries :: "(pystr, real) dict"
  sc_ttl :: real
  sc_max_size :: nat

definition new_seen_cache :: "real \<Rightarrow> nat \<Rightarrow> seen_cache" where
  "new_seen_cache ttl max_size = \<lparr>sc_entries = [], sc_ttl = ttl, sc_max_size = max_size\<rparr>"

definition SeenCache_check_and_add :: "real \<Rightarrow> pystr \<Rightarrow> seen_cache \<Rightarrow> seen_cache \<times> bool" where
  "SeenCache_check_and_add now key sc =
     (if key \<in> set (dict_keys (sc_entries sc)) then (sc, True)
      else
        let entries = filter (\<lambda>(k, ts). now - ts \<le> sc_ttl sc) (sc_entries sc);
            entries = AList.update key now entries;
            entries = (if sc_max_size sc < length entries then List.tl entries else entries)
        in (sc\<lparr>sc_entries := entries\<rparr>, False))"

definition ADV_TYPE_CHAT :: int where "ADV_TYPE_CHAT = 1"
definition ADV_TYPE_REPEATER :: int where "ADV_TYPE_REPEATER = 2"
definition ADV_TYPE_ROOM :: int where "ADV_TYPE_ROOM = 3"
definition ADV_TYPE_SENSOR :: int where "ADV_TYPE_SENSOR = 4"

definition adv_type_to_flags :: "int \<Rightarrow> int" where
  "adv_type_to_flags adv_type =
     (if adv_type = ADV_TYPE_CHAT then ADVERT_FLAG_IS_CHAT_NODE
      else if adv_type = ADV_TYPE_REPEATER then ADVERT_FLAG_IS_REPEATER
      else if adv_type = ADV_TYPE_ROOM then ADVERT_FLAG_IS_ROOM_SERVER
      else if adv_type = ADV_TYPE_SENSOR then ADVERT_FLAG_IS_SENSOR
      else ADVERT_FLAG_IS_CHAT_NODE)"

section \<open>State\<close>

record node_prefs =
  np_node_name :: pystr
  np_adv_type :: int
  np_tx_power_dbm :: int
  np_frequency_hz :: int
  np_bandwidth_hz :: int
  np_spreading_factor :: int
  np_coding_rate :: int
  np_latitude :: real
  np_longitude :: real
  np_advert_loc_policy :: int
  np_multi_acks :: int
  np_telemetry_mode_base :: int
  np_telemetry_mode_location :: int
  np_telemetry_mode_environment :: int
  np_manual_add_contacts :: int
  np_autoadd_config :: int
  np_autoadd_max_hops :: int
  np_rx_delay_base :: real
  np_airtime_factor :: real
  np_client_repeat :: int
  np_path_hash_mode :: int
  np_default_scope_name :: pystr
  np_default_scope_key :: bytes

text \<open>
  The entries of \<open>radio_config\<close> that the companion reads, \<open>None\<close> for an absent key. The host may change
  the mapping while the companion runs, so it stays part of the state.
\<close>

record host_radio_config =
  hrc_power :: "int option"
  hrc_tx_power :: "int option"
  hrc_frequency :: "int option"
  hrc_bandwidth :: "int option"
  hrc_spreading_factor :: "int option"
  hrc_coding_rate :: "int option"
  hrc_allowed_repeat_freq_ranges :: "(int \<times> int) list option"
  hrc_max_tx_power_dbm :: "int option"

definition empty_radio_config :: host_radio_config where
  "empty_radio_config =
     \<lparr>hrc_power = None, hrc_tx_power = None, hrc_frequency = None, hrc_bandwidth = None, hrc_spreading_factor = None,
      hrc_coding_rate = None, hrc_allowed_repeat_freq_ranges = None, hrc_max_tx_power_dbm = None\<rparr>"

definition new_node_prefs :: "pystr \<Rightarrow> int \<Rightarrow> host_radio_config \<Rightarrow> node_prefs" where
  "new_node_prefs node_name adv_type rc =
     \<lparr>np_node_name = node_name, np_adv_type = adv_type,
      np_tx_power_dbm = opt_default (opt_default 20 (hrc_tx_power rc)) (hrc_power rc),
      np_frequency_hz = opt_default 915000000 (hrc_frequency rc),
      np_bandwidth_hz = opt_default 250000 (hrc_bandwidth rc),
      np_spreading_factor = opt_default 10 (hrc_spreading_factor rc),
      np_coding_rate = opt_default 5 (hrc_coding_rate rc), np_latitude = 0, np_longitude = 0,
      np_advert_loc_policy = 0, np_multi_acks = 0, np_telemetry_mode_base = 0, np_telemetry_mode_location = 0,
      np_telemetry_mode_environment = 0, np_manual_add_contacts = 0, np_autoadd_config = 0, np_autoadd_max_hops = 0,
      np_rx_delay_base = 0, np_airtime_factor = 1, np_client_repeat = 0, np_path_hash_mode = 0,
      np_default_scope_name = [], np_default_scope_key = []\<rparr>"

record binary_request =
  br_request_type :: int
  br_pubkey_prefix :: pystr
  br_expires_at :: real
  br_context :: request_context

text \<open>
  The push events of \<open>PUSH_CALLBACK_KEYS\<close> that the operations below fire, with their arguments. A
  message event carries the queued message, its packet hash and whether the queue kept it.
\<close>

datatype push_event =
    MessageEvent queued_message "pystr option" bool
  | ChannelMessageEvent pystr pystr queued_message "pystr option" bool
  | ChannelDataEvent queued_message pystr bool
  | AdvertReceived contact
  | NodeDiscovered contact
  | PushContactPathUpdated contact
  | SendConfirmed int int
  | BinaryResponsePush bytes bytes "(unit binary_response \<times> int) option"
  | PathDiscoveryResponse bytes bytes int bytes int bytes
  | ContactDeleted bytes
  | ContactsFull
  | ChannelUpdated int "channel option"

record 'cb companion =
  cp_identity :: local_identity
  cp_client :: "'cb client_state"
  cp_channels :: channel_store
  cp_message_queue :: message_queue
  cp_next_entry :: nat
  cp_path_cache :: path_cache
  cp_stats :: stats_collector
  cp_prefs :: node_prefs
  cp_radio_config :: host_radio_config
  cp_custom_vars :: "(pystr, pystr) dict"
  cp_login_connections :: "(bytes, real) dict"
  cp_sign_buffer :: "bytes option"
  cp_flood_transport_key :: "bytes option"
  cp_flood_unscoped :: bool
  cp_time_offset :: real
  cp_pending_binary_requests :: "(pystr, binary_request) dict"
  cp_pending_discovery_tags :: "int list"
  cp_pending_ack_crcs :: "(int, real) dict"
  cp_seen_grp_txt :: seen_cache
  cp_seen_txt :: seen_cache
  cp_seen_group_packets :: packet_hash_cache
  cp_last_unique :: int

abbreviation cp_contacts :: "'cb companion \<Rightarrow> contact_store" where
  "cp_contacts cp \<equiv> cs_book (cp_client cp)"

definition set_contacts :: "contact_store \<Rightarrow> 'cb companion \<Rightarrow> 'cb companion" where
  "set_contacts book cp = cp\<lparr>cp_client := (cp_client cp)\<lparr>cs_book := book\<rparr>\<rparr>"

text \<open>
  The handlers are built by the subclasses around the store of contacts; their teacher gets the
  spreading factor that the subclass passes.
\<close>

definition init_companion_stores ::
  "local_identity \<Rightarrow> pystr \<Rightarrow> int \<Rightarrow> int \<Rightarrow> int \<Rightarrow> int \<Rightarrow> host_radio_config option \<Rightarrow> contact list option
   \<Rightarrow> int option \<Rightarrow> real \<Rightarrow> 'cb companion" where
  "init_companion_stores identity node_name adv_type max_contacts max_channels offline_queue_size radio_config
     initial_contacts teacher_sf now =
     (let rc = opt_default empty_radio_config radio_config;
          store = new_contact_store max_contacts;
          store = (case initial_contacts of None \<Rightarrow> store | Some cs \<Rightarrow> load_from cs store)
      in \<lparr>cp_identity = identity, cp_client = create_client_state identity store teacher_sf,
          cp_channels = new_channel_store max_channels, cp_message_queue = new_message_queue offline_queue_size,
          cp_next_entry = 0, cp_path_cache = new_path_cache 16, cp_stats = new_stats_collector now,
          cp_prefs = new_node_prefs node_name adv_type rc, cp_radio_config = rc,
          cp_custom_vars = [], cp_login_connections = [], cp_sign_buffer = None, cp_flood_transport_key = None,
          cp_flood_unscoped = False, cp_time_offset = 0, cp_pending_binary_requests = [],
          cp_pending_discovery_tags = [], cp_pending_ack_crcs = [],
          cp_seen_grp_txt = new_seen_cache 60 4096, cp_seen_txt = new_seen_cache 300 1000,
          cp_seen_group_packets = \<lparr>hc_ttl_seconds = 600, hc_max_entries = 4096, hc_entries = []\<rparr>,
          cp_last_unique = 0\<rparr>)"

section \<open>Configuration\<close>

definition NODE_NAME_MAX_BYTES :: nat where "NODE_NAME_MAX_BYTES = 31"
definition MAX_SIGN_DATA_SIZE :: nat where "MAX_SIGN_DATA_SIZE = 8192"
definition MAX_PENDING_ACK_CRCS :: nat where "MAX_PENDING_ACK_CRCS = 64"
definition ZERO_FLOOD_SCOPE_KEY :: bytes where "ZERO_FLOOD_SCOPE_KEY = replicate 16 0"
definition DEFAULT_MAX_TX_POWER_DBM :: int where "DEFAULT_MAX_TX_POWER_DBM = 22"
definition DEFAULT_ALLOWED_REPEAT_FREQ_RANGES :: "(int \<times> int) list" where
  "DEFAULT_ALLOWED_REPEAT_FREQ_RANGES = [(433000, 433000), (869495, 869495), (918000, 918000)]"

definition set_advert_name :: "pystr \<Rightarrow> 'cb companion \<Rightarrow> 'cb companion res" where
  "set_advert_name name cp =
     bind_res (utf8_encode name) (\<lambda>bs.
     bind_res (utf8_decode Ignore (take NODE_NAME_MAX_BYTES bs)) (\<lambda>node_name.
     Inr (cp\<lparr>cp_prefs := (cp_prefs cp)\<lparr>np_node_name := node_name\<rparr>\<rparr>)))"

definition set_advert_latlon :: "real \<Rightarrow> real \<Rightarrow> 'cb companion \<Rightarrow> 'cb companion res" where
  "set_advert_latlon lat lon cp =
     (if \<not> (-90 \<le> lat \<and> lat \<le> 90) then Inl (ValueError ''Latitude out of range'')
      else if \<not> (-180 \<le> lon \<and> lon \<le> 180) then Inl (ValueError ''Longitude out of range'')
      else Inr (cp\<lparr>cp_prefs := (cp_prefs cp)\<lparr>np_latitude := lat, np_longitude := lon\<rparr>\<rparr>))"

definition set_radio_params :: "int \<Rightarrow> int \<Rightarrow> int \<Rightarrow> int \<Rightarrow> 'cb companion \<Rightarrow> 'cb companion res" where
  "set_radio_params freq_hz bw_hz sf cr cp =
     (if \<not> (5 \<le> sf \<and> sf \<le> 12) then Inl (ValueError ''Spreading factor out of range'')
      else if \<not> (5 \<le> cr \<and> cr \<le> 8) then Inl (ValueError ''Coding rate out of range'')
      else Inr (cp\<lparr>cp_prefs := (cp_prefs cp)\<lparr>np_frequency_hz := freq_hz, np_bandwidth_hz := bw_hz,
                                              np_spreading_factor := sf, np_coding_rate := cr\<rparr>\<rparr>))"

definition Companion_set_tx_power :: "int \<Rightarrow> 'cb companion \<Rightarrow> 'cb companion" where
  "Companion_set_tx_power power_dbm cp = cp\<lparr>cp_prefs := (cp_prefs cp)\<lparr>np_tx_power_dbm := power_dbm\<rparr>\<rparr>"

definition get_allowed_repeat_freqs :: "'cb companion \<Rightarrow> (int \<times> int) list" where
  "get_allowed_repeat_freqs cp =
     opt_default DEFAULT_ALLOWED_REPEAT_FREQ_RANGES (hrc_allowed_repeat_freq_ranges (cp_radio_config cp))"

definition set_client_repeat :: "int \<Rightarrow> 'cb companion \<Rightarrow> 'cb companion" where
  "set_client_repeat v cp = cp\<lparr>cp_prefs := (cp_prefs cp)\<lparr>np_client_repeat := v AND 0xFF\<rparr>\<rparr>"

definition get_max_tx_power_dbm :: "'cb companion \<Rightarrow> int" where
  "get_max_tx_power_dbm cp = opt_default DEFAULT_MAX_TX_POWER_DBM (hrc_max_tx_power_dbm (cp_radio_config cp))"

definition set_tuning_params :: "real \<Rightarrow> real \<Rightarrow> 'cb companion \<Rightarrow> 'cb companion" where
  "set_tuning_params rx_delay airtime_factor cp =
     cp\<lparr>cp_prefs := (cp_prefs cp)\<lparr>np_rx_delay_base := rx_delay, np_airtime_factor := airtime_factor\<rparr>\<rparr>"

definition Companion_get_time :: "real \<Rightarrow> 'cb companion \<Rightarrow> int" where
  "Companion_get_time now cp = py_int (now + cp_time_offset cp)"

text \<open>The two readings of the clock are separate arguments.\<close>

definition Companion_set_time :: "real \<Rightarrow> real \<Rightarrow> int \<Rightarrow> 'cb companion \<Rightarrow> 'cb companion \<times> bool" where
  "Companion_set_time now now' secs cp =
     (if secs < Companion_get_time now cp then (cp, False)
      else (cp\<lparr>cp_time_offset := of_int secs - now'\<rparr>, True))"

definition set_other_params :: "int \<Rightarrow> int \<Rightarrow> int \<Rightarrow> int \<Rightarrow> 'cb companion \<Rightarrow> 'cb companion" where
  "set_other_params manual_add telemetry_modes advert_loc_policy multi_acks cp =
     cp\<lparr>cp_prefs := (cp_prefs cp)
          \<lparr>np_manual_add_contacts := manual_add,
           np_telemetry_mode_base := telemetry_modes AND 0x03,
           np_telemetry_mode_location := drop_bit 2 telemetry_modes AND 0x03,
           np_telemetry_mode_environment := drop_bit 4 telemetry_modes AND 0x03,
           np_advert_loc_policy := advert_loc_policy,
           np_multi_acks := multi_acks\<rparr>\<rparr>"

definition set_path_hash_mode :: "int \<Rightarrow> 'cb companion \<Rightarrow> 'cb companion" where
  "set_path_hash_mode mode cp = cp\<lparr>cp_prefs := (cp_prefs cp)\<lparr>np_path_hash_mode := mode\<rparr>\<rparr>"

definition set_custom_var :: "pystr \<Rightarrow> pystr \<Rightarrow> 'cb companion \<Rightarrow> 'cb companion" where
  "set_custom_var name v cp = cp\<lparr>cp_custom_vars := AList.update name v (cp_custom_vars cp)\<rparr>"

section \<open>Signing\<close>

definition sign_start :: "'cb companion \<Rightarrow> 'cb companion \<times> nat" where
  "sign_start cp = (cp\<lparr>cp_sign_buffer := Some []\<rparr>, MAX_SIGN_DATA_SIZE)"

definition is_signing :: "'cb companion \<Rightarrow> bool" where
  "is_signing cp = (cp_sign_buffer cp \<noteq> None)"

definition Companion_sign_data :: "bytes \<Rightarrow> 'cb companion \<Rightarrow> 'cb companion \<times> bool" where
  "Companion_sign_data data cp =
     (case cp_sign_buffer cp of
        None \<Rightarrow> (cp, False)
      | Some buf \<Rightarrow>
          if MAX_SIGN_DATA_SIZE < length buf + length data then (cp, False)
          else (cp\<lparr>cp_sign_buffer := Some (buf @ data)\<rparr>, True))"

definition sign_finish :: "crypto \<Rightarrow> 'cb companion \<Rightarrow> 'cb companion \<times> bytes option" where
  "sign_finish c cp =
     (case cp_sign_buffer cp of
        None \<Rightarrow> (cp, None)
      | Some buf \<Rightarrow>
          (cp\<lparr>cp_sign_buffer := None\<rparr>,
           case sign c (cp_identity cp) buf of Inl _ \<Rightarrow> None | Inr sig \<Rightarrow> Some sig))"

section \<open>Flood scope\<close>

definition set_flood_scope :: "bytes option \<Rightarrow> 'cb companion \<Rightarrow> 'cb companion" where
  "set_flood_scope transport_key cp =
     (let cp = cp\<lparr>cp_flood_unscoped := False\<rparr>
      in case transport_key of
           None \<Rightarrow> cp\<lparr>cp_flood_transport_key := None\<rparr>
         | Some tk \<Rightarrow>
             if 16 \<le> length tk
             then cp\<lparr>cp_flood_transport_key := (if take 16 tk = ZERO_FLOOD_SCOPE_KEY then None else Some (take 16 tk))\<rparr>
             else cp\<lparr>cp_flood_transport_key := None\<rparr>)"

definition set_flood_unscoped :: "'cb companion \<Rightarrow> 'cb companion" where
  "set_flood_unscoped cp = cp\<lparr>cp_flood_unscoped := True\<rparr>"

definition set_default_flood_scope ::
  "unicode \<Rightarrow> pystr option \<Rightarrow> bytes option \<Rightarrow> 'cb companion \<Rightarrow> 'cb companion \<times> bool" where
  "set_default_flood_scope u scope_name transport_key cp =
     (let name = opt_default [] scope_name; key = opt_default [] transport_key
      in if name = [] \<or> length key < 16
         then (cp\<lparr>cp_prefs := (cp_prefs cp)\<lparr>np_default_scope_name := [], np_default_scope_key := []\<rparr>\<rparr>, True)
         else let normalized = py_strip u (take 30 name)
              in if normalized = [] then (cp, False)
                 else (cp\<lparr>cp_prefs := (cp_prefs cp)\<lparr>np_default_scope_name := normalized,
                                                      np_default_scope_key := take 16 key\<rparr>\<rparr>, True))"

definition ljust_zero :: "nat \<Rightarrow> bytes \<Rightarrow> bytes" where
  "ljust_zero n bs = bs @ replicate (n - length bs) 0"

definition get_default_flood_scope :: "unicode \<Rightarrow> 'cb companion \<Rightarrow> (pystr \<times> bytes) option" where
  "get_default_flood_scope u cp =
     (let name = py_strip u (np_default_scope_name (cp_prefs cp))
      in if name = [] then None
         else Some (name, ljust_zero 16 (take 16 (np_default_scope_key (cp_prefs cp)))))"

definition set_flood_region :: "crypto \<Rightarrow> pystr option \<Rightarrow> 'cb companion \<Rightarrow> 'cb companion res" where
  "set_flood_region c region_name cp =
     (let name = opt_default [] region_name
      in if name = [] then Inr (cp\<lparr>cp_flood_transport_key := None, cp_flood_unscoped := False\<rparr>)
         else bind_res (get_auto_key_for c (if hd name = 35 then name else 35 # name)) (\<lambda>key.
              Inr (cp\<lparr>cp_flood_transport_key := Some key, cp_flood_unscoped := False\<rparr>)))"

definition default_scope_key :: "unicode \<Rightarrow> 'cb companion \<Rightarrow> bytes option" where
  "default_scope_key u cp =
     (case get_default_flood_scope u cp of
        None \<Rightarrow> None
      | Some (name, key) \<Rightarrow> if key = ZERO_FLOOD_SCOPE_KEY then None else Some key)"

definition resolve_flood_transport_key :: "unicode \<Rightarrow> 'cb companion \<Rightarrow> bytes option" where
  "resolve_flood_transport_key u cp =
     (case cp_flood_transport_key cp of Some key \<Rightarrow> Some key | None \<Rightarrow> default_scope_key u cp)"

definition Companion_apply_flood_scope :: "crypto \<Rightarrow> unicode \<Rightarrow> 'cb companion \<Rightarrow> packet \<Rightarrow> packet res" where
  "Companion_apply_flood_scope c u cp p =
     (if pk_flood_scope_applied p then Inr p
      else if get_route_type p \<noteq> ROUTE_TYPE_FLOOD then Inr p
      else let p = p\<lparr>pk_flood_scope_applied := True\<rparr>
           in if cp_flood_unscoped cp then Inr p
              else case resolve_flood_transport_key u cp of
                     None \<Rightarrow> Inr p
                   | Some key \<Rightarrow> scope_packet c key p)"

definition apply_default_flood_scope :: "crypto \<Rightarrow> unicode \<Rightarrow> 'cb companion \<Rightarrow> packet \<Rightarrow> packet res" where
  "apply_default_flood_scope c u cp p =
     (if get_route_type p \<noteq> ROUTE_TYPE_FLOOD then Inr p
      else let p = p\<lparr>pk_flood_scope_applied := True\<rparr>
           in case default_scope_key u cp of None \<Rightarrow> Inr p | Some key \<Rightarrow> scope_packet c key p)"

definition Companion_apply_path_hash_mode :: "'cb companion \<Rightarrow> packet \<Rightarrow> packet res" where
  "Companion_apply_path_hash_mode cp p = apply_path_hash_mode (np_path_hash_mode (cp_prefs cp)) True p"

section \<open>Login connections\<close>

definition note_login_connection :: "real \<Rightarrow> bytes \<Rightarrow> int \<Rightarrow> 'cb companion \<Rightarrow> 'cb companion" where
  "note_login_connection now pub_key keep_alive_interval cp =
     (let keep_alive_secs = keep_alive_interval * 16
      in if keep_alive_secs \<le> 0 then cp
         else cp\<lparr>cp_login_connections :=
                AList.update pub_key (now + of_int keep_alive_secs * 2.5) (cp_login_connections cp)\<rparr>)"

definition has_login_connection :: "real \<Rightarrow> bytes \<Rightarrow> 'cb companion \<Rightarrow> 'cb companion \<times> bool" where
  "has_login_connection now key cp =
     (case map_of (cp_login_connections cp) key of
        None \<Rightarrow> (cp, False)
      | Some expiry \<Rightarrow>
          if expiry \<le> now
          then (cp\<lparr>cp_login_connections := AList.delete key (cp_login_connections cp)\<rparr>, False)
          else (cp, True))"

definition clear_login_connection :: "bytes \<Rightarrow> 'cb companion \<Rightarrow> 'cb companion" where
  "clear_login_connection pub_key cp =
     cp\<lparr>cp_login_connections := AList.delete pub_key (cp_login_connections cp)\<rparr>"

section \<open>Expected acknowledgements\<close>

text \<open>\<open>round\<close> goes to the nearest integer, and to the even one of two that are equally near.\<close>

definition py_round :: "real \<Rightarrow> int" where
  "py_round x =
     (let n = \<lfloor>x\<rfloor>; frac = x - of_int n
      in if frac < 1 / 2 \<or> (frac = 1 / 2 \<and> even n) then n else n + 1)"

fun evict_oldest :: "nat \<Rightarrow> 'a list \<Rightarrow> 'a list" where
  "evict_oldest n [] = []"
| "evict_oldest n (x # xs) = (if n < length (x # xs) then evict_oldest n xs else x # xs)"

definition track_pending_ack :: "real \<Rightarrow> int \<Rightarrow> 'cb companion \<Rightarrow> 'cb companion" where
  "track_pending_ack now ack_crc cp =
     (let pending = AList.delete ack_crc (cp_pending_ack_crcs cp);
          pending = AList.update ack_crc now pending
      in cp\<lparr>cp_pending_ack_crcs := evict_oldest MAX_PENDING_ACK_CRCS pending\<rparr>)"

definition try_confirm_send :: "real \<Rightarrow> int \<Rightarrow> 'cb companion \<Rightarrow> 'cb companion \<times> push_event list \<times> bool" where
  "try_confirm_send now crc cp =
     (case map_of (cp_pending_ack_crcs cp) crc of
        None \<Rightarrow> (cp, [], False)
      | Some sent_at \<Rightarrow>
          let trip_ms = max 0 (py_round ((now - sent_at) * 1000))
          in (cp\<lparr>cp_pending_ack_crcs := AList.delete crc (cp_pending_ack_crcs cp)\<rparr>,
              [SendConfirmed crc trip_ms], True))"

datatype ack_event = AckTracked int | AckHeard int

text \<open>A history of sends and received acknowledgements with the monotonic time of each.\<close>

fun ack_run :: "(real \<times> ack_event) list \<Rightarrow> 'cb companion \<Rightarrow> 'cb companion \<times> push_event list" where
  "ack_run [] cp = (cp, [])"
| "ack_run ((now, AckTracked crc) # es) cp = ack_run es (track_pending_ack now crc cp)"
| "ack_run ((now, AckHeard crc) # es) cp =
     (case try_confirm_send now crc cp of
        (cp', pushes, fired) \<Rightarrow> case ack_run es cp' of (cp'', pushes') \<Rightarrow> (cp'', pushes @ pushes'))"

definition pending_ok :: "'cb companion \<Rightarrow> bool" where
  "pending_ok cp \<longleftrightarrow> dict_ok (cp_pending_ack_crcs cp) \<and> length (cp_pending_ack_crcs cp) \<le> MAX_PENDING_ACK_CRCS"

fun is_tracked :: "real \<times> ack_event \<Rightarrow> bool" where
  "is_tracked (_, AckTracked _) = True"
| "is_tracked (_, AckHeard _) = False"

fun ack_event_crc :: "real \<times> ack_event \<Rightarrow> int" where
  "ack_event_crc (_, AckTracked crc) = crc"
| "ack_event_crc (_, AckHeard crc) = crc"

section \<open>Lemmas on expected acknowledgements\<close>

lemma evict_oldest_drop: "evict_oldest n xs = drop (length xs - n) xs"
  by (induction xs) (auto simp: Suc_diff_le)

lemma update_fresh: "k \<notin> set (dict_keys d) \<Longrightarrow> AList.update k v d = d @ [(k, v)]"
  by (induction d) auto

lemma track_appends:
  "cp_pending_ack_crcs (track_pending_ack now crc cp) =
     drop (length (AList.delete crc (cp_pending_ack_crcs cp)) - 63) (AList.delete crc (cp_pending_ack_crcs cp)) @ [(crc, now)]"
proof -
  have "crc \<notin> set (dict_keys (AList.delete crc (cp_pending_ack_crcs cp)))" by (auto simp: AList.delete_eq)
  then show ?thesis
    by (simp add: track_pending_ack_def Let_def evict_oldest_drop MAX_PENDING_ACK_CRCS_def update_fresh)
qed

lemma track_pending_ok:
  assumes "pending_ok cp"
  shows "pending_ok (track_pending_ack now crc cp)"
proof -
  let ?d = "AList.delete crc (cp_pending_ack_crcs cp)"
  have "set (drop n (dict_keys ?d)) \<subseteq> set (dict_keys ?d)" for n by (rule set_drop_subset)
  moreover have "crc \<notin> set (dict_keys ?d)" by (auto simp: AList.delete_eq)
  ultimately have "crc \<notin> set (drop n (dict_keys ?d))" for n by blast
  with assms show ?thesis
    by (simp add: pending_ok_def track_appends MAX_PENDING_ACK_CRCS_def drop_map [symmetric] distinct_delete)
qed

lemma confirm_pending_ok: "pending_ok cp \<Longrightarrow> pending_ok (fst (try_confirm_send now crc cp))"
  by (auto simp: pending_ok_def try_confirm_send_def Let_def distinct_delete
      intro: order_trans [OF length_delete_le] split: option.split)

lemma ack_run_pending_ok: "pending_ok cp \<Longrightarrow> pending_ok (fst (ack_run es cp))"
proof (induction es cp rule: ack_run.induct)
  case (3 now crc es cp)
  then show ?case using confirm_pending_ok [of cp now crc] by (auto split: prod.split)
qed (simp_all add: track_pending_ok)

text \<open>An acknowledgement is pending with at most a number of younger ones behind it.\<close>

definition pending_since :: "int \<Rightarrow> real \<Rightarrow> nat \<Rightarrow> 'cb companion \<Rightarrow> bool" where
  "pending_since crc t n cp \<longleftrightarrow>
     (\<exists>xs ys. cp_pending_ack_crcs cp = xs @ (crc, t) # ys \<and> crc \<notin> set (dict_keys xs) \<and> length ys \<le> n)"

lemma delete_append: "AList.delete k (xs @ ys) = AList.delete k xs @ AList.delete k ys"
  by (simp add: AList.delete_eq)

lemma pending_since_tracked: "pending_since crc now 0 (track_pending_ack now crc cp)"
proof -
  let ?d = "AList.delete crc (cp_pending_ack_crcs cp)"
  have "set (drop n ?d) \<subseteq> set ?d" for n by (rule set_drop_subset)
  then have "crc \<notin> set (dict_keys (drop n ?d))" for n by (fastforce simp: AList.delete_eq)
  then show ?thesis unfolding pending_since_def track_appends by fastforce
qed

lemma pending_since_track:
  assumes "pending_since crc t n cp" and "crc' \<noteq> crc" and "n < 63"
  shows "pending_since crc t (Suc n) (track_pending_ack now crc' cp)"
proof -
  from assms(1) obtain xs ys where p: "cp_pending_ack_crcs cp = xs @ (crc, t) # ys"
    "crc \<notin> set (dict_keys xs)" "length ys \<le> n"
    unfolding pending_since_def by blast
  let ?xs = "AList.delete crc' xs" and ?ys = "AList.delete crc' ys"
  have d: "AList.delete crc' (cp_pending_ack_crcs cp) = ?xs @ (crc, t) # ?ys"
    using assms(2) by (simp add: p(1) delete_append)
  have l: "length ?ys \<le> n" using p(3) length_delete_le [of crc' ys] by linarith
  let ?k = "length (?xs @ (crc, t) # ?ys) - 63"
  have "?k \<le> length ?xs" using l assms(3) by simp
  then have "drop ?k (?xs @ (crc, t) # ?ys) = drop ?k ?xs @ (crc, t) # ?ys" by simp
  moreover have "crc \<notin> set (dict_keys (drop ?k ?xs))"
    using p(2) by (auto simp: AList.delete_eq dest!: in_set_dropD)
  ultimately show ?thesis
    unfolding pending_since_def track_appends d using l
    by (intro exI [of _ "drop ?k ?xs"] exI [of _ "?ys @ [(crc', now)]"]) simp
qed

lemma pending_since_confirm:
  assumes "pending_since crc t n cp" and "crc' \<noteq> crc"
  shows "pending_since crc t n (fst (try_confirm_send now crc' cp))"
proof -
  from assms(1) obtain xs ys where p: "cp_pending_ack_crcs cp = xs @ (crc, t) # ys"
    "crc \<notin> set (dict_keys xs)" "length ys \<le> n"
    unfolding pending_since_def by blast
  have "AList.delete crc' (cp_pending_ack_crcs cp) = AList.delete crc' xs @ (crc, t) # AList.delete crc' ys"
    using assms(2) by (simp add: p(1) delete_append)
  moreover have "crc \<notin> set (dict_keys (AList.delete crc' xs))" using p(2) by (auto simp: AList.delete_eq)
  moreover have "length (AList.delete crc' ys) \<le> n" using p(3) length_delete_le [of crc' ys] by linarith
  ultimately show ?thesis using assms(1)
    by (auto simp: try_confirm_send_def Let_def pending_since_def split: option.split)
qed

lemma pending_since_run:
  assumes "pending_since crc t n cp" and "crc \<notin> set (map ack_event_crc es)"
    and "n + length (filter is_tracked es) \<le> 63"
  shows "pending_since crc t (n + length (filter is_tracked es)) (fst (ack_run es cp))"
  using assms
proof (induction es cp arbitrary: n rule: ack_run.induct)
  case (2 now crc' es cp)
  then show ?case using pending_since_track [of crc t n cp crc' now] "2.IH" [of "Suc n"] by simp
next
  case (3 now crc' es cp)
  then show ?case using pending_since_confirm [of crc t n cp crc' now] by (auto split: prod.split)
qed simp

lemma ack_run_append:
  "ack_run (es @ es') cp =
     (case ack_run es cp of (cp', pushes) \<Rightarrow> case ack_run es' cp' of (cp'', pushes') \<Rightarrow> (cp'', pushes @ pushes'))"
  by (induction es cp rule: ack_run.induct) (auto split: prod.split)

definition confirmations :: "int \<Rightarrow> push_event list \<Rightarrow> push_event list" where
  "confirmations crc = filter (\<lambda>e. case e of SendConfirmed crc' _ \<Rightarrow> crc' = crc | _ \<Rightarrow> False)"

lemma confirm_other: "crc' \<noteq> crc \<Longrightarrow> confirmations crc (fst (snd (try_confirm_send now crc' cp))) = []"
  by (simp add: try_confirm_send_def confirmations_def Let_def split: option.split)

lemma ack_run_heard:
  "ack_run ((now, AckHeard crc) # es) cp =
     (fst (ack_run es (fst (try_confirm_send now crc cp))),
      fst (snd (try_confirm_send now crc cp)) @ snd (ack_run es (fst (try_confirm_send now crc cp))))"
  by (simp split: prod.split)

lemma unheard_unconfirmed:
  "crc \<notin> set (map ack_event_crc es) \<Longrightarrow> confirmations crc (snd (ack_run es cp)) = []"
proof (induction es cp rule: ack_run.induct)
  case (3 now crc' es cp)
  then show ?case
    using confirm_other [of crc' crc now cp] by (cases "try_confirm_send now crc' cp")
      (auto simp: confirmations_def split: prod.split)
qed (simp_all add: confirmations_def)

lemma untracked_unconfirmed:
  assumes "crc \<notin> set (dict_keys (cp_pending_ack_crcs cp))" and "crc \<notin> set (map ack_event_crc (filter is_tracked es))"
  shows "confirmations crc (snd (ack_run es cp)) = []"
  using assms
proof (induction es cp rule: ack_run.induct)
  case (2 now crc' es cp)
  have "crc \<notin> set (dict_keys (cp_pending_ack_crcs (track_pending_ack now crc' cp)))"
    using "2.prems" by (auto simp: track_appends AList.delete_eq dest!: in_set_dropD)
  with 2 show ?case by simp
next
  case (3 now crc' es cp)
  obtain cp' pushes fired where r: "try_confirm_send now crc' cp = (cp', pushes, fired)" by (rule prod_cases3)
  have "map_of (cp_pending_ack_crcs cp) crc = None" using "3.prems"(1) by (simp add: map_of_eq_None_iff)
  then have "confirmations crc pushes = []"
    using r confirm_other [of crc' crc now cp] by (cases "crc' = crc") (auto simp: try_confirm_send_def confirmations_def)
  moreover have "crc \<notin> set (dict_keys (cp_pending_ack_crcs cp'))"
    using "3.prems"(1) r by (auto simp: try_confirm_send_def Let_def AList.delete_eq split: option.splits)
  ultimately show ?case
    using "3.IH" [OF r [symmetric] refl] "3.prems"(2) r by (simp add: confirmations_def case_prod_beta)
qed (simp add: confirmations_def)

lemma pending_since_lookup: "pending_since crc t n cp \<Longrightarrow> map_of (cp_pending_ack_crcs cp) crc = Some t"
  by (auto simp: pending_since_def map_add_def split: option.split dest!: map_of_SomeD) force

text \<open>
  C13: Once a message is sent and its acknowledgement code recorded, the application is told of the
  delivery exactly once: if fewer than 64 further codes are recorded before the acknowledgement
  arrives, its first copy fires one confirmation with the round-trip time in milliseconds, and no
  later copy of the same acknowledgement fires another. Nothing is assumed of the table the code is
  recorded in, which may be full.
\<close>

theorem ack_confirmed_once:
  assumes "crc \<notin> set (map ack_event_crc es)" and "length (filter is_tracked es) < 64"
    and "crc \<notin> set (map ack_event_crc (filter is_tracked es'))"
  shows "confirmations crc (snd (ack_run ((t0, AckTracked crc) # es @ (t1, AckHeard crc) # es') cp))
    = [SendConfirmed crc (max 0 (py_round ((t1 - t0) * 1000)))]"
proof -
  let ?cp = "track_pending_ack t0 crc cp"
  let ?mid = "fst (ack_run es ?cp)"
  have "pending_since crc t0 (0 + length (filter is_tracked es)) ?mid"
    using pending_since_run [OF pending_since_tracked assms(1)] assms(2) by simp
  then have p: "map_of (cp_pending_ack_crcs ?mid) crc = Some t0" by (rule pending_since_lookup)
  then have c: "try_confirm_send t1 crc ?mid =
      (?mid\<lparr>cp_pending_ack_crcs := AList.delete crc (cp_pending_ack_crcs ?mid)\<rparr>,
       [SendConfirmed crc (max 0 (py_round ((t1 - t0) * 1000)))], True)"
    by (simp add: try_confirm_send_def Let_def)
  have "confirmations crc (snd (ack_run es' (fst (try_confirm_send t1 crc ?mid)))) = []"
    by (rule untracked_unconfirmed [OF _ assms(3)]) (auto simp: c AList.delete_eq)
  with unheard_unconfirmed [OF assms(1), of ?cp] show ?thesis
    by (simp add: ack_run_append ack_run_heard c confirmations_def case_prod_beta del: ack_run.simps(3))
qed

theorem ack_confirmed_once_witness:
  "confirmations 7 (snd (ack_run [(1, AckTracked 7), (2, AckTracked 8), (3, AckHeard 8), (4, AckHeard 7), (5, AckHeard 7)]
      (init_companion_stores (toy_node 1) [] 1 10 4 5 None None None 0 :: unit companion)))
    = [SendConfirmed 7 3000]"
  using ack_confirmed_once [of 7 "[(2, AckTracked 8), (3, AckHeard 8)]" "[(5, AckHeard 7)]" 1 4
      "init_companion_stores (toy_node 1) [] 1 10 4 5 None None None 0 :: unit companion"]
  by (simp add: py_round_def Let_def)

section \<open>Signing a stream\<close>

fun sign_stream :: "bytes list \<Rightarrow> 'cb companion \<Rightarrow> 'cb companion \<times> bytes list" where
  "sign_stream [] cp = (cp, [])"
| "sign_stream (chunk # chunks) cp =
     (case Companion_sign_data chunk cp of
        (cp', taken) \<Rightarrow> case sign_stream chunks cp' of
          (cp'', accepted) \<Rightarrow> (cp'', if taken then chunk # accepted else accepted))"

lemma sign_stream_buffer:
  "cp_sign_buffer cp = Some buf \<Longrightarrow> length buf \<le> MAX_SIGN_DATA_SIZE \<Longrightarrow>
   \<exists>accepted. sign_stream chunks cp = (cp\<lparr>cp_sign_buffer := Some (buf @ concat accepted)\<rparr>, accepted)
     \<and> length (buf @ concat accepted) \<le> MAX_SIGN_DATA_SIZE"
proof (induction chunks arbitrary: cp buf)
  case (Cons chunk chunks)
  show ?case
  proof (cases "MAX_SIGN_DATA_SIZE < length buf + length chunk")
    case True
    then show ?thesis using Cons.IH [OF Cons.prems] Cons.prems by (auto simp: Companion_sign_data_def)
  next
    case False
    then obtain accepted where
      "sign_stream chunks (cp\<lparr>cp_sign_buffer := Some (buf @ chunk)\<rparr>)
        = (cp\<lparr>cp_sign_buffer := Some ((buf @ chunk) @ concat accepted)\<rparr>, accepted)"
      "length ((buf @ chunk) @ concat accepted) \<le> MAX_SIGN_DATA_SIZE"
      using Cons.IH [of "cp\<lparr>cp_sign_buffer := Some (buf @ chunk)\<rparr>" "buf @ chunk"] by auto
    with False Cons.prems show ?thesis
      by (intro exI [of _ "chunk # accepted"]) (simp add: Companion_sign_data_def)
  qed
qed simp

lemma sign_stream_covers:
  "\<exists>accepted. sign_stream chunks (fst (sign_start cp)) = (cp\<lparr>cp_sign_buffer := Some (concat accepted)\<rparr>, accepted)
     \<and> snd (sign_finish c (cp\<lparr>cp_sign_buffer := Some (concat accepted)\<rparr>))
       = (case sign c (cp_identity cp) (concat accepted) of Inl _ \<Rightarrow> None | Inr sig \<Rightarrow> Some sig)
     \<and> length (concat accepted) \<le> MAX_SIGN_DATA_SIZE"
  using sign_stream_buffer [of "fst (sign_start cp)" "[]" chunks] by (auto simp: sign_start_def sign_finish_def)

section \<open>Well-formed companions\<close>

text \<open>One call of an operation of this theory that changes the state. A call that raises has no step.\<close>

inductive companion_step :: "crypto \<Rightarrow> unicode \<Rightarrow> 'cb companion \<Rightarrow> 'cb companion \<Rightarrow> bool" for c u where
  step_name: "set_advert_name name cp = Inr cp' \<Longrightarrow> companion_step c u cp cp'"
| step_latlon: "set_advert_latlon lat lon cp = Inr cp' \<Longrightarrow> companion_step c u cp cp'"
| step_radio: "set_radio_params f bw sf cr cp = Inr cp' \<Longrightarrow> companion_step c u cp cp'"
| step_power: "companion_step c u cp (Companion_set_tx_power dbm cp)"
| step_repeat: "companion_step c u cp (set_client_repeat v cp)"
| step_tuning: "companion_step c u cp (set_tuning_params rd af cp)"
| step_time: "companion_step c u cp (fst (Companion_set_time now now' secs cp))"
| step_other: "companion_step c u cp (set_other_params ma tm lp acks cp)"
| step_hash_mode: "companion_step c u cp (set_path_hash_mode mode cp)"
| step_var: "companion_step c u cp (set_custom_var name v cp)"
| step_sign_start: "companion_step c u cp (fst (sign_start cp))"
| step_sign_data: "companion_step c u cp (fst (Companion_sign_data data cp))"
| step_sign_finish: "companion_step c u cp (fst (sign_finish c cp))"
| step_scope: "companion_step c u cp (set_flood_scope key cp)"
| step_unscoped: "companion_step c u cp (set_flood_unscoped cp)"
| step_default_scope: "companion_step c u cp (fst (set_default_flood_scope u name key cp))"
| step_region: "set_flood_region c name cp = Inr cp' \<Longrightarrow> companion_step c u cp cp'"
| step_login: "companion_step c u cp (note_login_connection now key k cp)"
| step_has_login: "companion_step c u cp (fst (has_login_connection now key cp))"
| step_clear_login: "companion_step c u cp (clear_login_connection key cp)"
| step_track: "companion_step c u cp (track_pending_ack now crc cp)"
| step_confirm: "companion_step c u cp (fst (try_confirm_send now crc cp))"

definition prefs_ok :: "node_prefs \<Rightarrow> bool" where
  "prefs_ok np \<longleftrightarrow>
     -90 \<le> np_latitude np \<and> np_latitude np \<le> 90 \<and> -180 \<le> np_longitude np \<and> np_longitude np \<le> 180
     \<and> np_telemetry_mode_base np \<in> {0..3} \<and> np_telemetry_mode_location np \<in> {0..3}
     \<and> np_telemetry_mode_environment np \<in> {0..3} \<and> np_client_repeat np \<in> {0..255}"

definition companion_ok :: "'cb companion \<Rightarrow> bool" where
  "companion_ok cp \<longleftrightarrow>
     prefs_ok (cp_prefs cp) \<and> pending_ok cp
     \<and> (\<forall>key. cp_flood_transport_key cp = Some key \<longrightarrow> length key = 16)
     \<and> (\<forall>buf. cp_sign_buffer cp = Some buf \<longrightarrow> length buf \<le> MAX_SIGN_DATA_SIZE)
     \<and> dict_ok (cp_login_connections cp) \<and> dict_ok (cp_custom_vars cp)"

lemma low_mask_ranges: "(x :: int) AND 3 \<in> {0..3}" "(x :: int) AND 0xFF \<in> {0..255}"
  using and_low_bits [of x 2] and_low_bits [of x 8] by auto

lemma scope_key_of_region_length:
  "crypto_laws c \<Longrightarrow> get_auto_key_for c name = Inr key \<Longrightarrow> length key = 16"
  by (auto simp: get_auto_key_for_def Let_def crypto_laws_def res_simps split: if_splits)

lemmas companion_op_defs = set_advert_name_def set_advert_latlon_def set_radio_params_def Companion_set_tx_power_def
  set_client_repeat_def set_tuning_params_def Companion_set_time_def set_other_params_def set_path_hash_mode_def
  set_custom_var_def sign_start_def Companion_sign_data_def sign_finish_def set_flood_scope_def set_flood_unscoped_def
  set_default_flood_scope_def note_login_connection_def has_login_connection_def clear_login_connection_def

lemma companion_step_ok:
  assumes "crypto_laws c" and "companion_step c u cp cp'" and "companion_ok cp"
  shows "companion_ok cp'"
  using assms(2,3)
proof cases
  case (step_track now crc)
  then show ?thesis
    using assms(3) track_pending_ok [of cp now crc] by (simp add: companion_ok_def) (simp add: track_pending_ack_def Let_def)
next
  case (step_confirm now crc)
  then show ?thesis
    using assms(3) confirm_pending_ok [of cp now crc]
    by (auto simp: companion_ok_def try_confirm_send_def Let_def split: option.splits)
next
  case (step_region name)
  then show ?thesis
    using assms(3) scope_key_of_region_length [OF assms(1)]
    by (auto simp: companion_ok_def pending_ok_def set_flood_region_def Let_def res_simps split: if_splits)
qed (use assms(3) in \<open>auto simp: companion_ok_def pending_ok_def prefs_ok_def companion_op_defs Let_def res_simps
      low_mask_ranges [simplified] distinct_update distinct_delete split: if_splits option.splits\<close>)

lemma init_companion_ok:
  "companion_ok (init_companion_stores identity name adv mc mch oq rc cs sf now)"
  by (simp add: init_companion_stores_def Let_def companion_ok_def prefs_ok_def pending_ok_def new_node_prefs_def)

lemma reachable_companion_ok:
  assumes "crypto_laws c" and "(companion_step c u)\<^sup>*\<^sup>* cp cp'" and "companion_ok cp"
  shows "companion_ok cp'"
  using assms(2,3) by (induction rule: rtranclp_induct) (simp_all add: companion_step_ok [OF assms(1)])

lemma default_scope_key_length: "default_scope_key u cp = Some key \<Longrightarrow> length key = 16"
  by (auto simp: default_scope_key_def get_default_flood_scope_def ljust_zero_def Let_def split: if_splits)

lemma resolved_key_length:
  "companion_ok cp \<Longrightarrow> resolve_flood_transport_key u cp = Some key \<Longrightarrow> length key = 16"
  by (auto simp: resolve_flood_transport_key_def companion_ok_def default_scope_key_length split: option.splits)

text \<open>
  C14: Whatever sequence of configuration, signing, scope, login and acknowledgement calls has run
  since the companion was created, its state is well typed (coordinates and telemetry modes in range,
  a 16-byte flood key, a signing buffer of at most 8192 bytes, at most 64 expected acknowledgements,
  no key twice in a table), and so giving an outgoing packet its flood scope never raises and leaves
  the payload as it was.
\<close>

theorem companion_well_typed:
  assumes "crypto_laws c"
    and "(companion_step c u)\<^sup>*\<^sup>* (init_companion_stores identity name adv mc mch oq rc cs sf now) cp"
  shows "companion_ok cp \<and> (\<exists>q. Companion_apply_flood_scope c u cp p = Inr q \<and> get_payload q = get_payload p)"
proof -
  have ok: "companion_ok cp" by (rule reachable_companion_ok [OF assms init_companion_ok])
  let ?p = "p\<lparr>pk_flood_scope_applied := True\<rparr>"
  have "\<exists>q. scope_packet c key ?p = Inr q \<and> get_payload q = get_payload p"
    if "resolve_flood_transport_key u cp = Some key" for key
  proof -
    have "length key = 16" by (rule resolved_key_length [OF ok that])
    from transport_code_total [OF assms(1) this, where p = ?p]
    obtain code where "calc_transport_code c key ?p = Inr code" by blast
    then obtain q where "scope_packet c key ?p = Inr q" by (simp add: scope_packet_def)
    with scope_packet_route(5) [OF this] show ?thesis by (simp add: get_payload_def)
  qed
  with ok show ?thesis
    by (auto simp: Companion_apply_flood_scope_def Let_def get_payload_def split: option.split)
qed

theorem companion_well_typed_witness:
  "companion_ok (set_flood_scope (Some (replicate 20 1))
      (init_companion_stores (toy_node 1) [] 1 10 4 5 None None None 0 :: unit companion))
    \<and> (\<exists>q. Companion_apply_flood_scope toy_crypto toy_unicode (set_flood_scope (Some (replicate 20 1))
          (init_companion_stores (toy_node 1) [] 1 10 4 5 None None None 0 :: unit companion)) (sample_packet\<lparr>pk_header := 21\<rparr>) = Inr q
      \<and> get_payload q = get_payload (sample_packet\<lparr>pk_header := 21\<rparr>))"
  by (rule companion_well_typed [OF toy_crypto_laws r_into_rtranclp]) (rule step_scope)

end
