(* ===== verification/Companion_Contacts.thy ===== *)
theory Companion_Contacts
  imports Companion_Base Advert_Handler
begin

text \<open>
  The companion's contact book, channels and advert policy, \<open>companion/base_contacts.py\<close>, and the
  \<open>NODE_DISCOVERED\<close> event of \<open>companion/base_events.py\<close> with the \<open>Contact.from_dict\<close> of
  \<open>companion/models.py\<close> on the event that the advert handler publishes. What a registered callback
  would be called with is returned as a list of push events. Work that the code leaves to a
  background task is returned as well.
\<close>

section \<open>Contacts\<close>

definition get_contacts :: "int \<Rightarrow> 'cb companion \<Rightarrow> contact list" where
  "get_contacts since cp = filter (\<lambda>ct. ct_adv_type ct \<noteq> ADV_TYPE_NONE) (ContactStore_get_all since (cp_contacts cp))"

definition get_contact_by_name :: "pystr \<Rightarrow> 'cb companion \<Rightarrow> contact option" where
  "get_contact_by_name name cp =
     (case get_by_name name (cp_contacts cp) of
        None \<Rightarrow> None
      | Some proxy \<Rightarrow> get_by_key (ct_public_key (cx_contact proxy)) (cp_contacts cp))"

definition add_update_contact :: "real \<Rightarrow> contact \<Rightarrow> 'cb companion \<Rightarrow> 'cb companion \<times> bool" where
  "add_update_contact now contact cp =
     (let contact = (if ct_lastmod contact = 0 then contact\<lparr>ct_lastmod := py_int now\<rparr> else contact);
          (book, ok) = ContactStore_add contact (cp_contacts cp)
      in (set_contacts book cp, ok))"

definition remove_contact :: "bytes \<Rightarrow> 'cb companion \<Rightarrow> 'cb companion \<times> bool" where
  "remove_contact pub_key cp =
     (let (book, ok) = ContactStore_remove pub_key (cp_contacts cp) in (set_contacts book cp, ok))"

definition ADVERT_LOC_SHARE :: int where "ADVERT_LOC_SHARE = 1"

definition export_contact :: "crypto \<Rightarrow> real \<Rightarrow> bytes option \<Rightarrow> 'cb companion \<Rightarrow> bytes option res" where
  "export_contact c now pub_key cp =
     (case pub_key of
        None \<Rightarrow>
          let np = cp_prefs cp;
              flags = adv_type_to_flags (np_adv_type np) OR ADVERT_FLAG_HAS_NAME;
              share = np_advert_loc_policy np = ADVERT_LOC_SHARE;
              flags = (if share then flags OR ADVERT_FLAG_HAS_LOCATION else flags);
              (lat, lon) = (if share then (np_latitude np, np_longitude np) else (0, 0))
          in bind_res (create_advert c now (cp_identity cp) (np_node_name np) lat lon 0 0 flags (str ''flood'')) (\<lambda>packet.
             bind_res (write_to packet) (\<lambda>raw. Inr (Some raw)))
      | Some key \<Rightarrow>
          (case get_by_key key (cp_contacts cp) of
             None \<Rightarrow> Inr None
           | Some contact \<Rightarrow>
               (case ct_last_advert_packet contact of
                  None \<Rightarrow> Inr None
                | Some raw \<Rightarrow> Inr (if raw = [] then None else Some raw))))"

text \<open>
  The packet that an accepted import leaves to a background task; without an event loop there is
  none. Errors of other kinds than the three that the code catches are raised.
\<close>

definition import_error :: "py_error \<Rightarrow> bool" where
  "import_error e \<longleftrightarrow> e = IndexError \<or> e = TypeError \<or> is_value_error e"

definition import_contact :: "bool \<Rightarrow> bytes \<Rightarrow> (bool \<times> packet option) res" where
  "import_contact running_loop packet_data =
     (case read_from packet_data new_packet of
        (_, Inl e) \<Rightarrow> if import_error e then Inr (False, None) else Inl e
      | (packet, Inr False) \<Rightarrow> Inr (False, None)
      | (packet, Inr True) \<Rightarrow>
          if get_payload_type packet \<noteq> PAYLOAD_TYPE_ADVERT then Inr (False, None)
          else if \<not> running_loop then Inr (False, None)
          else Inr (True, Some (packet\<lparr>pk_header := pk_header packet OR ROUTE_TYPE_FLOOD\<rparr>)))"

definition reset_path :: "bytes \<Rightarrow> 'cb companion \<Rightarrow> 'cb companion \<times> bool" where
  "reset_path pub_key cp =
     (case get_by_key pub_key (cp_contacts cp) of
        None \<Rightarrow> (cp, False)
      | Some contact \<Rightarrow>
          (set_contacts (fst (ContactStore_update (contact\<lparr>ct_out_path_len := -1, ct_out_path := []\<rparr>) (cp_contacts cp))) cp, True))"

section \<open>Channels\<close>

definition Companion_set_channel ::
  "int \<Rightarrow> pystr \<Rightarrow> bytes \<Rightarrow> 'cb companion \<Rightarrow> ('cb companion \<times> bool \<times> push_event list) res" where
  "Companion_set_channel idx name secret cp =
     (let secret = (if length secret < 32 then secret @ replicate (32 - length secret) 0
                    else if 32 < length secret then take 32 secret else secret)
      in bind_res (ChannelStore_set idx \<lparr>ch_name = take 32 name, ch_secret = secret\<rparr> (cp_channels cp)) (\<lambda>(store, ok).
         let cp = cp\<lparr>cp_channels := store\<rparr>
         in if ok then bind_res (ChannelStore_get idx store) (\<lambda>ch. Inr (cp, True, [ChannelUpdated idx ch]))
            else Inr (cp, False, [])))"

definition Companion_remove_channel :: "int \<Rightarrow> 'cb companion \<Rightarrow> ('cb companion \<times> bool \<times> push_event list) res" where
  "Companion_remove_channel idx cp =
     bind_res (ChannelStore_remove idx (cp_channels cp)) (\<lambda>(store, ok).
     Inr (cp\<lparr>cp_channels := store\<rparr>, ok, if ok then [ChannelUpdated idx None] else []))"

section \<open>Which adverts become contacts\<close>

definition AUTOADD_OVERWRITE_OLDEST :: int where "AUTOADD_OVERWRITE_OLDEST = 0x01"

definition AUTOADD_TYPE_MAP :: "(int, int) dict" where
  "AUTOADD_TYPE_MAP =
     [(ADV_TYPE_CHAT, 0x02), (ADV_TYPE_REPEATER, 0x04), (ADV_TYPE_ROOM, 0x08), (ADV_TYPE_SENSOR, 0x10)]"

definition set_autoadd_config :: "int \<Rightarrow> int option \<Rightarrow> 'cb companion \<Rightarrow> 'cb companion" where
  "set_autoadd_config config max_hops cp =
     (let np = (cp_prefs cp)\<lparr>np_autoadd_config := config\<rparr>
      in cp\<lparr>cp_prefs := (case max_hops of None \<Rightarrow> np | Some h \<Rightarrow> np\<lparr>np_autoadd_max_hops := min h 64\<rparr>)\<rparr>)"

definition should_auto_add_contact_type :: "int \<Rightarrow> node_prefs \<Rightarrow> bool" where
  "should_auto_add_contact_type contact_type np =
     (if np_manual_add_contacts np AND 1 = 0 then True
      else let type_bit = opt_default 0 (map_of AUTOADD_TYPE_MAP contact_type)
           in type_bit \<noteq> 0 \<and> np_autoadd_config np AND type_bit \<noteq> 0)"

definition should_overwrite_when_full :: "node_prefs \<Rightarrow> bool" where
  "should_overwrite_when_full np \<longleftrightarrow> np_autoadd_config np AND AUTOADD_OVERWRITE_OLDEST \<noteq> 0"

text \<open>What is kept of a contact that is already stored.\<close>

definition merge_existing :: "contact \<Rightarrow> contact \<Rightarrow> contact" where
  "merge_existing existing contact =
     contact\<lparr>ct_out_path_len := ct_out_path_len existing, ct_out_path := ct_out_path existing,
             ct_flags := ct_flags existing, ct_sync_since := ct_sync_since existing,
             ct_last_advert_packet := (case ct_last_advert_packet contact of
                None \<Rightarrow> ct_last_advert_packet existing | Some raw \<Rightarrow> Some raw)\<rparr>"

definition add_new_contact :: "contact \<Rightarrow> 'cb companion \<Rightarrow> 'cb companion \<times> push_event list \<times> contact option" where
  "add_new_contact contact cp =
     (if should_overwrite_when_full (cp_prefs cp) \<and> ContactStore_is_full (cp_contacts cp) then
        (case add_or_overwrite contact (cp_contacts cp) of
           (book, ok, overwritten) \<Rightarrow>
             (set_contacts book cp,
              if ok then (case overwritten of Some k \<Rightarrow> if k = [] then [] else [ContactDeleted k] | None \<Rightarrow> [])
              else [ContactsFull],
              if ok then Some contact else None))
      else
        (case ContactStore_add contact (cp_contacts cp) of
           (book, added) \<Rightarrow>
             (set_contacts book cp,
              if \<not> added \<and> ContactStore_is_full book then [ContactsFull] else [],
              if added then Some contact else None)))"

definition store_advert ::
  "contact \<Rightarrow> bytes \<Rightarrow> int option \<Rightarrow> 'cb companion \<Rightarrow> 'cb companion \<times> push_event list \<times> contact option" where
  "store_advert contact inbound_path path_len_encoded cp =
     (case get_by_key (ct_public_key contact) (cp_contacts cp) of
        Some existing \<Rightarrow>
          let contact = merge_existing existing contact
          in (set_contacts (fst (ContactStore_update contact (cp_contacts cp))) cp, [], Some contact)
      | None \<Rightarrow>
          let max_hops = np_autoadd_max_hops (cp_prefs cp);
              hop_count = (case path_len_encoded of Some e \<Rightarrow> get_path_hash_count e
                           | None \<Rightarrow> int (length inbound_path))
          in if \<not> should_auto_add_contact_type (ct_adv_type contact) (cp_prefs cp) then (cp, [], None)
             else if 0 < max_hops \<and> max_hops \<le> hop_count then (cp, [], None)
             else add_new_contact contact cp)"

definition apply_advert_to_stores ::
  "real \<Rightarrow> contact \<Rightarrow> bytes option \<Rightarrow> int option \<Rightarrow> 'cb companion \<Rightarrow> 'cb companion \<times> push_event list \<times> contact option" where
  "apply_advert_to_stores now contact inbound path_len_encoded cp =
     (if length (ct_public_key contact) < 7 \<or> ct_name contact = [] then (cp, [], None)
      else
        let inbound_path = opt_default [] inbound;
            entry = \<lparr>ap_public_key_prefix = take 7 (ct_public_key contact), ap_name = ct_name contact,
                     ap_path_len = opt_default (int (length inbound_path)) path_len_encoded,
                     ap_path = inbound_path, ap_recv_timestamp = py_int now\<rparr>
        in case PathCache_update entry (cp_path_cache cp) of
             (cache, Inl _) \<Rightarrow> (cp\<lparr>cp_path_cache := cache\<rparr>, [], None)
           | (cache, Inr ()) \<Rightarrow> store_advert contact inbound_path path_len_encoded (cp\<lparr>cp_path_cache := cache\<rparr>))"

section \<open>An advert that the node heard\<close>

text \<open>\<open>Contact.from_dict\<close> on the event, with the local flags cleared and the raw advert attached.\<close>

definition contact_of_event :: "int \<Rightarrow> node_discovered \<Rightarrow> contact res" where
  "contact_of_event now nd =
     bind_res (if nd_public_key nd = [] then Inr [] else fromhex (nd_public_key nd)) (\<lambda>pub.
     Inr \<lparr>ct_public_key = ljust_zero 32 (take 32 pub), ct_name = nd_name nd, ct_adv_type = nd_contact_type nd,
          ct_flags = 0, ct_out_path_len = -1, ct_out_path = [],
          ct_last_advert_timestamp = min (nd_advert_timestamp nd) now, ct_lastmod = nd_timestamp nd,
          ct_gps_lat = nd_lat nd, ct_gps_lon = nd_lon nd, ct_sync_since = 0,
          ct_last_advert_packet = (case nd_raw_advert_packet nd of
             Some raw \<Rightarrow> if raw = [] then None else Some raw | None \<Rightarrow> None)\<rparr>)"

text \<open>The clock is read for the event and again for the path cache.\<close>

definition handle_node_discovered ::
  "real \<Rightarrow> real \<Rightarrow> node_discovered \<Rightarrow> 'cb companion \<Rightarrow> 'cb companion \<times> push_event list" where
  "handle_node_discovered now now' nd cp =
     (case contact_of_event (py_int now) nd of
        Inl _ \<Rightarrow> (cp, [])
      | Inr contact \<Rightarrow>
          if ct_public_key contact = get_public_key (cp_identity cp) then (cp, [])
          else if length (ct_public_key contact) < 7 \<or> ct_name contact = [] then (cp, [])
          else if (case get_by_key (ct_public_key contact) (cp_contacts cp) of
                     None \<Rightarrow> False
                   | Some existing \<Rightarrow> ct_last_advert_timestamp contact \<le> ct_last_advert_timestamp existing)
          then (cp, [])
          else
            case apply_advert_to_stores now' contact (Some (nd_inbound_path nd)) (Some (nd_path_len_encoded nd)) cp of
              (cp, pushes, Some applied) \<Rightarrow> (cp, pushes @ [AdvertReceived applied, NodeDiscovered applied])
            | (cp, pushes, None) \<Rightarrow> (cp, pushes @ [NodeDiscovered contact]))"

text \<open>The handler that an imported advert goes to, if there is one: its identity and whether it publishes events.\<close>

definition loopback_imported_advert ::
  "crypto \<Rightarrow> (nat \<Rightarrow> real) \<Rightarrow> (local_identity option \<times> bool) option \<Rightarrow> packet \<Rightarrow> 'cb companion \<Rightarrow> node_discovered list" where
  "loopback_imported_advert c now handler packet cp =
     (if is_self_advert (get_payload packet) (get_public_key (cp_identity cp)) then []
      else case handler of
             None \<Rightarrow> []
           | Some (local_identity, event_service) \<Rightarrow> snd (AdvertHandler_call c now local_identity event_service packet))"

section \<open>What an advert can change\<close>

type_synonym discovery_event = "real \<times> real \<times> node_discovered"

fun discovery_run :: "discovery_event list \<Rightarrow> 'cb companion \<Rightarrow> 'cb companion" where
  "discovery_run [] cp = cp"
| "discovery_run ((now, now', nd) # evs) cp = discovery_run evs (fst (handle_node_discovered now now' nd cp))"

text \<open>Every change of the book by an advert is a change of one contact, as the store makes it.\<close>

lemma set_contacts_simps [simp]:
  "cp_contacts (set_contacts book cp) = book"
  "cp_identity (set_contacts book cp) = cp_identity cp"
  "cp_path_cache (set_contacts book cp) = cp_path_cache cp"
  "cp_prefs (set_contacts book cp) = cp_prefs cp"
  by (simp_all add: set_contacts_def)

definition book_change :: "contact \<Rightarrow> contact_store \<Rightarrow> contact_store \<Rightarrow> bool" where
  "book_change ct book book' \<longleftrightarrow>
     book' = book
     \<or> (\<exists>x. get_by_key (ct_public_key ct) book = Some x \<and> book' = contact_step (UpdateContact (merge_existing x ct)) book)
     \<or> (get_by_key (ct_public_key ct) book = None
        \<and> (book' = contact_step (AddOrOverwrite ct) book \<or> book' = contact_step (Add ct) book))"

lemma add_new_contact_book:
  assumes "get_by_key (ct_public_key ct) (cp_contacts cp) = None"
  shows "book_change ct (cp_contacts cp) (cp_contacts (fst (add_new_contact ct cp)))"
    and "cp_identity (fst (add_new_contact ct cp)) = cp_identity cp"
  using assms by (auto simp: add_new_contact_def book_change_def split: prod.split)

lemma store_advert_book:
  "book_change ct (cp_contacts cp) (cp_contacts (fst (store_advert ct path ple cp)))"
  "cp_identity (fst (store_advert ct path ple cp)) = cp_identity cp"
  using add_new_contact_book [of ct cp]
  by (auto simp: store_advert_def Let_def split: option.split) (auto simp: book_change_def)

lemma apply_advert_book:
  "book_change ct (cp_contacts cp) (cp_contacts (fst (apply_advert_to_stores now ct inbound ple cp)))"
  "cp_identity (fst (apply_advert_to_stores now ct inbound ple cp)) = cp_identity cp"
  using store_advert_book [where ct = ct and cp = "cp\<lparr>cp_path_cache := cache\<rparr>" and path = "opt_default [] inbound" and ple = ple for cache]
  by (auto simp: apply_advert_to_stores_def Let_def book_change_def split: prod.split sum.split unit.split)

lemma node_discovered_book:
  obtains ct where "book_change ct (cp_contacts cp) (cp_contacts (fst (handle_node_discovered now now' nd cp)))"
    and "ct_public_key ct \<noteq> get_public_key (cp_identity cp)
      \<and> (\<forall>x. get_by_key (ct_public_key ct) (cp_contacts cp) = Some x
             \<longrightarrow> ct_last_advert_timestamp x < ct_last_advert_timestamp ct)
      \<or> cp_contacts (fst (handle_node_discovered now now' nd cp)) = cp_contacts cp"
    and "cp_identity (fst (handle_node_discovered now now' nd cp)) = cp_identity cp"
proof (cases "contact_of_event (py_int now) nd")
  case (Inl e)
  then show thesis by (intro that) (auto simp: handle_node_discovered_def book_change_def)
next
  case (Inr ct)
  let ?r = "apply_advert_to_stores now' ct (Some (nd_inbound_path nd)) (Some (nd_path_len_encoded nd)) cp"
  have "fst (handle_node_discovered now now' nd cp) = cp
      \<or> fst (handle_node_discovered now now' nd cp) = fst ?r
        \<and> ct_public_key ct \<noteq> get_public_key (cp_identity cp)
        \<and> (\<forall>x. get_by_key (ct_public_key ct) (cp_contacts cp) = Some x
               \<longrightarrow> ct_last_advert_timestamp x < ct_last_advert_timestamp ct)"
    using Inr by (auto simp: handle_node_discovered_def split: option.splits if_splits prod.splits)
  then show thesis
    using that [of ct] apply_advert_book [where ct = ct and cp = cp and now = now' and inbound = "Some (nd_inbound_path nd)" and ple = "Some (nd_path_len_encoded nd)"]
    by (auto simp: book_change_def)
qed

lemma merge_existing_simps [simp]:
  "ct_public_key (merge_existing x ct) = ct_public_key ct"
  "ct_flags (merge_existing x ct) = ct_flags x"
  "ct_out_path (merge_existing x ct) = ct_out_path x"
  "ct_out_path_len (merge_existing x ct) = ct_out_path_len x"
  "ct_sync_since (merge_existing x ct) = ct_sync_since x"
  "ct_last_advert_timestamp (merge_existing x ct) = ct_last_advert_timestamp ct"
  by (simp_all add: merge_existing_def)

lemma book_change_ok: "book_change ct book book' \<Longrightarrow> contact_store_ok book \<Longrightarrow> contact_store_ok book'"
  using contact_step_ok by (auto simp: book_change_def simp del: contact_step.simps)

text \<open>What the owner of the node decided about a contact.\<close>

definition same_local_data :: "contact \<Rightarrow> contact \<Rightarrow> bool" where
  "same_local_data x y \<longleftrightarrow> ct_flags y = ct_flags x \<and> ct_out_path y = ct_out_path x
     \<and> ct_out_path_len y = ct_out_path_len x \<and> ct_sync_since y = ct_sync_since x"

lemma put_known_key:
  "get_by_key k book = Some x \<Longrightarrow> contact_step (UpdateContact c) book = put_contact c book"
  if "ct_public_key c = k"
  using that by (auto simp: ContactStore_update_def get_by_key_def dest!: map_of_SomeD) force

lemma favourite_overwrite:
  assumes "contact_store_ok book" and "get_by_key k book = Some x" and "ct_flags x AND 1 \<noteq> 0" and "ct_public_key ct \<noteq> k"
  shows "get_by_key k (contact_step (AddOrOverwrite ct) book) = Some x"
proof -
  have "dict_ok (cs_contacts book)" using assms(1) by (simp add: contact_store_ok_def)
  from find_oldest_evicts [OF this] assms(2,3)
  have "find_oldest None 0xFFFFFFFF (cs_contacts book) \<noteq> Some k"
    by (force simp: get_by_key_def evictable_def)
  with assms show ?thesis
    by (auto simp: add_or_overwrite_def ContactStore_update_def map_of_put map_of_remove split: option.split)
qed

lemma favourite_book_change:
  assumes "contact_store_ok book" and "get_by_key k book = Some x" and "ct_flags x AND 1 \<noteq> 0"
    and "book_change ct book book'"
  shows "get_by_key k book' = Some x
    \<or> ct_public_key ct = k \<and> get_by_key k book' = Some (merge_existing x ct)"
proof (cases "ct_public_key ct = k")
  case True
  with assms(2,4) show ?thesis
    by (auto simp: book_change_def put_known_key [OF _ assms(2)] map_of_put simp del: contact_step.simps)
next
  case False
  with assms favourite_overwrite [OF assms(1-3) False] show ?thesis
    by (auto simp: book_change_def ContactStore_update_def ContactStore_add_def map_of_put)
qed

lemma unknown_stays:
  assumes "book_change ct book book'" and "ct_public_key ct \<noteq> k" and "get_by_key k book = None"
  shows "get_by_key k book' = None"
  using assms by (auto simp: book_change_def add_or_overwrite_def ContactStore_update_def ContactStore_add_def
      map_of_put map_of_remove split: option.split)

text \<open>
  C15: Adverts cannot take over what the node stored itself. Whatever adverts are heard, in any
  order and at any times, a favourite contact stays in the book with the flags, route and sync time
  that the node stored, its advert time never goes back, its data change only together with a later
  advert time, and the node never becomes a contact of its own.
\<close>

theorem adverts_protect_contacts:
  assumes "contact_store_ok (cp_contacts cp)" and "get_by_key k (cp_contacts cp) = Some x" and "ct_flags x AND 1 \<noteq> 0"
    and "get_by_key (get_public_key (cp_identity cp)) (cp_contacts cp) = None"
  shows "\<exists>y. get_by_key k (cp_contacts (discovery_run evs cp)) = Some y \<and> same_local_data x y
    \<and> (y = x \<or> ct_last_advert_timestamp x < ct_last_advert_timestamp y)
    \<and> get_by_key (get_public_key (cp_identity cp)) (cp_contacts (discovery_run evs cp)) = None"
  using assms
proof (induction evs arbitrary: cp x)
  case Nil
  then show ?case by (simp add: same_local_data_def)
next
  case (Cons ev evs)
  obtain now now' nd where ev: "ev = (now, now', nd)" by (rule prod_cases3)
  let ?cp = "fst (handle_node_discovered now now' nd cp)"
  obtain ct where ch: "book_change ct (cp_contacts cp) (cp_contacts ?cp)"
    and new: "ct_public_key ct \<noteq> get_public_key (cp_identity cp)
      \<and> (\<forall>x. get_by_key (ct_public_key ct) (cp_contacts cp) = Some x
             \<longrightarrow> ct_last_advert_timestamp x < ct_last_advert_timestamp ct)
      \<or> cp_contacts ?cp = cp_contacts cp"
    and id: "cp_identity ?cp = cp_identity cp"
    by (rule node_discovered_book)
  have own: "get_by_key (get_public_key (cp_identity ?cp)) (cp_contacts ?cp) = None"
    using new unknown_stays [OF ch _ Cons.prems(4)] Cons.prems(4) by (auto simp: id)
  have "\<exists>z. get_by_key k (cp_contacts ?cp) = Some z \<and> same_local_data x z
      \<and> (z = x \<or> ct_last_advert_timestamp x < ct_last_advert_timestamp z)"
    using favourite_book_change [OF Cons.prems(1-3) ch] new Cons.prems(2) by (auto simp: same_local_data_def)
  then obtain z where z: "get_by_key k (cp_contacts ?cp) = Some z" "same_local_data x z"
    "z = x \<or> ct_last_advert_timestamp x < ct_last_advert_timestamp z" by blast
  have "ct_flags z AND 1 \<noteq> 0" using z(2) Cons.prems(3) by (simp add: same_local_data_def)
  from Cons.IH [OF book_change_ok [OF ch Cons.prems(1)] z(1) this own] z(2,3) show ?case
    by (auto simp: ev id same_local_data_def)
qed

definition toy_discovered :: "byte \<Rightarrow> pystr \<Rightarrow> int \<Rightarrow> node_discovered" where
  "toy_discovered k name ts =
     \<lparr>nd_public_key = hex_str (replicate 32 k), nd_name = name, nd_contact_type = 1, nd_flags = 0, nd_lat = 0, nd_lon = 0,
      nd_advert_timestamp = ts, nd_timestamp = 0, nd_snr = None, nd_rssi = 0, nd_inbound_path = [],
      nd_path_len_encoded = 0, nd_raw_advert_packet = None\<rparr>"

definition toy_favourite :: contact where
  "toy_favourite =
     \<lparr>ct_public_key = replicate 32 7, ct_name = str ''ann'', ct_adv_type = 1, ct_flags = 1, ct_out_path_len = 1,
      ct_out_path = [9], ct_last_advert_timestamp = 5, ct_lastmod = 5, ct_gps_lat = 0, ct_gps_lon = 0,
      ct_sync_since = 0, ct_last_advert_packet = None\<rparr>"

definition toy_companion :: "unit companion" where
  "toy_companion = init_companion_stores (toy_node 1) [] 1 10 4 5 None (Some [toy_favourite]) None 0"

lemma toy_companion_book:
  "cp_contacts toy_companion = put_contact toy_favourite (new_contact_store 10)"
  "cp_identity toy_companion = toy_node 1" "pc_max (cp_path_cache toy_companion) = 16"
  by (simp_all add: toy_companion_def init_companion_stores_def Let_def create_client_state_def load_from_def
      ContactStore_clear_def new_contact_store_def new_path_cache_def)

lemma toy_favourite_fields:
  "ct_public_key toy_favourite = replicate 32 7" "ct_flags toy_favourite AND 1 \<noteq> 0"
  "ct_last_advert_timestamp toy_favourite = 5"
  by (simp_all add: toy_favourite_def)

lemma toy_favourite_known:
  "contact_store_ok (cp_contacts toy_companion)"
  "get_by_key (replicate 32 7) (cp_contacts toy_companion) = Some toy_favourite"
  "k \<noteq> replicate 32 7 \<Longrightarrow> get_by_key k (cp_contacts toy_companion) = None"
  unfolding toy_companion_book map_of_put toy_favourite_fields
  by (simp_all add: put_contact_ok new_contact_store_ok) (simp add: get_by_key_def new_contact_store_def)

lemma toy_own_key: "get_public_key (toy_node 1) \<noteq> replicate 32 7"
  by code_simp

theorem adverts_protect_contacts_witness:
  "\<exists>y. get_by_key (replicate 32 7) (cp_contacts (discovery_run
         [(10, 10, toy_discovered 7 (str ''eve'') 4), (11, 11, toy_discovered 8 (str ''bob'') 4)] toy_companion)) = Some y
    \<and> same_local_data toy_favourite y
    \<and> (y = toy_favourite \<or> ct_last_advert_timestamp toy_favourite < ct_last_advert_timestamp y)
    \<and> get_by_key (get_public_key (cp_identity toy_companion)) (cp_contacts (discovery_run
         [(10, 10, toy_discovered 7 (str ''eve'') 4), (11, 11, toy_discovered 8 (str ''bob'') 4)] toy_companion)) = None"
proof (rule adverts_protect_contacts [OF toy_favourite_known(1,2) toy_favourite_fields(2)])
  show "get_by_key (get_public_key (cp_identity toy_companion)) (cp_contacts toy_companion) = None"
    by (rule toy_favourite_known(3)) (simp only: toy_companion_book toy_own_key not_False_eq_True)
qed

section \<open>Adverts from the future\<close>

lemma PathCache_update_fits:
  assumes "1 \<le> pc_max pc"
  shows "\<exists>pc'. PathCache_update e pc = (pc', Inr ()) \<and> pc_max pc' = pc_max pc"
  using assms by (auto simp: PathCache_update_def Let_def split: list.split)

lemma newer_advert_applied:
  assumes key: "fromhex (nd_public_key nd) = Inr key" "length key = 32" "key \<noteq> get_public_key (cp_identity cp)"
    and name: "nd_name nd \<noteq> []" and cache: "1 \<le> pc_max (cp_path_cache cp)"
    and known: "get_by_key key (cp_contacts cp) = Some x"
    and later: "ct_last_advert_timestamp x < min (nd_advert_timestamp nd) (py_int now)"
  shows "\<exists>y. get_by_key key (cp_contacts (fst (handle_node_discovered now now' nd cp))) = Some y
      \<and> ct_name y = nd_name nd \<and> ct_last_advert_timestamp y = min (nd_advert_timestamp nd) (py_int now)"
    and "pc_max (cp_path_cache (fst (handle_node_discovered now now' nd cp))) = pc_max (cp_path_cache cp)"
    and "cp_identity (fst (handle_node_discovered now now' nd cp)) = cp_identity cp"
proof -
  have "nd_public_key nd \<noteq> []" using key(1,2) by auto
  with key(1,2) obtain ct where ct: "contact_of_event (py_int now) nd = Inr ct" "ct_public_key ct = key"
    "ct_name ct = nd_name nd" "ct_last_advert_timestamp ct = min (nd_advert_timestamp nd) (py_int now)"
    by (auto simp: contact_of_event_def ljust_zero_def)
  let ?e = "\<lparr>ap_public_key_prefix = take 7 key, ap_name = nd_name nd, ap_path_len = nd_path_len_encoded nd,
             ap_path = nd_inbound_path nd, ap_recv_timestamp = py_int now'\<rparr>"
  obtain pc where pc: "PathCache_update ?e (cp_path_cache cp) = (pc, Inr ())" "pc_max pc = pc_max (cp_path_cache cp)"
    using PathCache_update_fits [OF cache] by blast
  have upd: "fst (ContactStore_update (merge_existing x ct) (cp_contacts cp)) = put_contact (merge_existing x ct) (cp_contacts cp)"
    using put_known_key [of "merge_existing x ct" key "cp_contacts cp" x] known ct(2) by simp
  have "fst (handle_node_discovered now now' nd cp)
      = set_contacts (put_contact (merge_existing x ct) (cp_contacts cp)) (cp\<lparr>cp_path_cache := pc\<rparr>)"
    using ct key(2,3) name known later [folded ct(4)] pc(1)
    by (simp del: min_less_iff_conj add: handle_node_discovered_def apply_advert_to_stores_def store_advert_def opt_default_def upd Let_def
        split: unit.split)
  with ct pc(2) show "\<exists>y. get_by_key key (cp_contacts (fst (handle_node_discovered now now' nd cp))) = Some y
      \<and> ct_name y = nd_name nd \<and> ct_last_advert_timestamp y = min (nd_advert_timestamp nd) (py_int now)"
    and "pc_max (cp_path_cache (fst (handle_node_discovered now now' nd cp))) = pc_max (cp_path_cache cp)"
    and "cp_identity (fst (handle_node_discovered now now' nd cp)) = cp_identity cp"
    by (simp_all add: map_of_put merge_existing_def)
qed

text \<open>
  C18: Replay protection does not cover a node whose clock runs ahead. An advert time that lies in the
  receiver's future is replaced by the time of reception before it is compared, so when a newer
  advert of a known contact has been applied, replaying an older one a second later is accepted and
  puts the older name back, as long as the time in the older advert is still ahead of the receiver.
\<close>

theorem future_advert_replayed:
  assumes "fromhex (nd_public_key older) = Inr key" and "nd_public_key newer = nd_public_key older" and "length key = 32"
    and "key \<noteq> get_public_key (cp_identity cp)" and "nd_name older \<noteq> []" and "nd_name newer \<noteq> []"
    and "1 \<le> pc_max (cp_path_cache cp)"
    and "get_by_key key (cp_contacts cp) = Some x" and "ct_last_advert_timestamp x < py_int t1"
    and "py_int t1 < py_int t2" and "py_int t2 \<le> nd_advert_timestamp older"
    and "nd_advert_timestamp older < nd_advert_timestamp newer"
  shows "\<exists>y. get_by_key key (cp_contacts (discovery_run [(t1, t1', newer), (t2, t2', older)] cp)) = Some y
    \<and> ct_name y = nd_name older"
proof -
  let ?cp = "fst (handle_node_discovered t1 t1' newer cp)"
  have k: "fromhex (nd_public_key newer) = Inr key" using assms(1,2) by simp
  have later: "ct_last_advert_timestamp x < min (nd_advert_timestamp newer) (py_int t1)" using assms(9-12) by linarith
  note first = newer_advert_applied [OF k assms(3,4,6-8) later]
  from first(1) obtain y where y: "get_by_key key (cp_contacts ?cp) = Some y"
    "ct_last_advert_timestamp y = min (nd_advert_timestamp newer) (py_int t1)" by blast
  have "ct_last_advert_timestamp y < min (nd_advert_timestamp older) (py_int t2)" using y(2) assms(9-12) by linarith
  from newer_advert_applied(1) [OF assms(1,3) _ assms(5) _ y(1) this, where now' = t2'] show ?thesis
    using assms(4,7) first(2,3) [where now' = t1'] by auto
qed

theorem future_advert_replayed_witness:
  "\<exists>y. get_by_key (replicate 32 7) (cp_contacts (discovery_run
         [(10, 10, toy_discovered 7 (str ''new'') 101), (11, 11, toy_discovered 7 (str ''old'') 100)] toy_companion)) = Some y
    \<and> ct_name y = nd_name (toy_discovered 7 (str ''old'') 100)"
proof (rule future_advert_replayed [where x = toy_favourite])
  show "replicate 32 7 \<noteq> get_public_key (cp_identity toy_companion)"
    using toy_own_key by (simp add: toy_companion_book)
  show "get_by_key (replicate 32 7) (cp_contacts toy_companion) = Some toy_favourite" by (rule toy_favourite_known(2))
qed (simp_all add: toy_favourite_fields toy_companion_book toy_discovered_def py_int_def str_def)

end
