(* ===== verification/Companion_Messages.thy ===== *)
theory Companion_Messages
  imports Companion_Contacts Text_Handler Group_Text_Handler
begin

text \<open>
  What the companion does with what its handlers deliver: direct and group messages and group data
  (\<open>companion/base_events.py\<close>), path updates, responses to binary requests and path discovery
  (\<open>companion/base_callbacks.py\<close>). The callback registry is left out; a push event stands for the
  call of every callback registered for it. A push event of a message carries the queue entry's
  message, so a missing signal reading appears as the 0 that the entry has.
\<close>

section \<open>Messages\<close>

definition rstrip_nul :: "pystr \<Rightarrow> pystr" where
  "rstrip_nul s = rev (dropWhile (\<lambda>ch. ch = 0) (rev s))"

text \<open>A new message object, and the attempt to put it into the offline queue.\<close>

definition enqueue :: "queued_message \<Rightarrow> 'cb companion \<Rightarrow> 'cb companion \<times> bool" where
  "enqueue msg cp =
     (let (queue, was_queued) = push (cp_next_entry cp, msg) (cp_message_queue cp)
      in (cp\<lparr>cp_message_queue := queue, cp_next_entry := cp_next_entry cp + 1\<rparr>, was_queued))"

definition sync_next_message :: "'cb companion \<Rightarrow> 'cb companion \<times> queued_message option" where
  "sync_next_message cp =
     (let (queue, entry) = pop (cp_message_queue cp)
      in (cp\<lparr>cp_message_queue := queue\<rparr>, map_option snd entry))"

definition handle_new_message :: "real \<Rightarrow> message_data \<Rightarrow> 'cb companion \<Rightarrow> 'cb companion \<times> push_event list" where
  "handle_new_message now data cp =
     (let pkt_hash = md_packet_hash data;
          (seen, duplicate) = (if pkt_hash = [] then (cp_seen_txt cp, False)
                               else SeenCache_check_and_add now pkt_hash (cp_seen_txt cp));
          cp = cp\<lparr>cp_seen_txt := seen\<rparr>
      in if duplicate then (cp, [])
         else case (if md_contact_pubkey data = [] then Inr [] else fromhex (md_contact_pubkey data)) of
           Inl _ \<Rightarrow> (cp, [])
         | Inr sender_key \<Rightarrow>
             let msg = \<lparr>qm_sender_key = sender_key, qm_txt_type = md_txt_type data, qm_timestamp = md_timestamp data,
                        qm_text = rstrip_nul (md_message_text data), qm_is_channel = False, qm_channel_idx = 0,
                        qm_path_len = md_path_len data, qm_snr = md_snr data, qm_rssi = md_rssi data,
                        qm_channel_data_type = 0, qm_channel_data_payload = [],
                        qm_sender_prefix = (case fromhex (md_sender_prefix data) of Inr bs \<Rightarrow> bs | Inl _ \<Rightarrow> [])\<rparr>;
                 (cp, was_queued) = enqueue msg cp
             in (cp, [MessageEvent msg (Some pkt_hash) was_queued]))"

text \<open>The signal readings of the event's network information are separate arguments.\<close>

definition handle_new_channel_message ::
  "real \<Rightarrow> channel_message \<Rightarrow> real option \<Rightarrow> int option \<Rightarrow> 'cb companion \<Rightarrow> 'cb companion \<times> push_event list" where
  "handle_new_channel_message now data snr rssi cp =
     (let pkt_hash = cm_packet_hash data;
          (seen, duplicate) = (if pkt_hash = [] then (cp_seen_grp_txt cp, False)
                               else SeenCache_check_and_add now pkt_hash (cp_seen_grp_txt cp));
          cp = cp\<lparr>cp_seen_grp_txt := seen\<rparr>
      in if duplicate then (cp, [])
         else
           let channel_idx = (case find_by_name (cm_channel_name data) (cp_channels cp) of None \<Rightarrow> 0 | Some i \<Rightarrow> int i);
               msg = \<lparr>qm_sender_key = [], qm_txt_type = 0, qm_timestamp = cm_timestamp data,
                      qm_text = rstrip_nul (cm_full_content data), qm_is_channel = True, qm_channel_idx = channel_idx,
                      qm_path_len = cm_path_len data, qm_snr = opt_default 0 snr, qm_rssi = opt_default 0 rssi,
                      qm_channel_data_type = 0, qm_channel_data_payload = [], qm_sender_prefix = []\<rparr>;
               (cp, was_queued) = enqueue msg cp
           in (cp, [ChannelMessageEvent (cm_channel_name data) (cm_sender_name data) msg (Some pkt_hash) was_queued]))"

section \<open>Group data\<close>

definition check_and_track_group_packet ::
  "crypto \<Rightarrow> real \<Rightarrow> packet \<Rightarrow> 'cb companion \<Rightarrow> 'cb companion \<times> bool res" where
  "check_and_track_group_packet c now packet cp =
     (case group_packet_hash c packet of
        Inl e \<Rightarrow> (cp, Inl e)
      | Inr h \<Rightarrow>
          let (cache, seen) = check_and_add (cp_seen_group_packets cp) now h
          in (cp\<lparr>cp_seen_group_packets := cache\<rparr>, Inr seen))"

definition get_channel_candidates_by_hash :: "crypto \<Rightarrow> byte \<Rightarrow> channel_store \<Rightarrow> (int \<times> channel) list res" where
  "get_channel_candidates_by_hash c channel_hash store =
     bind_res (map_res (\<lambda>idx. bind_res (ChannelStore_get idx store) (\<lambda>ch.
         case ch of
           None \<Rightarrow> Inr []
         | Some channel \<Rightarrow> bind_res (derive_channel_hash c (ch_secret channel)) (\<lambda>h.
             Inr (if h = channel_hash then [(idx, channel)] else []))))
       (map int [0..<nat (chs_max_channels store)]))
     (\<lambda>parts. Inr (concat parts))"

fun first_opening :: "crypto \<Rightarrow> bytes \<Rightarrow> (int \<times> channel) list \<Rightarrow> (int \<times> bytes) option" where
  "first_opening c sealed [] = None"
| "first_opening c sealed ((idx, channel) # candidates) =
     (let secret = normalize_channel_secret (ch_secret channel)
      in case mac_then_decrypt c (take 16 secret) secret sealed of
           Inr plaintext \<Rightarrow> Some (idx, plaintext)
         | Inl _ \<Rightarrow> first_opening c sealed candidates)"

definition group_data_message :: "packet \<Rightarrow> int \<Rightarrow> int \<Rightarrow> bytes \<Rightarrow> queued_message" where
  "group_data_message packet idx data_type blob =
     \<lparr>qm_sender_key = [], qm_txt_type = 0, qm_timestamp = 0, qm_text = [], qm_is_channel = True, qm_channel_idx = idx,
      qm_path_len = (if get_route_type packet \<in> {ROUTE_TYPE_FLOOD, ROUTE_TYPE_TRANSPORT_FLOOD}
                     then pk_path_len packet else 0xFF),
      qm_snr = get_snr packet, qm_rssi = pk_rssi packet, qm_channel_data_type = data_type,
      qm_channel_data_payload = blob, qm_sender_prefix = []\<rparr>"

definition handle_group_data_packet ::
  "crypto \<Rightarrow> real \<Rightarrow> packet \<Rightarrow> 'cb companion \<Rightarrow> 'cb companion \<times> push_event list res" where
  "handle_group_data_packet c now packet cp =
     (let payload = get_payload packet
      in if length payload < 4 then (cp, Inr [])
         else case bind_res (calculate_packet_hash (cr_sha256 c) packet) (\<lambda>h.
                   bind_res (get_channel_candidates_by_hash c (payload ! 0) (cp_channels cp)) (\<lambda>candidates.
                   Inr (hex_upper_str h, first_opening c (drop 1 payload) candidates))) of
           Inl e \<Rightarrow> (cp, Inl e)
         | Inr (packet_hash, None) \<Rightarrow> (cp, Inr [])
         | Inr (packet_hash, Some (idx, plaintext)) \<Rightarrow>
             if length plaintext < 3 then (cp, Inr [])
             else
               let data_type = le_int (take 2 plaintext);
                   data_len = unat (plaintext ! 2)
               in if data_type = 0 \<or> length plaintext < 3 + data_len then (cp, Inr [])
                  else case check_and_track_group_packet c now packet cp of
                    (cp, Inl e) \<Rightarrow> (cp, Inl e)
                  | (cp, Inr True) \<Rightarrow> (cp, Inr [])
                  | (cp, Inr False) \<Rightarrow>
                      let msg = group_data_message packet idx data_type (take data_len (drop 3 plaintext));
                          (cp, was_queued) = enqueue msg cp
                      in (cp, Inr [ChannelDataEvent msg packet_hash was_queued]))"

section \<open>Paths and binary responses\<close>

definition on_contact_path_updated ::
  "bytes \<Rightarrow> int \<Rightarrow> bytes \<Rightarrow> 'cb companion \<Rightarrow> 'cb companion \<times> push_event list" where
  "on_contact_path_updated pub path_len path_bytes cp =
     (case get_by_key pub (cp_contacts cp) of
        None \<Rightarrow> (cp, [])
      | Some contact \<Rightarrow>
          let contact = contact\<lparr>ct_out_path_len := path_len, ct_out_path := path_bytes\<rparr>
          in (set_contacts (fst (ContactStore_update contact (cp_contacts cp))) cp, [PushContactPathUpdated contact]))"

definition register_binary_request ::
  "real \<Rightarrow> pystr \<Rightarrow> int \<Rightarrow> real \<Rightarrow> pystr \<Rightarrow> request_context \<Rightarrow> 'cb companion \<Rightarrow> 'cb companion" where
  "register_binary_request now tag_hex request_type timeout_seconds pubkey_prefix context cp =
     cp\<lparr>cp_pending_binary_requests := AList.update tag_hex
          \<lparr>br_request_type = request_type, br_pubkey_prefix = pubkey_prefix,
           br_expires_at = now + timeout_seconds, br_context = context\<rparr> (cp_pending_binary_requests cp)\<rparr>"

definition cleanup_expired_binary_requests :: "real \<Rightarrow> 'cb companion \<Rightarrow> 'cb companion" where
  "cleanup_expired_binary_requests now cp =
     cp\<lparr>cp_pending_binary_requests :=
          filter (\<lambda>(tag, info). \<not> br_expires_at info < now) (cp_pending_binary_requests cp)\<rparr>"

text \<open>Whether the companion has a protocol response handler is an argument; its waiters are those of the client state.\<close>

definition has_pending_request_tag :: "real \<Rightarrow> bool \<Rightarrow> int \<Rightarrow> bytes \<Rightarrow> 'cb companion \<Rightarrow> 'cb companion \<times> bool" where
  "has_pending_request_tag now handler tag contact_pubkey cp =
     (let cp = cleanup_expired_binary_requests now cp;
          tag = tag AND 0xFFFFFFFF
      in (cp, hex_str (le_bytes 4 tag) \<in> set (dict_keys (cp_pending_binary_requests cp))
              \<or> handler \<and> (contact_pubkey, tag) \<in> set (dict_keys (cs_response_waiters (cp_client cp)))))"

definition try_handle_path_discovery ::
  "bytes \<Rightarrow> int \<times> bytes \<times> int \<times> bytes \<times> bytes \<Rightarrow> 'cb companion \<Rightarrow> ('cb companion \<times> push_event list) option" where
  "try_handle_path_discovery tag_bytes path_info cp =
     (case path_info of (out_len_byte, out_path, in_len_byte, in_path, contact_pubkey) \<Rightarrow>
        let tag_int = le_int tag_bytes
        in if tag_int \<notin> set (cp_pending_discovery_tags cp) then None
           else Some (cp\<lparr>cp_pending_discovery_tags := removeAll tag_int (cp_pending_discovery_tags cp)\<rparr>,
                      [PathDiscoveryResponse tag_bytes contact_pubkey out_len_byte out_path in_len_byte in_path]))"

definition on_binary_response ::
  "unicode \<Rightarrow> (bytes \<Rightarrow> unit res) \<Rightarrow> real \<Rightarrow> bytes \<Rightarrow> bytes \<Rightarrow> (int \<times> bytes \<times> int \<times> bytes \<times> bytes) option
   \<Rightarrow> 'cb companion \<Rightarrow> 'cb companion \<times> push_event list" where
  "on_binary_response u lpp now tag_bytes response_data path_info cp =
     (case (case path_info of None \<Rightarrow> None | Some info \<Rightarrow> try_handle_path_discovery tag_bytes info cp) of
        Some r \<Rightarrow> r
      | None \<Rightarrow>
          let cp = cleanup_expired_binary_requests now cp;
              tag_hex = hex_str tag_bytes
          in case map_of (cp_pending_binary_requests cp) tag_hex of
               None \<Rightarrow> (cp, [BinaryResponsePush tag_bytes response_data None])
             | Some info \<Rightarrow>
                 (cp\<lparr>cp_pending_binary_requests := AList.delete tag_hex (cp_pending_binary_requests cp)\<rparr>,
                  [BinaryResponsePush tag_bytes response_data
                     (Some (parse_binary_response u lpp (br_request_type info) response_data
                              (br_pubkey_prefix info) (br_context info), br_request_type info))]))"

end
