(* ===== verification/Companion_Send.thy ===== *)
theory Companion_Send
  imports Companion_Messages
begin

text \<open>
  What the companion sends, \<open>companion/base_send.py\<close>. The transport \<open>_send_packet\<close> is a
  parameter, since the subclasses implement it; every operation returns the packets that it handed to
  the transport besides its state and result. \<open>Inl\<close> of a transport is an exception that it raised.
\<close>

section \<open>Results and shared steps\<close>

record sent_result =
  sr_success :: bool
  sr_is_flood :: bool
  sr_expected_ack :: "int option"
  sr_timeout_ms :: "int option"
  sr_error :: "string option"

definition sent_failed :: "string option \<Rightarrow> sent_result" where
  "sent_failed err = \<lparr>sr_success = False, sr_is_flood = False, sr_expected_ack = None, sr_timeout_ms = None, sr_error = err\<rparr>"

definition DEFAULT_RESPONSE_TIMEOUT_MS :: int where "DEFAULT_RESPONSE_TIMEOUT_MS = 10000"
definition MAX_GROUP_DATA_LENGTH :: nat where "MAX_GROUP_DATA_LENGTH = 165"

type_synonym transport = "packet \<Rightarrow> bool res"

text \<open>\<open>_apply_flood_scope\<close> followed by \<open>_apply_path_hash_mode\<close>.\<close>

definition finish_packet :: "crypto \<Rightarrow> unicode \<Rightarrow> 'cb companion \<Rightarrow> packet \<Rightarrow> packet res" where
  "finish_packet c u cp pkt = bind_res (Companion_apply_flood_scope c u cp pkt) (Companion_apply_path_hash_mode cp)"

definition record_send :: "bool \<Rightarrow> bool \<Rightarrow> 'cb companion \<Rightarrow> 'cb companion" where
  "record_send success is_flood cp =
     cp\<lparr>cp_stats := (if success then record_tx is_flood (cp_stats cp) else record_tx_error (cp_stats cp))\<rparr>"

section \<open>Adverts\<close>

definition advertise ::
  "crypto \<Rightarrow> unicode \<Rightarrow> real \<Rightarrow> transport \<Rightarrow> bool \<Rightarrow> 'cb companion \<Rightarrow> 'cb companion \<times> packet list \<times> bool res" where
  "advertise c u now send flood cp =
     (let np = cp_prefs cp;
          share = np_advert_loc_policy np = ADVERT_LOC_SHARE;
          flags = adv_type_to_flags (np_adv_type np) OR ADVERT_FLAG_HAS_NAME;
          flags = (if share then flags OR ADVERT_FLAG_HAS_LOCATION else flags);
          (lat, lon) = (if share then (np_latitude np, np_longitude np) else (0, 0))
      in case bind_res (create_advert c now (cp_identity cp) (np_node_name np) lat lon 0 0 flags
                          (if flood then str ''flood'' else str ''direct'')) (\<lambda>pkt.
              bind_res (apply_default_flood_scope c u cp pkt) (Companion_apply_path_hash_mode cp)) of
           Inl e \<Rightarrow> (cp, [], Inl e)
         | Inr pkt \<Rightarrow>
             (case send pkt of
                Inl e \<Rightarrow> (cp, [pkt], Inl e)
              | Inr success \<Rightarrow> (record_send success flood cp, [pkt], Inr success)))"

definition share_contact :: "transport \<Rightarrow> bytes \<Rightarrow> 'cb companion \<Rightarrow> packet list \<times> bool" where
  "share_contact send pub_key cp =
     (case get_by_key pub_key (cp_contacts cp) of
        None \<Rightarrow> ([], False)
      | Some contact \<Rightarrow>
          (case ct_last_advert_packet contact of
             None \<Rightarrow> ([], False)
           | Some blob \<Rightarrow>
               if blob = [] then ([], False)
               else case read_from blob new_packet of
                 (_, Inl _) \<Rightarrow> ([], False)
               | (_, Inr False) \<Rightarrow> ([], False)
               | (pkt, Inr True) \<Rightarrow>
                   if get_payload_type pkt \<noteq> PAYLOAD_TYPE_ADVERT then ([], False)
                   else if PUB_KEY_SIZE \<le> length (pk_payload pkt) \<and> take PUB_KEY_SIZE (pk_payload pkt) \<noteq> pub_key
                   then ([], False)
                   else
                     let pkt = pkt\<lparr>pk_header := (pk_header pkt AND NOT PH_ROUTE_MASK) OR ROUTE_TYPE_DIRECT,
                                   pk_transport_codes := (0, 0), pk_path_len := 0, pk_path := []\<rparr>
                     in ([pkt], case send pkt of Inr ok \<Rightarrow> ok | Inl _ \<Rightarrow> False)))"

section \<open>Traces and raw packets\<close>

definition send_trace_path_raw ::
  "crypto \<Rightarrow> unicode \<Rightarrow> transport \<Rightarrow> int \<Rightarrow> int \<Rightarrow> int \<Rightarrow> bytes \<Rightarrow> 'cb companion \<Rightarrow> packet list \<times> sent_result" where
  "send_trace_path_raw c u send tag auth_code flags path_bytes cp =
     (case bind_res (create_trace tag auth_code flags (Some (map uint path_bytes))) (finish_packet c u cp) of
        Inl _ \<Rightarrow> ([], sent_failed (Some ''send_failed''))
      | Inr pkt \<Rightarrow>
          ([pkt],
           case send pkt of
             Inr True \<Rightarrow>
               let hop_count = int (length path_bytes) div trace_payload_hash_width flags;
                   airtime_ms = Timing_estimate_airtime_ms (get_raw_length pkt) (np_spreading_factor (cp_prefs cp))
                                  (np_bandwidth_hz (cp_prefs cp)) (np_coding_rate (cp_prefs cp)) 8 None
               in \<lparr>sr_success = True, sr_is_flood = False, sr_expected_ack = Some tag,
                   sr_timeout_ms = Some (calc_direct_timeout_ms_for_hops airtime_ms hop_count), sr_error = None\<rparr>
           | _ \<Rightarrow> sent_failed (Some ''send_failed'')))"

definition send_trace_path ::
  "transport \<Rightarrow> bytes \<Rightarrow> int \<Rightarrow> int \<Rightarrow> int \<Rightarrow> 'cb companion \<Rightarrow> packet list \<times> bool res" where
  "send_trace_path send pub_key tag auth_code flags cp =
     (case get_by_key pub_key (cp_contacts cp) of
        None \<Rightarrow> ([], Inr False)
      | Some contact \<Rightarrow>
          (case (if ct_out_path contact \<noteq> [] then Inr (ct_out_path contact)
                 else bind_res (index_res (ct_public_key contact) 0) (\<lambda>b. Inr [b])) of
             Inl e \<Rightarrow> ([], Inl e)
           | Inr path \<Rightarrow>
               (case bind_res (create_trace tag auth_code flags (Some (map uint path))) (Companion_apply_path_hash_mode cp) of
                  Inl _ \<Rightarrow> ([], Inr False)
                | Inr pkt \<Rightarrow> ([pkt], case send pkt of Inr ok \<Rightarrow> Inr ok | Inl _ \<Rightarrow> Inr False))))"

definition send_raw_data_direct ::
  "transport \<Rightarrow> bytes \<Rightarrow> bytes \<Rightarrow> int option \<Rightarrow> 'cb companion \<Rightarrow> 'cb companion \<times> packet list \<times> bool" where
  "send_raw_data_direct send path payload path_len_encoded cp =
     (if length payload < 4 \<or> MAX_PATH_SIZE < int (length path) \<or> MAX_PACKET_PAYLOAD < int (length payload)
      then (cp, [], False)
      else case bind_res (create_raw_data payload) (with_path path path_len_encoded) of
             Inl _ \<Rightarrow> (cp, [], False)
           | Inr pkt \<Rightarrow>
               (case send pkt of
                  Inl _ \<Rightarrow> (cp, [pkt], False)
                | Inr success \<Rightarrow> (record_send success False cp, [pkt], success)))"

definition send_raw_packet :: "transport \<Rightarrow> bytes \<Rightarrow> 'cb companion \<Rightarrow> 'cb companion \<times> packet list \<times> sent_result" where
  "send_raw_packet send packet_bytes cp =
     (case read_from packet_bytes new_packet of
        (pkt, Inr True) \<Rightarrow>
          (case send pkt of
             Inr True \<Rightarrow> (record_send True False cp, [pkt], (sent_failed None)\<lparr>sr_success := True\<rparr>)
           | _ \<Rightarrow> (record_send False False cp, [pkt], sent_failed (Some ''send_failed'')))
      | _ \<Rightarrow> (cp, [], sent_failed (Some ''illegal_arg'')))"

text \<open>The random tag of the default discovery request is an argument.\<close>

definition send_control_data ::
  "transport \<Rightarrow> int \<Rightarrow> bytes option \<Rightarrow> 'cb companion \<Rightarrow> packet list \<times> bool" where
  "send_control_data send random_tag data cp =
     (let built = (case data of
                     None \<Rightarrow> create_discovery_request random_tag 0x04 0 False
                   | Some bs \<Rightarrow>
                       if bs \<noteq> [] \<and> int (length bs) \<le> MAX_PACKET_PAYLOAD \<and> uint (hd bs) AND 0x80 \<noteq> 0
                       then Inr (unchecked_packet PAYLOAD_TYPE_CONTROL bs)
                       else Inl (ValueError ''invalid payload''))
      in case bind_res built (Companion_apply_path_hash_mode cp) of
           Inl _ \<Rightarrow> ([], False)
         | Inr pkt \<Rightarrow> ([pkt], case send pkt of Inr ok \<Rightarrow> ok | Inl _ \<Rightarrow> False))"

section \<open>Messages\<close>

definition send_text_message ::
  "crypto \<Rightarrow> unicode \<Rightarrow> real \<Rightarrow> real \<Rightarrow> (bool \<Rightarrow> transport) \<Rightarrow> bytes \<Rightarrow> pystr \<Rightarrow> int \<Rightarrow> int \<Rightarrow> bool \<Rightarrow> int option
   \<Rightarrow> 'cb companion \<Rightarrow> 'cb companion \<times> packet list \<times> sent_result" where
  "send_text_message c u now tick send pub_key txt txt_type attempt wait_for_ack timestamp cp =
     (case (get_by_key pub_key (cp_contacts cp), get_proxy_by_key pub_key (cp_contacts cp)) of
        (Some contact, Some proxy) \<Rightarrow>
          let is_flood = cx_out_path_len proxy < 0;
              (last_unique, built) = create_text_message c now proxy (cp_identity cp) txt attempt
                 (if is_flood then str ''flood'' else str ''direct'') None txt_type timestamp (cp_last_unique cp);
              cp = cp\<lparr>cp_last_unique := last_unique\<rparr>
          in (case bind_res built (\<lambda>(pkt, ack_crc). bind_res (finish_packet c u cp pkt) (\<lambda>pkt. Inr (pkt, ack_crc))) of
                Inl _ \<Rightarrow> (record_send False is_flood cp, [], sent_failed None)
              | Inr (pkt, ack_crc) \<Rightarrow>
                  let is_cli = txt_type \<in> {TXT_TYPE_CLI_DATA, TXT_TYPE_CLI_COMMAND};
                      wait = wait_for_ack \<and> \<not> is_cli;
                      cp = (if is_cli then cp else track_pending_ack tick ack_crc cp)
                  in (case send wait pkt of
                        Inl _ \<Rightarrow> (record_send False is_flood cp, [pkt], sent_failed None)
                      | Inr success \<Rightarrow>
                          (record_send success is_flood cp, [pkt],
                           \<lparr>sr_success = success, sr_is_flood = is_flood,
                            sr_expected_ack = Some (if is_cli then 0 else ack_crc),
                            sr_timeout_ms = (if wait then None else Some DEFAULT_RESPONSE_TIMEOUT_MS), sr_error = None\<rparr>)))
      | _ \<Rightarrow> (cp, [], sent_failed None))"

text \<open>The transport gets the expected CRC as well when it waits; the packet determines it.\<close>

definition send_channel_message ::
  "crypto \<Rightarrow> unicode \<Rightarrow> real \<Rightarrow> real \<Rightarrow> transport \<Rightarrow> int \<Rightarrow> pystr \<Rightarrow> int option \<Rightarrow> 'cb companion
   \<Rightarrow> 'cb companion \<times> packet list \<times> bool res" where
  "send_channel_message c u now tick send channel_idx txt timestamp cp =
     (case ChannelStore_get channel_idx (cp_channels cp) of
        Inl e \<Rightarrow> (cp, [], Inl e)
      | Inr None \<Rightarrow> (cp, [], Inr False)
      | Inr (Some channel) \<Rightarrow>
          let (last_unique, built) = create_group_datagram c now (ch_name channel) txt (np_node_name (cp_prefs cp))
                 (Some (map (\<lambda>(name, secret). (name, SecretHex secret)) (get_channels (cp_channels cp)))) timestamp (cp_last_unique cp);
              cp = cp\<lparr>cp_last_unique := last_unique\<rparr>
          in (case bind_res built (finish_packet c u cp) of
                Inl _ \<Rightarrow> (record_send False True cp, [], Inr False)
              | Inr pkt \<Rightarrow>
                  (case check_and_track_group_packet c tick pkt cp of
                     (cp, Inl _) \<Rightarrow> (record_send False True cp, [], Inr False)
                   | (cp, Inr _) \<Rightarrow>
                       (case send pkt of
                          Inl _ \<Rightarrow> (record_send False True cp, [pkt], Inr False)
                        | Inr success \<Rightarrow> (record_send success True cp, [pkt], Inr success)))))"

definition channel_data_packet ::
  "crypto \<Rightarrow> unicode \<Rightarrow> channel \<Rightarrow> int \<Rightarrow> bytes \<Rightarrow> bytes option \<Rightarrow> int option \<Rightarrow> 'cb companion \<Rightarrow> packet res" where
  "channel_data_packet c u channel data_type payload path path_len_encoded cp =
     (let secret_bytes = (if length (ch_secret channel) < 32
                          then ch_secret channel @ replicate (32 - length (ch_secret channel)) 0
                          else take 32 (ch_secret channel));
          hash_input = (if take 16 (drop 16 secret_bytes) = replicate 16 0 then take 16 secret_bytes else secret_bytes)
      in bind_res (index_res (cr_sha256 c hash_input) 0) (\<lambda>channel_hash.
         bind_res (pack_u 2 (data_type AND 0xFFFF)) (\<lambda>ty.
         bind_res (pack_u 1 (int (length payload))) (\<lambda>len.
         bind_res (create_group_data_packet c PAYLOAD_TYPE_GRP_DATA (uint channel_hash) (ty @ len @ payload) secret_bytes) (\<lambda>pkt.
         bind_res (if path_len_encoded \<in> {None, Some 0xFF} then Companion_apply_flood_scope c u cp pkt
                   else with_path (opt_default [] path) path_len_encoded
                          (pkt\<lparr>pk_header := (pk_header pkt AND NOT PH_ROUTE_MASK) OR ROUTE_TYPE_DIRECT\<rparr>)) (\<lambda>pkt.
         Companion_apply_path_hash_mode cp pkt))))))"

definition send_channel_data ::
  "crypto \<Rightarrow> unicode \<Rightarrow> real \<Rightarrow> transport \<Rightarrow> int \<Rightarrow> int \<Rightarrow> bytes \<Rightarrow> bytes option \<Rightarrow> int option \<Rightarrow> 'cb companion
   \<Rightarrow> 'cb companion \<times> packet list \<times> bool res" where
  "send_channel_data c u tick send channel_idx data_type payload path path_len_encoded cp =
     (case ChannelStore_get channel_idx (cp_channels cp) of
        Inl e \<Rightarrow> (cp, [], Inl e)
      | Inr None \<Rightarrow> (cp, [], Inr False)
      | Inr (Some channel) \<Rightarrow>
          if data_type \<le> 0 \<or> 0xFFFF < data_type \<or> MAX_GROUP_DATA_LENGTH < length payload then (cp, [], Inr False)
          else
            let is_flood = path_len_encoded \<in> {None, Some 0xFF}
            in (case channel_data_packet c u channel data_type payload path path_len_encoded cp of
                  Inl _ \<Rightarrow> (record_send False is_flood cp, [], Inr False)
                | Inr pkt \<Rightarrow>
                    (case check_and_track_group_packet c tick pkt cp of
                       (cp, Inl _) \<Rightarrow> (record_send False is_flood cp, [], Inr False)
                     | (cp, Inr _) \<Rightarrow>
                         (case send pkt of
                            Inl _ \<Rightarrow> (record_send False is_flood cp, [pkt], Inr False)
                          | Inr success \<Rightarrow> (record_send success is_flood cp, [pkt], Inr success)))))"

section \<open>Requests that are answered through the binary callback\<close>

definition no_context :: request_context where
  "no_context = \<lparr>rc_anon_sub_type = None, rc_pubkey_prefix_length = 6\<rparr>"

definition drop_binary_request :: "pystr \<Rightarrow> 'cb companion \<Rightarrow> 'cb companion" where
  "drop_binary_request tag_hex cp =
     cp\<lparr>cp_pending_binary_requests := AList.delete tag_hex (cp_pending_binary_requests cp)\<rparr>"

text \<open>
  The preferences are numbers and a bandwidth of zero is replaced, so the computation does not
  raise and the fallback of five seconds in the code is never taken.
\<close>

definition response_timeout_s :: "packet \<Rightarrow> contact_proxy \<Rightarrow> 'cb companion \<Rightarrow> real" where
  "response_timeout_s pkt proxy cp =
     of_int (response_timeout_ms (get_raw_length pkt) (is_route_flood pkt) (cx_out_path_len proxy)
        (np_spreading_factor (cp_prefs cp)) (np_bandwidth_hz (cp_prefs cp)) (np_coding_rate (cp_prefs cp)) 8) / 1000"

text \<open>A tag is registered before the packet is scoped, so a failure after that withdraws it.\<close>

definition send_binary_req ::
  "crypto \<Rightarrow> unicode \<Rightarrow> real \<Rightarrow> transport \<Rightarrow> bytes \<Rightarrow> bytes \<Rightarrow> real \<Rightarrow> 'cb companion
   \<Rightarrow> 'cb companion \<times> packet list \<times> sent_result" where
  "send_binary_req c u now send pub_key data timeout_seconds cp =
     (case (get_by_key pub_key (cp_contacts cp), get_proxy_by_key pub_key (cp_contacts cp)) of
        (Some contact, Some proxy) \<Rightarrow>
          let request_type = (if 1 \<le> length data then uint (data ! 0) else 0);
              cp = cleanup_expired_binary_requests now cp;
              (last_unique, built) = create_protocol_request c now proxy (cp_identity cp) request_type (drop 1 data) None None (cp_last_unique cp);
              cp = cp\<lparr>cp_last_unique := last_unique\<rparr>
          in (case bind_res built (\<lambda>(pkt, tag). bind_res (pack_u 4 tag) (\<lambda>bs. Inr (pkt, tag, hex_str bs))) of
                Inl _ \<Rightarrow> (cp, [], sent_failed (Some ''send_failed''))
              | Inr (pkt, tag_int, tag_hex) \<Rightarrow>
                  let cp = register_binary_request now tag_hex request_type timeout_seconds (hex_str (take 6 pub_key)) no_context cp
                  in (case finish_packet c u cp pkt of
                        Inl _ \<Rightarrow> (drop_binary_request tag_hex cp, [], sent_failed (Some ''send_failed''))
                      | Inr pkt \<Rightarrow>
                          (case send pkt of
                             Inr True \<Rightarrow>
                               (cp, [pkt], \<lparr>sr_success = True, sr_is_flood = ct_out_path_len contact < 0,
                                           sr_expected_ack = Some tag_int,
                                           sr_timeout_ms = Some DEFAULT_RESPONSE_TIMEOUT_MS, sr_error = None\<rparr>)
                           | _ \<Rightarrow> (drop_binary_request tag_hex cp, [pkt], sent_failed (Some ''send_failed'')))))
      | _ \<Rightarrow> (cp, [], sent_failed (Some ''not_found'')))"

definition transient_contact :: "real \<Rightarrow> bytes \<Rightarrow> contact" where
  "transient_contact now pub_key =
     \<lparr>ct_public_key = pub_key, ct_name = [], ct_adv_type = ADV_TYPE_NONE, ct_flags = 0, ct_out_path_len = 0,
      ct_out_path = [], ct_last_advert_timestamp = 0, ct_lastmod = py_int now, ct_gps_lat = 0, ct_gps_lon = 0,
      ct_sync_since = 0, ct_last_advert_packet = None\<rparr>"

text \<open>A packet of the wrong shape raises after the tag was chosen; nothing is registered then.\<close>

definition send_anon_req ::
  "crypto \<Rightarrow> unicode \<Rightarrow> real \<Rightarrow> transport \<Rightarrow> bytes \<Rightarrow> bytes \<Rightarrow> real \<Rightarrow> 'cb companion
   \<Rightarrow> 'cb companion \<times> packet list \<times> sent_result" where
  "send_anon_req c u now send pub_key data timeout_seconds cp =
     (let (contact, cp, ok) =
            (case get_by_key pub_key (cp_contacts cp) of
               Some contact \<Rightarrow> (contact, cp, True)
             | None \<Rightarrow>
                 let contact = transient_contact now pub_key;
                     (book, added) = add_transient contact (cp_contacts cp)
                 in (contact, set_contacts book cp, added))
      in case (if ok then get_proxy_by_key pub_key (cp_contacts cp) else None) of
           None \<Rightarrow> (cp, [], sent_failed None)
         | Some proxy \<Rightarrow>
             let sub_type = (if 1 \<le> length data then Some (uint (data ! 0)) else None);
                 cp = cleanup_expired_binary_requests now cp;
                 (last_unique, built) = create_anon_request c now proxy (cp_identity cp) data None (cp_last_unique cp);
                 cp = cp\<lparr>cp_last_unique := last_unique\<rparr>
             in (case bind_res built (\<lambda>(pkt, tag). bind_res (pack_u 4 tag) (\<lambda>bs.
                       bind_res (finish_packet c u cp pkt) (\<lambda>pkt. Inr (pkt, tag, hex_str bs)))) of
                   Inl e \<Rightarrow>
                     ((case bind_res built (\<lambda>(pkt, tag). pack_u 4 tag) of
                         Inr bs \<Rightarrow> drop_binary_request (hex_str bs) cp | Inl _ \<Rightarrow> cp), [], sent_failed None)
                 | Inr (pkt, tag_int, tag_hex) \<Rightarrow>
                     let timeout_s = response_timeout_s pkt proxy cp;
                         cp = register_binary_request now tag_hex 0x07 (max timeout_seconds (timeout_s * real DEFAULT_MAX_ATTEMPTS))
                                (hex_str (take 6 pub_key)) (no_context\<lparr>rc_anon_sub_type := sub_type\<rparr>) cp
                     in (case send pkt of
                           Inr True \<Rightarrow>
                             (cp, [pkt], \<lparr>sr_success = True, sr_is_flood = ct_out_path_len contact < 0,
                                         sr_expected_ack = Some tag_int,
                                         sr_timeout_ms = Some (py_int (timeout_s * 1000)), sr_error = None\<rparr>)
                         | _ \<Rightarrow> (drop_binary_request tag_hex cp, [pkt], sent_failed None))))"

text \<open>The four random bytes of the request are an argument.\<close>

definition send_path_discovery_req ::
  "crypto \<Rightarrow> unicode \<Rightarrow> real \<Rightarrow> transport \<Rightarrow> bytes \<Rightarrow> bytes \<Rightarrow> 'cb companion
   \<Rightarrow> 'cb companion \<times> packet list \<times> sent_result" where
  "send_path_discovery_req c u now send random4 pub_key cp =
     (case (get_by_key pub_key (cp_contacts cp), get_proxy_by_key pub_key (cp_contacts cp)) of
        (Some contact, Some proxy) \<Rightarrow>
          let inv_perm = 0xFF AND NOT TELEM_PERM_BASE;
              (last_unique, built) = create_protocol_request c now proxy (cp_identity cp) REQ_TYPE_GET_TELEMETRY_DATA
                 ([word_of_int inv_perm, 0, 0, 0] @ random4) None (Some (str ''flood'')) (cp_last_unique cp);
              cp = cp\<lparr>cp_last_unique := last_unique\<rparr>
          in (case bind_res built (\<lambda>(pkt, tag). bind_res (finish_packet c u cp pkt) (\<lambda>pkt. Inr (pkt, tag))) of
                Inl _ \<Rightarrow> (cp, [], sent_failed (Some ''send_failed''))
              | Inr (pkt, tag_int) \<Rightarrow>
                  (case send pkt of
                     Inl _ \<Rightarrow> (cp, [pkt], sent_failed (Some ''send_failed''))
                   | Inr success \<Rightarrow>
                       (if success then cp\<lparr>cp_pending_discovery_tags := List.insert tag_int (cp_pending_discovery_tags cp)\<rparr> else cp,
                        [pkt],
                        \<lparr>sr_success = success, sr_is_flood = True, sr_expected_ack = Some tag_int,
                         sr_timeout_ms = Some DEFAULT_RESPONSE_TIMEOUT_MS,
                         sr_error = (if success then None else Some ''send_failed'')\<rparr>)))
      | _ \<Rightarrow> (cp, [], sent_failed (Some ''not_found'')))"

definition send_raw_data ::
  "crypto \<Rightarrow> real \<Rightarrow> transport \<Rightarrow> bytes \<Rightarrow> bytes \<Rightarrow> 'cb companion \<Rightarrow> 'cb companion \<times> packet list \<times> bool" where
  "send_raw_data c now send dest_key data cp =
     (case (get_by_key dest_key (cp_contacts cp), get_proxy_by_key dest_key (cp_contacts cp)) of
        (Some contact, Some proxy) \<Rightarrow>
          let (last_unique, built) = create_protocol_request c now proxy (cp_identity cp) 0x00 data None None (cp_last_unique cp);
              cp = cp\<lparr>cp_last_unique := last_unique\<rparr>
          in (case bind_res built (\<lambda>(pkt, _). Companion_apply_path_hash_mode cp pkt) of
                Inl _ \<Rightarrow> (cp, [], False)
              | Inr pkt \<Rightarrow> (cp, [pkt], case send pkt of Inr ok \<Rightarrow> ok | Inl _ \<Rightarrow> False))
      | _ \<Rightarrow> (cp, [], False))"

section \<open>Requests with retries\<close>

text \<open>
  A builder gets the time, the contact and the state of the unique timestamps, and returns the packet
  and its tag. The world of one attempt: the clock for timestamps, the monotonic clock, the
  transport, and the wait for an answer, during which the node keeps running; it ends with an answer
  or, as \<open>None\<close>, with a timeout.
\<close>

type_synonym request_builder = "real \<Rightarrow> contact_proxy \<Rightarrow> int \<Rightarrow> int \<times> (packet \<times> int option) res"

record ('cb, 'r) attempt_env =
  at_now :: real
  at_tick :: real
  at_send :: transport
  at_wait :: "real \<Rightarrow> 'cb companion \<Rightarrow> 'cb companion \<times> 'r option"

datatype 'r request_outcome = Answered 'r | TimedOut | SendFailed

definition take_built_packet :: "(packet \<times> int option) res \<Rightarrow> (packet \<times> int option) res" where
  "take_built_packet built =
     bind_res built (\<lambda>(pkt, tag).
     if pk_flood_scope_applied pkt \<or> pk_path_hash_mode_applied pkt
     then Inl (ValueError ''request builder returned a packet that already carries send-time decisions'')
     else Inr (pkt, tag))"

text \<open>For a retry the stored route is masked while the builder runs.\<close>

definition build_retry_packet ::
  "request_builder \<Rightarrow> real \<Rightarrow> contact_proxy \<Rightarrow> int \<Rightarrow> int \<times> (packet \<times> int option) res" where
  "build_retry_packet build now proxy last_unique =
     (let proxy = (if cx_out_path_len proxy < 0 then proxy else proxy\<lparr>cx_out_path_len := -1\<rparr>);
          (last_unique, built) = build now proxy last_unique
      in (last_unique, take_built_packet built))"

definition build_first_packet ::
  "request_builder \<Rightarrow> real \<Rightarrow> contact_proxy \<Rightarrow> int \<Rightarrow> int \<times> (packet \<times> int option) res" where
  "build_first_packet build now proxy last_unique =
     (let (last_unique, built) = build now proxy last_unique in (last_unique, take_built_packet built))"

text \<open>Build, register the tag, scope the packet and compute how long to wait: the tags registered and the packet.\<close>

definition prepare_attempt ::
  "crypto \<Rightarrow> unicode \<Rightarrow> request_builder \<Rightarrow> (int \<Rightarrow> 'cb companion \<Rightarrow> 'cb companion) option \<Rightarrow> contact_proxy \<Rightarrow> bool
   \<Rightarrow> real \<Rightarrow> 'cb companion \<Rightarrow> 'cb companion \<times> int list \<times> (packet \<times> real) res" where
  "prepare_attempt c u build register proxy retry now cp =
     (let (last_unique, built) = (if retry then build_retry_packet build now proxy (cp_last_unique cp)
                                  else build_first_packet build now proxy (cp_last_unique cp));
          cp = cp\<lparr>cp_last_unique := last_unique\<rparr>
      in case built of
           Inl e \<Rightarrow> (cp, [], Inl e)
         | Inr (pkt, tag) \<Rightarrow>
             let (cp, tags) = (case (register, tag) of (Some reg, Some t) \<Rightarrow> (reg t cp, [t]) | _ \<Rightarrow> (cp, []))
             in (cp, tags, bind_res (finish_packet c u cp pkt) (\<lambda>pkt. Inr (pkt, response_timeout_s pkt proxy cp))))"

text \<open>
  The loop over the attempts that remain, one world for each. The last argument of the caller says
  whether a transport that reports failure ends the request; \<open>_request_with_retries\<close> ignores
  it, \<open>_finish_started_request\<close> does not.
\<close>

fun request_attempts ::
  "crypto \<Rightarrow> unicode \<Rightarrow> request_builder \<Rightarrow> (int \<Rightarrow> 'cb companion \<Rightarrow> 'cb companion) option \<Rightarrow> contact_proxy \<Rightarrow> real option
   \<Rightarrow> bool \<Rightarrow> bool \<Rightarrow> ('cb, 'r) attempt_env list \<Rightarrow> 'cb companion
   \<Rightarrow> 'cb companion \<times> packet list \<times> int list \<times> 'r request_outcome res" where
  "request_attempts c u build register proxy deadline stop retry [] cp = (cp, [], [], Inr TimedOut)"
| "request_attempts c u build register proxy deadline stop retry (env # envs) cp =
     (case prepare_attempt c u build register proxy retry (at_now env) cp of
        (cp, tags, Inl e) \<Rightarrow> (cp, [], tags, Inl e)
      | (cp, tags, Inr (pkt, timeout_s)) \<Rightarrow>
          if deadline \<noteq> None \<and> the deadline - at_tick env \<le> 0 then (cp, [], tags, Inr TimedOut)
          else
            let timeout_s = (case deadline of None \<Rightarrow> timeout_s | Some d \<Rightarrow> min timeout_s (d - at_tick env))
            in (case at_send env pkt of
                  Inl e \<Rightarrow> (cp, [pkt], tags, Inl e)
                | Inr ok \<Rightarrow>
                    if stop \<and> \<not> ok then (cp, [pkt], tags, Inr SendFailed)
                    else
                      (case at_wait env timeout_s cp of
                         (cp, Some r) \<Rightarrow> (cp, [pkt], tags, Inr (Answered r))
                       | (cp, None) \<Rightarrow>
                           (case request_attempts c u build register proxy deadline stop True envs cp of
                              (cp, pkts, tags', outcome) \<Rightarrow> (cp, pkt # pkts, tags @ tags', outcome)))))"

definition request_with_retries ::
  "crypto \<Rightarrow> unicode \<Rightarrow> request_builder \<Rightarrow> (int \<Rightarrow> 'cb companion \<Rightarrow> 'cb companion) option \<Rightarrow> contact_proxy
   \<Rightarrow> real option \<Rightarrow> real \<Rightarrow> ('cb, 'r) attempt_env list \<Rightarrow> 'cb companion
   \<Rightarrow> 'cb companion \<times> packet list \<times> int list \<times> 'r request_outcome res" where
  "request_with_retries c u build register proxy total_timeout_s tick envs cp =
     request_attempts c u build register proxy
       (case total_timeout_s of Some t \<Rightarrow> if t = 0 then None else Some (tick + t) | None \<Rightarrow> None)
       False False (take DEFAULT_MAX_ATTEMPTS envs) cp"

definition protocol_builder :: "crypto \<Rightarrow> local_identity \<Rightarrow> int \<Rightarrow> bytes \<Rightarrow> request_builder" where
  "protocol_builder c identity protocol_code data now proxy last_unique =
     (let (last_unique, built) = create_protocol_request c now proxy identity protocol_code data None None last_unique
      in (last_unique, bind_res built (\<lambda>(pkt, tag). Inr (pkt, Some tag))))"

definition clear_response_tags :: "bytes \<Rightarrow> int list \<Rightarrow> 'cb companion \<Rightarrow> 'cb companion" where
  "clear_response_tags pub_key tags cp = cp\<lparr>cp_client := fold (clear_response_callback pub_key) tags (cp_client cp)\<rparr>"

definition register_response_tag :: "bytes \<Rightarrow> 'cb \<Rightarrow> int \<Rightarrow> 'cb companion \<Rightarrow> 'cb companion" where
  "register_response_tag pub_key waiter tag cp = cp\<lparr>cp_client := set_response_callback pub_key tag waiter (cp_client cp)\<rparr>"

definition send_protocol_request ::
  "crypto \<Rightarrow> unicode \<Rightarrow> bool \<Rightarrow> bytes \<Rightarrow> int \<Rightarrow> bytes \<Rightarrow> 'cb \<Rightarrow> ('cb, 'r) attempt_env list \<Rightarrow> 'cb companion
   \<Rightarrow> 'cb companion \<times> packet list \<times> int list \<times> 'r request_outcome res" where
  "send_protocol_request c u handler pub_key protocol_code data waiter envs cp =
     (case (get_by_key pub_key (cp_contacts cp), get_proxy_by_key pub_key (cp_contacts cp)) of
        (Some contact, Some proxy) \<Rightarrow>
          if \<not> handler then (cp, [], [], Inr SendFailed)
          else
            (case request_with_retries c u (protocol_builder c (cp_identity cp) protocol_code data)
                    (Some (register_response_tag pub_key waiter)) proxy None 0 envs cp of
               (cp, pkts, tags, outcome) \<Rightarrow> (clear_response_tags pub_key tags cp, pkts, tags, outcome))
      | _ \<Rightarrow> (cp, [], [], Inr SendFailed))"

section \<open>Requests that a background task finishes\<close>

text \<open>
  \<open>_start_request\<close> sends the first packet and leaves the rest to a task that runs
  \<open>_finish_started_request\<close>. The result has the reply to the caller and, when the task was started,
  its outcome; the cleanup runs when the request ends in whatever way. An exception in the task is an
  outcome that the task returns, too.
\<close>

definition finish_started_request ::
  "crypto \<Rightarrow> unicode \<Rightarrow> request_builder \<Rightarrow> (int \<Rightarrow> 'cb companion \<Rightarrow> 'cb companion) option \<Rightarrow> contact_proxy \<Rightarrow> real option
   \<Rightarrow> real \<Rightarrow> (int list \<Rightarrow> 'cb companion \<Rightarrow> 'cb companion) \<Rightarrow> int list \<Rightarrow> ('cb, 'r) attempt_env \<Rightarrow> ('cb, 'r) attempt_env list
   \<Rightarrow> 'cb companion \<Rightarrow> 'cb companion \<times> packet list \<times> 'r request_outcome res" where
  "finish_started_request c u build register proxy deadline first_timeout_s cleanup tags env envs cp =
     (case at_wait env first_timeout_s cp of
        (cp, Some r) \<Rightarrow> (cleanup tags cp, [], Inr (Answered r))
      | (cp, None) \<Rightarrow>
          (case request_attempts c u build register proxy deadline True True (take (DEFAULT_MAX_ATTEMPTS - 1) envs) cp of
             (cp, pkts, tags', outcome) \<Rightarrow> (cleanup (tags @ tags') cp, pkts, outcome)))"

definition start_request ::
  "crypto \<Rightarrow> unicode \<Rightarrow> request_builder \<Rightarrow> (int \<Rightarrow> 'cb companion \<Rightarrow> 'cb companion) option \<Rightarrow> contact_proxy \<Rightarrow> real option
   \<Rightarrow> int option \<Rightarrow> (int list \<Rightarrow> 'cb companion \<Rightarrow> 'cb companion) \<Rightarrow> real \<Rightarrow> ('cb, 'r) attempt_env \<Rightarrow> ('cb, 'r) attempt_env list
   \<Rightarrow> 'cb companion \<Rightarrow> 'cb companion \<times> packet list \<times> sent_result \<times> 'r request_outcome res option" where
  "start_request c u build register proxy total_timeout_s sent_tag cleanup tick env envs cp =
     (let deadline = map_option (\<lambda>t. tick + t) total_timeout_s
      in case prepare_attempt c u build register proxy False (at_now env) cp of
           (cp, tags, Inl _) \<Rightarrow> (cleanup tags cp, [], sent_failed (Some ''send_failed''), None)
         | (cp, tags, Inr (pkt, estimated_timeout_s)) \<Rightarrow>
             let wait_timeout_s = (case deadline of
                     None \<Rightarrow> estimated_timeout_s
                   | Some d \<Rightarrow> if 0 < d - at_tick env then min estimated_timeout_s (d - at_tick env) else estimated_timeout_s)
             in (case at_send env pkt of
                   Inr True \<Rightarrow>
                     let tag = (case sent_tag of Some t \<Rightarrow> Some t | None \<Rightarrow> (case tags of [] \<Rightarrow> None | t # _ \<Rightarrow> Some t));
                         sent = \<lparr>sr_success = True, sr_is_flood = is_route_flood pkt, sr_expected_ack = tag,
                                 sr_timeout_ms = Some (py_int (estimated_timeout_s * 1000)), sr_error = None\<rparr>
                     in (case finish_started_request c u build register proxy deadline wait_timeout_s cleanup tags env envs cp of
                           (cp, pkts, outcome) \<Rightarrow> (cp, pkt # pkts, sent, Some outcome))
                 | _ \<Rightarrow> (cleanup tags cp, [pkt], sent_failed (Some ''send_failed''), None)))"

definition start_protocol_request ::
  "crypto \<Rightarrow> unicode \<Rightarrow> bool \<Rightarrow> bytes \<Rightarrow> int \<Rightarrow> bytes \<Rightarrow> real \<Rightarrow> 'cb \<Rightarrow> real \<Rightarrow> ('cb, 'r) attempt_env
   \<Rightarrow> ('cb, 'r) attempt_env list \<Rightarrow> 'cb companion \<Rightarrow> 'cb companion \<times> packet list \<times> sent_result \<times> 'r request_outcome res option" where
  "start_protocol_request c u handler pub_key protocol_code data timeout waiter tick env envs cp =
     (case (get_by_key pub_key (cp_contacts cp), get_proxy_by_key pub_key (cp_contacts cp)) of
        (Some contact, Some proxy) \<Rightarrow>
          if \<not> handler then (cp, [], sent_failed (Some ''bad_state''), None)
          else start_request c u (protocol_builder c (cp_identity cp) protocol_code data)
                 (Some (register_response_tag pub_key waiter)) proxy (Some timeout) None (clear_response_tags pub_key) tick env envs cp
      | _ \<Rightarrow> (cp, [], sent_failed (Some ''not_found''), None))"

definition start_status_request ::
  "crypto \<Rightarrow> unicode \<Rightarrow> bool \<Rightarrow> bytes \<Rightarrow> real \<Rightarrow> 'cb \<Rightarrow> real \<Rightarrow> ('cb, 'r) attempt_env
   \<Rightarrow> ('cb, 'r) attempt_env list \<Rightarrow> 'cb companion \<Rightarrow> 'cb companion \<times> packet list \<times> sent_result \<times> 'r request_outcome res option" where
  "start_status_request c u handler pub_key timeout =
     start_protocol_request c u handler pub_key REQ_TYPE_GET_STATUS [] timeout"

definition start_telemetry_request ::
  "crypto \<Rightarrow> unicode \<Rightarrow> bool \<Rightarrow> bytes \<Rightarrow> bool \<Rightarrow> bool \<Rightarrow> bool \<Rightarrow> real \<Rightarrow> 'cb \<Rightarrow> real \<Rightarrow> ('cb, 'r) attempt_env
   \<Rightarrow> ('cb, 'r) attempt_env list \<Rightarrow> 'cb companion \<Rightarrow> 'cb companion \<times> packet list \<times> sent_result \<times> 'r request_outcome res option" where
  "start_telemetry_request c u handler pub_key want_base want_location want_environment timeout =
     start_protocol_request c u handler pub_key REQ_TYPE_GET_TELEMETRY_DATA
       [word_of_int (compute_inverse_perm_mask want_base want_location want_environment)] timeout"

definition login_builder :: "crypto \<Rightarrow> local_identity \<Rightarrow> pystr \<Rightarrow> request_builder" where
  "login_builder c identity password now proxy last_unique =
     (let (last_unique, built) = create_login_packet c now proxy identity password last_unique
      in (last_unique, bind_res built (\<lambda>pkt. Inr (pkt, None))))"

text \<open>
  A login answers with the result that its callback got; the hash of the contact is the first byte of
  its key, and taking it from an empty key raises.
\<close>

definition start_login_request ::
  "crypto \<Rightarrow> unicode \<Rightarrow> bool \<Rightarrow> bytes \<Rightarrow> pystr \<Rightarrow> 'cb \<Rightarrow> real \<Rightarrow> ('cb, 'r) attempt_env
   \<Rightarrow> ('cb, 'r) attempt_env list \<Rightarrow> 'cb companion
   \<Rightarrow> 'cb companion \<times> packet list \<times> (sent_result \<times> 'r request_outcome res option) res" where
  "start_login_request c u handler pub_key password waiter tick env envs cp =
     (case (get_by_key pub_key (cp_contacts cp), get_proxy_by_key pub_key (cp_contacts cp)) of
        (Some contact, Some proxy) \<Rightarrow>
          if \<not> handler then (cp, [], Inr (sent_failed (Some ''bad_state''), None))
          else
            (case fromhex (cx_public_key proxy) of
               Inl e \<Rightarrow> (cp, [], Inl e)
             | Inr [] \<Rightarrow> (cp, [], Inl IndexError)
             | Inr (dest_hash # rest) \<Rightarrow>
                 let key = dest_hash # rest;
                     cp = cp\<lparr>cp_client := register_login_callback key waiter (store_login_password dest_hash password (cp_client cp))\<rparr>;
                     cleanup = (\<lambda>_ cp. cp\<lparr>cp_client := clear_login_password dest_hash (remove_login_callback key waiter (cp_client cp))\<rparr>)
                 in (case start_request c u (login_builder c (cp_identity cp) password) None proxy None
                            (Some (le_int (take 4 key))) cleanup tick env envs cp of
                       (cp, pkts, sent, outcome) \<Rightarrow> (cp, pkts, Inr (sent, outcome))))
      | _ \<Rightarrow> (cp, [], Inr (sent_failed (Some ''not_found''), None)))"

text \<open>
  \<open>send_logout\<close> hands the stored contact, whose key is a byte string, to a builder that reads the key
  with \<open>bytes.fromhex\<close>. That raises \<open>TypeError\<close> after the timestamp was drawn, and the error is caught.
\<close>

definition send_logout :: "real \<Rightarrow> bytes \<Rightarrow> 'cb companion \<Rightarrow> 'cb companion \<times> packet list \<times> bool" where
  "send_logout now pub_key cp =
     (case get_by_key pub_key (cp_contacts cp) of
        None \<Rightarrow> (cp, [], False)
      | Some contact \<Rightarrow> (cp\<lparr>cp_last_unique := fst (get_timestamp now (cp_last_unique cp))\<rparr>, [], False))"

section \<open>What the retries send\<close>

lemma flood_header: "PacketBuilder_create_header PAYLOAD_TYPE_REQ (str ''flood'') False mod 4 = 1"
  by code_simp

lemma scope_keeps_flood:
  assumes "Companion_apply_flood_scope c u cp p = Inr q" and "is_route_flood p"
  shows "is_route_flood q"
proof (cases "p = q \<or> q = p\<lparr>pk_flood_scope_applied := True\<rparr>")
  case True
  with assms(2) show ?thesis by (auto simp: route_arith)
next
  case False
  with assms(1) obtain key where "scope_packet c key (p\<lparr>pk_flood_scope_applied := True\<rparr>) = Inr q"
    by (auto simp: Companion_apply_flood_scope_def Let_def split: if_splits option.splits)
  from scope_packet_route(1) [OF this] show ?thesis by (simp add: is_route_flood_def)
qed

lemma finish_keeps_flood:
  assumes "finish_packet c u cp p = Inr q" and "is_route_flood p"
  shows "is_route_flood q"
proof -
  from assms(1) obtain r where r: "Companion_apply_flood_scope c u cp p = Inr r" "apply_path_hash_mode (np_path_hash_mode (cp_prefs cp)) True r = Inr q"
    by (auto simp: finish_packet_def Companion_apply_path_hash_mode_def res_simps)
  have "pk_header q = pk_header r" using r(2) by (auto elim: apply_path_hash_mode_cases)
  with scope_keeps_flood [OF r(1) assms(2)] show ?thesis by (simp add: route_arith)
qed

lemma protocol_builder_flood:
  assumes "protocol_builder c li code data now proxy lu = (lu', Inr (pkt, tag))" and "cx_out_path_len proxy < 0"
  shows "is_route_flood pkt"
proof -
  have "str ''flood'' \<noteq> str ''direct''" by code_simp
  with assms obtain payload where "create_packet (PacketBuilder_create_header PAYLOAD_TYPE_REQ (str ''flood'') False) payload = Inr pkt"
    by (auto simp: protocol_builder_def create_protocol_request_def protocol_request_packet_def Let_def res_simps
        split: prod.splits)
  then have "pk_header pkt = PacketBuilder_create_header PAYLOAD_TYPE_REQ (str ''flood'') False"
    by (auto simp: create_packet_def res_simps)
  then show ?thesis by (simp add: route_arith flood_header)
qed

lemma protocol_builder_tag:
  assumes "protocol_builder c li code data now proxy lu = (lu', r)"
  shows "lu < lu'" and "r = Inr (pkt, tag) \<Longrightarrow> tag = Some lu'"
  using assms by (auto simp: protocol_builder_def create_protocol_request_def timestamp_or_fresh_def get_timestamp_def
      Let_def res_simps split: if_splits)

lemma prepare_attempt_protocol:
  fixes cp :: "'cb companion"
  assumes "prepare_attempt c u (protocol_builder c li code data) (Some (register_response_tag key w)) proxy retry now cp = (cp', tags, r)"
  shows "cp_last_unique cp < cp_last_unique cp'"
    and "tags = [] \<and> (\<exists>e. r = Inl e) \<or> tags = [cp_last_unique cp']"
    and "r = Inr (pkt, t) \<Longrightarrow> retry \<Longrightarrow> is_route_flood pkt"
proof -
  define proxy' where "proxy' = (if retry \<and> \<not> cx_out_path_len proxy < 0 then proxy\<lparr>cx_out_path_len := -1\<rparr> else proxy)"
  obtain lu b where b: "protocol_builder c li code data now proxy' (cp_last_unique cp) = (lu, b)" by fastforce
  have built: "(if retry then build_retry_packet (protocol_builder c li code data) now proxy (cp_last_unique cp)
      else build_first_packet (protocol_builder c li code data) now proxy (cp_last_unique cp)) = (lu, take_built_packet b)"
    using b by (auto simp: build_retry_packet_def build_first_packet_def proxy'_def Let_def split: if_splits)
  note tag = protocol_builder_tag [OF b]
  have eq: "(cp', tags, r) = (case take_built_packet b of
       Inl e \<Rightarrow> (cp\<lparr>cp_last_unique := lu\<rparr>, [], Inl e)
     | Inr (pkt, tag) \<Rightarrow>
         let (cp, tags) = (case tag of Some t \<Rightarrow> (register_response_tag key w t (cp\<lparr>cp_last_unique := lu\<rparr>), [t])
                                     | None \<Rightarrow> (cp\<lparr>cp_last_unique := lu\<rparr>, []))
         in (cp, tags, bind_res (finish_packet c u cp pkt) (\<lambda>pkt. Inr (pkt, response_timeout_s pkt proxy cp))))"
    using assms unfolding prepare_attempt_def built by (auto simp: Let_def split: sum.splits option.splits)
  show "cp_last_unique cp < cp_last_unique cp'"
    using eq tag(1) by (auto simp: register_response_tag_def Let_def split: sum.splits option.splits prod.splits)
  show "tags = [] \<and> (\<exists>e. r = Inl e) \<or> tags = [cp_last_unique cp']"
    using eq tag(2) by (auto simp: register_response_tag_def Let_def take_built_packet_def res_simps
        split: sum.splits option.splits prod.splits if_splits)
  assume r: "r = Inr (pkt, t)" and retry
  then have neg: "cx_out_path_len proxy' < 0" by (simp add: proxy'_def)
  from eq [symmetric] r obtain p tg and cp0 :: "'cb companion" where "b = Inr (p, tg)" "finish_packet c u cp0 p = Inr pkt"
    by (auto simp: Let_def take_built_packet_def res_simps split: sum.splits option.splits prod.splits if_splits)
  with finish_keeps_flood protocol_builder_flood [OF _ neg] b show "is_route_flood pkt" by blast
qed

definition waits_keep_order :: "('cb, 'r) attempt_env list \<Rightarrow> bool" where
  "waits_keep_order envs \<longleftrightarrow> (\<forall>env \<in> set envs. \<forall>t cp. cp_last_unique cp \<le> cp_last_unique (fst (at_wait env t cp)))"

lemma request_attempts_protocol:
  assumes "request_attempts c u (protocol_builder c li code data) (Some (register_response_tag key w)) proxy deadline stop retry envs cp
      = (cp', pkts, tags, outcome)"
    and "waits_keep_order envs"
  shows "length pkts \<le> length tags \<and> length tags \<le> length envs \<and> sorted_wrt (<) tags \<and> list_all (\<lambda>t. cp_last_unique cp < t) tags
    \<and> list_all is_route_flood (if retry then pkts else drop 1 pkts)"
  using assms
proof (induction envs arbitrary: retry cp cp' pkts tags outcome)
  case (Cons env envs)
  let ?b = "protocol_builder c li code data" and ?reg = "Some (register_response_tag key w)"
  obtain cp1 tags1 r where p: "prepare_attempt c u ?b ?reg proxy retry (at_now env) cp = (cp1, tags1, r)" by (rule prod_cases3)
  note prep = prepare_attempt_protocol [OF p]
  have t1: "length tags1 \<le> 1" "sorted_wrt (<) tags1" "list_all (\<lambda>t. cp_last_unique cp < t) tags1" using prep(1,2) by auto
  show ?case
  proof (cases "\<exists>pkt t. r = Inr (pkt, t) \<and> pkts \<noteq> []")
    case False
    with Cons.prems(1) p t1 show ?thesis by (auto split: sum.splits if_splits prod.splits option.splits)
  next
    case True
    then obtain pkt t where r: "r = Inr (pkt, t)" "pkts \<noteq> []" by blast
    have tags1: "tags1 = [cp_last_unique cp1]" using prep(2) r by auto
    have fl: "retry \<Longrightarrow> is_route_flood pkt" using prep(3) r by blast
    show ?thesis
    proof (cases "pkts = [pkt] \<and> tags = tags1")
      case True
      with tags1 t1 fl show ?thesis by simp
    next
      case False
      then obtain to_s cp2 pkts' tags' where w: "at_wait env to_s cp1 = (cp2, None)"
        and rec: "request_attempts c u ?b ?reg proxy deadline stop True envs cp2 = (cp', pkts', tags', outcome)"
        and res: "pkts = pkt # pkts'" "tags = tags1 @ tags'"
        using Cons.prems(1) p r by (auto simp: Let_def split: sum.splits if_splits prod.splits option.splits)
      have wo: "waits_keep_order envs" "cp_last_unique cp1 \<le> cp_last_unique (fst (at_wait env to_s cp1))"
        using Cons.prems(2) by (simp_all add: waits_keep_order_def)
      from Cons.IH [OF rec wo(1)] have ih: "length pkts' \<le> length tags'" "length tags' \<le> length envs" "sorted_wrt (<) tags'"
        "list_all (\<lambda>t. cp_last_unique cp2 < t) tags'" "list_all is_route_flood pkts'" by simp_all
      have "list_all (\<lambda>t. cp_last_unique cp1 < t) tags'" using ih(4) wo(2) w by (auto simp: list_all_iff)
      then show ?thesis using ih res tags1 prep(1) fl by (auto simp: list_all_iff)
    qed
  qed
qed simp

lemma clear_tags_waiters:
  "set (dict_keys (cs_response_waiters (fold (clear_response_callback key) tags st)))
     = set (dict_keys (cs_response_waiters st)) - (\<lambda>t. (key, t AND 0xFFFFFFFF)) ` set tags"
proof (induction tags arbitrary: st)
  case (Cons t tags)
  then show ?case by (auto simp: clear_response_callback_def AList.delete_eq)
qed simp

text \<open>
  C17: A request that waits for its answer sends at most three packets. Each has a tag of its own,
  later than those of the packets before it; every packet after the first is a flood, whatever route
  the contact has; and when the request ends, answered, timed out or with an error, no waiter is left
  under any of the tags it used. The node may do anything while it waits, except turn the clock of
  unique timestamps back.
\<close>

theorem retries_flood_and_clean_up:
  assumes "send_protocol_request c u handler key code data w envs cp = (cp', pkts, tags, outcome)"
    and "waits_keep_order envs"
  shows "length pkts \<le> length tags \<and> length tags \<le> 3 \<and> sorted_wrt (<) tags \<and> list_all is_route_flood (drop 1 pkts)
    \<and> (\<lambda>t. (key, t AND 0xFFFFFFFF)) ` set tags \<inter> set (dict_keys (cs_response_waiters (cp_client cp'))) = {}"
proof (cases "pkts = [] \<and> tags = []")
  case False
  then obtain proxy cp1 where run: "request_attempts c u (protocol_builder c (cp_identity cp) code data)
        (Some (register_response_tag key w)) proxy None False False (take 3 envs) cp = (cp1, pkts, tags, outcome)"
    and cp': "cp' = clear_response_tags key tags cp1"
    using assms(1) by (auto simp: send_protocol_request_def request_with_retries_def DEFAULT_MAX_ATTEMPTS_def
        split: option.splits if_splits prod.splits)
  have "waits_keep_order (take 3 envs)" using assms(2) by (auto simp: waits_keep_order_def dest: in_set_takeD)
  moreover have "(\<lambda>t. (key, t AND 0xFFFFFFFF)) ` set tags \<inter> set (dict_keys (cs_response_waiters (cp_client cp'))) = {}"
  proof -
    have "cs_response_waiters (cp_client cp') = cs_response_waiters (fold (clear_response_callback key) tags (cp_client cp1))"
      by (simp add: cp' clear_response_tags_def)
    then show ?thesis unfolding clear_tags_waiters by (metis Diff_disjoint clear_tags_waiters)
  qed
  ultimately show ?thesis using request_attempts_protocol [OF run] by simp
qed simp

definition toy_silence :: "(unit, unit) attempt_env" where
  "toy_silence = \<lparr>at_now = 5, at_tick = 1, at_send = (\<lambda>_. Inr True), at_wait = (\<lambda>_ cp. (cp, None))\<rparr>"

definition toy_requester :: "unit companion" where
  "toy_requester = init_companion_stores (toy_node 1) [] 1 10 4 5 None
     (Some [toy_favourite\<lparr>ct_public_key := get_public_key (toy_node 2)\<rparr>]) None 0"

theorem retries_flood_and_clean_up_witness:
  "case send_protocol_request toy_crypto toy_unicode True (get_public_key (toy_node 2)) 1 [] () (replicate 5 toy_silence) toy_requester of
     (cp', pkts, tags, outcome) \<Rightarrow> length pkts = 3 \<and> tags = [5, 6, 7] \<and> list_all is_route_flood (drop 1 pkts) \<and> \<not> is_route_flood (hd pkts)"
proof -
  obtain cp' pkts tags outcome where r: "send_protocol_request toy_crypto toy_unicode True (get_public_key (toy_node 2)) 1 [] ()
      (replicate 5 toy_silence) toy_requester = (cp', pkts, tags, outcome)" by (metis surj_pair)
  have e: "(case send_protocol_request toy_crypto toy_unicode True (get_public_key (toy_node 2)) 1 [] ()
      (replicate 5 toy_silence) toy_requester of (cp', pkts, tags, outcome) \<Rightarrow>
        length pkts = 3 \<and> tags = [5, 6, 7] \<and> \<not> is_route_flood (hd pkts))" by code_simp
  have "waits_keep_order (replicate 5 toy_silence)" by (auto simp: waits_keep_order_def toy_silence_def)
  from retries_flood_and_clean_up [OF r this] e show ?thesis unfolding r by simp
qed

section \<open>Group data from one companion to another\<close>

definition channel_hash_of :: "crypto \<Rightarrow> channel \<Rightarrow> byte" where
  "channel_hash_of c ch = hd (cr_sha256 c (channel_hash_input (ch_secret ch)))"

lemma derive_hash_total: "crypto_laws c \<Longrightarrow> derive_channel_hash c (ch_secret ch) = Inr (channel_hash_of c ch)"
  by (cases "cr_sha256 c (channel_hash_input (ch_secret ch))")
    (auto simp: derive_channel_hash_def channel_hash_of_def crypto_laws_def dest: spec [of _ "channel_hash_input (ch_secret ch)"])

lemma map_res_Inr: "(\<And>x. x \<in> set xs \<Longrightarrow> f x = Inr (g x)) \<Longrightarrow> map_res f xs = Inr (map g xs)"
  by (induction xs) (auto simp: res_simps)

lemma candidates_eq:
  assumes "crypto_laws c" and "channel_store_ok st"
  shows "get_channel_candidates_by_hash c h st = Inr (concat (map
      (\<lambda>i. case chs_channels st ! nat i of None \<Rightarrow> [] | Some ch \<Rightarrow> if channel_hash_of c ch = h then [(i, ch)] else [])
      (map int [0..<nat (chs_max_channels st)])))"
proof -
  let ?g = "\<lambda>i. case chs_channels st ! nat i of None \<Rightarrow> [] | Some ch \<Rightarrow> if channel_hash_of c ch = h then [(i, ch)] else []"
  let ?f = "\<lambda>idx. bind_res (ChannelStore_get idx st) (\<lambda>ch. case ch of None \<Rightarrow> Inr []
      | Some channel \<Rightarrow> bind_res (derive_channel_hash c (ch_secret channel)) (\<lambda>hh. Inr (if hh = h then [(idx, channel)] else [])))"
  have "?f i = Inr (?g i)" if "i \<in> set (map int [0..<nat (chs_max_channels st)])" for i
    using that assms(2)
    by (auto simp: ChannelStore_get_def channel_store_ok_def index_res_nth derive_hash_total [OF assms(1)] split: option.split)
  then have "map_res ?f (map int [0..<nat (chs_max_channels st)]) = Inr (map ?g (map int [0..<nat (chs_max_channels st)]))"
    by (rule map_res_Inr)
  then show ?thesis by (simp add: get_channel_candidates_by_hash_def)
qed

lemma candidates_first:
  assumes "crypto_laws c" and "channel_store_ok st" and "i < length (chs_channels st)" and "chs_channels st ! i = Some ch"
    and "\<forall>j < i. \<forall>ch'. chs_channels st ! j = Some ch' \<longrightarrow> channel_hash_of c ch' \<noteq> channel_hash_of c ch"
  shows "\<exists>rest. get_channel_candidates_by_hash c (channel_hash_of c ch) st = Inr ((int i, ch) # rest)"
proof -
  let ?h = "channel_hash_of c ch"
  let ?g = "\<lambda>k. case chs_channels st ! nat k of None \<Rightarrow> [] | Some ch' \<Rightarrow> if channel_hash_of c ch' = ?h then [(k, ch')] else []"
  have n: "i < nat (chs_max_channels st)" using assms(2,3) by (simp add: channel_store_ok_def)
  then have up: "[0..<nat (chs_max_channels st)] = [0..<i] @ i # [Suc i..<nat (chs_max_channels st)]"
    using upt_add_eq_append [of 0 i "nat (chs_max_channels st) - i"] upt_conv_Cons [of i "nat (chs_max_channels st)"] by simp
  have none: "concat (map ?g (map int [0..<i])) = []" using assms(5) by (auto split: option.split)
  show ?thesis
    unfolding candidates_eq [OF assms(1,2)] up map_append concat_append none using assms(4) by simp
qed

lemma scope_keeps_payload:
  assumes "Companion_apply_flood_scope c u cp p = Inr q"
  shows "get_payload q = get_payload p" and "get_payload_type q = get_payload_type p"
proof -
  have "(\<exists>key. scope_packet c key (p\<lparr>pk_flood_scope_applied := True\<rparr>) = Inr q) \<or> q = p \<or> q = p\<lparr>pk_flood_scope_applied := True\<rparr>"
    using assms by (auto simp: Companion_apply_flood_scope_def Let_def split: if_splits option.splits)
  then show "get_payload q = get_payload p" "get_payload_type q = get_payload_type p"
    using scope_packet_route(3,5) [of c _ "p\<lparr>pk_flood_scope_applied := True\<rparr>" q]
    by (auto simp: get_payload_def get_payload_type_def)
qed

lemma channel_data_packet_opens:
  assumes "crypto_laws c" and "0 < ty" and "ty < 2 ^ 16" and "length payload \<le> 165"
    and "channel_data_packet c u ch ty payload None None cp = Inr pkt"
  obtains sealed plain where "get_payload pkt = channel_hash_of c ch # sealed" and "get_payload_type pkt = PAYLOAD_TYPE_GRP_DATA"
    and "3 \<le> length sealed"
    and "mac_then_decrypt c (take 16 (normalize_channel_secret (ch_secret ch))) (normalize_channel_secret (ch_secret ch)) sealed = Inr plain"
    and "take 2 plain = le_bytes 2 ty" and "plain ! 2 = word_of_int (int (length payload))"
    and "take (length payload) (drop 3 plain) = payload" and "3 + length payload \<le> length plain"
proof -
  let ?s = "normalize_channel_secret (ch_secret ch)"
  let ?pt = "le_bytes 2 ty @ [word_of_int (int (length payload))] @ payload"
  have and16: "ty AND 0xFFFF = ty" using and_low_bits [of ty 16] assms(2,3) by simp
  have pk: "pack_u 2 (ty AND 0xFFFF) = Inr (le_bytes 2 ty)" "pack_u 1 (int (length payload)) = Inr [word_of_int (int (length payload))]"
    using assms(2-4) by (simp_all add: and16 pack_u_def)
  have hd: "index_res (cr_sha256 c (channel_hash_input (ch_secret ch))) 0 = Inr (channel_hash_of c ch)"
    using derive_hash_total [OF assms(1), of ch] by (simp add: derive_channel_hash_def)
  have l: "length (take 16 ?s) = 16" by (simp add: length_normalize)
  obtain sealed where sealed: "encrypt_then_mac c (take 16 ?s) ?s ?pt = Inr sealed"
    "length sealed = 2 + length ?pt + block_pad (length ?pt)"
    "mac_then_decrypt c (take 16 ?s) ?s sealed = Inr (?pt @ replicate (block_pad (length ?pt)) 0)"
    using encrypt_decrypt_roundtrip [OF assms(1) disjI1 [OF l], of ?s ?pt] by auto
  from assms(5) have "bind_res (create_group_data_packet c PAYLOAD_TYPE_GRP_DATA (uint (channel_hash_of c ch)) ?pt ?s) (\<lambda>p.
      bind_res (Companion_apply_flood_scope c u cp p) (Companion_apply_path_hash_mode cp)) = Inr pkt"
    using pk hd by (simp add: channel_data_packet_def Let_def normalize_channel_secret_def [symmetric] channel_hash_input_def
        del: le_bytes.simps)
  then obtain p q where p: "create_packet (PacketBuilder_create_header PAYLOAD_TYPE_GRP_DATA (str ''flood'') False) (channel_hash_of c ch # sealed) = Inr p"
    and q: "Companion_apply_flood_scope c u cp p = Inr q" "apply_path_hash_mode (np_path_hash_mode (cp_prefs cp)) True q = Inr pkt"
    using sealed(1) by (auto simp: create_group_data_packet_def res_simps Let_def Companion_apply_path_hash_mode_def payload_type_defs)
  show thesis
  proof (rule that)
    have "pk_payload pkt = pk_payload q" "pk_payload_len pkt = pk_payload_len q" "get_payload_type pkt = get_payload_type q"
      using q(2) by (auto elim: apply_path_hash_mode_cases simp: get_payload_type_def)
    moreover have "get_payload p = channel_hash_of c ch # sealed" "get_payload_type p = PAYLOAD_TYPE_GRP_DATA"
      using create_packet_sendable [OF _ _ p] by (simp_all add: get_payload_def payload_type_defs)
    ultimately show "get_payload pkt = channel_hash_of c ch # sealed" "get_payload_type pkt = PAYLOAD_TYPE_GRP_DATA"
      using scope_keeps_payload [OF q(1)] by (simp_all add: get_payload_def)
    show "mac_then_decrypt c (take 16 ?s) ?s sealed = Inr (?pt @ replicate (block_pad (length ?pt)) 0)" by (rule sealed(3))
  qed (use sealed(2) in \<open>simp_all add: nth_append del: le_bytes.simps\<close>)
qed

text \<open>
  A received group data packet, up to the cache of seen packets.
\<close>

lemma group_data_call:
  assumes "get_payload q = h # sealed" and "3 \<le> length sealed" and "group_packet_hash c q = Inr hx"
    and "get_channel_candidates_by_hash c h (cp_channels cp) = Inr cands"
    and "check_and_add (cp_seen_group_packets cp) now hx = (cache, seen)"
  shows "seen \<Longrightarrow> \<exists>cp'. handle_group_data_packet c now q cp = (cp', Inr [])"
    and "\<not> seen \<Longrightarrow> first_opening c sealed cands = Some (i, plain) \<Longrightarrow> 3 + unat (plain ! 2) \<le> length plain
      \<Longrightarrow> le_int (take 2 plain) \<noteq> 0 \<Longrightarrow>
      \<exists>hs queued. handle_group_data_packet c now q cp =
        (let msg = group_data_message q i (le_int (take 2 plain)) (take (unat (plain ! 2)) (drop 3 plain))
         in (fst (enqueue msg (cp\<lparr>cp_seen_group_packets := cache\<rparr>)), Inr [ChannelDataEvent msg hs queued]))"
proof -
  from assms(3) obtain hb where hb: "calculate_packet_hash (cr_sha256 c) q = Inr hb"
    by (auto simp: group_packet_hash_def res_simps)
  show "\<exists>cp'. handle_group_data_packet c now q cp = (cp', Inr [])" if seen
    using that assms hb
    by (cases "first_opening c sealed cands")
      (auto simp: handle_group_data_packet_def check_and_track_group_packet_def Let_def)
  show "\<exists>hs queued. handle_group_data_packet c now q cp =
        (let msg = group_data_message q i (le_int (take 2 plain)) (take (unat (plain ! 2)) (drop 3 plain))
         in (fst (enqueue msg (cp\<lparr>cp_seen_group_packets := cache\<rparr>)), Inr [ChannelDataEvent msg hs queued]))"
    if "\<not> seen" "first_opening c sealed cands = Some (i, plain)" "3 + unat (plain ! 2) \<le> length plain" "le_int (take 2 plain) \<noteq> 0"
    using that assms hb
    by (auto simp: handle_group_data_packet_def check_and_track_group_packet_def Let_def split: prod.split)
qed

lemma send_channel_data_sent:
  assumes "send_channel_data c u t0 send ia ty payload None None a = (a', [pkt], Inr ok)"
    and "ChannelStore_get ia (cp_channels a) = Inr (Some ch)"
  obtains hx where "0 < ty" and "ty < 2 ^ 16" and "length payload \<le> 165"
    and "channel_data_packet c u ch ty payload None None a = Inr pkt" and "group_packet_hash c pkt = Inr hx"
    and "cp_channels a' = cp_channels a" and "cp_seen_group_packets a' = fst (check_and_add (cp_seen_group_packets a) t0 hx)"
  using assms
  by (auto simp: send_channel_data_def check_and_track_group_packet_def record_send_def Let_def MAX_GROUP_DATA_LENGTH_def
      split: if_splits sum.splits prod.splits)

lemma group_hash_of_payload:
  assumes "get_payload q = get_payload p" and "get_payload_type q = PAYLOAD_TYPE_GRP_DATA" and "get_payload_type p = PAYLOAD_TYPE_GRP_DATA"
  shows "group_packet_hash c q = group_packet_hash c p"
  using assms by (simp add: group_packet_hash_def calculate_packet_hash_def get_payload_def
      PacketHashingUtils_calculate_packet_hash_def hash_input_def payload_type_defs)

text \<open>
  A packet whose hash the companion tracked at \<open>t0\<close> gives no event while the entry lives.
\<close>

lemma tracked_group_data_silent:
  assumes "crypto_laws c" and "channel_store_ok (cp_channels cp)"
    and "get_payload q = h # sealed" and "3 \<le> length sealed" and "group_packet_hash c q = Inr hx"
    and "cache_ok clock cache" and "clock \<le> t0" and "cp_seen_group_packets cp = fst (check_and_add cache t0 hx)"
    and "t0 \<le> now" and "now - t0 \<le> hc_ttl_seconds cache"
  shows "\<exists>cp'. handle_group_data_packet c now q cp = (cp', Inr [])"
proof -
  note hit = cache_hit_iff [OF assms(6,7), of hx]
  have "snd (check_and_add (cp_seen_group_packets cp) now hx)"
    using cache_hit_iff [of t0 "cp_seen_group_packets cp" now hx] hit assms(8-10) by (auto simp: check_and_add_def Let_def)
  then show ?thesis
    using group_data_call(1) [OF assms(3-5) candidates_eq [OF assms(1,2)]] by (metis prod.collapse)
qed

text \<open>
  C16: Group data sent on a channel reaches the application of every holder of the channel once. If
  \<open>send_channel_data\<close> hands a packet to the radio, a companion that stores the channel's secret at
  index \<open>ib\<close>, with no earlier channel of the same hash byte, and that has not tracked the packet's hash,
  answers any packet with that payload, however it was routed, by exactly one event, with index
  \<open>ib\<close>, the data type and the payload bytes that were sent. Within the time-to-live of the cache
  of seen packets a further copy gives no event there, and no copy gives one at the sender,
  whatever the radio reported.
\<close>

theorem channel_data_delivered_once:
  assumes "crypto_laws c" and "channel_store_ok (cp_channels a)" and "channel_store_ok (cp_channels b)"
    and "ChannelStore_get ia (cp_channels a) = Inr (Some cha)"
    and "send_channel_data c u t0 send ia ty payload None None a = (a', [pkt], Inr ok)"
    and "ib < length (chs_channels (cp_channels b))" and "chs_channels (cp_channels b) ! ib = Some chb"
    and "normalize_channel_secret (ch_secret chb) = normalize_channel_secret (ch_secret cha)"
    and "\<forall>j < ib. \<forall>ch. chs_channels (cp_channels b) ! j = Some ch \<longrightarrow> channel_hash_of c ch \<noteq> channel_hash_of c chb"
    and "group_packet_hash c pkt = Inr hx" and "map_of (hc_entries (cp_seen_group_packets b)) hx = None"
    and "cache_ok ca (cp_seen_group_packets a)" and "ca \<le> t0" and "cache_ok cb (cp_seen_group_packets b)" and "cb \<le> t1"
    and "get_payload q = get_payload pkt" and "get_payload_type q = PAYLOAD_TYPE_GRP_DATA"
    and "get_payload q' = get_payload pkt" and "get_payload_type q' = PAYLOAD_TYPE_GRP_DATA"
    and "t1 \<le> t2" and "t2 - t1 \<le> hc_ttl_seconds (cp_seen_group_packets b)"
    and "t0 \<le> t3" and "t3 - t0 \<le> hc_ttl_seconds (cp_seen_group_packets a)"
  shows "\<exists>b' hs queued. handle_group_data_packet c t1 q b
        = (b', Inr [ChannelDataEvent (group_data_message q (int ib) ty payload) hs queued])
      \<and> (\<exists>b''. handle_group_data_packet c t2 q' b' = (b'', Inr []))
      \<and> (\<exists>a''. handle_group_data_packet c t3 q' a' = (a'', Inr []))"
proof -
  obtain hx' where ty: "0 < ty" "ty < 2 ^ 16" "length payload \<le> 165"
    and pk: "channel_data_packet c u cha ty payload None None a = Inr pkt" and "group_packet_hash c pkt = Inr hx'"
    and a': "cp_channels a' = cp_channels a" "cp_seen_group_packets a' = fst (check_and_add (cp_seen_group_packets a) t0 hx')"
    by (rule send_channel_data_sent [OF assms(5,4)])
  with assms(10) have hx': "hx' = hx" by simp
  obtain sealed plain where o: "get_payload pkt = channel_hash_of c cha # sealed" "get_payload_type pkt = PAYLOAD_TYPE_GRP_DATA" "3 \<le> length sealed"
    "mac_then_decrypt c (take 16 (normalize_channel_secret (ch_secret cha))) (normalize_channel_secret (ch_secret cha)) sealed = Inr plain"
    "take 2 plain = le_bytes 2 ty" "plain ! 2 = word_of_int (int (length payload))"
    "take (length payload) (drop 3 plain) = payload" "3 + length payload \<le> length plain"
    by (rule channel_data_packet_opens [OF assms(1) ty pk])
  have hash: "group_packet_hash c q = Inr hx" "group_packet_hash c q' = Inr hx"
    using group_hash_of_payload [OF assms(16,17) o(2)] group_hash_of_payload [OF assms(18,19) o(2)] assms(10) by simp_all
  have same: "channel_hash_of c chb = channel_hash_of c cha"
    using assms(8) by (simp add: channel_hash_of_def channel_hash_input_def)
  obtain rest where cands: "get_channel_candidates_by_hash c (channel_hash_of c cha) (cp_channels b) = Inr ((int ib, chb) # rest)"
    using candidates_first [OF assms(1,3,6,7,9)] same by auto
  have len: "unat (plain ! 2) = length payload" using o(6) ty(3) by (simp add: unat_of_nat)
  have tyv: "le_int (take 2 plain) = ty" using o(5) ty by (simp add: le_int_le_bytes del: le_bytes.simps)
  have new: "check_and_add (cp_seen_group_packets b) t1 hx = (fst (check_and_add (cp_seen_group_packets b) t1 hx), False)"
    using cache_hit_iff [OF assms(14,15), of hx] assms(11) by (simp add: prod_eq_iff)
  obtain hs queued b' where b': "handle_group_data_packet c t1 q b
      = (b', Inr [ChannelDataEvent (group_data_message q (int ib) ty payload) hs queued])"
    "b' = fst (enqueue (group_data_message q (int ib) ty payload)
       (b\<lparr>cp_seen_group_packets := fst (check_and_add (cp_seen_group_packets b) t1 hx)\<rparr>))"
    using group_data_call(2) [OF trans [OF assms(16) o(1)] o(3) hash(1) cands new, of "int ib" plain] o(4,7,8) assms(8) len tyv ty(1)
    by (auto simp: Let_def)
  have "cp_channels b' = cp_channels b"
    "cp_seen_group_packets b' = fst (check_and_add (cp_seen_group_packets b) t1 hx)"
    unfolding b'(2) by (simp_all add: enqueue_def split: prod.split)
  with b'(1) tracked_group_data_silent [OF assms(1) _ trans [OF assms(18) o(1)] o(3) hash(2) assms(14,15) _ assms(20,21), of b']
    tracked_group_data_silent [OF assms(1) _ trans [OF assms(18) o(1)] o(3) hash(2) assms(12,13) _ assms(22,23), of a']
    a' hx' assms(2,3) show ?thesis by auto
qed

definition toy_holder :: "nat \<Rightarrow> channel option list \<Rightarrow> unit companion" where
  "toy_holder n chs = (init_companion_stores (toy_node (of_nat n)) [] 1 10 2 5 None None None 0)
     \<lparr>cp_channels := \<lparr>chs_channels = chs, chs_max_channels = 2\<rparr>\<rparr>"

definition toy_ops :: channel where
  "toy_ops = \<lparr>ch_name = str ''ops'', ch_secret = replicate 16 7\<rparr>"

theorem channel_data_delivered_once_witness:
  "\<exists>a' pkt b' msg hs queued b'' a''.
     send_channel_data toy_crypto toy_unicode 5 (\<lambda>_. Inr True) 1 9 [1, 2, 3] None None (toy_holder 1 [None, Some toy_ops]) = (a', [pkt], Inr True)
     \<and> handle_group_data_packet toy_crypto 6 pkt (toy_holder 2 [Some toy_ops, None]) = (b', Inr [ChannelDataEvent msg hs queued])
     \<and> qm_channel_idx msg = 0 \<and> qm_channel_data_type msg = 9 \<and> qm_channel_data_payload msg = [1, 2, 3]
     \<and> handle_group_data_packet toy_crypto 7 pkt b' = (b'', Inr []) \<and> handle_group_data_packet toy_crypto 8 pkt a' = (a'', Inr [])"
proof -
  let ?a = "toy_holder 1 [None, Some toy_ops]"
  let ?b = "toy_holder 2 [Some toy_ops, None]"
  have "case send_channel_data toy_crypto toy_unicode 5 (\<lambda>_. Inr True) 1 9 [1, 2, 3] None None ?a of
      (a', [pkt], Inr ok) \<Rightarrow> ok \<and> get_payload_type pkt = PAYLOAD_TYPE_GRP_DATA
        \<and> (case group_packet_hash toy_crypto pkt of Inr _ \<Rightarrow> True | _ \<Rightarrow> False) | _ \<Rightarrow> False" by code_simp
  then obtain a' pkt hx where s: "send_channel_data toy_crypto toy_unicode 5 (\<lambda>_. Inr True) 1 9 [1, 2, 3] None None ?a = (a', [pkt], Inr True)"
    and q: "get_payload_type pkt = PAYLOAD_TYPE_GRP_DATA" and h: "group_packet_hash toy_crypto pkt = Inr hx"
    by (auto split: prod.splits list.splits sum.splits)
  have st: "channel_store_ok (cp_channels ?a)" "channel_store_ok (cp_channels ?b)" "ChannelStore_get 1 (cp_channels ?a) = Inr (Some toy_ops)"
    by (simp_all add: toy_holder_def channel_store_ok_def ChannelStore_get_def index_res_def)
  have cache: "cache_ok 0 (cp_seen_group_packets ?a)" "cache_ok 0 (cp_seen_group_packets ?b)"
    "map_of (hc_entries (cp_seen_group_packets ?b)) hx = None"
    "3 \<le> hc_ttl_seconds (cp_seen_group_packets ?a)" "1 \<le> hc_ttl_seconds (cp_seen_group_packets ?b)"
    by (simp_all add: toy_holder_def init_companion_stores_def cache_ok_def Let_def)
  from channel_data_delivered_once [OF toy_crypto_laws st s _ _ refl _ h cache(3,1) _ cache(2) _ refl q refl q,
      of 0 6 7 8] cache(4,5)
  obtain b' hs queued b'' a'' where "handle_group_data_packet toy_crypto 6 pkt ?b
      = (b', Inr [ChannelDataEvent (group_data_message pkt 0 9 [1, 2, 3]) hs queued])"
    "handle_group_data_packet toy_crypto 7 pkt b' = (b'', Inr [])" "handle_group_data_packet toy_crypto 8 pkt a' = (a'', Inr [])"
    by (auto simp: toy_holder_def)
  with s show ?thesis by (intro exI conjI) (assumption | simp add: group_data_message_def)+
qed

end
