(* ===== verification/Spec2Isabelle.thy ===== *)
theory Spec2Isabelle
  imports Region_Map Packet_Filter Message_Queue Path_Cache Channel_Store Advert_Handler Forwarding
    Tx_Budget Ack_Tracking Dispatcher Text_Handler Group_Text_Handler Trace_Handler Control_Handler
    Kiss_Serial Kiss_Modem_Link Session Discovery Companion_Send
begin

text \<open>
  A verification library for openhop_core, a Python implementation of the MeshCore LoRa mesh
  protocol. All paths below are relative to \<open>src/src/openhop_core/\<close>.

  \<^bold>\<open>The program.\<close> A node owns a radio and a \<open>Dispatcher\<close>. A received frame is checked
  against a blacklist of malformed frames, parsed into a \<open>Packet\<close>, matched to a region, held
  for a score-dependent delay when it is a flood, dropped when it was seen before, and handed to
  the handler of its payload type; the node then forwards it when it repeats for others. A packet
  that the node originates is made by \<open>PacketBuilder\<close>, gets a region scope and a path hash
  width, waits for the airtime budget, is serialised and transmitted, and possibly waits for an
  ACK. The radio may sit behind a serial line that speaks KISS. A node that serves others answers
  requests, logins and anonymous discovery requests; its peers keep waiters for the answers and
  teach each other routes. On top of the node a companion application keeps contacts, channels,
  advert paths, offline messages and statistics, and sends messages and requests with retries.

  \<^bold>\<open>Representation.\<close> A Python int is an \<open>int\<close>, a byte string a list of 8-bit words, a
  \<open>str\<close> the list of its code points, a float a \<open>real\<close> (rounding is modelled only where a float
  is packed into single precision), a dict an association list in insertion order, an object a
  record that an operation returns updated. An exception is a value \<open>Inl e\<close> of \<open>'a res\<close>; an
  operation that mutates before it raises returns the mutated state next to the result. \<open>async\<close>
  code and worker threads are sequences of steps: what happens between two awaits, or in one turn
  of a worker, is one step, and delays that the code sleeps are values of the model. Callbacks,
  published events and packets handed to a transport are returned as lists of effects. The clock,
  random bytes and what happens outside during a wait are arguments.

  \<^bold>\<open>Termination.\<close> Most loops are structural recursions over the data they traverse. The others
  (\<open>cipher_blocks\<close>, \<open>utf8_decode\<close>, \<open>send_admission\<close>, \<open>kiss_bulk\<close>, \<open>prepare_for_tx_lbt\<close>,
  \<open>decode_cayenne_lpp\<close>, \<open>acl_entries\<close>) are functions with a termination proof. No function has
  fuel, and every definition is total.

  \<^bold>\<open>Theories: packets, keys and the node.\<close>
  \<^item> \<open>Prelude\<close> has results, byte strings, slices, \<open>struct.pack\<close> and dicts; \<open>Utf8\<close> the text
    codec; \<open>Interfaces\<close> the contracts of codecs, bounded stores and seen tables.
  \<^item> \<open>Constants\<close>, \<open>Packet_Utils\<close>, \<open>Packet\<close>, \<open>Protocol_Utils\<close>: \<open>protocol/constants.py\<close>,
    \<open>packet_utils.py\<close>, \<open>packet.py\<close>, \<open>utils.py\<close>. Packets survive the wire, whatever parses is
    serialised back to the same bytes, adverts read back, and the two ways to name a channel
    agree.
  \<^item> \<open>Crypto\<close>, \<open>Identity\<close>, \<open>Transport_Keys\<close>, \<open>Region_Map\<close>: the envelope of encrypted payloads,
    key derivation and the shared secret of two nodes, transport codes, regions and the scope of
    a reply, which goes back under the region of its request. The primitives of hashlib, hmac,
    pycryptodome and libsodium are parameters (the record \<open>crypto\<close>) with their documented laws as
    hypotheses; every theorem under those laws is instantiated on the concrete \<open>toy_crypto\<close>.
  \<^item> \<open>Packet_Filter\<close>, \<open>Tx_Budget\<close>, \<open>Ack_Tracking\<close>, \<open>Forwarding\<close>, \<open>Dispatcher\<close>:
    \<open>protocol/packet_filter.py\<close> and the parts of \<open>node/dispatcher.py\<close>, with the ACK and
    multipart handlers. A packet reaches its handler once per deduplication window, a node
    ignores the echo of its own packet, transmitted airtime stays within the duty cycle and a
    throttled sender is eventually admitted, an ACK wakes every sender that waits for it, and a
    direct packet visits exactly the nodes of its path.
  \<^item> \<open>Packet_Builder\<close>: \<open>protocol/packet_builder.py\<close>, every packet that a node originates, and
    which of them the receiver can open.

  \<^bold>\<open>Theories: handlers.\<close>
  \<^item> \<open>Advert_Handler\<close>, \<open>Text_Handler\<close>, \<open>Group_Text_Handler\<close>, \<open>Trace_Handler\<close>,
    \<open>Control_Handler\<close>: handlers of \<open>node/handlers/\<close>, each with the exchange between two
    nodes that it serves: a message is delivered, its ACK recognised by the sender, a group
    message shown once, a trace completed at the last node of its route.
  \<^item> \<open>Reply_Packets\<close>, \<open>Request_Handler\<close>, \<open>Login_Server\<close>, \<open>Anon_Request\<close>: the server side,
    \<open>node/handlers/protocol_request.py\<close>, \<open>login_server.py\<close>, \<open>anon_request.py\<close> and the replies
    they share. A replayed request is consumed without effect, and discovery replies are limited
    in rate. The application's request functions and login decision are parameters.
  \<^item> \<open>Response_Handler\<close>, \<open>Login_Response\<close>, \<open>Return_Path\<close>, \<open>Telemetry\<close>: the client side,
    \<open>node/handlers/protocol_response.py\<close>, \<open>login_response.py\<close>, \<open>return_path.py\<close> and
    \<open>protocol/cayenne_lpp.py\<close>. A taught route is the best one heard; sensor readings survive
    encoding up to the resolution of their field.
  \<^item> \<open>Session\<close>, \<open>Discovery\<close>: both sides together. A request is answered and exactly its waiter is
    called, a login completes with the granted permissions, and a client reads the region names
    of a server.

  \<^bold>\<open>Theories: radios on a serial line.\<close>
  \<^item> \<open>Kiss_Framing\<close>: the encoder and the two decoders that \<open>hardware/kiss_serial_wrapper.py\<close> and
    \<open>hardware/kiss_modem_wrapper.py\<close> share, over a locale of frame processors.
  \<^item> \<open>Kiss_Serial\<close>: the wrapper of a KISS TNC. Frames arrive once, in order and unchanged however
    the stream is cut; the bulk decoder agrees with the decoder of single bytes.
  \<^item> \<open>Kiss_Modem\<close>, \<open>Kiss_Modem_Link\<close>: the wrapper of a MeshCore modem and its dialogue with the
    modem. Commands return their answer, a transmission is reported as sent exactly when it is
    confirmed, received packets are paired with their signal reports or handed on when the wait
    for a report is over, and listen before talk ends.

  \<^bold>\<open>Theories: the companion.\<close>
  \<^item> \<open>Contact_Store\<close>, \<open>Channel_Store\<close>, \<open>Message_Queue\<close>, \<open>Path_Cache\<close>: the stores of
    \<open>companion/\<close>, with their capacities and what they evict; \<open>Channel_Store\<close> also has the packet counters.
  \<^item> \<open>Companion_Parsing\<close>, \<open>Companion_Base\<close>, \<open>Companion_Contacts\<close>, \<open>Companion_Messages\<close>,
    \<open>Companion_Send\<close>: \<open>companion/binary_parsing.py\<close>, \<open>timing.py\<close>, \<open>companion_base.py\<close>,
    \<open>base_config.py\<close>, \<open>base_support.py\<close>, \<open>base_contacts.py\<close>, \<open>base_events.py\<close>,
    \<open>base_callbacks.py\<close> and \<open>base_send.py\<close>. An acknowledgement confirms
    a message once, configuration keeps the state well typed, adverts cannot take over stored
    contacts, group data is delivered once, and a request with retries sends at most three packets
    and leaves no waiter behind. The transport is a parameter.

  \<^bold>\<open>Not modelled.\<close> Drivers of the radio chips, GPIO, SPI and USB access are register and
  file I/O. Opening, identifying and reopening serial ports, the radios behind a socket or a USB
  modem, logging, and the publication of events to subscribers do not feed back into the
  decisions modelled here. The companion's frame server, the two shells that connect the
  companion to a node or a host (\<open>companion_bridge.py\<close>, \<open>companion_radio.py\<close>), the
  simulated radio medium \<open>rf_fabric\<close> and the test vectors of \<open>acl_conformance.py\<close> are not
  translated.
\<close>

end
